(* ===== verification/Prelude.thy ===== *)
theory Prelude
  imports Main "HOL-Library.Word"
begin

text \<open>
  Shared vocabulary of the development: Python exceptions as values, the result type and
  its sequencing, bytes, the little-endian integer layouts of Python's \<^verbatim>\<open>struct\<close> module
  (\<^verbatim>\<open>B\<close>, \<^verbatim>\<open><H\<close>, \<^verbatim>\<open><I\<close>), Python slices, and the generic lemmas on them.  The interface
  \<open>codec\<close> states what a fixed-width encoder and its decoder promise each other; it is
  interpreted for the three integer layouts here and for the float32 layout in the theory
  of floats.
\<close>

unbundle bit_operations_syntax

named_theorems res_simps \<open>unfolding of result sequencing\<close>
named_theorems byte_simps \<open>lengths and round trips of byte layouts\<close>

type_synonym byte = "8 word"
type_synonym bytes = "byte list"

section \<open>Exceptions and results\<close>

text \<open>The exception classes the modelled code raises or catches.\<close>

datatype py_error =
    StructError
  | ConnectionError
  | AckTimeout
  | ValueError
  | TypeError
  | VolInvalid
  | OverflowError
  | ZeroDivisionError
  | KeyError
  | IndexError
  | BrewStartUnconfirmed string
  | HomeAssistantError
  | BleakError
  | AttributeError

type_synonym 'a res = "py_error + 'a"

definition bind_res :: "'a res \<Rightarrow> ('a \<Rightarrow> 'b res) \<Rightarrow> 'b res" where
  "bind_res r f = (case r of Inl e \<Rightarrow> Inl e | Inr x \<Rightarrow> f x)"

lemma bind_res_simps [simp, res_simps]:
  "bind_res (Inl e) f = Inl e"
  "bind_res (Inr x) f = f x"
  by (simp_all add: bind_res_def)

lemma bind_res_Inr_iff: "bind_res r f = Inr y \<longleftrightarrow> (\<exists>x. r = Inr x \<and> f x = Inr y)"
  by (cases r) auto

lemma bind_res_Inl_iff:
  "bind_res r f = Inl e \<longleftrightarrow> r = Inl e \<or> (\<exists>x. r = Inr x \<and> f x = Inl e)"
  by (cases r) auto

definition is_ok :: "'a res \<Rightarrow> bool" where
  "is_ok r = (case r of Inl _ \<Rightarrow> False | Inr _ \<Rightarrow> True)"

lemma is_ok_simps [simp]: "is_ok (Inr x)" "\<not> is_ok (Inl e)"
  by (simp_all add: is_ok_def)

lemma is_ok_iff: "is_ok r \<longleftrightarrow> (\<exists>x. r = Inr x)"
  by (cases r) auto

lemma is_ok_bind: "is_ok (bind_res r f) \<longleftrightarrow> (\<exists>x. r = Inr x \<and> is_ok (f x))"
  by (cases r) auto

lemma is_okE: "is_ok r \<Longrightarrow> (\<And>x. r = Inr x \<Longrightarrow> P) \<Longrightarrow> P"
  by (cases r) auto

text \<open>\<^verbatim>\<open>[f(x) for x in xs]\<close>: the first exception ends the comprehension.\<close>

fun map_res :: "('a \<Rightarrow> 'b res) \<Rightarrow> 'a list \<Rightarrow> 'b list res" where
  "map_res f [] = Inr []"
| "map_res f (x # xs) =
     bind_res (f x) (\<lambda>y. bind_res (map_res f xs) (\<lambda>ys. Inr (y # ys)))"

lemma map_res_append:
  "map_res f (xs @ ys) =
     bind_res (map_res f xs) (\<lambda>us. bind_res (map_res f ys) (\<lambda>vs. Inr (us @ vs)))"
  by (induction xs) (auto simp: bind_res_def split: sum.splits)

lemma map_res_ok:
  assumes "\<And>x. x \<in> set xs \<Longrightarrow> f x = Inr (g x)"
  shows "map_res f xs = Inr (map g xs)"
  using assms by (induction xs) auto

lemma map_res_Inr_length: "map_res f xs = Inr ys \<Longrightarrow> length ys = length xs"
  by (induction xs arbitrary: ys) (auto simp: bind_res_Inr_iff)

section \<open>Slices\<close>

text \<open>\<^verbatim>\<open>xs[i:j]\<close> for non-negative bounds: Python clips both ends.\<close>

definition slice :: "nat \<Rightarrow> nat \<Rightarrow> 'a list \<Rightarrow> 'a list" where
  "slice i j xs = take (j - i) (drop i xs)"

lemma length_slice [simp]: "length (slice i j xs) = min (j - i) (length xs - i)"
  by (simp add: slice_def)

lemma slice_append_left:
  "j \<le> length xs \<Longrightarrow> slice i j (xs @ ys) = slice i j xs"
  by (auto simp: slice_def)

lemma slice_append_right:
  "length xs \<le> i \<Longrightarrow> slice i j (xs @ ys) = slice (i - length xs) (j - length xs) ys"
  by (auto simp: slice_def)

lemma slice_all [simp]: "slice 0 (length xs) xs = xs"
  by (simp add: slice_def)

lemma slice_shift: "slice (length xs + i) (length xs + j) (xs @ ys) = slice i j ys"
  by (simp add: slice_def)

lemma drop_add_slice: "i \<le> j \<Longrightarrow> slice i j xs @ drop j xs = drop i xs"
proof -
  assume "i \<le> j"
  then have "drop j xs = drop (j - i) (drop i xs)" by simp
  then show ?thesis by (simp only: slice_def append_take_drop_id)
qed

section \<open>Little-endian integers\<close>

primrec le_bytes :: "nat \<Rightarrow> nat \<Rightarrow> bytes" where
  "le_bytes 0 v = []"
| "le_bytes (Suc n) v = word_of_nat v # le_bytes n (v div 256)"

primrec le_val :: "bytes \<Rightarrow> nat" where
  "le_val [] = 0"
| "le_val (b # bs) = unat b + 256 * le_val bs"

lemma length_le_bytes [simp, byte_simps]: "length (le_bytes n v) = n"
  by (induction n arbitrary: v) auto

lemma byte_unat_lt [simp]: "unat (b :: byte) < 256"
  using unsigned_less [of b] by simp

lemma byte_of_nat_unat [simp]: "unat (word_of_nat v :: byte) = v mod 256"
  by (simp add: unsigned_of_nat take_bit_eq_mod)

lemma le_val_bound: "le_val bs < 256 ^ length bs"
proof (induction bs)
  case (Cons b bs)
  have "unat b + 256 * le_val bs < 256 * (le_val bs + 1)" using byte_unat_lt [of b] by (simp add: algebra_simps)
  also have "\<dots> \<le> 256 * 256 ^ length bs" using Cons by (intro mult_le_mono) auto
  finally show ?case by simp
qed simp

lemma le_val_le_bytes [byte_simps]: "le_val (le_bytes n v) = v mod 256 ^ n"
proof (induction n arbitrary: v)
  case (Suc n)
  show ?case by (simp add: Suc mod_mult2_eq)
qed simp

lemma le_bytes_le_val [byte_simps]: "le_bytes (length bs) (le_val bs) = bs"
proof (induction bs)
  case (Cons b bs)
  have "unat b div 256 = 0" by simp
  then have "(unat b + 256 * le_val bs) div 256 = le_val bs" by simp
  moreover have "unat (word_of_nat (unat b + 256 * le_val bs) :: byte) = unat b"
    by (simp only: byte_of_nat_unat) simp
  then have "(word_of_nat (unat b + 256 * le_val bs) :: byte) = b"
    by (simp only: word_unat_eq_iff)
  ultimately show ?case using Cons by simp
qed simp

section \<open>The integer layouts of \<^verbatim>\<open>struct\<close>\<close>

text \<open>
  \<^verbatim>\<open>struct.pack\<close> raises \<^verbatim>\<open>struct.error\<close> for a value outside the layout's range, and
  \<^verbatim>\<open>struct.unpack\<close> raises it unless the buffer has exactly the layout's width.
\<close>

definition pack_le :: "nat \<Rightarrow> int \<Rightarrow> bytes res" where
  "pack_le n v = (if 0 \<le> v \<and> v < 256 ^ n then Inr (le_bytes n (nat v)) else Inl StructError)"

definition unpack_le :: "nat \<Rightarrow> bytes \<Rightarrow> int res" where
  "unpack_le n bs = (if length bs = n then Inr (int (le_val bs)) else Inl StructError)"

definition pack_B :: "int \<Rightarrow> bytes res" where "pack_B = pack_le 1"
definition pack_H :: "int \<Rightarrow> bytes res" where "pack_H = pack_le 2"
definition pack_I :: "int \<Rightarrow> bytes res" where "pack_I = pack_le 4"
definition unpack_B :: "bytes \<Rightarrow> int res" where "unpack_B = unpack_le 1"
definition unpack_H :: "bytes \<Rightarrow> int res" where "unpack_H = unpack_le 2"
definition unpack_I :: "bytes \<Rightarrow> int res" where "unpack_I = unpack_le 4"

text \<open>\<^verbatim>\<open>struct.pack("BBBB", a, b, c, d)\<close>.\<close>

definition pack_BBBB :: "int \<Rightarrow> int \<Rightarrow> int \<Rightarrow> int \<Rightarrow> bytes res" where
  "pack_BBBB a b c d =
     bind_res (pack_B a) (\<lambda>p. bind_res (pack_B b) (\<lambda>q.
     bind_res (pack_B c) (\<lambda>r. bind_res (pack_B d) (\<lambda>s. Inr (p @ q @ r @ s)))))"

definition pack_BB :: "int \<Rightarrow> int \<Rightarrow> bytes res" where
  "pack_BB a b = bind_res (pack_B a) (\<lambda>p. bind_res (pack_B b) (\<lambda>q. Inr (p @ q)))"

section \<open>The interface of a fixed-width layout\<close>

locale codec =
  fixes pack :: "'a \<Rightarrow> bytes res"
    and unpack :: "bytes \<Rightarrow> 'a res"
    and width :: nat
    and fits :: "'a \<Rightarrow> bool"
  assumes pack_fits: "fits v \<Longrightarrow> is_ok (pack v)"
    and pack_width: "pack v = Inr bs \<Longrightarrow> length bs = width"
    and unpack_pack: "fits v \<Longrightarrow> pack v = Inr bs \<Longrightarrow> unpack bs = Inr v"
    and unpack_width: "length bs \<noteq> width \<Longrightarrow> unpack bs = Inl StructError"
begin

lemma pack_inj:
  assumes "fits u" "fits v" "pack u = pack v"
  shows "u = v"
proof -
  obtain bs where bs: "pack v = Inr bs" using pack_fits [OF \<open>fits v\<close>] by (auto elim: is_okE)
  have "Inr u = (Inr v :: 'a res)"
    using unpack_pack [OF assms(2) bs] unpack_pack [OF assms(1)] assms(3) bs by simp
  then show ?thesis by simp
qed

lemma pack_all_length: "map_res pack vs = Inr bss \<Longrightarrow> length (concat bss) = width * length vs"
  by (induction vs arbitrary: bss) (auto simp: bind_res_Inr_iff pack_width)

lemma pack_all_ok: "list_all fits vs \<Longrightarrow> is_ok (map_res pack vs)"
proof (induction vs)
  case (Cons v vs)
  then obtain as where as: "map_res pack vs = Inr as" by (auto elim!: is_okE)
  obtain a where "pack v = Inr a" using Cons.prems pack_fits [of v] by (auto elim: is_okE)
  with as show ?case by simp
qed simp

text \<open>The i-th field of a packed sequence reads back as the i-th value.\<close>

lemma unpack_field:
  assumes "map_res pack vs = Inr bss" "list_all fits vs" "i < length vs"
  shows "unpack (slice (width * i) (width * i + width) (concat bss)) = Inr (vs ! i)"
  using assms
proof (induction vs arbitrary: bss i)
  case (Cons v vs)
  then obtain a as where a: "pack v = Inr a" and as: "map_res pack vs = Inr as"
    and bss: "bss = a # as" by (auto simp: bind_res_Inr_iff)
  have la: "length a = width" using a by (rule pack_width)
  show ?case
  proof (cases i)
    case 0
    have "slice 0 width (a @ concat as) = a" using la by (simp add: slice_def)
    then show ?thesis using 0 bss a unpack_pack Cons.prems(2) by simp
  next
    case (Suc j)
    have "slice (width * i) (width * i + width) (concat bss)
        = slice (width * j) (width * j + width) (concat as)"
      using slice_shift [of a "width * j" "width * j + width" "concat as"] la Suc bss
      by (simp add: algebra_simps)
    then show ?thesis using Cons.IH [OF as, of j] Cons.prems Suc by simp
  qed
qed simp

end

definition fits_le :: "nat \<Rightarrow> int \<Rightarrow> bool" where
  "fits_le n v \<longleftrightarrow> 0 \<le> v \<and> v < 256 ^ n"

lemma codec_le: "codec (pack_le n) (unpack_le n) n (fits_le n)"
proof
  fix v bs assume v: "fits_le n v" and p: "pack_le n v = Inr bs"
  have "nat v < 256 ^ n" using v by (simp add: fits_le_def nat_less_iff)
  then show "unpack_le n bs = Inr v"
    using v p by (auto simp: fits_le_def pack_le_def unpack_le_def le_val_le_bytes split: if_splits)
qed (auto simp: pack_le_def unpack_le_def fits_le_def split: if_splits)

interpretation u8: codec pack_B unpack_B 1 "fits_le 1"
  unfolding pack_B_def unpack_B_def by (rule codec_le)

interpretation u16: codec pack_H unpack_H 2 "fits_le 2"
  unfolding pack_H_def unpack_H_def by (rule codec_le)

interpretation u32: codec pack_I unpack_I 4 "fits_le 4"
  unfolding pack_I_def unpack_I_def by (rule codec_le)

lemma pack_B_ok: "0 \<le> v \<Longrightarrow> v < 256 \<Longrightarrow> pack_B v = Inr [word_of_int v]"
  by (simp add: pack_B_def pack_le_def)

lemma pack_B_bad: "v < 0 \<or> 255 < v \<Longrightarrow> pack_B v = Inl StructError"
  by (auto simp: pack_B_def pack_le_def)

lemma pack_H_ok: "0 \<le> v \<Longrightarrow> v < 65536 \<Longrightarrow> pack_H v = Inr (le_bytes 2 (nat v))"
  by (simp add: pack_H_def pack_le_def)

lemma pack_I_ok: "0 \<le> v \<Longrightarrow> v < 4294967296 \<Longrightarrow> pack_I v = Inr (le_bytes 4 (nat v))"
  by (simp add: pack_I_def pack_le_def)

lemma pack_BBBB_ok:
  assumes "0 \<le> a" "a < 256" "0 \<le> b" "b < 256" "0 \<le> c" "c < 256" "0 \<le> d" "d < 256"
  shows "pack_BBBB a b c d =
    Inr [word_of_int a, word_of_int b, word_of_int c, word_of_int d]"
  using assms by (simp add: pack_BBBB_def pack_B_ok)

lemma pack_BBBB_length: "pack_BBBB a b c d = Inr bs \<Longrightarrow> length bs = 4"
  by (auto simp: pack_BBBB_def bind_res_Inr_iff dest!: u8.pack_width)

lemma pack_BB_ok:
  assumes "0 \<le> a" "a < 256" "0 \<le> b" "b < 256"
  shows "pack_BB a b = Inr [word_of_int a, word_of_int b]"
  using assms by (simp add: pack_BB_def pack_B_ok)

section \<open>Small list facts\<close>

lemma list_all_concat: "list_all P (concat xss) \<longleftrightarrow> list_all (list_all P) xss"
  by (induction xss) auto

lemma map_of_Some_in_keys: "map_of kvs k = Some v \<Longrightarrow> k \<in> fst ` set kvs"
  by (metis map_of_eq_None_iff option.distinct(1))

section \<open>The interface of an invariant step\<close>

text \<open>
  What a component promises when one of its entry points is driven by a sequence of inputs:
  every step keeps the invariant.  Then so does every run.
\<close>

locale invariant_step =
  fixes step :: "'i \<Rightarrow> 's \<Rightarrow> 's"
    and inv :: "'s \<Rightarrow> bool"
  assumes step_inv: "inv s \<Longrightarrow> inv (step i s)"
begin

lemma run_inv: "inv s \<Longrightarrow> inv (fold step xs s)"
  by (induction xs arbitrary: s) (auto simp: step_inv)

lemma prefix_inv: "inv s \<Longrightarrow> inv (fold step (take n xs) s)"
  by (rule run_inv)

end

section \<open>Actions\<close>

text \<open>
  Code with effects is a function on a state that returns a result or raises, together with the
  state it leaves behind; an exception keeps the changes made before it.
\<close>

type_synonym ('s, 'a) act = "'s \<Rightarrow> 'a res \<times> 's"

definition return_co :: "'a \<Rightarrow> ('s, 'a) act" where "return_co x w = (Inr x, w)"
definition raise_co :: "py_error \<Rightarrow> ('s, 'a) act" where "raise_co e w = (Inl e, w)"

definition bind_co :: "('s, 'a) act \<Rightarrow> ('a \<Rightarrow> ('s, 'b) act) \<Rightarrow> ('s, 'b) act" where
  "bind_co m f w = (case m w of (Inl e, w') \<Rightarrow> (Inl e, w') | (Inr x, w') \<Rightarrow> f x w')"

definition then_co :: "('s, 'a) act \<Rightarrow> ('s, 'b) act \<Rightarrow> ('s, 'b) act" where
  "then_co m n = bind_co m (\<lambda>_. n)"

definition lift_res :: "'a res \<Rightarrow> ('s, 'a) act" where "lift_res r w = (r, w)"

text \<open>\<^verbatim>\<open>try: m except Exception: return h\<close>.\<close>

definition catch_co :: "('s, 'a) act \<Rightarrow> (py_error \<Rightarrow> ('s, 'a) act) \<Rightarrow> ('s, 'a) act" where
  "catch_co m h w = (case m w of (Inl e, w') \<Rightarrow> h e w' | (Inr x, w') \<Rightarrow> (Inr x, w'))"

lemma co_simps [simp]:
  "return_co x w = (Inr x, w)" "raise_co e w = (Inl e, w)" "lift_res r w = (r, w)"
  by (simp_all add: return_co_def raise_co_def lift_res_def)

lemma bind_co_eq:
  "bind_co m f w = (case fst (m w) of Inl e \<Rightarrow> (Inl e, snd (m w)) | Inr x \<Rightarrow> f x (snd (m w)))"
  by (cases "m w") (auto simp: bind_co_def split: sum.splits)

lemma bind_co_Inr:
  "bind_co m f w = (Inr y, w') \<longleftrightarrow> (\<exists>x v. m w = (Inr x, v) \<and> f x v = (Inr y, w'))"
  by (auto simp: bind_co_def split: prod.splits sum.splits)

lemma bind_co_run: "m w = (Inr x, v) \<Longrightarrow> bind_co m f w = f x v"
  by (simp add: bind_co_def)

lemma bind_co_err: "m w = (Inl e, v) \<Longrightarrow> bind_co m f w = (Inl e, v)"
  by (simp add: bind_co_def)

text \<open>
  What an action keeps: a relation between the state before and after it, however it ends.
  Reflexive and transitive relations are kept by composition.
\<close>

definition keeps :: "('s \<Rightarrow> 's \<Rightarrow> bool) \<Rightarrow> ('s, 'a) act \<Rightarrow> bool" where
  "keeps R m \<longleftrightarrow> (\<forall>w. R w (snd (m w)))"

lemma keepsD: "keeps R m \<Longrightarrow> m w = (r, w') \<Longrightarrow> R w w'"
  by (metis keeps_def snd_conv)

locale act_law =
  fixes R :: "'s \<Rightarrow> 's \<Rightarrow> bool"
  assumes R_refl: "R w w"
    and R_trans: "R w1 w2 \<Longrightarrow> R w2 w3 \<Longrightarrow> R w1 w3"
begin

lemma keeps_return: "keeps R (return_co x)" and keeps_raise: "keeps R (raise_co e)"
  and keeps_lift: "keeps R (lift_res r)"
  by (simp_all add: keeps_def R_refl)

lemma keeps_bind: "keeps R m \<Longrightarrow> (\<And>x. keeps R (f x)) \<Longrightarrow> keeps R (bind_co m f)"
  unfolding keeps_def bind_co_eq by (auto split: sum.splits intro: R_trans)

lemma keeps_then: "keeps R m \<Longrightarrow> keeps R n \<Longrightarrow> keeps R (then_co m n)"
  by (simp add: then_co_def keeps_bind)

lemma keeps_catch: "keeps R m \<Longrightarrow> (\<And>e. keeps R (h e)) \<Longrightarrow> keeps R (catch_co m h)"
  unfolding keeps_def catch_co_def by (auto split: prod.splits sum.splits intro: R_trans) (metis R_trans snd_conv)+

end

section \<open>Actions that succeed\<close>

text \<open>From a state in \<open>I\<close> the action returns, and in a state in \<open>I\<close>.\<close>

definition smooth :: "('s \<Rightarrow> bool) \<Rightarrow> ('s, 'a) act \<Rightarrow> bool" where
  "smooth I m \<longleftrightarrow> (\<forall>s. I s \<longrightarrow> is_ok (fst (m s)) \<and> I (snd (m s)))"

lemma smoothI: "(\<And>s. I s \<Longrightarrow> is_ok (fst (m s)) \<and> I (snd (m s))) \<Longrightarrow> smooth I m"
  by (simp add: smooth_def)

lemma smoothE:
  assumes "smooth I m" "I s"
  obtains x s' where "m s = (Inr x, s')" "I s'"
proof -
  have "is_ok (fst (m s))" "I (snd (m s))" using assms by (simp_all add: smooth_def)
  then show thesis using that by (cases "m s") (auto elim: is_okE)
qed

lemma smooth_return: "smooth I (return_co x)"
  by (simp add: smooth_def)

lemma smooth_pure: "smooth I (\<lambda>s. (Inr (f s), s))"
  by (simp add: smooth_def)

lemma smooth_bind: "smooth I m \<Longrightarrow> (\<And>x. smooth I (f x)) \<Longrightarrow> smooth I (bind_co m f)"
  by (rule smoothI, erule (1) smoothE) (simp add: bind_co_def smooth_def)

lemma smooth_then: "smooth I m \<Longrightarrow> smooth I n \<Longrightarrow> smooth I (then_co m n)"
  unfolding then_co_def by (rule smooth_bind)

lemma smooth_if: "smooth I m \<Longrightarrow> smooth I n \<Longrightarrow> smooth I (\<lambda>s. if P s then m s else n s)"
  by (simp add: smooth_def)

lemma smooth_if_const: "smooth I m \<Longrightarrow> smooth I n \<Longrightarrow> smooth I (if b then m else n)"
  by simp

end
