(* ===== verification/PyFloat.thy ===== *)
theory PyFloat
  imports Prelude Complex_Main "HOL-Library.Log_Nat"
begin

text \<open>
  Python floats.  A finite binary64 value is the rational number it denotes, and every
  arithmetic operation rounds its exact result to the nearest representable value, ties to
  even, as IEEE 754 and Python do; infinities and NaN are separate constructors (the two
  zeros are one value, so the sign of \<^verbatim>\<open>-0.0\<close> is not kept).  Also here: Python's \<^verbatim>\<open>int()\<close>,
  \<^verbatim>\<open>round()\<close> and \<^verbatim>\<open>math.ceil\<close> on floats and the binary32 layout \<^verbatim>\<open><f\<close> of \<^verbatim>\<open>struct\<close>.
  The lemmas give monotonicity, exactness on integers and the relative error of the rounding.
\<close>

section \<open>Rounding\<close>

definition floor_log2 :: "rat \<Rightarrow> int" where
  "floor_log2 x =
     (let (a, b) = quotient_of x; e = bitlen a - bitlen b
      in if 2 powi e \<le> x then e else e - 1)"

definition round_half_even :: "rat \<Rightarrow> int" where
  "round_half_even x =
     (let f = \<lfloor>x\<rfloor>; d = x - of_int f
      in if d < 1 / 2 then f else if 1 / 2 < d then f + 1 else if even f then f else f + 1)"

text \<open>
  \<open>round_to p emin x\<close>: nearest multiple of \<open>2 ^ e\<close>, where \<open>e\<close> leaves \<open>p\<close> significant
  bits but is never below \<open>emin\<close> (the spacing of the subnormals).
\<close>

definition quantum :: "nat \<Rightarrow> int \<Rightarrow> rat \<Rightarrow> int" where
  "quantum p emin x = max (floor_log2 \<bar>x\<bar> - (int p - 1)) emin"

definition round_to :: "nat \<Rightarrow> int \<Rightarrow> rat \<Rightarrow> rat" where
  "round_to p emin x =
     (if x = 0 then 0
      else of_int (round_half_even (x / 2 powi quantum p emin x)) * 2 powi quantum p emin x)"

definition round64 :: "rat \<Rightarrow> rat" where "round64 = round_to 53 (-1074)"
definition round32 :: "rat \<Rightarrow> rat" where "round32 = round_to 24 (-149)"

section \<open>Values and operations\<close>

datatype pyfloat = Fin rat | PInf | NInf | NaN

definition overflow64 :: "rat \<Rightarrow> pyfloat" where
  "overflow64 r = (if 2 powi 1024 \<le> r then PInf else if r \<le> - (2 powi 1024) then NInf else Fin r)"

definition to_double :: "rat \<Rightarrow> pyfloat" where
  "to_double x = overflow64 (round64 x)"

text \<open>\<^verbatim>\<open>float(n)\<close> of an int (\<^verbatim>\<open>OverflowError\<close> past the range, not an infinity).\<close>

definition float_of_int :: "int \<Rightarrow> pyfloat res" where
  "float_of_int n = (case to_double (of_int n) of Fin r \<Rightarrow> Inr (Fin r) | _ \<Rightarrow> Inl OverflowError)"

fun fmul :: "pyfloat \<Rightarrow> pyfloat \<Rightarrow> pyfloat" where
  "fmul (Fin x) (Fin y) = to_double (x * y)"
| "fmul (Fin x) PInf = (if x = 0 then NaN else if 0 < x then PInf else NInf)"
| "fmul (Fin x) NInf = (if x = 0 then NaN else if 0 < x then NInf else PInf)"
| "fmul PInf (Fin y) = (if y = 0 then NaN else if 0 < y then PInf else NInf)"
| "fmul NInf (Fin y) = (if y = 0 then NaN else if 0 < y then NInf else PInf)"
| "fmul PInf PInf = PInf"
| "fmul PInf NInf = NInf"
| "fmul NInf PInf = NInf"
| "fmul NInf NInf = PInf"
| "fmul _ _ = NaN"

fun fsub :: "pyfloat \<Rightarrow> pyfloat \<Rightarrow> pyfloat" where
  "fsub (Fin x) (Fin y) = to_double (x - y)"
| "fsub (Fin x) PInf = NInf"
| "fsub (Fin x) NInf = PInf"
| "fsub PInf (Fin y) = PInf"
| "fsub NInf (Fin y) = NInf"
| "fsub PInf NInf = PInf"
| "fsub NInf PInf = NInf"
| "fsub _ _ = NaN"

fun fadd :: "pyfloat \<Rightarrow> pyfloat \<Rightarrow> pyfloat" where
  "fadd (Fin x) (Fin y) = to_double (x + y)"
| "fadd (Fin x) PInf = PInf"
| "fadd (Fin x) NInf = NInf"
| "fadd PInf (Fin y) = PInf"
| "fadd NInf (Fin y) = NInf"
| "fadd PInf PInf = PInf"
| "fadd NInf NInf = NInf"
| "fadd _ _ = NaN"

text \<open>Python's true division raises on a zero divisor instead of giving an infinity.\<close>

fun fdiv :: "pyfloat \<Rightarrow> pyfloat \<Rightarrow> pyfloat res" where
  "fdiv x (Fin y) =
     (if y = 0 then Inl ZeroDivisionError
      else Inr (case x of
          Fin a \<Rightarrow> to_double (a / y)
        | PInf \<Rightarrow> (if 0 < y then PInf else NInf)
        | NInf \<Rightarrow> (if 0 < y then NInf else PInf)
        | NaN \<Rightarrow> NaN))"
| "fdiv (Fin x) NaN = Inr NaN"
| "fdiv (Fin x) _ = Inr (Fin 0)"
| "fdiv _ _ = Inr NaN"

fun fabs :: "pyfloat \<Rightarrow> pyfloat" where
  "fabs (Fin x) = Fin \<bar>x\<bar>"
| "fabs NInf = PInf"
| "fabs v = v"

text \<open>Comparisons: every comparison with NaN is false.\<close>

fun flt :: "pyfloat \<Rightarrow> pyfloat \<Rightarrow> bool" where
  "flt (Fin x) (Fin y) \<longleftrightarrow> x < y"
| "flt NInf NInf \<longleftrightarrow> False"
| "flt NInf NaN \<longleftrightarrow> False"
| "flt NInf _ \<longleftrightarrow> True"
| "flt (Fin _) PInf \<longleftrightarrow> True"
| "flt _ _ \<longleftrightarrow> False"

fun feq :: "pyfloat \<Rightarrow> pyfloat \<Rightarrow> bool" where
  "feq NaN _ \<longleftrightarrow> False"
| "feq x y \<longleftrightarrow> x = y"

definition fle :: "pyfloat \<Rightarrow> pyfloat \<Rightarrow> bool" where
  "fle x y \<longleftrightarrow> flt x y \<or> feq x y"

text \<open>Truth value of a float: only zero is false.\<close>

definition ftruthy :: "pyfloat \<Rightarrow> bool" where
  "ftruthy x \<longleftrightarrow> x \<noteq> Fin 0"

section \<open>Conversions to int\<close>

definition trunc_rat :: "rat \<Rightarrow> int" where
  "trunc_rat x = (if 0 \<le> x then \<lfloor>x\<rfloor> else \<lceil>x\<rceil>)"

fun int_of_float :: "pyfloat \<Rightarrow> int res" where
  "int_of_float (Fin x) = Inr (trunc_rat x)"
| "int_of_float NaN = Inl ValueError"
| "int_of_float _ = Inl OverflowError"

fun round_float :: "pyfloat \<Rightarrow> int res" where
  "round_float (Fin x) = Inr (round_half_even x)"
| "round_float NaN = Inl ValueError"
| "round_float _ = Inl OverflowError"

fun ceil_float :: "pyfloat \<Rightarrow> int res" where
  "ceil_float (Fin x) = Inr \<lceil>x\<rceil>"
| "ceil_float NaN = Inl ValueError"
| "ceil_float _ = Inl OverflowError"

section \<open>The binary32 layout\<close>

definition f32_of_bits :: "nat \<Rightarrow> pyfloat" where
  "f32_of_bits bits =
     (let s = (bits div 2 ^ 31) mod 2; e = (bits div 2 ^ 23) mod 256; m = bits mod 2 ^ 23;
          sg = (if s = 1 then -1 else 1 :: rat)
      in if e = 255 then (if m = 0 then (if s = 1 then NInf else PInf) else NaN)
         else if e = 0 then Fin (sg * of_nat m * 2 powi (-149))
         else Fin (sg * of_nat (2 ^ 23 + m) * 2 powi (int e - 150)))"

text \<open>
  \<^verbatim>\<open>struct.pack("<f", x)\<close>: rounds to binary32, \<^verbatim>\<open>OverflowError\<close> when the rounded value
  is out of range.
\<close>

definition bits_of_f32 :: "rat \<Rightarrow> nat" where
  "bits_of_f32 r =
     (let a = \<bar>r\<bar>; e = floor_log2 a
      in if a < 2 powi (-126) then nat \<lfloor>a * 2 powi 149\<rfloor>
         else nat (e + 127) * 2 ^ 23 + (nat \<lfloor>a * 2 powi (23 - e)\<rfloor> - 2 ^ 23))"

fun pack_f_bits :: "pyfloat \<Rightarrow> nat res" where
  "pack_f_bits (Fin x) =
     (let r = round32 x in
      if 2 powi 128 \<le> \<bar>r\<bar> then Inl OverflowError
      else Inr ((if x < 0 then 2 ^ 31 else 0) + bits_of_f32 r))"
| "pack_f_bits PInf = Inr (255 * 2 ^ 23)"
| "pack_f_bits NInf = Inr (2 ^ 31 + 255 * 2 ^ 23)"
| "pack_f_bits NaN = Inr (255 * 2 ^ 23 + 2 ^ 22)"

definition pack_f :: "pyfloat \<Rightarrow> bytes res" where
  "pack_f x = bind_res (pack_f_bits x) (\<lambda>b. Inr (le_bytes 4 b))"

definition unpack_f :: "bytes \<Rightarrow> pyfloat res" where
  "unpack_f bs = (if length bs = 4 then Inr (f32_of_bits (le_val bs)) else Inl StructError)"

section \<open>Facts about rounding\<close>

lemma powi_pos [simp]: "0 < (2 :: rat) powi e"
  by (simp add: zero_less_power_int)

lemma powi_2_mono: "a \<le> b \<Longrightarrow> (2 :: rat) powi a \<le> 2 powi b"
  by (simp add: power_int_increasing)

lemma powi_2_less: "(2 :: rat) powi a < 2 powi b \<longleftrightarrow> a < b"
  by (metis linorder_not_less nless_le order.strict_trans1 power_int_strict_increasing
      powi_2_mono rel_simps(49) one_less_numeral_iff semiring_norm(76))

lemma bitlen_rat_bounds:
  assumes "0 < a"
  shows "(2 :: rat) powi (bitlen a - 1) \<le> of_int a" and "of_int a < (2 :: rat) powi bitlen a"
proof -
  have b: "2 ^ nat (bitlen a - 1) \<le> a \<and> a < 2 ^ nat (bitlen a)"
    using bitlen_bounds [OF assms] .
  have p: "0 < bitlen a"
  proof (rule ccontr)
    assume "\<not> 0 < bitlen a"
    then have "nat (bitlen a) = 0" by simp
    with b have "a < 1" by simp
    with assms show False by simp
  qed
  have "(of_int (2 ^ nat (bitlen a - 1)) :: rat) \<le> of_int a"
    using b by (simp only: of_int_le_iff)
  then show "(2 :: rat) powi (bitlen a - 1) \<le> of_int a"
    using p by (simp add: power_int_def)
  have "(of_int a :: rat) < of_int (2 ^ nat (bitlen a))"
    using b by (simp only: of_int_less_iff)
  then show "of_int a < (2 :: rat) powi bitlen a"
    using p by (simp add: power_int_def)
qed

lemma floor_log2_bounds:
  assumes x: "0 < x"
  shows "2 powi floor_log2 x \<le> x" and "x < 2 powi (floor_log2 x + 1)"
proof -
  obtain a b where q: "quotient_of x = (a, b)" by (cases "quotient_of x") auto
  have b: "0 < b" using quotient_of_denom_pos [OF q] .
  have xab: "x = of_int a / of_int b" using quotient_of_div [OF q] .
  have a: "0 < a" using x xab b by (simp add: zero_less_divide_iff)
  let ?e = "bitlen a - bitlen b"
  note ba = bitlen_rat_bounds [OF a] and bb = bitlen_rat_bounds [OF b]
  have ob: "0 < (of_int b :: rat)" using b by simp
  have up: "x < 2 powi (?e + 1)"
  proof -
    have "of_int a / of_int b < (2 :: rat) powi bitlen a / 2 powi (bitlen b - 1)"
      by (rule frac_less) (use ba bb a ob in auto)
    also have "\<dots> = 2 powi (?e + 1)" by (simp add: power_int_diff [symmetric] algebra_simps)
    finally show ?thesis by (simp add: xab)
  qed
  have lo: "2 powi (?e - 1) \<le> x"
  proof -
    have "(2 :: rat) powi (bitlen a - 1) / 2 powi bitlen b \<le> of_int a / of_int b"
      by (rule frac_le) (use ba bb a ob in auto)
    moreover have "(2 :: rat) powi (bitlen a - 1) / 2 powi bitlen b = 2 powi (?e - 1)"
      by (simp add: power_int_diff [symmetric] algebra_simps)
    ultimately show ?thesis by (simp add: xab)
  qed
  show "2 powi floor_log2 x \<le> x" using lo by (simp add: floor_log2_def q Let_def)
  show "x < 2 powi (floor_log2 x + 1)" using up by (auto simp: floor_log2_def q Let_def)
qed

lemma floor_log2_unique:
  assumes "2 powi e \<le> x" "x < 2 powi (e + 1)"
  shows "floor_log2 x = e"
proof -
  have x: "0 < x" using assms(1) powi_pos [of e] by (rule order.strict_trans2 [rotated])
  note f = floor_log2_bounds [OF x]
  have "(2 :: rat) powi floor_log2 x < 2 powi (e + 1)" using f(1) assms(2) by simp
  moreover have "(2 :: rat) powi e < 2 powi (floor_log2 x + 1)" using f(2) assms(1) by simp
  ultimately show ?thesis by (simp add: powi_2_less)
qed

lemma round_half_even_bound: "\<bar>of_int (round_half_even x) - x\<bar> \<le> 1 / 2"
proof -
  have "0 \<le> x - of_int \<lfloor>x\<rfloor>" "x - of_int \<lfloor>x\<rfloor> < 1"
    using floor_correct [of x] by linarith+
  then show ?thesis by (auto simp: round_half_even_def Let_def)
qed

lemma round_half_even_of_int [simp]: "round_half_even (of_int n) = n"
  by (simp add: round_half_even_def)

lemma round_half_even_mono: "x \<le> y \<Longrightarrow> round_half_even x \<le> round_half_even y"
proof (cases "\<lfloor>x\<rfloor> = \<lfloor>y\<rfloor>")
  case True
  assume "x \<le> y" with True show ?thesis by (auto simp: round_half_even_def Let_def)
next
  case False
  assume "x \<le> y"
  with False have "\<lfloor>x\<rfloor> + 1 \<le> \<lfloor>y\<rfloor>" by (meson floor_mono order_le_imp_less_or_eq zless_imp_add1_zle)
  moreover have "round_half_even x \<le> \<lfloor>x\<rfloor> + 1" "\<lfloor>y\<rfloor> \<le> round_half_even y"
    by (auto simp: round_half_even_def Let_def)
  ultimately show ?thesis by linarith
qed

text \<open>The error of a rounding is at most half a unit in the last place.\<close>

lemma round_to_error: "\<bar>round_to p emin x - x\<bar> \<le> 2 powi quantum p emin x / 2"
proof (cases "x = 0")
  case False
  let ?q = "2 powi quantum p emin x :: rat"
  have "\<bar>round_to p emin x - x\<bar> = \<bar>of_int (round_half_even (x / ?q)) - x / ?q\<bar> * ?q"
  proof -
    have "round_to p emin x - x = (of_int (round_half_even (x / ?q)) - x / ?q) * ?q"
      using False by (simp add: round_to_def left_diff_distrib)
    then show ?thesis by (simp only: abs_mult) simp
  qed
  also have "\<dots> \<le> (1 / 2) * ?q"
    by (rule mult_right_mono [OF round_half_even_bound]) (simp add: less_imp_le)
  finally show ?thesis by simp
qed (simp add: round_to_def)

text \<open>In the normal range that is a relative error of at most \<open>2 ^ -p\<close>.\<close>

lemma round_to_rel_error:
  assumes "2 powi (emin + int p - 1) \<le> \<bar>x\<bar>"
  shows "\<bar>round_to p emin x - x\<bar> \<le> \<bar>x\<bar> * 2 powi (- int p)"
proof -
  have x: "0 < \<bar>x\<bar>" using assms powi_pos [of "emin + int p - 1"] by (rule order.strict_trans2 [rotated])
  note f = floor_log2_bounds [OF x]
  have "(2 :: rat) powi (emin + int p - 1) < 2 powi (floor_log2 \<bar>x\<bar> + 1)"
    using assms f(2) by simp
  then have q: "quantum p emin x = floor_log2 \<bar>x\<bar> - (int p - 1)"
    by (simp add: powi_2_less quantum_def)
  have "\<bar>round_to p emin x - x\<bar> \<le> 2 powi quantum p emin x / 2" by (rule round_to_error)
  also have "\<dots> = 2 powi floor_log2 \<bar>x\<bar> * 2 powi (- int p)"
    unfolding q by (simp add: power_int_diff power_int_minus power_int_add field_simps)
  also have "\<dots> \<le> \<bar>x\<bar> * 2 powi (- int p)"
    by (rule mult_right_mono [OF f(1)]) (simp add: less_imp_le)
  finally show ?thesis .
qed

text \<open>A value with at most \<open>p\<close> significant bits is its own rounding.\<close>

lemma round_to_exact:
  assumes "x = of_int m * 2 powi k" "quantum p emin x \<le> k"
  shows "round_to p emin x = x"
proof (cases "x = 0")
  case False
  let ?q = "quantum p emin x"
  have "x / 2 powi ?q = of_int m * 2 powi (k - ?q)"
    using assms(1) by (simp add: power_int_diff)
  also have "\<dots> = of_int (m * 2 ^ nat (k - ?q))"
    using assms(2) by (simp add: power_int_def)
  finally have "round_half_even (x / 2 powi ?q) = m * 2 ^ nat (k - ?q)"
    by (metis round_half_even_of_int)
  moreover have "x = of_int (m * 2 ^ nat (k - ?q)) * 2 powi ?q"
    using \<open>x / 2 powi ?q = of_int m * 2 powi (k - ?q)\<close>
      \<open>of_int m * 2 powi (k - ?q) = of_int (m * 2 ^ nat (k - ?q))\<close>
    by (metis nonzero_eq_divide_eq powi_pos less_irrefl)
  ultimately show ?thesis using False by (simp add: round_to_def)
qed (simp add: round_to_def)

lemma round_to_int:
  assumes "\<bar>n\<bar> < 2 ^ p" "emin \<le> 0"
  shows "round_to p emin (of_int n) = of_int n"
proof (cases "n = 0")
  case False
  have "0 < \<bar>of_int n :: rat\<bar>" using False by simp
  from floor_log2_bounds(1) [OF this]
  have "(2 :: rat) powi floor_log2 \<bar>of_int n\<bar> \<le> \<bar>of_int n\<bar>" .
  also have "\<dots> < 2 powi int p"
  proof -
    have "(of_int \<bar>n\<bar> :: rat) < of_int (2 ^ p)" using assms(1) by (simp only: of_int_less_iff)
    then show ?thesis by (simp add: power_int_def)
  qed
  finally have "floor_log2 \<bar>of_int n\<bar> < int p" by (simp only: powi_2_less)
  then have "quantum p emin (of_int n) \<le> 0" using assms(2) by (simp add: quantum_def)
  then show ?thesis by (intro round_to_exact [where m = n and k = 0]) auto
qed (simp add: round_to_def)

lemma to_double_int:
  assumes "\<bar>n\<bar> < 2 ^ 53"
  shows "to_double (of_int n) = Fin (of_int n)"
proof -
  have r: "round64 (of_int n) = of_int n"
    unfolding round64_def by (rule round_to_int) (use assms in auto)
  have "\<bar>of_int n :: rat\<bar> < 2 ^ 53"
  proof -
    have "(of_int \<bar>n\<bar> :: rat) < of_int (2 ^ 53)" using assms by (simp only: of_int_less_iff)
    then show ?thesis by simp
  qed
  moreover have "(2 :: rat) ^ 53 < 2 powi 1024" by (simp add: power_int_def)
  ultimately have "- (2 powi 1024) < (of_int n :: rat)" "(of_int n :: rat) < 2 powi 1024"
    by linarith+
  then show ?thesis by (simp add: to_double_def r overflow64_def)
qed

section \<open>The binary32 layout keeps what it can represent\<close>

definition fits_f32 :: "pyfloat \<Rightarrow> bool" where
  "fits_f32 v = (case v of Fin x \<Rightarrow> round32 x = x \<and> \<bar>x\<bar> < 2 powi 128 | _ \<Rightarrow> True)"

lemma round_to_fixed_multiple:
  assumes "round_to p emin x = x" "x \<noteq> 0"
  obtains k where "\<bar>x\<bar> = of_int k * 2 powi quantum p emin x" "0 < k"
proof -
  let ?k = "round_half_even (x / 2 powi quantum p emin x)"
  have x: "x = of_int ?k * 2 powi quantum p emin x"
    using assms by (simp add: round_to_def)
  have "\<bar>x\<bar> = of_int \<bar>?k\<bar> * 2 powi quantum p emin x"
    by (subst x) (simp add: abs_mult)
  moreover have "0 < \<bar>?k\<bar>" using x assms(2) by (metis mult_zero_left of_int_0 zero_less_abs_iff)
  ultimately show thesis using that by blast
qed

lemma f32_of_bits_subnormal:
  assumes "k < 2 ^ 23"
  shows "f32_of_bits (2 ^ 31 + k) = Fin (- (of_nat k * 2 powi (-149)))"
    and "f32_of_bits k = Fin (of_nat k * 2 powi (-149))"
proof -
  have "(2147483648 + k) mod 8388608 = k"
    using assms mod_mult_self1 [of k 256 8388608] by (simp add: add.commute)
  then show "f32_of_bits (2 ^ 31 + k) = Fin (- (of_nat k * 2 powi (-149)))"
    using assms by (simp add: f32_of_bits_def Let_def div_add1_eq)
  show "f32_of_bits k = Fin (of_nat k * 2 powi (-149))"
    using assms by (simp add: f32_of_bits_def Let_def)
qed

lemma f32_of_bits_normal:
  assumes "0 < e" "e < 255" "m < 2 ^ 23"
  shows "f32_of_bits (2 ^ 31 + (e * 2 ^ 23 + m)) = Fin (- (of_nat (2 ^ 23 + m) * 2 powi (int e - 150)))"
    and "f32_of_bits (e * 2 ^ 23 + m) = Fin (of_nat (2 ^ 23 + m) * 2 powi (int e - 150))"
proof -
  have d: "(e * 2 ^ 23 + m) div 2 ^ 23 = e" "(e * 2 ^ 23 + m) mod 2 ^ 23 = m"
    "(2 ^ 31 + (e * 2 ^ 23 + m)) div 2 ^ 23 = 256 + e"
    using assms by simp_all
  have d4: "(2 ^ 31 + (e * 2 ^ 23 + m)) mod 2 ^ 23 = m"
    using assms mod_mult_self1 [of m "256 + e" 8388608] by (simp add: algebra_simps)
  have s: "(e * 2 ^ 23 + m) div 2 ^ 31 = 0" "(2 ^ 31 + (e * 2 ^ 23 + m)) div 2 ^ 31 = 1"
    using assms by simp_all
  show "f32_of_bits (2 ^ 31 + (e * 2 ^ 23 + m)) = Fin (- (of_nat (2 ^ 23 + m) * 2 powi (int e - 150)))"
    using assms minus_mult_left [of "8388608 + rat_of_nat m" "2 powi (int e - 150)"]
    unfolding f32_of_bits_def d d4 s by simp
  show "f32_of_bits (e * 2 ^ 23 + m) = Fin (of_nat (2 ^ 23 + m) * 2 powi (int e - 150))"
    using assms unfolding f32_of_bits_def d s by simp
qed

lemma f32_magnitude:
  assumes r: "round32 x = x" and x: "x \<noteq> 0" and lt: "\<bar>x\<bar> < 2 powi 128"
  shows "f32_of_bits (bits_of_f32 x) = Fin \<bar>x\<bar>"
    and "f32_of_bits (2 ^ 31 + bits_of_f32 x) = Fin (- \<bar>x\<bar>)"
proof -
  let ?a = "\<bar>x\<bar>" and ?e = "floor_log2 \<bar>x\<bar>"
  have a: "0 < ?a" using x by simp
  note f = floor_log2_bounds [OF a]
  obtain k where k: "?a = of_int k * 2 powi quantum 24 (-149) x" "0 < k"
    using round_to_fixed_multiple [OF r [unfolded round32_def] x] .
  have "f32_of_bits (bits_of_f32 x) = Fin ?a \<and> f32_of_bits (2 ^ 31 + bits_of_f32 x) = Fin (- ?a)"
  proof (cases "?a < 2 powi (-126)")
    case True
    then have "(2 :: rat) powi ?e < 2 powi (-126)" using f(1) by simp
    then have "?e < -126" by (simp only: powi_2_less)
    then have q: "quantum 24 (-149) x = -149" by (simp add: quantum_def)
    have kk: "?a * 2 powi 149 = of_int k" using k(1) q by (simp add: power_int_minus)
    have "(of_int k :: rat) < 2 powi (-126) * 2 powi 149"
      using True kk by (metis mult_less_cancel_right_pos powi_pos)
    also have "\<dots> = of_int (2 ^ 23)" by (simp add: power_int_add [symmetric])
    finally have k23: "k < 2 ^ 23" by (simp only: of_int_less_iff)
    have bits: "bits_of_f32 x = nat k" using True kk by (simp add: bits_of_f32_def Let_def)
    have "nat k < 2 ^ 23" using k23 k(2) by (simp add: nat_less_iff)
    from f32_of_bits_subnormal [OF this] show ?thesis using bits k q by simp
  next
    case False
    then have "(2 :: rat) powi (-126) < 2 powi (?e + 1)" using f(2) by simp
    then have e_lo: "-126 \<le> ?e" by (simp only: powi_2_less)
    have "(2 :: rat) powi ?e < 2 powi 128" using f(1) lt by simp
    then have e_hi: "?e < 128" by (simp only: powi_2_less)
    have q: "quantum 24 (-149) x = ?e - 23" using e_lo by (simp add: quantum_def)
    have kk: "?a * 2 powi (23 - ?e) = of_int k"
      using k(1) q by (simp add: power_int_diff)
    have "(2 :: rat) powi ?e * 2 powi (23 - ?e) \<le> of_int k"
      using f(1) kk by (metis mult_le_cancel_right_pos powi_pos)
    then have k_lo: "2 ^ 23 \<le> k"
    proof -
      assume h: "(2 :: rat) powi ?e * 2 powi (23 - ?e) \<le> of_int k"
      have "(2 :: rat) powi ?e * 2 powi (23 - ?e) = of_int (2 ^ 23)"
        by (simp add: power_int_add [symmetric])
      with h show ?thesis by (simp only: of_int_le_iff)
    qed
    have "of_int k < (2 :: rat) powi (?e + 1) * 2 powi (23 - ?e)"
      using f(2) kk by (metis mult_less_cancel_right_pos powi_pos)
    then have k_hi: "k < 2 ^ 24"
    proof -
      assume h: "of_int k < (2 :: rat) powi (?e + 1) * 2 powi (23 - ?e)"
      have "(2 :: rat) powi (?e + 1) * 2 powi (23 - ?e) = of_int (2 ^ 24)"
        by (simp add: power_int_add [symmetric])
      with h show ?thesis by (simp only: of_int_less_iff)
    qed
    have bits: "bits_of_f32 x = nat (?e + 127) * 2 ^ 23 + (nat k - 2 ^ 23)"
      using False kk by (simp add: bits_of_f32_def Let_def)
    have m: "nat k - 2 ^ 23 < 2 ^ 23" "2 ^ 23 + (nat k - 2 ^ 23) = nat k" using k_lo k_hi by auto
    have ee: "0 < nat (?e + 127)" "nat (?e + 127) < 255" "int (nat (?e + 127)) - 150 = ?e - 23"
      using e_lo e_hi by auto
    have "(of_nat (nat k) :: rat) = of_int k" using k(2) by simp
    then have v: "of_nat (2 ^ 23 + (nat k - 2 ^ 23)) * 2 powi (int (nat (?e + 127)) - 150) = ?a"
      using k(1) unfolding m(2) ee(3) q by argo
    show ?thesis
      using f32_of_bits_normal [OF ee(1,2) m(1)] unfolding v bits by blast
  qed
  then show "f32_of_bits (bits_of_f32 x) = Fin ?a"
    and "f32_of_bits (2 ^ 31 + bits_of_f32 x) = Fin (- ?a)" by blast+
qed

lemma f32_bits_roundtrip: "fits_f32 v \<Longrightarrow> pack_f_bits v = Inr b \<Longrightarrow> f32_of_bits b = v"
proof (cases v)
  case (Fin x)
  assume h: "fits_f32 v" "pack_f_bits v = Inr b"
  show ?thesis
  proof (cases "x = 0")
    case True
    then have "b = 0" using h Fin by (auto simp: round32_def round_to_def bits_of_f32_def split: if_splits)
    then show ?thesis using Fin True by (simp add: f32_of_bits_def)
  next
    case False
    have r: "round32 x = x" "\<bar>x\<bar> < 2 powi 128" using h(1) Fin by (auto simp: fits_f32_def)
    have "b = (if x < 0 then 2 ^ 31 else 0) + bits_of_f32 x"
      using h(2) Fin r by (auto simp: Let_def)
    then show ?thesis using f32_magnitude [OF r(1) False r(2)] Fin False by (cases "x < 0") simp_all
  qed
qed (auto simp: f32_of_bits_def)

lemma bits_of_f32_bound:
  assumes "fits_f32 v" "pack_f_bits v = Inr b"
  shows "b < 2 ^ 32"
proof (cases v)
  case (Fin x)
  have r: "round32 x = x" "\<bar>x\<bar> < 2 powi 128" using assms(1) Fin by (auto simp: fits_f32_def)
  have b: "b = (if x < 0 then 2 ^ 31 else 0) + bits_of_f32 x"
    using assms(2) Fin r by (auto simp: Let_def)
  have "bits_of_f32 x < 2 ^ 31"
  proof (cases "\<bar>x\<bar> < 2 powi (-126)")
    case True
    have "\<bar>x\<bar> * 2 powi 149 < 2 powi (-126) * 2 powi 149"
      using True by (simp only: mult_less_cancel_right_pos powi_pos)
    also have "\<dots> = 2 ^ 23" by (simp add: power_int_add [symmetric])
    finally have "\<lfloor>\<bar>x\<bar> * 2 powi 149\<rfloor> < 2 ^ 31" by (simp add: floor_less_iff)
    then show ?thesis using True by (simp add: bits_of_f32_def Let_def nat_less_iff)
  next
    case False
    then have a: "0 < \<bar>x\<bar>" using powi_pos [of "-126"] by linarith
    note f = floor_log2_bounds [OF a]
    let ?e = "floor_log2 \<bar>x\<bar>"
    have "(2 :: rat) powi ?e < 2 powi 128" using f(1) r(2) by simp
    then have e: "?e < 128" by (simp only: powi_2_less)
    have "\<bar>x\<bar> * 2 powi (23 - ?e) < 2 powi (?e + 1) * 2 powi (23 - ?e)"
      using f(2) by (simp only: mult_less_cancel_right_pos powi_pos)
    also have "\<dots> = 2 ^ 24" by (simp add: power_int_add [symmetric])
    finally have "\<lfloor>\<bar>x\<bar> * 2 powi (23 - ?e)\<rfloor> < 2 ^ 24" by (simp add: floor_less_iff)
    then have "nat \<lfloor>\<bar>x\<bar> * 2 powi (23 - ?e)\<rfloor> < nat (2 ^ 24)"
      by (simp only: nat_mono_iff zero_less_power zero_less_numeral)
    then have "nat \<lfloor>\<bar>x\<bar> * 2 powi (23 - ?e)\<rfloor> - 2 ^ 23 < 2 ^ 23" by simp
    moreover have "nat (?e + 127) \<le> 254" using e by simp
    ultimately show ?thesis using False by (simp add: bits_of_f32_def Let_def)
  qed
  then show ?thesis using b by auto
qed (use assms in auto)

interpretation f32: codec pack_f unpack_f 4 fits_f32
proof
  fix v bs assume "fits_f32 v"
  then show "is_ok (pack_f v)"
    by (cases v) (auto simp: pack_f_def fits_f32_def Let_def not_le)
next
  fix v bs assume v: "fits_f32 v" and p: "pack_f v = Inr bs"
  obtain b where b: "pack_f_bits v = Inr b" "bs = le_bytes 4 b"
    using p by (auto simp: pack_f_def bind_res_Inr_iff)
  have "b < 256 ^ 4" using bits_of_f32_bound [OF v b(1)] by simp
  then have "le_val bs = b" by (simp add: b(2) le_val_le_bytes)
  then show "unpack_f bs = Inr v"
    using f32_bits_roundtrip [OF v b(1)] b(2) by (simp add: unpack_f_def)
qed (auto simp: pack_f_def unpack_f_def bind_res_Inr_iff)

text \<open>Integers of magnitude below \<open>2 ^ 24\<close> are exact in the layout.\<close>

lemma fits_f32_int:
  assumes "\<bar>n\<bar> < 2 ^ 24"
  shows "fits_f32 (Fin (of_int n))"
proof -
  have "(of_int \<bar>n\<bar> :: rat) < of_int (2 ^ 24)" using assms by (simp only: of_int_less_iff)
  also have "\<dots> < 2 powi 128" by (simp add: power_int_def)
  finally show ?thesis
    using round_to_int [OF assms, of "-149"] by (simp add: fits_f32_def round32_def)
qed

end
