(* ===== verification/Models.thy ===== *)
theory Models
  imports PyFloat
begin

text \<open>
  Status and recipe models (\<^verbatim>\<open>ble/models.py\<close>): the enumerations, the device status records
  with the defaults of their dataclasses, the validating constructors of pours and recipes,
  and the binary recipe payload of commands 8001/8004.
\<close>

section \<open>Enumerations\<close>

datatype device_state = UNKNOWN | IDLE | GRINDING | BREWING | PAUSED | ERROR | SLEEPING

primrec device_state_value :: "device_state \<Rightarrow> string" where
  "device_state_value UNKNOWN = ''unknown''"
| "device_state_value IDLE = ''idle''"
| "device_state_value GRINDING = ''grinding''"
| "device_state_value BREWING = ''brewing''"
| "device_state_value PAUSED = ''paused''"
| "device_state_value ERROR = ''error''"
| "device_state_value SLEEPING = ''sleeping''"

datatype pour_pattern = CENTER | CIRCULAR | SPIRAL

primrec pattern_int :: "pour_pattern \<Rightarrow> int" where
  "pattern_int CENTER = 0"
| "pattern_int CIRCULAR = 1"
| "pattern_int SPIRAL = 2"

text \<open>\<^verbatim>\<open>PourPattern(n)\<close>: \<^verbatim>\<open>ValueError\<close> for any other number.\<close>

definition pour_pattern_of :: "int \<Rightarrow> pour_pattern res" where
  "pour_pattern_of n =
     (if n = 0 then Inr CENTER else if n = 1 then Inr CIRCULAR else if n = 2 then Inr SPIRAL
      else Inl ValueError)"

datatype vibration_pattern = VNone | VBefore | VAfter | VBoth

primrec vibration_int :: "vibration_pattern \<Rightarrow> int" where
  "vibration_int VNone = 0"
| "vibration_int VBefore = 1"
| "vibration_int VAfter = 2"
| "vibration_int VBoth = 3"

definition CUP_X_POD :: int where "CUP_X_POD = 1"
definition CUP_OMNI_DRIPPER :: int where "CUP_OMNI_DRIPPER = 2"
definition CUP_OTHER :: int where "CUP_OTHER = 3"
definition CUP_TEA :: int where "CUP_TEA = 4"

section \<open>Device status\<close>

record grinder_status =
  g_is_running :: bool
  g_speed :: int
  g_size :: int
  g_position :: int

record brewer_status =
  b_is_running :: bool
  b_temperature :: pyfloat
  b_target_temperature :: pyfloat
  b_mode :: int

record scale_status =
  sc_weight :: pyfloat
  sc_is_tared :: bool

record device_status =
  state :: device_state
  connected :: bool
  grinder :: grinder_status
  brewer :: brewer_status
  scale :: scale_status
  serial_number :: string
  model :: string
  version :: string
  water_level_ok :: bool
  water_volume :: int
  voltage :: int
  mode_bytes :: "bytes option"
  mode_ack_hex :: "string option"
  raw_state_label :: "string option"
  is_calibrating_grinder :: bool
  is_sleeping :: bool
  pour_radius :: "int option"
  vibration_amplitude :: "int option"
  pour_pattern_live :: "int option"
  screen_code :: "nat option"
  screen :: "string option"
  last_page :: "string option"

definition init_grinder :: grinder_status where
  "init_grinder = \<lparr>g_is_running = False, g_speed = 0, g_size = 0, g_position = 0\<rparr>"

definition init_brewer :: brewer_status where
  "init_brewer = \<lparr>b_is_running = False, b_temperature = Fin 0, b_target_temperature = Fin 92,
     b_mode = 0\<rparr>"

definition init_scale :: scale_status where
  "init_scale = \<lparr>sc_weight = Fin 0, sc_is_tared = False\<rparr>"

definition init_status :: device_status where
  "init_status = \<lparr>state = UNKNOWN, connected = False, grinder = init_grinder,
     brewer = init_brewer, scale = init_scale, serial_number = [], model = [], version = [],
     water_level_ok = False, water_volume = 0, voltage = 0, mode_bytes = None,
     mode_ack_hex = None, raw_state_label = None, is_calibrating_grinder = False,
     is_sleeping = False, pour_radius = None, vibration_amplitude = None,
     pour_pattern_live = None, screen_code = None, screen = None, last_page = None\<rparr>"

section \<open>Recipes\<close>

record pour_step =
  volume :: int
  temperature :: int
  flow_rate :: pyfloat
  pausing :: int
  pattern :: pour_pattern
  vibration :: vibration_pattern

definition pour_post_init :: "pour_step \<Rightarrow> pour_step res" where
  "pour_post_init p =
     (if (flt (flow_rate p) (Fin 3) \<or> flt (Fin (7 / 2)) (flow_rate p)) \<and> \<not> feq (flow_rate p) (Fin 0)
      then Inl ValueError
      else if temperature p \<noteq> 0 \<and> (temperature p < 40 \<or> 100 < temperature p) then Inl ValueError
      else if volume p < 0 then Inl ValueError
      else if pausing p < 0 then Inl ValueError
      else Inr p)"

record xbloom_recipe =
  grind_size :: int
  total_water :: int
  rpm :: int
  cup_type :: int
  name :: string
  bean_weight :: pyfloat
  recipe_id :: int
  pours :: "pour_step list"

definition VALID_RPMS :: "int list" where
  "VALID_RPMS = [0, 60, 70, 80, 90, 100, 110, 120]"

definition recipe_post_init :: "xbloom_recipe \<Rightarrow> xbloom_recipe res" where
  "recipe_post_init r =
     (if \<not> (0 \<le> grind_size r \<and> grind_size r \<le> 150) \<and> grind_size r \<noteq> 0 then Inl ValueError
      else if rpm r \<notin> set VALID_RPMS then Inl ValueError
      else if 20 < length (pours r) then Inl ValueError
      else if flt (bean_weight r) (Fin 0) \<or> flt (Fin 100) (bean_weight r) then Inl ValueError
      else Inr r)"

section \<open>The recipe payload\<close>

text \<open>The wire blocks of one pour: water sub-steps of at most 127 ml.\<close>

definition substep :: "pour_step \<Rightarrow> int \<Rightarrow> bytes res" where
  "substep p v = pack_BBBB v (temperature p) (pattern_int (pattern p)) (vibration_int (vibration p))"

definition substep_volumes :: "int \<Rightarrow> int list" where
  "substep_volumes remaining_vol =
     (if 127 < remaining_vol
      then replicate (nat (remaining_vol div 127)) 127
        @ (if 0 < remaining_vol mod 127 then [remaining_vol mod 127] else [])
      else [remaining_vol])"

text \<open>The timing block: \<^verbatim>\<open>int(flow_rate * 10) & 0xFF\<close> and the two's complement of the pause.\<close>

definition flow_byte :: "pour_step \<Rightarrow> int res" where
  "flow_byte p = bind_res (int_of_float (fmul (flow_rate p) (Fin 10))) (\<lambda>v. Inr (v mod 256))"

definition timing_block :: "xbloom_recipe \<Rightarrow> nat \<Rightarrow> pour_step \<Rightarrow> bytes res" where
  "timing_block r i p =
     bind_res (flow_byte p) (\<lambda>fb.
       pack_BBBB ((- pausing p) mod 256) 0 (if i = 0 then rpm r mod 256 else 0) fb)"

definition pour_blocks :: "xbloom_recipe \<Rightarrow> nat \<times> pour_step \<Rightarrow> bytes res" where
  "pour_blocks r ip = (case ip of (i, p) \<Rightarrow>
     bind_res (map_res (substep p) (substep_volumes (volume p))) (\<lambda>subs.
     bind_res (timing_block r i p) (\<lambda>t. Inr (concat subs @ t))))"

definition recipe_body :: "xbloom_recipe \<Rightarrow> bytes res" where
  "recipe_body r =
     bind_res (map_res (pour_blocks r) (List.enumerate 0 (pours r))) (\<lambda>parts. Inr (concat parts))"

definition build_recipe_payload :: "xbloom_recipe \<Rightarrow> bytes res" where
  "build_recipe_payload r =
     bind_res (recipe_body r) (\<lambda>body.
     bind_res (pack_BB (grind_size r mod 256) ((total_water r * 10) mod 256)) (\<lambda>footer.
     bind_res (pack_B (int (length body))) (\<lambda>len. Inr (len @ body @ footer))))"

section \<open>Facts about sub-steps\<close>

lemma sum_list_substep_volumes: "sum_list (substep_volumes v) = v"
proof (cases "127 < v")
  case True
  have "sum_list (replicate (nat (v div 127)) 127) = v div 127 * 127"
    using True by (simp add: sum_list_replicate)
  moreover have "v div 127 * 127 + v mod 127 = v" by (rule div_mult_mod_eq)
  moreover have "0 \<le> v mod 127" by simp
  ultimately show ?thesis using True by (cases "v mod 127 = 0") (simp_all add: substep_volumes_def)
qed (simp add: substep_volumes_def)

lemma substep_volumes_range:
  "0 \<le> v \<Longrightarrow> x \<in> set (substep_volumes v) \<Longrightarrow> 0 \<le> x \<and> x \<le> 127"
proof -
  assume v: "0 \<le> v" and x: "x \<in> set (substep_volumes v)"
  have "0 \<le> v mod 127" "v mod 127 < 127" by simp_all
  with v x show ?thesis by (auto simp: substep_volumes_def split: if_splits)
qed

lemma substep_volumes_nonempty: "substep_volumes v \<noteq> []"
proof (cases "127 < v")
  case True
  then have "0 < v div 127" by (simp add: pos_imp_zdiv_pos_iff)
  with True show ?thesis by (simp add: substep_volumes_def)
qed (simp add: substep_volumes_def)

lemma pattern_int_range: "0 \<le> pattern_int q \<and> pattern_int q \<le> 2"
  by (cases q) auto

lemma vibration_int_range: "0 \<le> vibration_int q \<and> vibration_int q \<le> 3"
  by (cases q) auto

text \<open>A pour that every block can carry.\<close>

definition wire_pour :: "pour_step \<Rightarrow> bool" where
  "wire_pour p \<longleftrightarrow> 0 \<le> volume p \<and> 0 \<le> temperature p \<and> temperature p < 256
     \<and> is_ok (int_of_float (fmul (flow_rate p) (Fin 10)))"

lemma substep_ok:
  assumes "0 \<le> v" "v \<le> 127" "0 \<le> temperature p" "temperature p < 256"
  shows "substep p v = Inr [word_of_int v, word_of_int (temperature p),
    word_of_int (pattern_int (pattern p)), word_of_int (vibration_int (vibration p))]"
  using assms pattern_int_range [of "pattern p"] vibration_int_range [of "vibration p"]
  by (simp add: substep_def pack_BBBB_ok)

lemma timing_block_ok: "wire_pour p \<Longrightarrow> is_ok (timing_block r i p)"
  by (auto simp: timing_block_def flow_byte_def wire_pour_def pack_BBBB_ok elim!: is_okE)

lemma timing_block_length: "timing_block r i p = Inr t \<Longrightarrow> length t = 4"
  by (auto simp: timing_block_def bind_res_Inr_iff dest: pack_BBBB_length)

lemma pour_blocks_layout:
  assumes "wire_pour p"
  obtains t where "timing_block r i p = Inr t" "length t = 4"
    "pour_blocks r (i, p) = Inr (concat (map (\<lambda>v. [word_of_int v, word_of_int (temperature p),
        word_of_int (pattern_int (pattern p)), word_of_int (vibration_int (vibration p))])
      (substep_volumes (volume p))) @ t)"
proof -
  obtain t where t: "timing_block r i p = Inr t"
    using timing_block_ok [OF assms, of r i] by (auto simp: is_ok_iff)
  have "map_res (substep p) (substep_volumes (volume p)) =
      Inr (map (\<lambda>v. [word_of_int v, word_of_int (temperature p),
        word_of_int (pattern_int (pattern p)), word_of_int (vibration_int (vibration p))])
      (substep_volumes (volume p)))"
    by (rule map_res_ok, rule substep_ok) (use assms substep_volumes_range in \<open>auto simp: wire_pour_def\<close>)
  with t show thesis using that timing_block_length by (simp add: pour_blocks_def)
qed

lemma pour_blocks_length:
  assumes "pour_blocks r (i, p) = Inr bs"
  shows "length bs = 4 * length (substep_volumes (volume p)) + 4"
proof -
  obtain subs t where s: "map_res (substep p) (substep_volumes (volume p)) = Inr subs"
    and t: "timing_block r i p = Inr t" and bs: "bs = concat subs @ t"
    using assms by (auto simp: pour_blocks_def bind_res_Inr_iff)
  have "length (concat subs) = 4 * length vs" if "map_res (substep p) vs = Inr subs" for vs subs
    using that by (induction vs arbitrary: subs)
      (auto simp: bind_res_Inr_iff substep_def dest: pack_BBBB_length)
  from this [OF s] show ?thesis using bs timing_block_length [OF t] by simp
qed

definition body_length :: "pour_step list \<Rightarrow> nat" where
  "body_length ps = sum_list (map (\<lambda>p. 4 * length (substep_volumes (volume p)) + 4) ps)"

lemma enumerate_blocks_length:
  "map_res (pour_blocks r) (List.enumerate k ps) = Inr parts \<Longrightarrow>
   length (concat parts) = body_length ps"
  by (induction ps arbitrary: k parts)
    (auto simp: bind_res_Inr_iff body_length_def pour_blocks_length)

lemma recipe_body_length: "recipe_body r = Inr body \<Longrightarrow> length body = body_length (pours r)"
  by (auto simp: recipe_body_def bind_res_Inr_iff enumerate_blocks_length)

lemma recipe_body_ok:
  assumes "list_all wire_pour (pours r)"
  shows "is_ok (recipe_body r)"
proof -
  have "is_ok (map_res (pour_blocks r) (List.enumerate k ps))" if "list_all wire_pour ps" for k ps
    using that
  proof (induction ps arbitrary: k)
    case (Cons p ps)
    have "is_ok (pour_blocks r (k, p))"
      using Cons.prems pour_blocks_layout [of p r k] by (auto simp: is_ok_iff)
    moreover have "is_ok (map_res (pour_blocks r) (List.enumerate (Suc k) ps))"
      using Cons by simp
    ultimately show ?case by (auto elim!: is_okE)
  qed simp
  from this [OF assms, of 0] show ?thesis by (auto simp: recipe_body_def is_ok_iff)
qed

lemma build_recipe_payload_layout:
  assumes "build_recipe_payload r = Inr bs"
  obtains body where "recipe_body r = Inr body" "length body \<le> 255"
    "bs = [word_of_int (int (length body))] @ body
       @ [word_of_int (grind_size r mod 256), word_of_int ((total_water r * 10) mod 256)]"
  using assms
  by (auto simp: build_recipe_payload_def bind_res_Inr_iff pack_BB_ok pack_B_def pack_le_def
      split: if_splits)

section \<open>Properties\<close>

text \<open>
  Chunking keeps the water: the sub-step volumes of a pour sum to the pour's volume,
  each fits the 127 ml limit, and there is at least one.
\<close>

theorem substeps_preserve_volume:
  assumes "0 \<le> v"
  shows "sum_list (substep_volumes v) = v \<and> substep_volumes v \<noteq> [] \<and>
    (\<forall>x \<in> set (substep_volumes v). 0 \<le> x \<and> x \<le> 127)"
  using sum_list_substep_volumes substep_volumes_range [OF assms] substep_volumes_nonempty by blast

theorem substeps_preserve_volume_witness:
  "substep_volumes 300 = [127, 127, 46] \<and> sum_list (substep_volumes 300) = 300"
proof -
  have "(0 :: int) \<le> 300" by simp
  from substeps_preserve_volume [OF this] show ?thesis
    by (simp add: substep_volumes_def numeral_2_eq_2)
qed

text \<open>
  The recipe payload can be built exactly when its body fits the one-byte length field,
  for any recipe whose pours fit the wire blocks; then it is the length byte, four bytes per
  sub-step and four per pour, and the two footer bytes.
\<close>

theorem recipe_payload_fits_iff:
  assumes "list_all wire_pour (pours r)"
  shows "(\<exists>bs. build_recipe_payload r = Inr bs \<and> length bs = body_length (pours r) + 3) \<longleftrightarrow>
    body_length (pours r) \<le> 255"
proof -
  obtain body where b: "recipe_body r = Inr body" using recipe_body_ok [OF assms] by (auto elim: is_okE)
  have l: "length body = body_length (pours r)" using recipe_body_length [OF b] .
  have f: "pack_BB (grind_size r mod 256) ((total_water r * 10) mod 256) =
      Inr [word_of_int (grind_size r mod 256), word_of_int ((total_water r * 10) mod 256)]"
    by (rule pack_BB_ok) simp_all
  show ?thesis
    by (simp add: build_recipe_payload_def b f pack_B_def pack_le_def l)
qed

definition demo_pour :: pour_step where
  "demo_pour = \<lparr>volume = 200, temperature = 93, flow_rate = Fin 3, pausing = 30,
     pattern = SPIRAL, vibration = VNone\<rparr>"

definition demo_recipe :: xbloom_recipe where
  "demo_recipe = \<lparr>grind_size = 50, total_water = 400, rpm = 80, cup_type = 2, name = ''V60'',
     bean_weight = Fin 18, recipe_id = 0, pours = [demo_pour, demo_pour]\<rparr>"

lemma fmul_int:
  assumes "\<bar>a * b\<bar> < 2 ^ 53"
  shows "fmul (Fin (of_int a)) (Fin (of_int b)) = Fin (of_int (a * b))"
  using to_double_int [OF assms] by simp

lemma demo_flow: "fmul (Fin 3) (Fin 10) = Fin 30"
  using fmul_int [of 3 10] by simp

lemma demo_pour_wire: "wire_pour demo_pour"
  using demo_flow by (simp add: wire_pour_def demo_pour_def)

lemma demo_body_length: "body_length (pours demo_recipe) = 24"
  by (simp add: body_length_def demo_recipe_def demo_pour_def substep_volumes_def)

theorem recipe_payload_fits_iff_witness:
  "\<exists>bs. build_recipe_payload demo_recipe = Inr bs \<and> length bs = 27"
proof -
  have "list_all wire_pour (pours demo_recipe)" by (simp add: demo_recipe_def demo_pour_wire)
  from recipe_payload_fits_iff [OF this] show ?thesis by (simp add: demo_body_length)
qed

text \<open>
  The validating constructors admit only recipes in range: grind size 0 to 150, a known
  RPM, at most 20 pours, a dose in 0 to 100 g unless it is NaN, and per pour a non-negative
  volume and pause and a temperature of 0 or 40 to 100 degrees.
\<close>

theorem recipe_validation_sound:
  "(recipe_post_init r = Inr r' \<longrightarrow> r' = r \<and> 0 \<le> grind_size r \<and> grind_size r \<le> 150 \<and>
      rpm r \<in> {0, 60, 70, 80, 90, 100, 110, 120} \<and> length (pours r) \<le> 20 \<and>
      (bean_weight r = NaN \<or> (\<exists>w. bean_weight r = Fin w \<and> 0 \<le> w \<and> w \<le> 100))) \<and>
   (pour_post_init p = Inr p' \<longrightarrow> p' = p \<and> 0 \<le> volume p \<and> 0 \<le> pausing p \<and>
      (temperature p = 0 \<or> 40 \<le> temperature p \<and> temperature p \<le> 100))"
proof (intro conjI impI)
  assume ok: "recipe_post_init r = Inr r'"
  then have grind: "0 \<le> grind_size r \<and> grind_size r \<le> 150" and known: "rpm r \<in> set VALID_RPMS"
    and dose: "\<not> flt (bean_weight r) (Fin 0)" "\<not> flt (Fin 100) (bean_weight r)"
    by (auto simp: recipe_post_init_def split: if_splits)
  show "r' = r" "length (pours r) \<le> 20"
    using ok by (auto simp: recipe_post_init_def split: if_splits)
  show "0 \<le> grind_size r" "grind_size r \<le> 150" using grind by auto
  show "rpm r \<in> {0, 60, 70, 80, 90, 100, 110, 120}" using known by (simp add: VALID_RPMS_def)
  show "bean_weight r = NaN \<or> (\<exists>w. bean_weight r = Fin w \<and> 0 \<le> w \<and> w \<le> 100)"
    using dose by (cases "bean_weight r") auto
qed (auto simp: pour_post_init_def split: if_splits)

theorem recipe_validation_sound_witness:
  "recipe_post_init demo_recipe = Inr demo_recipe \<and> rpm demo_recipe \<in> {0, 60, 70, 80, 90, 100, 110, 120}
   \<and> pour_post_init demo_pour = Inr demo_pour"
proof -
  have "recipe_post_init demo_recipe = Inr demo_recipe"
    by (simp add: recipe_post_init_def demo_recipe_def VALID_RPMS_def)
  moreover have "pour_post_init demo_pour = Inr demo_pour"
    by (simp add: pour_post_init_def demo_pour_def)
  ultimately show ?thesis
    using recipe_validation_sound [of demo_recipe demo_recipe demo_pour demo_pour] by blast
qed

end
