(* ===== verification/Framing.thy ===== *)
theory Framing
  imports Prelude
begin

text \<open>
  Packet framing (\<^verbatim>\<open>ble/framing.py\<close>): the CRC, the two packet builders, the notification
  scanner \<open>iter_frames\<close>, the field accessors of a frame and the write splitter.  The scanner
  is a generator, so one resumption of it is \<open>next_frame\<close>; exhausting it is \<open>iter_frames\<close>,
  whose result \<open>None\<close> is a scan that never ends.
\<close>

section \<open>Constants\<close>

definition HEADER_BYTES :: "byte list" where "HEADER_BYTES = [0x58, 0x02]"
definition TYPE1_MARKER_BYTE :: byte where "TYPE1_MARKER_BYTE = 0xC1"
definition TYPE2_MARKER_BYTE :: byte where "TYPE2_MARKER_BYTE = 0xC2"
definition VALID_MARKER_BYTES :: "byte list" where
  "VALID_MARKER_BYTES = [TYPE1_MARKER_BYTE, TYPE2_MARKER_BYTE]"
definition MAX_PACKET_LEN :: nat where "MAX_PACKET_LEN = 256"
definition SPLIT_WRITE_CHUNK_MAX :: int where "SPLIT_WRITE_CHUNK_MAX = 100"

lemmas framing_consts = HEADER_BYTES_def TYPE1_MARKER_BYTE_def TYPE2_MARKER_BYTE_def
  VALID_MARKER_BYTES_def MAX_PACKET_LEN_def SPLIT_WRITE_CHUNK_MAX_def

section \<open>The CRC\<close>

definition crc_step :: "nat \<Rightarrow> nat" where
  "crc_step crc = (if odd crc then (crc div 2) XOR 0x8408 else crc div 2)"

definition crc_byte :: "nat \<Rightarrow> byte \<Rightarrow> nat" where
  "crc_byte crc b = (crc_step ^^ 8) (crc XOR unat b)"

definition crc16 :: "bytes \<Rightarrow> nat" where
  "crc16 data = fold (\<lambda>b crc. crc_byte crc b) data 0"

section \<open>Building packets\<close>

text \<open>\<^verbatim>\<open>bytearray.append\<close> raises \<^verbatim>\<open>ValueError\<close> outside \<^verbatim>\<open>range(256)\<close>.\<close>

definition append_byte :: "bytes \<Rightarrow> int \<Rightarrow> bytes res" where
  "append_byte p v = (if 0 \<le> v \<and> v < 256 then Inr (p @ [word_of_int v]) else Inl ValueError)"

definition build_packet_raw :: "int \<Rightarrow> bytes \<Rightarrow> int \<Rightarrow> int \<Rightarrow> bytes res" where
  "build_packet_raw command data type_code device_id =
     (let total_length = 12 + length data in
      bind_res (append_byte [0x58] device_id) (\<lambda>p1.
      bind_res (append_byte p1 type_code) (\<lambda>p2.
      bind_res (pack_H command) (\<lambda>c.
      bind_res (pack_I (int total_length)) (\<lambda>l.
      let packet = p2 @ c @ l @ [0x01] @ data in
      bind_res (pack_H (int (crc16 packet))) (\<lambda>k. Inr (packet @ k)))))))"

definition build_packet :: "int \<Rightarrow> int list \<Rightarrow> int \<Rightarrow> int \<Rightarrow> bytes res" where
  "build_packet command data type_code device_id =
     bind_res (map_res pack_I data) (\<lambda>parts.
       build_packet_raw command (concat parts) type_code device_id)"

section \<open>Scanning a notification buffer\<close>

function next_frame :: "bytes \<Rightarrow> nat \<Rightarrow> (bytes \<times> nat) option" where
  "next_frame raw offset =
     (let n = length raw in
      if n \<le> offset then None
      else if raw ! offset \<notin> set HEADER_BYTES then next_frame raw (offset + 1)
      else if n - offset < 10 then None
      else let total_len = le_val (slice (offset + 5) (offset + 9) raw) in
        if MAX_PACKET_LEN < total_len then next_frame raw (offset + 1)
        else if raw ! (offset + 9) \<notin> set VALID_MARKER_BYTES then next_frame raw (offset + 1)
        else if n < offset + total_len then None
        else Some (slice offset (offset + total_len) raw, offset + total_len))"
  by pat_completeness auto
termination
  by (relation "measure (\<lambda>(raw, offset). length raw - offset)") auto

declare next_frame.simps [simp del]

partial_function (option) iter_frames_from :: "bytes \<Rightarrow> nat \<Rightarrow> bytes list option" where
  "iter_frames_from raw offset =
     (case next_frame raw offset of
        None \<Rightarrow> Some []
      | Some (frame, offset') \<Rightarrow>
          Option.bind (iter_frames_from raw offset') (\<lambda>fs. Some (frame # fs)))"

definition iter_frames :: "bytes \<Rightarrow> bytes list option" where
  "iter_frames raw = iter_frames_from raw 0"

definition frame_command :: "bytes \<Rightarrow> int res" where
  "frame_command frame = unpack_H (slice 3 5 frame)"

definition frame_payload :: "bytes \<Rightarrow> bytes" where
  "frame_payload frame = (if 12 < length frame then slice 10 (length frame - 2) frame else [])"

section \<open>Splitting a write\<close>

definition chunk_size :: "int \<Rightarrow> nat" where
  "chunk_size mtu_size = nat (max 20 (min SPLIT_WRITE_CHUNK_MAX (mtu_size - 3)))"

function chunks_of :: "nat \<Rightarrow> bytes \<Rightarrow> bytes list" where
  "chunks_of c data =
     (if data = [] \<or> c = 0 then [] else take c data # chunks_of c (drop c data))"
  by pat_completeness auto
termination
  by (relation "measure (\<lambda>(c, data). length data)") auto

declare chunks_of.simps [simp del]

definition split_write_chunks :: "bytes \<Rightarrow> int \<Rightarrow> bytes list" where
  "split_write_chunks data mtu_size = chunks_of (chunk_size mtu_size) data"

section \<open>Facts about the CRC\<close>

lemma xor_lt_two_power: "a < 2 ^ n \<Longrightarrow> b < 2 ^ n \<Longrightarrow> (a XOR b :: nat) < 2 ^ n"
  by (metis take_bit_nat_eq_self_iff take_bit_xor)

lemma crc_step_bound: "c < 65536 \<Longrightarrow> crc_step c < 65536"
  using xor_lt_two_power [of "c div 2" 16 "0x8408"] by (auto simp: crc_step_def)

lemma crc_steps_bound: "c < 65536 \<Longrightarrow> (crc_step ^^ k) c < 65536"
  by (induction k) (auto simp: crc_step_bound)

lemma crc_byte_bound: "c < 65536 \<Longrightarrow> crc_byte c b < 65536"
proof -
  assume c: "c < 65536"
  have "unat b < 2 ^ 16" by (rule order.strict_trans [OF byte_unat_lt]) simp
  with c have "c XOR unat b < 65536" using xor_lt_two_power [of c 16 "unat b"] by simp
  then show ?thesis unfolding crc_byte_def by (rule crc_steps_bound)
qed

lemma crc_fold_bound: "c < 65536 \<Longrightarrow> fold (\<lambda>b crc. crc_byte crc b) data c < 65536"
  by (induction data arbitrary: c) (auto simp: crc_byte_bound)

lemma crc16_bound [simp]: "crc16 data < 65536"
  unfolding crc16_def by (rule crc_fold_bound) simp

lemma crc_steps_even: "(crc_step ^^ k) (2 ^ k * h) = h"
proof (induction k)
  case (Suc k)
  have "crc_step (2 ^ Suc k * h) = 2 ^ k * h" by (simp add: crc_step_def)
  then show ?case using Suc by (simp only: funpow_Suc_right o_apply)
qed simp

lemma xor_low_byte: "l < 256 \<Longrightarrow> (256 * h + l) XOR l = (256 * h :: nat)"
proof -
  assume l: "l < 256"
  have "256 * h + l = (256 * h) XOR l"
  proof (rule disjunctive_add_eq_xor)
    have "push_bit 8 h AND take_bit 8 l = 0" by (auto simp: bit_eq_iff bit_simps)
    then show "(256 * h) AND l = 0"
      using l by (simp add: push_bit_eq_mult take_bit_nat_eq_self mult.commute)
  qed
  then show ?thesis by (simp add: xor.assoc)
qed

text \<open>Running the CRC over data followed by its own CRC leaves zero.\<close>

lemma crc16_residue: "crc16 (data @ le_bytes 2 (crc16 data)) = 0"
proof -
  let ?c = "crc16 data"
  have c: "?c < 65536" by (rule crc16_bound)
  let ?l = "?c mod 256" and ?h = "?c div 256"
  have first: "crc_byte ?c (word_of_nat ?c) = ?h"
  proof -
    have "?c XOR ?l = 256 * ?h" using xor_low_byte [of ?l ?h] by simp
    then show ?thesis
      using crc_steps_even [of 8 ?h] by (simp add: crc_byte_def)
  qed
  have "?h < 256" by (rule less_mult_imp_div_less) (use crc16_bound [of data] in simp)
  then have "crc_byte ?h (word_of_nat ?h) = 0"
    using crc_steps_even [of 8 0] by (simp add: crc_byte_def)
  then show ?thesis using first by (simp add: crc16_def numeral_2_eq_2)
qed

lemma crc_step_inj:
  assumes "a < 65536" "b < 65536" "crc_step a = crc_step b"
  shows "a = b"
proof -
  have top: "bit (crc_step c) 15 \<longleftrightarrow> odd c" if "c < 65536" for c
  proof -
    have "c div 2 < 2 ^ 15" using that by simp
    then have "\<not> bit (c div 2) 15" by (simp add: bit_iff_odd)
    then show ?thesis by (simp add: crc_step_def bit_xor_iff) (simp add: bit_iff_odd)
  qed
  have par: "odd a \<longleftrightarrow> odd b" using top assms by metis
  have "a div 2 = b div 2"
  proof (cases "odd a")
    case True
    with par assms(3) have "(a div 2) XOR 0x8408 = (b div 2) XOR 0x8408" by (simp add: crc_step_def)
    then show ?thesis by (metis xor.assoc xor_self_eq xor.right_neutral)
  next
    case False
    with par assms(3) show ?thesis by (simp add: crc_step_def)
  qed
  with par show ?thesis by (metis even_iff_mod_2_eq_zero odd_iff_mod_2_eq_one div_mult_mod_eq)
qed

lemma crc_steps_inj:
  "a < 65536 \<Longrightarrow> b < 65536 \<Longrightarrow> (crc_step ^^ k) a = (crc_step ^^ k) b \<Longrightarrow> a = b"
proof (induction k)
  case (Suc k)
  then have "(crc_step ^^ k) a = (crc_step ^^ k) b"
    by (intro crc_step_inj [of "(crc_step ^^ k) a"]) (auto simp: crc_steps_bound)
  with Suc show ?case by blast
qed simp

lemma crc_xor_lt: "c < 65536 \<Longrightarrow> c XOR unat (x :: byte) < 65536"
proof -
  assume c: "c < 65536"
  have "unat x < 2 ^ 16" by (rule order.strict_trans [OF byte_unat_lt]) simp
  with c show ?thesis using xor_lt_two_power [of c 16 "unat x"] by simp
qed

lemma crc_byte_inj_state:
  assumes "c < 65536" "d < 65536" "crc_byte c b = crc_byte d b"
  shows "c = d"
proof -
  have "c XOR unat b = d XOR unat b"
    by (rule crc_steps_inj [of _ _ 8])
      (use assms in \<open>simp_all only: crc_byte_def crc_xor_lt\<close>)
  then show ?thesis by (metis xor.assoc xor_self_eq xor.right_neutral)
qed

lemma crc_byte_inj_byte:
  assumes "c < 65536" "crc_byte c a = crc_byte c b"
  shows "a = b"
proof -
  have "c XOR unat a = c XOR unat b"
    by (rule crc_steps_inj [of _ _ 8])
      (use assms in \<open>simp_all only: crc_byte_def crc_xor_lt\<close>)
  then have "unat a = unat b" by (metis xor.left_commute xor_self_eq xor.right_neutral)
  then show ?thesis by (simp only: word_unat_eq_iff)
qed

lemma crc_fold_inj_state:
  "c < 65536 \<Longrightarrow> d < 65536 \<Longrightarrow>
   fold (\<lambda>b crc. crc_byte crc b) ys c = fold (\<lambda>b crc. crc_byte crc b) ys d \<Longrightarrow> c = d"
proof (induction ys arbitrary: c d)
  case (Cons y ys)
  then have "crc_byte c y = crc_byte d y" by (auto simp: crc_byte_bound)
  with Cons.prems show ?case by (blast intro: crc_byte_inj_state)
qed simp

section \<open>Facts about the builders\<close>

lemma build_packet_raw_ok_iff:
  "is_ok (build_packet_raw command data type_code device_id) \<longleftrightarrow>
     0 \<le> device_id \<and> device_id < 256 \<and> 0 \<le> type_code \<and> type_code < 256 \<and>
     0 \<le> command \<and> command < 65536 \<and> 12 + length data < 2 ^ 32"
proof -
  have crc: "pack_H (int (crc16 p)) = Inr (le_bytes 2 (crc16 p))" for p
    using crc16_bound [of p] by (simp add: pack_H_ok)
  show ?thesis
    by (auto simp: build_packet_raw_def append_byte_def pack_H_def pack_I_def pack_le_def
        Let_def crc [unfolded pack_H_def pack_le_def])
qed

lemma build_packet_raw_layout:
  assumes "build_packet_raw command data type_code device_id = Inr p"
  shows "p = (let body = [0x58, word_of_int device_id, word_of_int type_code]
                 @ le_bytes 2 (nat command) @ le_bytes 4 (12 + length data) @ [0x01] @ data
              in body @ le_bytes 2 (crc16 body))"
  using assms crc16_bound
  by (auto simp: build_packet_raw_def append_byte_def pack_H_def pack_I_def pack_le_def Let_def
      nat_add_distrib split: if_splits)

lemma build_packet_raw_length:
  "build_packet_raw command data type_code device_id = Inr p \<Longrightarrow> length p = 12 + length data"
  by (drule build_packet_raw_layout) (simp add: Let_def)

section \<open>The frame layout and the scanner\<close>

text \<open>
  A frame as the machine sends it: header, device id, type, command, total length, marker,
  payload, two trailing CRC bytes.  \<open>well_framed\<close> is what the scanner's three checks ask for.
\<close>

definition encode_frame :: "byte \<Rightarrow> byte \<Rightarrow> byte \<Rightarrow> nat \<Rightarrow> byte \<Rightarrow> bytes \<Rightarrow> bytes \<Rightarrow> bytes" where
  "encode_frame hdr dev ty cmd marker payload crc =
     [hdr, dev, ty] @ le_bytes 2 cmd @ le_bytes 4 (12 + length payload) @ [marker] @ payload @ crc"

definition well_framed :: "bytes \<Rightarrow> bool" where
  "well_framed f \<longleftrightarrow> 10 \<le> length f \<and> length f \<le> MAX_PACKET_LEN \<and> f ! 0 \<in> set HEADER_BYTES \<and>
     le_val (slice 5 9 f) = length f \<and> f ! 9 \<in> set VALID_MARKER_BYTES"

definition no_header :: "bytes \<Rightarrow> bool" where
  "no_header bs = list_all (\<lambda>b. b \<notin> set HEADER_BYTES) bs"

lemma length_encode_frame [simp]:
  "length (encode_frame hdr dev ty cmd marker payload crc) = 10 + length payload + length crc"
  by (simp add: encode_frame_def)

lemma encode_frame_fields:
  fixes hdr dev ty :: byte and cmd :: nat and marker :: byte and payload crc :: bytes
  defines "f \<equiv> encode_frame hdr dev ty cmd marker payload crc"
  shows "f ! 0 = hdr" "slice 3 5 f = le_bytes 2 cmd" "slice 5 9 f = le_bytes 4 (12 + length payload)"
    "f ! 9 = marker" "slice 10 (10 + length payload) f = payload"
proof -
  let ?L = "le_bytes 4 (12 + length payload)"
  show "f ! 0 = hdr" by (simp add: f_def encode_frame_def)
  show "slice 3 5 f = le_bytes 2 cmd"
    using slice_shift [of "[hdr, dev, ty]" 0 2 "le_bytes 2 cmd @ ?L @ [marker] @ payload @ crc"]
    by (simp add: f_def encode_frame_def slice_append_left slice_def)
  show "slice 5 9 f = ?L"
    using slice_shift [of "[hdr, dev, ty] @ le_bytes 2 cmd" 0 4 "?L @ [marker] @ payload @ crc"]
    by (simp add: f_def encode_frame_def slice_append_left slice_def)
  have "f = ([hdr, dev, ty] @ le_bytes 2 cmd @ ?L) @ marker # payload @ crc"
    by (simp add: f_def encode_frame_def)
  then show "f ! 9 = marker"
    using nth_append_length [of "[hdr, dev, ty] @ le_bytes 2 cmd @ ?L" marker "payload @ crc"] by simp
  show "slice 10 (10 + length payload) f = payload"
    using slice_shift [of "[hdr, dev, ty] @ le_bytes 2 cmd @ ?L @ [marker]" 0 "length payload"
        "payload @ crc"]
    by (simp add: f_def encode_frame_def slice_append_left slice_def)
qed

lemma encode_frame_well_framed:
  assumes "hdr \<in> set HEADER_BYTES" "marker \<in> set VALID_MARKER_BYTES" "length crc = 2"
    "length payload \<le> 244"
  shows "well_framed (encode_frame hdr dev ty cmd marker payload crc)"
  using assms
  by (simp add: well_framed_def encode_frame_fields le_val_le_bytes MAX_PACKET_LEN_def)

lemma next_frame_skip:
  "no_header noise \<Longrightarrow> next_frame (pre @ noise @ rest) (length pre)
     = next_frame (pre @ noise @ rest) (length pre + length noise)"
proof (induction noise arbitrary: pre)
  case (Cons b noise)
  have b: "b \<notin> set HEADER_BYTES" using Cons.prems by (simp add: no_header_def)
  have "next_frame (pre @ (b # noise) @ rest) (length pre)
      = next_frame (pre @ (b # noise) @ rest) (length pre + 1)"
    using b by (subst next_frame.simps) (simp add: nth_append)
  also have "\<dots> = next_frame ((pre @ [b]) @ noise @ rest) (length (pre @ [b]))" by simp
  also have "\<dots> = next_frame ((pre @ [b]) @ noise @ rest) (length (pre @ [b]) + length noise)"
    by (rule Cons.IH) (use Cons.prems in \<open>simp add: no_header_def\<close>)
  finally show ?case by simp
qed simp

lemma next_frame_end: "length raw \<le> offset \<Longrightarrow> next_frame raw offset = None"
  by (subst next_frame.simps) simp

lemma next_frame_hit:
  assumes "well_framed f"
  shows "next_frame (pre @ f @ rest) (length pre) = Some (f, length pre + length f)"
proof -
  let ?raw = "pre @ f @ rest" and ?o = "length pre"
  have len: "10 \<le> length f" using assms by (simp add: well_framed_def)
  have h: "?raw ! ?o = f ! 0" "?raw ! (?o + 9) = f ! 9"
    using len by (auto simp: nth_append)
  have l: "slice (?o + 5) (?o + 9) ?raw = slice 5 9 f"
    using len by (simp only: slice_shift) (simp add: slice_append_left)
  have whole: "slice ?o (?o + length f) ?raw = f"
    using slice_shift [of pre 0 "length f" "f @ rest"] by (simp add: slice_append_left)
  show ?thesis
    using assms len h
    by (subst next_frame.simps) (auto simp: Let_def l whole well_framed_def)
qed

lemma iter_frames_from_Nil: "length raw \<le> offset \<Longrightarrow> iter_frames_from raw offset = Some []"
  by (subst iter_frames_from.simps) (simp add: next_frame_end)

text \<open>
  What the scanner passes over: a byte that is no header, or a header followed by a length field or a
  marker no frame has.  A start that passes is a frame when the buffer holds all of it.
\<close>

definition false_start :: "bytes \<Rightarrow> bool" where
  "false_start bs \<longleftrightarrow> bs ! 0 \<notin> set HEADER_BYTES \<or> MAX_PACKET_LEN < le_val (slice 5 9 bs) \<or>
     bs ! 9 \<notin> set VALID_MARKER_BYTES"

definition whole_frame :: "bytes \<Rightarrow> bool" where
  "whole_frame bs \<longleftrightarrow> 10 \<le> length bs \<and> \<not> false_start bs \<and> le_val (slice 5 9 bs) \<le> length bs"

fun noise_before :: "bytes \<Rightarrow> bytes \<Rightarrow> bool" where
  "noise_before [] rest = True"
| "noise_before (b # bs) rest = (false_start (b # bs @ rest) \<and> noise_before bs rest)"

fun noise_after :: "bytes \<Rightarrow> bool" where
  "noise_after [] = True"
| "noise_after (b # bs) = (\<not> whole_frame (b # bs) \<and> noise_after bs)"

fun stream_bytes :: "(bytes \<times> bytes) list \<Rightarrow> bytes \<Rightarrow> bytes" where
  "stream_bytes [] tail = tail"
| "stream_bytes ((noise, f) # segs) tail = noise @ f @ stream_bytes segs tail"

fun noisy_stream :: "(bytes \<times> bytes) list \<Rightarrow> bytes \<Rightarrow> bool" where
  "noisy_stream [] tail = noise_after tail"
| "noisy_stream ((noise, f) # segs) tail =
     (well_framed f \<and> noise_before noise (f @ stream_bytes segs tail) \<and> noisy_stream segs tail)"

lemma at_offset:
  "10 \<le> length bs \<Longrightarrow> le_val (slice (length pre + 5) (length pre + 9) (pre @ bs)) = le_val (slice 5 9 bs)"
  "(pre @ bs) ! (length pre + 9) = bs ! 9" "bs \<noteq> [] \<Longrightarrow> (pre @ bs) ! length pre = bs ! 0"
  by (simp_all only: slice_shift nth_append_length_plus) (simp add: nth_append)

lemma next_frame_false_start:
  assumes "false_start bs" "10 \<le> length bs"
  shows "next_frame (pre @ bs) (length pre) = next_frame (pre @ bs) (length pre + 1)"
proof -
  have "bs \<noteq> []" using assms(2) by auto
  then show ?thesis
    using assms at_offset [of bs pre] by (subst next_frame.simps) (auto simp: false_start_def Let_def)
qed

lemma next_frame_noise:
  "noise_before noise rest \<Longrightarrow> 10 \<le> length rest \<Longrightarrow>
     next_frame (pre @ noise @ rest) (length pre) = next_frame (pre @ noise @ rest) (length pre + length noise)"
proof (induction noise arbitrary: pre)
  case (Cons b noise)
  have "next_frame (pre @ (b # noise @ rest)) (length pre) = next_frame ((pre @ [b]) @ noise @ rest) (length (pre @ [b]))"
    using next_frame_false_start [of "b # noise @ rest" pre] Cons.prems by simp
  also have "\<dots> = next_frame ((pre @ [b]) @ noise @ rest) (length (pre @ [b]) + length noise)"
    by (rule Cons.IH) (use Cons.prems in simp_all)
  finally show ?case by simp
qed simp

lemma next_frame_tail: "noise_after tail \<Longrightarrow> next_frame (pre @ tail) (length pre) = None"
proof (induction tail arbitrary: pre)
  case (Cons b tail)
  have step: "next_frame (pre @ b # tail) (length pre + 1) = None" using Cons.IH [of "pre @ [b]"] Cons.prems by simp
  let ?bs = "b # tail"
  have bs: "(pre @ ?bs) ! length pre = b" "(pre @ ?bs) ! (length pre + 9) = ?bs ! 9"
    using at_offset(2) [of pre ?bs] by simp_all
  show ?case
  proof (cases "length ?bs < 10")
    case True
    then show ?thesis using step bs by (subst next_frame.simps) (simp add: Let_def)
  next
    case False
    then have tl: "le_val (slice (length pre + 5) (length pre + 9) (pre @ ?bs)) = le_val (slice 5 9 ?bs)"
      using at_offset(1) [of ?bs pre] by simp
    show ?thesis
      using Cons.prems False step bs
      by (subst next_frame.simps) (auto simp: Let_def tl whole_frame_def false_start_def not_le)
  qed
qed (simp add: next_frame_end)

lemma iter_frames_noisy:
  "noisy_stream segs tail \<Longrightarrow>
     iter_frames_from (pre @ stream_bytes segs tail) (length pre) = Some (map snd segs)"
proof (induction segs tail arbitrary: pre rule: stream_bytes.induct)
  case (1 tail)
  then show ?case by (simp add: iter_frames_from.simps [of "pre @ tail"] next_frame_tail)
next
  case (2 noise f segs tail)
  let ?rest = "stream_bytes segs tail"
  have f: "well_framed f" "10 \<le> length f" using "2.prems" by (simp_all add: well_framed_def)
  have "next_frame (pre @ noise @ f @ ?rest) (length pre) = Some (f, length (pre @ noise) + length f)"
    using next_frame_noise [of noise "f @ ?rest" pre] next_frame_hit [OF f(1), of "pre @ noise" ?rest] "2.prems" f(2) by simp
  moreover have "iter_frames_from ((pre @ noise @ f) @ ?rest) (length (pre @ noise @ f)) = Some (map snd segs)"
    by (rule "2.IH") (use "2.prems" in simp)
  ultimately show ?case by (subst iter_frames_from.simps) (simp add: add.assoc)
qed

lemma headerless_noise:
  "no_header noise \<Longrightarrow> noise_before noise rest" "no_header tail \<Longrightarrow> noise_after tail"
  by (induction noise; simp add: no_header_def false_start_def)
    (induction tail; simp add: no_header_def whole_frame_def false_start_def)

text \<open>What one resumption of the scanner can yield.\<close>

definition frame_at :: "bytes \<Rightarrow> nat \<Rightarrow> bytes \<Rightarrow> bool" where
  "frame_at raw start f \<longleftrightarrow> start + 10 \<le> length raw \<and> raw ! start \<in> set HEADER_BYTES \<and>
     raw ! (start + 9) \<in> set VALID_MARKER_BYTES \<and>
     le_val (slice (start + 5) (start + 9) raw) = length f \<and> length f \<le> MAX_PACKET_LEN \<and>
     start + length f \<le> length raw \<and> f = slice start (start + length f) raw"

lemma next_frame_Some:
  "next_frame raw offset = Some (f, offset') \<Longrightarrow>
   \<exists>start\<ge>offset. frame_at raw start f \<and> offset' = start + length f"
proof (induction raw offset rule: next_frame.induct)
  case (1 raw offset)
  let ?tl = "le_val (slice (offset + 5) (offset + 9) raw)"
  note eq = next_frame.simps [of raw offset]
  have lt: "\<not> length raw \<le> offset" using "1.prems" by (auto simp: next_frame_end)
  have widen: "\<exists>start\<ge>offset + 1. P start \<Longrightarrow> \<exists>start\<ge>offset. P start" for P
    by (meson add_leD1)
  show ?case
  proof (cases "raw ! offset \<in> set HEADER_BYTES")
    case False
    with lt "1.prems" have "next_frame raw (offset + 1) = Some (f, offset')" by (simp add: eq)
    from "1.IH"(1) [OF refl lt False this] show ?thesis by (rule widen)
  next
    case hd: True
    then have len: "\<not> length raw - offset < 10" using lt "1.prems" by (auto simp: eq)
    show ?thesis
    proof (cases "MAX_PACKET_LEN < ?tl \<or> raw ! (offset + 9) \<notin> set VALID_MARKER_BYTES")
      case True
      with lt hd len "1.prems" have nx: "next_frame raw (offset + 1) = Some (f, offset')"
        by (auto simp: eq Let_def split: if_splits)
      have "\<exists>start\<ge>offset + 1. frame_at raw start f \<and> offset' = start + length f"
      proof (cases "MAX_PACKET_LEN < ?tl")
        case big: True
        show ?thesis by (rule "1.IH"(2) [OF refl lt _ len refl big nx]) (use hd in simp)
      next
        case small: False
        with True have "raw ! (offset + 9) \<notin> set VALID_MARKER_BYTES" by simp
        then show ?thesis by (intro "1.IH"(3) [OF refl lt _ len refl small _ nx]) (use hd in simp_all)
      qed
      then show ?thesis by (rule widen)
    next
      case False
      with lt hd len "1.prems"
      have "\<not> length raw < offset + ?tl" "f = slice offset (offset + ?tl) raw" "offset' = offset + ?tl"
        by (auto simp: eq Let_def split: if_splits)
      moreover from this have "length f = ?tl" by simp
      ultimately show ?thesis
        using hd len False by (intro exI [of _ offset]) (simp add: frame_at_def)
    qed
  qed
qed

lemma frame_command_ok_iff: "is_ok (frame_command f) \<longleftrightarrow> 5 \<le> length f"
  by (auto simp: frame_command_def unpack_H_def unpack_le_def)

section \<open>Facts about the write splitter\<close>

lemma chunk_size_bounds: "20 \<le> chunk_size mtu" "chunk_size mtu \<le> 100"
  by (auto simp: chunk_size_def SPLIT_WRITE_CHUNK_MAX_def)

lemma chunks_of_Nil [simp]: "chunks_of c [] = []"
  by (simp add: chunks_of.simps)

lemma concat_chunks_of: "0 < c \<Longrightarrow> concat (chunks_of c data) = data"
proof (induction c data rule: chunks_of.induct)
  case (1 c data)
  then show ?case by (cases "data = []") (simp_all add: chunks_of.simps [of c data])
qed

lemma chunks_of_lengths:
  "0 < c \<Longrightarrow> x \<in> set (chunks_of c data) \<Longrightarrow> x \<noteq> [] \<and> length x \<le> c"
proof (induction c data rule: chunks_of.induct)
  case (1 c data)
  then show ?case
    by (cases "data = []") (auto simp: chunks_of.simps [of c data])
qed

lemma chunks_of_full:
  "0 < c \<Longrightarrow> x \<in> set (butlast (chunks_of c data)) \<Longrightarrow> length x = c"
proof (induction c data rule: chunks_of.induct)
  case (1 c data)
  show ?case
  proof (cases "drop c data = []")
    case True
    then have "chunks_of c (drop c data) = []" by (subst chunks_of.simps) simp
    with "1.prems" show ?thesis by (cases "data = []") (auto simp: chunks_of.simps [of c data])
  next
    case False
    then show ?thesis
      using "1" by (cases "data = []") (auto simp: chunks_of.simps [of c data] split: if_splits)
  qed
qed

section \<open>Properties\<close>

text \<open>
  Every packet the builder emits verifies: running the CRC over the whole packet,
  trailing CRC bytes included, gives zero.
\<close>

theorem built_packet_verifies:
  assumes "build_packet_raw command data type_code device_id = Inr p"
  shows "crc16 p = 0"
  by (simp only: build_packet_raw_layout [OF assms] Let_def crc16_residue)

theorem built_packet_verifies_witness:
  "\<exists>p. build_packet_raw 8100 [1, 2] 1 1 = Inr p \<and> crc16 p = 0"
proof -
  have "is_ok (build_packet_raw 8100 [1, 2] 1 1)" by (subst build_packet_raw_ok_iff) simp
  then obtain p where "build_packet_raw 8100 [1, 2] 1 1 = Inr p" by (auto elim: is_okE)
  with built_packet_verifies [OF this] show ?thesis by blast
qed

text \<open>
  C29. The CRC detects every corruption confined to one byte: two byte strings that differ
  in exactly one position have different CRCs.
\<close>

theorem crc16_detects_byte_error:
  assumes "x \<noteq> y"
  shows "crc16 (xs @ x # ys) \<noteq> crc16 (xs @ y # ys)"
proof
  let ?c = "crc16 xs"
  have c: "?c < 65536" by simp
  assume "crc16 (xs @ x # ys) = crc16 (xs @ y # ys)"
  then have "crc_byte ?c x = crc_byte ?c y"
    using c by (simp add: crc16_def) (erule crc_fold_inj_state [rotated 2]; simp add: crc_byte_bound)
  with c have "x = y" by (rule crc_byte_inj_byte)
  with assms show False by contradiction
qed

theorem crc16_detects_byte_error_witness:
  "(3 :: byte) \<noteq> 4 \<and> crc16 ([0x58, 1] @ 3 # [7]) \<noteq> crc16 ([0x58, 1] @ 4 # [7])"
proof -
  have h: "(3 :: byte) \<noteq> 4" by simp
  show ?thesis using h crc16_detects_byte_error [OF h, of "[0x58, 1]" "[7]"] by simp
qed

text \<open>
  The builder succeeds exactly when device id and type fit a byte, the command fits
  16 bits and the total length fits 32 bits; in particular the CRC always packs.
\<close>

theorem build_packet_raw_succeeds_iff:
  "(\<exists>p. build_packet_raw command data type_code device_id = Inr p) \<longleftrightarrow>
     0 \<le> device_id \<and> device_id < 256 \<and> 0 \<le> type_code \<and> type_code < 256 \<and>
     0 \<le> command \<and> command < 65536 \<and> 12 + length data < 2 ^ 32"
  by (subst build_packet_raw_ok_iff [symmetric]) (auto simp: is_ok_def split: sum.splits)

text \<open>
  Fields of a built packet read back: the accessors return the command and the payload
  it was built from, and its length field is its length.
\<close>

theorem built_packet_fields:
  assumes "build_packet_raw command data type_code device_id = Inr p"
  shows "(frame_command p = Inr command) \<and>
    (frame_payload p = data) \<and>
    (le_val (slice 5 9 p) = length p)"
proof -
  have rng: "0 \<le> command" "command < 65536" "12 + length data < 2 ^ 32"
    using build_packet_raw_ok_iff [of command data type_code device_id] assms by simp_all
  obtain k where k: "length k = 2" and
    p: "p = encode_frame 0x58 (word_of_int device_id) (word_of_int type_code) (nat command) 0x01 data k"
    using build_packet_raw_layout [OF assms]
    by (auto simp: encode_frame_def Let_def intro!: that [OF length_le_bytes])
  have c1: "frame_command p = Inr command"
    using rng by (simp add: frame_command_def p encode_frame_fields unpack_H_def unpack_le_def
        le_val_le_bytes)
  have c2: "frame_payload p = data"
  proof -
    have "length p = 12 + length data" "length p - 2 = 10 + length data" using k by (simp_all add: p)
    then show ?thesis
      unfolding frame_payload_def by (cases "data = []") (simp_all add: p encode_frame_fields)
  qed
  have c3: "le_val (slice 5 9 p) = length p"
    using rng k by (simp add: p encode_frame_fields le_val_le_bytes)
  show ?thesis using c1 c2 c3 by blast
qed

theorem built_packet_fields_witness:
  "\<exists>p. build_packet_raw 11511 [0x91, 0x32] 2 1 = Inr p \<and>
     frame_command p = Inr 11511 \<and> frame_payload p = [0x91, 0x32]"
proof -
  have "is_ok (build_packet_raw 11511 [0x91, 0x32] 2 1)" by (subst build_packet_raw_ok_iff) simp
  then obtain p where "build_packet_raw 11511 [0x91, 0x32] 2 1 = Inr p" by (auto elim: is_okE)
  with built_packet_fields [OF this] show ?thesis by blast
qed

text \<open>
  C19. Scanning recovers what was sent: a buffer of well-formed frames, with any bytes around them
  that start no frame, yields exactly those frames in order.  The bytes between may well contain the
  header bytes: it is enough that at each of them the header, the length field (at most 256) or the
  marker is wrong, where the ten bytes read may reach into the frame that follows.  After the last
  frame anything may come that holds no whole frame, such as the beginning of one.
\<close>

theorem iter_frames_recovers_stream:
  assumes "noisy_stream segs tail"
  shows "iter_frames (stream_bytes segs tail) = Some (map snd segs)"
  using iter_frames_noisy [OF assms, of "[]"] by (simp add: iter_frames_def)

theorem iter_frames_recovers_stream_witness:
  "iter_frames ([0x58, 0x31, 0x02] @ encode_frame 0x58 1 7 8023 0xC1 [0x22] [0, 0]
      @ encode_frame 0x02 1 7 40507 0xC2 [] [0, 0] @ [0xFF, 0x58])
   = Some [encode_frame 0x58 1 7 8023 0xC1 [0x22] [0, 0], encode_frame 0x02 1 7 40507 0xC2 [] [0, 0]]"
proof -
  let ?f = "encode_frame 0x58 1 7 8023 0xC1 [0x22] [0, 0]"
  let ?g = "encode_frame 0x02 1 7 40507 0xC2 [] [0, 0]"
  have frames: "well_framed ?f" "well_framed ?g" by (simp_all add: encode_frame_well_framed framing_consts)
  have "noise_before [0x58, 0x31, 0x02] (?f @ ?g @ [0xFF, 0x58])"
    by (simp add: false_start_def framing_consts encode_frame_def slice_def le_bytes_def)
  moreover have "noise_after [0xFF, 0x58]" by (simp add: whole_frame_def)
  ultimately have "noisy_stream [([0x58, 0x31, 0x02], ?f), ([], ?g)] [0xFF, 0x58]" using frames by simp
  from iter_frames_recovers_stream [OF this] show ?thesis by simp
qed

text \<open>
  C30. A buffer without a zero-length candidate header is always scanned to the end, and
  every frame yielded is a non-empty piece of the buffer of at most 256 bytes that passes
  the three checks.
\<close>

theorem iter_frames_terminates:
  assumes "\<forall>start. \<not> frame_at raw start []"
  shows "\<exists>fs. iter_frames raw = Some fs \<and>
    list_all (\<lambda>f. f \<noteq> [] \<and> length f \<le> MAX_PACKET_LEN \<and> (\<exists>start. frame_at raw start f)) fs"
proof -
  let ?P = "list_all (\<lambda>f. f \<noteq> [] \<and> length f \<le> MAX_PACKET_LEN \<and> (\<exists>start. frame_at raw start f))"
  have "\<exists>fs. iter_frames_from raw offset = Some fs \<and> ?P fs" for offset
  proof (induction "length raw - offset" arbitrary: offset rule: less_induct)
    case less
    show ?case
    proof (cases "next_frame raw offset")
      case None
      then show ?thesis by (subst iter_frames_from.simps) simp
    next
      case (Some r)
      obtain f o' where r: "r = (f, o')" by (cases r)
      obtain start where st: "offset \<le> start" "frame_at raw start f" "o' = start + length f"
        using next_frame_Some Some r by blast
      have f: "f \<noteq> []" using st(2) assms by blast
      then have "0 < length f" by simp
      with st have "offset < o'" "o' \<le> length raw" by (auto simp only: frame_at_def)
      then have "length raw - o' < length raw - offset" by linarith
      from less [OF this] obtain fs where fs: "iter_frames_from raw o' = Some fs" "?P fs"
        by blast
      have "iter_frames_from raw offset = Some (f # fs)"
        by (subst iter_frames_from.simps) (simp add: Some r fs)
      moreover have "length f \<le> MAX_PACKET_LEN" using st(2) by (simp add: frame_at_def)
      ultimately show ?thesis using fs(2) f st(2) by auto
    qed
  qed
  then show ?thesis by (simp add: iter_frames_def)
qed

theorem iter_frames_terminates_witness:
  "(\<forall>start. \<not> frame_at [0x58, 1, 2] start []) \<and> (\<exists>fs. iter_frames [0x58, 1, 2] = Some fs)"
proof -
  have h: "\<forall>start. \<not> frame_at [0x58, 1, 2] start []" by (simp add: frame_at_def)
  show ?thesis using h iter_frames_terminates [OF h] by blast
qed

text \<open>
  A header whose length field is zero makes the scan yield the empty frame for ever:
  the offset never moves, so exhausting the generator never returns.
\<close>

theorem iter_frames_zero_length_diverges:
  assumes "frame_at raw offset []"
  shows "next_frame raw offset = Some ([], offset) \<and> iter_frames_from raw offset = None"
proof (rule conjI)
  show nf: "next_frame raw offset = Some ([], offset)"
    using assms by (subst next_frame.simps) (auto simp: frame_at_def Let_def slice_def)
  show "iter_frames_from raw offset = None"
  proof (cases "iter_frames_from raw offset")
    case (Some fs)
    have "iter_frames_from raw offset = Some ([] # fs)"
      by (subst iter_frames_from.simps) (simp add: nf Some)
    with Some show ?thesis by simp
  qed simp
qed

theorem iter_frames_zero_length_diverges_witness:
  "iter_frames [0x58, 1, 7, 0x57, 0x1F, 0, 0, 0, 0, 0xC1] = None"
proof -
  have "frame_at [0x58, 1, 7, 0x57, 0x1F, 0, 0, 0, 0, 0xC1] 0 []"
    by (simp add: frame_at_def framing_consts slice_def)
  from iter_frames_zero_length_diverges [OF this] show ?thesis by (simp add: iter_frames_def)
qed

lemma concat_split_write_chunks: "concat (split_write_chunks data mtu) = data"
  using chunk_size_bounds(1) [of mtu] by (simp add: split_write_chunks_def concat_chunks_of)

lemma split_write_chunks_small: "c \<in> set (split_write_chunks data mtu) \<Longrightarrow> length c \<le> 100"
  using chunk_size_bounds [of mtu] chunks_of_lengths [of "chunk_size mtu" c data]
  by (simp add: split_write_chunks_def)

text \<open>
  Splitting a write loses nothing: the chunks concatenate to the packet, none is empty
  or longer than 100 bytes, and all but the last have the chunk size, which is at least 20
  whatever MTU the backend reports.
\<close>

theorem split_write_chunks_correct:
  "concat (split_write_chunks data mtu) = data \<and>
   (\<forall>c \<in> set (split_write_chunks data mtu). c \<noteq> [] \<and> length c \<le> 100) \<and>
   (\<forall>c \<in> set (butlast (split_write_chunks data mtu)). length c = chunk_size mtu) \<and>
   20 \<le> chunk_size mtu"
proof -
  have pos: "0 < chunk_size mtu" using chunk_size_bounds(1) [of mtu] by simp
  have "length c \<le> 100" if "c \<in> set (chunks_of (chunk_size mtu) data)" for c
    using chunks_of_lengths [OF pos that] chunk_size_bounds(2) [of mtu] by linarith
  then show ?thesis
    using concat_chunks_of [OF pos] chunks_of_lengths [OF pos] chunks_of_full [OF pos]
      chunk_size_bounds
    by (auto simp: split_write_chunks_def)
qed

theorem split_write_chunks_correct_witness:
  "split_write_chunks (replicate 21 7) 0 = [replicate 20 7, [7]]
   \<and> concat (split_write_chunks (replicate 21 7) 0) = replicate 21 7"
proof -
  have "chunk_size 0 = 20" by (simp add: chunk_size_def)
  then have "split_write_chunks (replicate 21 7) 0 = [replicate 20 7, [7]]"
    by (simp add: split_write_chunks_def chunks_of.simps)
  then show ?thesis using split_write_chunks_correct [of "replicate 21 7" 0] by blast
qed

end
