(* ===== verification/Heartbeat.thy ===== *)
theory Heartbeat
  imports Models Framing
begin

text \<open>
  The client's receive state and the raw status heartbeat (\<^verbatim>\<open>ble/client.py\<close>, first half of the
  notification path): the scale glitch filter, the heartbeat code maps, the scale-calibration
  latch, the brew context, the state label and the screen tracking.  Fired events are kept in
  firing order in \<open>events\<close>, each with the status its callback sees; the callbacks that receive
  them are the coordinator's.
\<close>

section \<open>Client state\<close>

datatype attr = AInt int | AFloat pyfloat | AStr string

type_synonym attrs = "(string \<times> attr) list"
type_synonym event = "string \<times> string \<times> attrs"

record client =
  status :: device_status
  last_notification_monotonic :: rat
  pending_acks :: "(int \<times> nat list) list"
  ack_done :: "(nat \<times> bytes res) list"
  last_accepted_weight :: "pyfloat option"
  weight_out_of_limit_count :: nat
  scale_calibrating :: bool
  brew_context :: bool
  cleanup_on_disconnect :: bool
  gc_size :: int
  gc_speed :: int
  events :: "(event \<times> device_status) list"

definition init_client :: "rat \<Rightarrow> client" where
  "init_client now = \<lparr>status = init_status, last_notification_monotonic = now, pending_acks = [],
     ack_done = [], last_accepted_weight = None, weight_out_of_limit_count = 0,
     scale_calibrating = False, brew_context = False, cleanup_on_disconnect = True,
     gc_size = 50, gc_speed = 100, events = []\<rparr>"

definition fire_event :: "string \<Rightarrow> string \<Rightarrow> attrs \<Rightarrow> client \<Rightarrow> client" where
  "fire_event category event_type attributes c =
     c\<lparr>events := events c @ [((category, event_type, attributes), status c)]\<rparr>"

section \<open>The scale glitch filter\<close>

definition WEIGHT_GLITCH_LIMIT :: pyfloat where "WEIGHT_GLITCH_LIMIT = Fin 300"
definition WEIGHT_GLITCH_ESCAPE_COUNT :: nat where "WEIGHT_GLITCH_ESCAPE_COUNT = 4"

definition far_from :: "pyfloat \<Rightarrow> pyfloat \<Rightarrow> bool" where
  "far_from prev new \<longleftrightarrow> flt WEIGHT_GLITCH_LIMIT (fabs (fsub new prev))"

definition filter_weight :: "pyfloat \<Rightarrow> client \<Rightarrow> pyfloat \<times> client" where
  "filter_weight new c =
     (case last_accepted_weight c of
        Some prev \<Rightarrow>
          if far_from prev new \<and> weight_out_of_limit_count c < WEIGHT_GLITCH_ESCAPE_COUNT
          then (prev, c\<lparr>weight_out_of_limit_count := weight_out_of_limit_count c + 1\<rparr>)
          else (new, c\<lparr>last_accepted_weight := Some new, weight_out_of_limit_count := 0\<rparr>)
      | None \<Rightarrow> (new, c\<lparr>last_accepted_weight := Some new, weight_out_of_limit_count := 0\<rparr>))"

text \<open>The readings reported for a stream of raw weights.\<close>

fun filter_run :: "pyfloat list \<Rightarrow> client \<Rightarrow> pyfloat list \<times> client" where
  "filter_run [] c = ([], c)"
| "filter_run (w # ws) c =
     (let (r, c1) = filter_weight w c; (rs, c2) = filter_run ws c1 in (r # rs, c2))"

section \<open>Heartbeat codes\<close>

definition STATUS_FRAME_TYPE_BYTE :: byte where "STATUS_FRAME_TYPE_BYTE = 0x57"

definition RAW_STATE_LABEL_MAP :: "(nat \<times> string) list" where
  "RAW_STATE_LABEL_MAP =
    [(0x0C, ''water_shortage''), (0x0F, ''no_beans''), (0x1E, ''awaiting_confirm''),
     (0x1F, ''recipe_loaded''), (0x22, ''starting''), (0x10, ''brewing''), (0x23, ''brewing''),
     (0x3B, ''brewing''), (0x45, ''brewing''), (0x24, ''ready''),
     (0x26, ''calibrating_grinder''), (0x27, ''calibrating_grinder''),
     (0x2F, ''descaling''), (0x32, ''descaling''),
     (0x39, ''calibrating_scale''), (0x3A, ''calibrating_scale'')]"

definition SCREEN_CODE_MAP :: "(nat \<times> string) list" where
  "SCREEN_CODE_MAP =
    [(0x01, ''home''), (0x41, ''home''), (0x02, ''grind''), (0x06, ''grind''), (0x07, ''grind''),
     (0x03, ''pour''), (0x08, ''pour''), (0x09, ''pour''), (0x04, ''scale''), (0x05, ''scale''),
     (0x17, ''settings''), (0x18, ''settings''), (0x19, ''settings'')]"

definition SCALE_CAL_ENTRY_CODES :: "nat list" where "SCALE_CAL_ENTRY_CODES = [0x39, 0x3A]"
definition SCALE_CAL_STEP_CODES :: "nat list" where "SCALE_CAL_STEP_CODES = [0x3C, 0x3F]"
definition SCALE_CAL_ARMING_CODES :: "nat list" where
  "SCALE_CAL_ARMING_CODES = SCALE_CAL_ENTRY_CODES @ SCALE_CAL_STEP_CODES"
definition CALIBRATION_DONE_CODE :: nat where "CALIBRATION_DONE_CODE = 0x25"
definition SCALE_CAL_AMBIGUOUS_CODES :: "nat list" where "SCALE_CAL_AMBIGUOUS_CODES = [0x3B]"
definition BREW_CONTEXT_CODES :: "nat list" where
  "BREW_CONTEXT_CODES = [0x1E, 0x1F, 0x22, 0x10, 0x23]"
definition ENDS_BREW_CONTEXT_LABELS :: "string list" where
  "ENDS_BREW_CONTEXT_LABELS =
     [''ready'', ''descaling'', ''calibrating_grinder'', ''calibrating_scale'']"

lemmas code_maps = RAW_STATE_LABEL_MAP_def SCREEN_CODE_MAP_def SCALE_CAL_ENTRY_CODES_def
  SCALE_CAL_STEP_CODES_def SCALE_CAL_ARMING_CODES_def CALIBRATION_DONE_CODE_def
  SCALE_CAL_AMBIGUOUS_CODES_def BREW_CONTEXT_CODES_def ENDS_BREW_CONTEXT_LABELS_def

definition ends_scale_calibration :: "nat \<Rightarrow> bool" where
  "ends_scale_calibration code =
     (if code = CALIBRATION_DONE_CODE then True
      else if code \<in> set SCALE_CAL_ARMING_CODES \<or> code \<in> set SCALE_CAL_AMBIGUOUS_CODES then False
      else map_of RAW_STATE_LABEL_MAP code \<noteq> None \<or> map_of SCREEN_CODE_MAP code \<noteq> None)"

definition ends_brew_context :: "nat \<Rightarrow> bool" where
  "ends_brew_context code =
     (if code = CALIBRATION_DONE_CODE \<or> map_of SCREEN_CODE_MAP code \<noteq> None then True
      else case map_of RAW_STATE_LABEL_MAP code of
             None \<Rightarrow> False
           | Some label \<Rightarrow> label \<in> set ENDS_BREW_CONTEXT_LABELS)"

section \<open>The heartbeat step\<close>

definition update_brew_context :: "nat \<Rightarrow> client \<Rightarrow> client" where
  "update_brew_context code c =
     (if scale_calibrating c then c\<lparr>brew_context := False\<rparr>
      else if code \<in> set BREW_CONTEXT_CODES then c\<lparr>brew_context := True\<rparr>
      else if ends_brew_context code then c\<lparr>brew_context := False\<rparr>
      else c)"

definition state_label_for :: "nat \<Rightarrow> client \<Rightarrow> string option" where
  "state_label_for code c =
     (if scale_calibrating c then Some ''calibrating_scale''
      else if code \<in> set SCALE_CAL_AMBIGUOUS_CODES \<and> \<not> brew_context c
        \<and> \<not> b_is_running (brewer (status c)) \<and> \<not> g_is_running (grinder (status c))
      then None
      else map_of RAW_STATE_LABEL_MAP code)"

definition update_calibration_latch :: "nat \<Rightarrow> client \<Rightarrow> client" where
  "update_calibration_latch code c =
     (if code \<in> set SCALE_CAL_ARMING_CODES then c\<lparr>scale_calibrating := True\<rparr>
      else if scale_calibrating c \<and> ends_scale_calibration code
      then c\<lparr>scale_calibrating := False\<rparr>
      else c)"

definition stop_runs :: "device_status \<Rightarrow> device_status" where
  "stop_runs s = s\<lparr>grinder := (grinder s)\<lparr>g_is_running := False\<rparr>,
     brewer := (brewer s)\<lparr>b_is_running := False\<rparr>,
     state := (if state s \<in> {GRINDING, BREWING, PAUSED} then IDLE else state s)\<rparr>"

definition apply_screen :: "nat \<Rightarrow> device_status \<Rightarrow> device_status" where
  "apply_screen code s =
     (let s1 = s\<lparr>screen_code := Some code, screen := map_of SCREEN_CODE_MAP code\<rparr>
      in case screen s1 of
           None \<Rightarrow> s1
         | Some page \<Rightarrow> stop_runs (s1\<lparr>last_page := Some page\<rparr>))"

definition status_code_step :: "nat \<Rightarrow> client \<Rightarrow> client" where
  "status_code_step code c =
     (let c1 = update_calibration_latch code c;
          c2 = update_brew_context code c1;
          s = (status c2)\<lparr>raw_state_label := state_label_for code c2\<rparr>
      in c2\<lparr>status := apply_screen code s\<rparr>)"

definition scan_for_status_frame :: "bytes \<Rightarrow> client \<Rightarrow> client" where
  "scan_for_status_frame raw c =
     (if length raw \<le> 12 \<or> raw ! 3 \<noteq> STATUS_FRAME_TYPE_BYTE then c
      else case slice 10 (length raw - 2) raw of
             [] \<Rightarrow> c
           | code # _ \<Rightarrow> status_code_step (unat code) c)"

text \<open>A run of heartbeats.\<close>

definition status_run :: "nat list \<Rightarrow> client \<Rightarrow> client" where
  "status_run codes c = fold status_code_step codes c"

section \<open>Facts\<close>

lemma map_of_disjoint:
  assumes "list_all (\<lambda>k. map_of m2 k = None) (map fst m1)" "map_of m1 k = Some v"
  shows "map_of m2 k = None"
  using assms by (metis (mono_tags, lifting) in_set_conv_nth list_all_length list_all_iff
      map_of_SomeD set_map image_eqI fst_conv)

lemma label_screen_disjoint:
  "map_of RAW_STATE_LABEL_MAP code = Some l \<Longrightarrow> map_of SCREEN_CODE_MAP code = None"
  by (rule map_of_disjoint [where ?m1.0 = RAW_STATE_LABEL_MAP]) (simp_all add: code_maps)

lemma screen_ends_calibration:
  "map_of SCREEN_CODE_MAP code = Some p \<Longrightarrow>
     ends_scale_calibration code \<and> code \<notin> set SCALE_CAL_ARMING_CODES"
  by (auto simp: ends_scale_calibration_def code_maps split: if_splits)

lemma latch_after_step:
  "scale_calibrating (status_code_step code c) =
     (code \<in> set SCALE_CAL_ARMING_CODES \<or> scale_calibrating c \<and> \<not> ends_scale_calibration code)"
  by (auto simp: status_code_step_def update_brew_context_def update_calibration_latch_def Let_def)

lemma stop_runs_fields [simp]:
  "raw_state_label (stop_runs s) = raw_state_label s" "screen (stop_runs s) = screen s"
  "last_page (stop_runs s) = last_page s" "is_sleeping (stop_runs s) = is_sleeping s"
  "\<not> g_is_running (grinder (stop_runs s))" "\<not> b_is_running (brewer (stop_runs s))"
  "state (stop_runs s) \<noteq> GRINDING" "state (stop_runs s) \<noteq> BREWING" "state (stop_runs s) \<noteq> PAUSED"
  by (auto simp: stop_runs_def)

lemma apply_screen_fields:
  "raw_state_label (apply_screen code s) = raw_state_label s"
  "screen (apply_screen code s) = map_of SCREEN_CODE_MAP code"
  by (auto simp: apply_screen_def Let_def split: option.splits)

lemma label_after_step:
  "raw_state_label (status (status_code_step code c)) =
     state_label_for code (update_brew_context code (update_calibration_latch code c))"
  by (simp add: status_code_step_def Let_def apply_screen_fields)

lemma label_while_calibrating:
  "scale_calibrating (status_code_step code c) \<Longrightarrow>
   raw_state_label (status (status_code_step code c)) = Some ''calibrating_scale''"
  by (auto simp: label_after_step state_label_for_def update_brew_context_def latch_after_step
      update_calibration_latch_def)

lemma screen_after_step:
  "screen (status (status_code_step code c)) = map_of SCREEN_CODE_MAP code"
  by (simp add: status_code_step_def Let_def apply_screen_fields)

lemma status_run_simps [simp]:
  "status_run [] c = c"
  "status_run (x # xs) c = status_run xs (status_code_step x c)"
  by (simp_all add: status_run_def)

section \<open>Properties\<close>

text \<open>
  After any heartbeat the activity label and the screen are never both set; when the
  code is a page, no run flag survives, the cmd-tagged state is no running state, no
  calibration is latched and the page is remembered.
\<close>

theorem heartbeat_page_consistent:
  "\<not> (raw_state_label (status (status_code_step code c)) \<noteq> None \<and>
      screen (status (status_code_step code c)) \<noteq> None) \<and>
   (\<forall>page. screen (status (status_code_step code c)) = Some page \<longrightarrow>
      \<not> g_is_running (grinder (status (status_code_step code c))) \<and>
      \<not> b_is_running (brewer (status (status_code_step code c))) \<and>
      state (status (status_code_step code c)) \<notin> {GRINDING, BREWING, PAUSED} \<and>
      \<not> scale_calibrating (status_code_step code c) \<and>
      last_page (status (status_code_step code c)) = Some page)"
proof (cases "map_of SCREEN_CODE_MAP code")
  case None
  then show ?thesis by (simp add: screen_after_step)
next
  case (Some page)
  have cal: "\<not> scale_calibrating (status_code_step code c)"
    using screen_ends_calibration [OF Some] by (simp add: latch_after_step)
  have "map_of RAW_STATE_LABEL_MAP code = None"
    using label_screen_disjoint [of code] Some by (cases "map_of RAW_STATE_LABEL_MAP code") auto
  then have "raw_state_label (status (status_code_step code c)) = None"
    using cal by (auto simp: label_after_step state_label_for_def update_brew_context_def
        latch_after_step update_calibration_latch_def)
  moreover have "\<exists>s. status (status_code_step code c) = stop_runs s \<and> last_page s = Some page"
    using Some by (auto simp: status_code_step_def apply_screen_def Let_def)
  ultimately show ?thesis using cal Some by (auto simp: screen_after_step)
qed

theorem heartbeat_page_consistent_witness:
  "screen (status (status_code_step 1 (init_client 0))) = Some ''home'' \<and>
   last_page (status (status_code_step 1 (init_client 0))) = Some ''home''"
  using heartbeat_page_consistent [of 1 "init_client 0"]
  by (simp add: screen_after_step SCREEN_CODE_MAP_def)

text \<open>
  A scale calibration never reads as brewing: once a confirm or step code has armed the
  latch, every further heartbeat that does not end the run is labelled as scale calibration,
  including 0x3B and codes in no map at all.
\<close>

theorem calibration_run_never_brewing:
  assumes "entry \<in> set SCALE_CAL_ARMING_CODES"
    and "list_all (\<lambda>code. \<not> ends_scale_calibration code) codes"
  shows "raw_state_label (status (status_run (entry # codes) c)) = Some ''calibrating_scale''"
proof -
  have "scale_calibrating d \<Longrightarrow> raw_state_label (status d) = Some ''calibrating_scale'' \<Longrightarrow>
      raw_state_label (status (status_run codes d)) = Some ''calibrating_scale''" for d
    using assms(2)
    by (induction codes arbitrary: d) (auto simp: latch_after_step label_while_calibrating)
  moreover have "scale_calibrating (status_code_step entry c)"
    using assms(1) by (simp add: latch_after_step)
  ultimately show ?thesis by (simp add: label_while_calibrating)
qed

theorem calibration_run_never_brewing_witness:
  "raw_state_label (status (status_run [0x39, 0x3A, 0x3B, 0x3F, 0x3B, 0x3C, 0x3B] (init_client 0)))
     = Some ''calibrating_scale''"
  by (rule calibration_run_never_brewing) (simp_all add: ends_scale_calibration_def code_maps)

text \<open>
  A brew is never swallowed by the calibration latch: after any code that puts a brew in
  context the latch is off, and 0x3B heartbeats then read as brewing, from whatever state the
  client was in.
\<close>

theorem brew_context_reports_brewing:
  assumes "code \<in> set BREW_CONTEXT_CODES"
  shows "\<not> scale_calibrating (status_code_step code c) \<and>
    raw_state_label (status (status_run (code # replicate n 0x3B @ [0x3B]) c)) = Some ''brewing''"
proof -
  have no: "code \<notin> set SCALE_CAL_ARMING_CODES" "ends_scale_calibration code"
    using assms by (auto simp: code_maps ends_scale_calibration_def)
  let ?I = "\<lambda>d. \<not> scale_calibrating d \<and> brew_context d"
  have start: "?I (status_code_step code c)"
    using no assms by (auto simp: status_code_step_def update_brew_context_def
        update_calibration_latch_def Let_def)
  have amb: "0x3B \<notin> set SCALE_CAL_ARMING_CODES" "0x3B \<notin> set BREW_CONTEXT_CODES"
    "\<not> ends_brew_context 0x3B" by (simp_all add: code_maps ends_brew_context_def)
  have keep: "?I d \<Longrightarrow> ?I (status_code_step 0x3B d) \<and>
      raw_state_label (status (status_code_step 0x3B d)) = Some ''brewing''" for d
    using amb by (auto simp: label_after_step status_code_step_def update_brew_context_def
        update_calibration_latch_def state_label_for_def Let_def RAW_STATE_LABEL_MAP_def
        apply_screen_fields)
  have "?I d \<Longrightarrow> raw_state_label (status (status_run (replicate n 0x3B @ [0x3B]) d)) = Some ''brewing''"
    for d by (induction n arbitrary: d) (simp_all add: keep)
  with start show ?thesis by simp
qed

theorem brew_context_reports_brewing_witness:
  "raw_state_label (status (status_run [0x22, 0x3B] (init_client 0\<lparr>scale_calibrating := True\<rparr>)))
     = Some ''brewing''"
  using brew_context_reports_brewing
    [where code = "0x22" and c = "init_client 0\<lparr>scale_calibrating := True\<rparr>" and n = 0]
  by (simp add: BREW_CONTEXT_CODES_def)

text \<open>
  A scale glitch is hidden and a real step gets through: with a weight accepted and no
  outlier pending, four consecutive readings more than 300 away are reported as the accepted
  weight, and the fifth such reading is reported as it is and becomes the accepted weight.
\<close>

theorem weight_glitch_filter:
  assumes "last_accepted_weight c = Some w" "weight_out_of_limit_count c = 0"
    and "list_all (far_from w) [x1, x2, x3, x4, x5]"
  shows "fst (filter_run [x1, x2, x3, x4, x5] c) = [w, w, w, w, x5] \<and>
    last_accepted_weight (snd (filter_run [x1, x2, x3, x4, x5] c)) = Some x5 \<and>
    weight_out_of_limit_count (snd (filter_run [x1, x2, x3, x4, x5] c)) = 0"
  using assms by (simp add: filter_weight_def WEIGHT_GLITCH_ESCAPE_COUNT_def)

theorem weight_glitch_filter_witness:
  "fst (filter_run [PInf, PInf, PInf, PInf, PInf]
      (init_client 0\<lparr>last_accepted_weight := Some (Fin 20)\<rparr>)) = [Fin 20, Fin 20, Fin 20, Fin 20, PInf]"
proof -
  have "list_all (far_from (Fin 20)) [PInf, PInf, PInf, PInf, PInf]"
    by (simp add: far_from_def WEIGHT_GLITCH_LIMIT_def)
  then show ?thesis
    using weight_glitch_filter [of "init_client 0\<lparr>last_accepted_weight := Some (Fin 20)\<rparr>" "Fin 20"]
    by (simp add: init_client_def)
qed

text \<open>
  The filter invents nothing and cannot lock up: over any stream its counter stays at
  most four, and every reported weight is a reading of the stream or the weight accepted
  before it.
\<close>

theorem weight_filter_reports_readings:
  assumes "weight_out_of_limit_count c \<le> 4"
  shows "weight_out_of_limit_count (snd (filter_run ws c)) \<le> 4 \<and>
    set (fst (filter_run ws c)) \<subseteq> set ws \<union> set_option (last_accepted_weight c)"
  using assms
proof (induction ws arbitrary: c)
  case (Cons w ws)
  obtain r c1 where f: "filter_weight w c = (r, c1)" by (cases "filter_weight w c")
  have "weight_out_of_limit_count c1 \<le> 4"
    and "r \<in> insert w (set_option (last_accepted_weight c))"
    and "set_option (last_accepted_weight c1) \<subseteq> insert w (set_option (last_accepted_weight c))"
    using f Cons.prems
    by (auto simp: filter_weight_def WEIGHT_GLITCH_ESCAPE_COUNT_def split: option.splits if_splits)
  with Cons.IH [of c1] f show ?case by (auto split: prod.splits)
qed simp

theorem weight_filter_reports_readings_witness:
  "weight_out_of_limit_count (snd (filter_run [Fin 20, PInf, NaN] (init_client 0))) \<le> 4"
  using weight_filter_reports_readings [of "init_client 0" "[Fin 20, PInf, NaN]"]
  by (simp add: init_client_def)

end
