(* ===== verification/Client.thy ===== *)
theory Client
  imports Heartbeat
begin

text \<open>
  Inbound dispatch (\<^verbatim>\<open>ble/client.py\<close>, second half of the notification path, and the inbound
  half of \<^verbatim>\<open>ble/constants.py\<close>): the response table, the three raw pre-scans, the response
  handler, the resolution of awaited acknowledgements and \<open>on_notification\<close>, which composes
  them.  A notification handler that raises keeps what it had already changed, so its result
  is the client and the exception that escaped, if any.
\<close>

section \<open>Response ids\<close>

datatype response =
    MACHINE_SLEEPING | MACHINE_NOT_SLEEPING | UNIT_CHANGE | MACHINE_ACTIVITY
  | GRINDER_SIZE | GRINDER_SPEED | BREWER_MODE | BREWER_TEMPERATURE | EASYMODE_BEGIN
  | TEA_RECIPE_CHANGE_SOAK_TIME | ABNORMAL_GEAR_POSITION | ABNORMAL_DOSE_OR_WATER
  | IN_GRINDER | IN_BREWER | IN_SCALE | GRINDER_BEGIN | OUT_GRINDER | BREWER_BEGIN
  | OUT_BREWER | OUT_SCALE | R_GRINDER_PAUSE | R_BREWER_PAUSE | TEA_RECIPE_RESTART
  | TEA_RECIPE_SOAK | CURRENT_WEIGHT | EASYMODE_TYPE | EASYMODE_RECIPE_STATE
  | CURRENT_WEIGHT2 | PODS | BREWER_COFFEE_START | GEAR_REPORT | GRINDER_RUN_BEGIN
  | R_GRINDER_STOP | BLOOM | R_BREWER_STOP | ENJOY | ENJOY2 | TEA_RECIPE_PAUSE | ERROR_IDLING
  | BYPASS | MACHINE_INFO | ERROR_LACK_OF_WATER | WATER_VOLUME | EASYMODE_RECIPE_NUM
  | CURRENT_GRINDER | BEFORE_VIBRATION | CALIBRATE_START | CALIBRATING

definition RESPONSE_TABLE :: "(int \<times> response) list" where
  "RESPONSE_TABLE =
    [(8009, MACHINE_SLEEPING), (8011, MACHINE_NOT_SLEEPING), (8015, UNIT_CHANGE),
     (8023, MACHINE_ACTIVITY), (8105, GRINDER_SIZE), (8106, GRINDER_SPEED), (8107, BREWER_MODE),
     (8108, BREWER_TEMPERATURE), (8111, EASYMODE_BEGIN), (8113, TEA_RECIPE_CHANGE_SOAK_TIME),
     (8203, ABNORMAL_GEAR_POSITION), (8204, ABNORMAL_DOSE_OR_WATER), (9000, IN_GRINDER),
     (9001, IN_BREWER), (9002, IN_SCALE), (9003, GRINDER_BEGIN), (9004, OUT_GRINDER),
     (9005, BREWER_BEGIN), (9006, OUT_BREWER), (9008, OUT_SCALE), (9009, R_GRINDER_PAUSE),
     (9010, R_BREWER_PAUSE), (9011, TEA_RECIPE_RESTART), (9012, TEA_RECIPE_SOAK),
     (10507, CURRENT_WEIGHT), (11511, EASYMODE_TYPE), (11518, EASYMODE_RECIPE_STATE),
     (20501, CURRENT_WEIGHT2), (40501, PODS), (40502, BREWER_COFFEE_START),
     (40505, GEAR_REPORT), (40506, GRINDER_RUN_BEGIN), (40507, R_GRINDER_STOP), (40510, BLOOM),
     (40511, R_BREWER_STOP), (40512, ENJOY), (40513, ENJOY2), (40515, TEA_RECIPE_PAUSE),
     (40517, ERROR_IDLING), (40520, BYPASS), (40521, MACHINE_INFO),
     (40522, ERROR_LACK_OF_WATER), (40523, WATER_VOLUME), (40525, EASYMODE_RECIPE_NUM),
     (40526, CURRENT_GRINDER), (40527, BEFORE_VIBRATION), (50038, CALIBRATE_START),
     (50039, CALIBRATING)]"

definition response_of :: "int \<Rightarrow> response option" where
  "response_of cmd = map_of RESPONSE_TABLE cmd"

definition NOTIFICATION_MAP :: "(response \<times> string) list" where
  "NOTIFICATION_MAP =
    [(GRINDER_BEGIN, ''grinding_started''), (GRINDER_RUN_BEGIN, ''grinding_started''),
     (R_GRINDER_STOP, ''grinding_complete''), (BREWER_BEGIN, ''brewing_started''),
     (BREWER_COFFEE_START, ''brewing_started''), (R_BREWER_STOP, ''pour_complete''),
     (BLOOM, ''bloom''), (R_BREWER_PAUSE, ''paused''), (TEA_RECIPE_PAUSE, ''paused''),
     (ENJOY, ''recipe_complete''), (ENJOY2, ''recipe_complete''),
     (TEA_RECIPE_SOAK, ''tea_soaking''), (TEA_RECIPE_CHANGE_SOAK_TIME, ''tea_soak_time_changed''),
     (TEA_RECIPE_RESTART, ''tea_resumed''), (PODS, ''pod_detected''),
     (EASYMODE_BEGIN, ''easy_slot_started''), (CALIBRATING, ''grinder_calibration_progress'')]"

definition ERROR_MAP :: "(response \<times> string) list" where
  "ERROR_MAP =
    [(ERROR_IDLING, ''no_beans''), (ABNORMAL_DOSE_OR_WATER, ''abnormal_dose_or_water''),
     (ABNORMAL_GEAR_POSITION, ''abnormal_gear_position'')]"

section \<open>Reading payloads\<close>

definition u32_at :: "nat \<Rightarrow> bytes \<Rightarrow> int" where
  "u32_at off payload = int (le_val (slice off (off + 4) payload))"

definition f32_at :: "bytes \<Rightarrow> pyfloat" where
  "f32_at payload = f32_of_bits (le_val (slice 0 4 payload))"

definition strip_spaces :: "string \<Rightarrow> string" where
  "strip_spaces s = rev (dropWhile (\<lambda>ch. ch = CHR '' '') (rev (dropWhile (\<lambda>ch. ch = CHR '' '') s)))"

definition strict_ascii :: "bytes \<Rightarrow> string" where
  "strict_ascii data =
     strip_spaces (map (\<lambda>b. char_of (unat b)) (filter (\<lambda>b. 0x20 \<le> unat b \<and> unat b < 0x7F) data))"

definition hex_digit :: "nat \<Rightarrow> char" where
  "hex_digit n = ''0123456789abcdef'' ! (n mod 16)"

definition hex :: "bytes \<Rightarrow> string" where
  "hex bs = concat (map (\<lambda>b. [hex_digit (unat b div 16), hex_digit (unat b)]) bs)"

definition MACHINE_INFO_MODE_OFFSET :: nat where "MACHINE_INFO_MODE_OFFSET = 51"
definition MACHINE_INFO_MODE_LEN :: nat where "MACHINE_INFO_MODE_LEN = 4"
definition MACHINE_INFO_MODE_EASY_HEX :: string where "MACHINE_INFO_MODE_EASY_HEX = ''91327856''"
definition MACHINE_INFO_GRIND_SIZE_OFFSET :: nat where "MACHINE_INFO_GRIND_SIZE_OFFSET = 37"
definition MACHINE_INFO_VOLTAGE_OFFSET :: nat where "MACHINE_INFO_VOLTAGE_OFFSET = 39"
definition GRIND_SIZE_RAW_OFFSET :: int where "GRIND_SIZE_RAW_OFFSET = 30"
definition GRINDER_CALIBRATION_DONE_RAW :: int where "GRINDER_CALIBRATION_DONE_RAW = 85"

definition machine_mode :: "client \<Rightarrow> string" where
  "machine_mode c =
     (case mode_ack_hex (status c) of
        Some h \<Rightarrow> if h = MACHINE_INFO_MODE_EASY_HEX then ''easy'' else ''pro''
      | None \<Rightarrow>
          (case mode_bytes (status c) of
             None \<Rightarrow> ''pro''
           | Some raw \<Rightarrow>
               if raw = [] \<or> length raw < MACHINE_INFO_MODE_OFFSET + MACHINE_INFO_MODE_LEN
               then ''pro''
               else if hex (slice MACHINE_INFO_MODE_OFFSET
                   (MACHINE_INFO_MODE_OFFSET + MACHINE_INFO_MODE_LEN) raw)
                 = MACHINE_INFO_MODE_EASY_HEX
               then ''easy'' else ''pro''))"

section \<open>Awaited acknowledgements\<close>

text \<open>
  Futures are numbered; \<open>pending_acks\<close> maps a command to the futures awaiting its echo, and
  \<open>ack_done\<close> records the first result each future got.
\<close>

definition pending_for :: "int \<Rightarrow> client \<Rightarrow> nat list" where
  "pending_for command c = (case map_of (pending_acks c) command of None \<Rightarrow> [] | Some ws \<Rightarrow> ws)"

definition finish_future :: "bytes res \<Rightarrow> nat \<Rightarrow> client \<Rightarrow> client" where
  "finish_future result fut c =
     (case map_of (ack_done c) fut of
        None \<Rightarrow> c\<lparr>ack_done := (fut, result) # ack_done c\<rparr>
      | Some _ \<Rightarrow> c)"

definition resolve_pending_acks :: "int \<Rightarrow> bytes \<Rightarrow> client \<Rightarrow> client" where
  "resolve_pending_acks command frame c = fold (finish_future (Inr frame)) (pending_for command c) c"

definition fail_pending_acks :: "client \<Rightarrow> client" where
  "fail_pending_acks c =
     (fold (finish_future (Inl AckTimeout)) (concat (map snd (pending_acks c))) c)\<lparr>pending_acks := []\<rparr>"

section \<open>Raw pre-scans\<close>

definition ALARM_MARKER_BYTE :: byte where "ALARM_MARKER_BYTE = 0xCD"
definition ALARM_CMD_BYTES :: bytes where "ALARM_CMD_BYTES = [0xFE, 0xFF]"

definition ALARM_CODE_GROUPS :: "(int list \<times> string) list" where
  "ALARM_CODE_GROUPS =
    [([8449, 8450, 4355, 4356, 4357, 4358, 4359, 4360, 4361, 4362], ''mismatched_power''),
     ([513, 4610, 5633, 5637, 6148, 6401, 6402, 6403, 6404, 6405, 9730, 9732, 10241, 10242,
       10243, 10245, 13827, 14342, 14598, 14599, 14600, 14601, 14602, 14603], ''brewing_error''),
     ([8961, 8962, 8963, 4868, 4869, 4871, 4873, 4874, 4875, 13062, 13064], ''dock_moving_error''),
     ([1025, 5123, 5124, 5379, 9218, 9473, 9474, 9477, 9478, 13317, 13572], ''grinding_error''),
     ([1793, 1795, 1796, 5890], ''scale_overload''),
     ([7169, 7170], ''upgrade_failed'')]"

text \<open>Later groups would overwrite earlier ones, as in the source's double loop.\<close>

definition ALARM_CODE_EVENTS :: "int \<Rightarrow> string option" where
  "ALARM_CODE_EVENTS =
     map_of (rev (concat (map (\<lambda>(codes, ev). map (\<lambda>code. (code, ev)) codes) ALARM_CODE_GROUPS)))"

definition alarm_at :: "bytes \<Rightarrow> nat \<Rightarrow> bool" where
  "alarm_at raw offset \<longleftrightarrow> raw ! offset = 0x58 \<and> slice (offset + 3) (offset + 5) raw = ALARM_CMD_BYTES
     \<and> raw ! (offset + 9) = ALARM_MARKER_BYTE"

definition alarm_event :: "int \<Rightarrow> client \<Rightarrow> client" where
  "alarm_event code c =
     (case ALARM_CODE_EVENTS code of
        Some event_type \<Rightarrow> fire_event ''error'' event_type [(''code'', AInt code)] c
      | None \<Rightarrow> c)"

function scan_alarms :: "bytes \<Rightarrow> nat \<Rightarrow> client \<Rightarrow> client" where
  "scan_alarms raw offset c =
     (if length raw < offset + 16 then c
      else if \<not> alarm_at raw offset then scan_alarms raw (offset + 1) c
      else scan_alarms raw (offset + 16) (alarm_event (u32_at (offset + 10) raw) c))"
  by pat_completeness auto
termination
  by (relation "measure (\<lambda>(raw, offset, c). length raw - offset)") auto

declare scan_alarms.simps [simp del]

definition scan_for_alarm_frame :: "bytes \<Rightarrow> client \<Rightarrow> client" where
  "scan_for_alarm_frame raw c = scan_alarms raw 0 c"

definition set_advanced :: "nat \<Rightarrow> int \<Rightarrow> client \<Rightarrow> client" where
  "set_advanced cmd value c =
     (if cmd \<in> {11506, 11507} then c\<lparr>status := (status c)\<lparr>pour_radius := Some value\<rparr>\<rparr>
      else if cmd \<in> {11508, 11509} then c\<lparr>status := (status c)\<lparr>vibration_amplitude := Some value\<rparr>\<rparr>
      else c)"

function scan_advanced :: "bytes \<Rightarrow> nat \<Rightarrow> client \<Rightarrow> client" where
  "scan_advanced raw offset c =
     (let n = length raw in
      if n \<le> offset then c
      else if raw ! offset \<notin> set HEADER_BYTES then scan_advanced raw (offset + 1) c
      else if n - offset < 14 then c
      else let total_len = le_val (slice (offset + 5) (offset + 9) raw) in
        if MAX_PACKET_LEN < total_len then scan_advanced raw (offset + 1) c
        else if raw ! (offset + 9) \<noteq> TYPE2_MARKER_BYTE then scan_advanced raw (offset + 1) c
        else let c1 = set_advanced (le_val (slice (offset + 3) (offset + 5) raw))
                   (u32_at (offset + 10) raw) c
          in if n < offset + total_len \<or> total_len = 0 then c1
             else scan_advanced raw (offset + total_len) c1)"
  by pat_completeness auto
termination
  by (relation "measure (\<lambda>(raw, offset, c). length raw - offset)") auto

declare scan_advanced.simps [simp del]

definition scan_for_advanced_settings :: "bytes \<Rightarrow> client \<Rightarrow> client" where
  "scan_for_advanced_settings raw c = scan_advanced raw 0 c"

definition MACHINE_INFO_CMD_BYTES :: bytes where "MACHINE_INFO_CMD_BYTES = [0x49, 0x9E]"

text \<open>\<^verbatim>\<open>raw.find(pat, start)\<close> for a two-byte pattern.\<close>

definition find_bytes :: "bytes \<Rightarrow> nat \<Rightarrow> bytes \<Rightarrow> nat option" where
  "find_bytes pat start raw =
     List.find (\<lambda>i. slice i (i + length pat) raw = pat) [start ..< length raw + 1 - length pat]"

function scan_info :: "bytes \<Rightarrow> nat \<Rightarrow> client \<Rightarrow> client" where
  "scan_info raw start c =
     (case find_bytes MACHINE_INFO_CMD_BYTES start raw of
        None \<Rightarrow> c
      | Some idx \<Rightarrow>
          if idx < 3 then c
          else if raw ! (idx - 3) \<notin> {0x58, 0x02} then scan_info raw (idx + 1) c
          else let payload = drop (idx + 7) raw in
            if length payload < 34 then scan_info raw (idx + 2) c
            else let serial = strict_ascii (slice 0 13 payload);
                     ver = strict_ascii (slice 19 29 payload)
              in if serial = [] then c
                 else c\<lparr>status := (status c)\<lparr>serial_number := serial, version := ver,
                        mode_bytes := Some payload\<rparr>\<rparr>)"
  by pat_completeness auto

lemma find_bytes_range:
  assumes "find_bytes pat start raw = Some i"
  shows "start \<le> i" "i + length pat < length raw + 1"
proof -
  obtain k where k: "k < length [start ..< length raw + 1 - length pat]"
    "i = [start ..< length raw + 1 - length pat] ! k"
    using assms unfolding find_bytes_def find_Some_iff by blast
  then have "i \<in> set [start ..< length raw + 1 - length pat]" by (simp only: nth_mem)
  then have "start \<le> i" "i < length raw + 1 - length pat" by (simp_all only: set_upt atLeastLessThan_iff)
  then show "start \<le> i" "i + length pat < length raw + 1" by linarith+
qed

termination scan_info
proof (relation "measure (\<lambda>(raw, start, c). length raw - start)", goal_cases)
  case (2 raw start c idx)
  then show ?case using find_bytes_range [of MACHINE_INFO_CMD_BYTES start raw idx]
    by (auto simp: MACHINE_INFO_CMD_BYTES_def)
next
  case (3 raw start c idx payload)
  then show ?case using find_bytes_range [of MACHINE_INFO_CMD_BYTES start raw idx]
    by (auto simp: MACHINE_INFO_CMD_BYTES_def)
qed auto

declare scan_info.simps [simp del]

definition scan_for_machine_info :: "bytes \<Rightarrow> client \<Rightarrow> client" where
  "scan_for_machine_info raw c = scan_info raw 0 c"

section \<open>The response handler\<close>

abbreviation upd_status :: "(device_status \<Rightarrow> device_status) \<Rightarrow> client \<Rightarrow> client" where
  "upd_status f c \<equiv> c\<lparr>status := f (status c)\<rparr>"

abbreviation upd_grinder :: "(grinder_status \<Rightarrow> grinder_status) \<Rightarrow> client \<Rightarrow> client" where
  "upd_grinder f c \<equiv> upd_status (\<lambda>s. s\<lparr>grinder := f (grinder s)\<rparr>) c"

abbreviation upd_brewer :: "(brewer_status \<Rightarrow> brewer_status) \<Rightarrow> client \<Rightarrow> client" where
  "upd_brewer f c \<equiv> upd_status (\<lambda>s. s\<lparr>brewer := f (brewer s)\<rparr>) c"

definition grind_size_of_raw :: "int \<Rightarrow> int" where
  "grind_size_of_raw raw = max (raw - GRIND_SIZE_RAW_OFFSET) 1"

definition handle_machine_info :: "bytes \<Rightarrow> client \<Rightarrow> client" where
  "handle_machine_info payload c =
     (let n = length payload; st = status c;
          s1 = (if 29 \<le> n then st\<lparr>serial_number := strict_ascii (slice 0 13 payload),
                 version := strict_ascii (slice 19 29 payload)\<rparr> else st);
          s2 = (if 34 \<le> n then s1\<lparr>water_level_ok := (payload ! 33 = 1)\<rparr> else s1);
          s3 = (if 37 \<le> n then s2\<lparr>water_volume := int (unat (payload ! 36))\<rparr> else s2);
          s4 = s3\<lparr>mode_bytes := Some payload\<rparr>;
          s5 = (if MACHINE_INFO_GRIND_SIZE_OFFSET < n
                then s4\<lparr>grinder := (grinder s4)\<lparr>g_size :=
                  grind_size_of_raw (int (unat (payload ! MACHINE_INFO_GRIND_SIZE_OFFSET)))\<rparr>\<rparr>
                else s4);
          s6 = (if MACHINE_INFO_VOLTAGE_OFFSET < n
                then s5\<lparr>voltage := int (unat (payload ! MACHINE_INFO_VOLTAGE_OFFSET))\<rparr> else s5)
      in c\<lparr>status := s6\<rparr>)"

definition handle_weight :: "bytes \<Rightarrow> client \<Rightarrow> client" where
  "handle_weight payload c =
     (if 4 \<le> length payload
      then let (w, c1) = filter_weight (f32_at payload) c
        in upd_status (\<lambda>s. s\<lparr>scale := (scale s)\<lparr>sc_weight := w\<rparr>\<rparr>) c1
      else c)"

definition handle_brewer_temperature :: "bytes \<Rightarrow> client \<Rightarrow> client" where
  "handle_brewer_temperature payload c =
     (if 4 \<le> length payload
      then let raw = u32_at 0 payload;
               t = (if 150 < raw then to_double (of_int raw / 10) else to_double (of_int raw))
        in fire_event ''settings'' ''brewer_knob'' [(''temperature'', AFloat t)]
             (upd_brewer (\<lambda>b. b\<lparr>b_temperature := t\<rparr>) c)
      else c)"

definition handle_in_brewer :: "bytes \<Rightarrow> client \<Rightarrow> client" where
  "handle_in_brewer payload c =
     (let c1 = upd_status (\<lambda>s. s\<lparr>screen := Some ''pour''\<rparr>) c in
      if 12 \<le> length payload
      then let v = u32_at 0 payload; t = u32_at 4 payload; p = u32_at 8 payload
        in fire_event ''settings'' ''brewer_page_entry''
             [(''volume'', AInt v), (''temperature'', AInt t), (''pattern'', AInt p)]
             (upd_brewer (\<lambda>b. b\<lparr>b_temperature := to_double (of_int t)\<rparr>) c1)
      else c1)"

definition handle_in_grinder :: "bytes \<Rightarrow> client \<Rightarrow> client" where
  "handle_in_grinder payload c =
     (let c1 = upd_status (\<lambda>s. s\<lparr>screen := Some ''grind''\<rparr>) c in
      if 8 \<le> length payload
      then let size = u32_at 0 payload; r = u32_at 4 payload;
               c2 = (if size \<noteq> 0 then upd_grinder (\<lambda>g. g\<lparr>g_size := size\<rparr>) c1 else c1)
        in fire_event ''settings'' ''grinder_knob'' [(''size'', AInt size), (''rpm'', AInt r)] c2
      else c1)"

definition handle_grinder_size :: "bytes \<Rightarrow> client \<Rightarrow> client" where
  "handle_grinder_size payload c =
     (if 4 \<le> length payload
      then let size = grind_size_of_raw (u32_at 0 payload)
        in fire_event ''settings'' ''grinder_knob'' [(''size'', AInt size)]
             (upd_grinder (\<lambda>g. g\<lparr>g_size := size\<rparr>) c)
      else c)"

definition handle_grinder_speed :: "bytes \<Rightarrow> client \<Rightarrow> client" where
  "handle_grinder_speed payload c =
     (if 4 \<le> length payload
      then fire_event ''settings'' ''grinder_knob'' [(''rpm'', AInt (u32_at 0 payload))]
             (upd_grinder (\<lambda>g. g\<lparr>g_speed := u32_at 0 payload\<rparr>) c)
      else c)"

definition handle_current_grinder :: "bytes \<Rightarrow> client \<Rightarrow> client" where
  "handle_current_grinder payload c =
     (if 4 \<le> length payload
      then let raw = u32_at 0 payload;
               c1 = upd_grinder (\<lambda>g. g\<lparr>g_size := grind_size_of_raw raw\<rparr>) c
        in if is_calibrating_grinder (status c1) \<and> raw = GRINDER_CALIBRATION_DONE_RAW
           then fire_event ''notification'' ''grinder_calibration_complete'' []
                  (upd_status (\<lambda>s. s\<lparr>is_calibrating_grinder := False\<rparr>) c1)
           else c1
      else c)"

definition handle_brewer_mode :: "bytes \<Rightarrow> client \<Rightarrow> client" where
  "handle_brewer_mode payload c =
     (if 4 \<le> length payload \<and> u32_at 0 payload \<in> {0, 1, 2}
      then fire_event ''settings'' ''brewer_knob'' [(''pattern'', AInt (u32_at 0 payload))]
             (upd_status (\<lambda>s. s\<lparr>pour_pattern_live := Some (u32_at 0 payload)\<rparr>) c)
      else c)"

definition handle_unit_change :: "bytes \<Rightarrow> client \<Rightarrow> client" where
  "handle_unit_change payload c =
     (if 12 \<le> length payload
      then fire_event ''settings'' ''unit_change''
             [(''weight_unit'', AInt (u32_at 0 payload)), (''temp_unit'', AInt (u32_at 4 payload)),
              (''water_source'', AInt (u32_at 8 payload))] c
      else c)"

text \<open>The status part of \<^verbatim>\<open>_handle_response\<close>: only a water volume can raise (\<^verbatim>\<open>int()\<close> of an
  infinity or NaN), before anything was changed.\<close>

fun handle_status :: "response \<Rightarrow> bytes \<Rightarrow> client \<Rightarrow> client res" where
  "handle_status MACHINE_INFO payload c = Inr (handle_machine_info payload c)"
| "handle_status GEAR_REPORT payload c =
     Inr (if 4 \<le> length payload
          then upd_grinder (\<lambda>g. g\<lparr>g_position := u32_at 0 payload\<rparr>) c else c)"
| "handle_status CURRENT_WEIGHT2 payload c = Inr (handle_weight payload c)"
| "handle_status CURRENT_WEIGHT payload c = Inr (handle_weight payload c)"
| "handle_status BREWER_TEMPERATURE payload c = Inr (handle_brewer_temperature payload c)"
| "handle_status GRINDER_BEGIN payload c =
     Inr (upd_status (\<lambda>s. s\<lparr>state := GRINDING\<rparr>) (upd_grinder (\<lambda>g. g\<lparr>g_is_running := True\<rparr>) c))"
| "handle_status GRINDER_RUN_BEGIN payload c =
     Inr (upd_status (\<lambda>s. s\<lparr>state := GRINDING\<rparr>) (upd_grinder (\<lambda>g. g\<lparr>g_is_running := True\<rparr>) c))"
| "handle_status R_GRINDER_STOP payload c =
     Inr (upd_status (\<lambda>s. s\<lparr>state := IDLE\<rparr>)
       (upd_grinder (\<lambda>g. g\<lparr>g_is_running := False, g_speed := 0\<rparr>) c))"
| "handle_status BREWER_BEGIN payload c =
     Inr (upd_status (\<lambda>s. s\<lparr>state := BREWING\<rparr>) (upd_brewer (\<lambda>b. b\<lparr>b_is_running := True\<rparr>) c))"
| "handle_status R_BREWER_STOP payload c =
     Inr (upd_status (\<lambda>s. s\<lparr>state := IDLE\<rparr>) (upd_brewer (\<lambda>b. b\<lparr>b_is_running := False\<rparr>) c))"
| "handle_status BLOOM payload c = Inr (upd_status (\<lambda>s. s\<lparr>state := BREWING\<rparr>) c)"
| "handle_status R_BREWER_PAUSE payload c = Inr (upd_status (\<lambda>s. s\<lparr>state := PAUSED\<rparr>) c)"
| "handle_status BREWER_COFFEE_START payload c =
     Inr (upd_status (\<lambda>s. s\<lparr>state := BREWING\<rparr>) (upd_brewer (\<lambda>b. b\<lparr>b_is_running := True\<rparr>) c))"
| "handle_status WATER_VOLUME payload c =
     (if 4 \<le> length payload
      then bind_res (int_of_float (f32_at payload)) (\<lambda>v.
        Inr (upd_status (\<lambda>s. s\<lparr>water_volume := v\<rparr>) c))
      else Inr c)"
| "handle_status IN_BREWER payload c = Inr (handle_in_brewer payload c)"
| "handle_status IN_GRINDER payload c = Inr (handle_in_grinder payload c)"
| "handle_status IN_SCALE payload c = Inr (upd_status (\<lambda>s. s\<lparr>screen := Some ''scale''\<rparr>) c)"
| "handle_status OUT_GRINDER payload c = Inr (upd_status (\<lambda>s. s\<lparr>screen := Some ''home''\<rparr>) c)"
| "handle_status OUT_BREWER payload c = Inr (upd_status (\<lambda>s. s\<lparr>screen := Some ''home''\<rparr>) c)"
| "handle_status OUT_SCALE payload c = Inr (upd_status (\<lambda>s. s\<lparr>screen := Some ''home''\<rparr>) c)"
| "handle_status GRINDER_SIZE payload c = Inr (handle_grinder_size payload c)"
| "handle_status GRINDER_SPEED payload c = Inr (handle_grinder_speed payload c)"
| "handle_status CURRENT_GRINDER payload c = Inr (handle_current_grinder payload c)"
| "handle_status CALIBRATE_START payload c =
     Inr (upd_status (\<lambda>s. s\<lparr>is_calibrating_grinder := True\<rparr>) c)"
| "handle_status MACHINE_SLEEPING payload c = Inr (upd_status (\<lambda>s. s\<lparr>is_sleeping := True\<rparr>) c)"
| "handle_status MACHINE_NOT_SLEEPING payload c = Inr (upd_status (\<lambda>s. s\<lparr>is_sleeping := False\<rparr>) c)"
| "handle_status MACHINE_ACTIVITY payload c = Inr (upd_status (\<lambda>s. s\<lparr>is_sleeping := False\<rparr>) c)"
| "handle_status BREWER_MODE payload c = Inr (handle_brewer_mode payload c)"
| "handle_status UNIT_CHANGE payload c = Inr (handle_unit_change payload c)"
| "handle_status _ payload c = Inr c"

definition handle_mode_ack :: "response \<Rightarrow> bytes \<Rightarrow> client \<Rightarrow> client" where
  "handle_mode_ack r payload c =
     (if r = EASYMODE_TYPE \<and> 4 \<le> length payload
      then upd_status (\<lambda>s. s\<lparr>mode_ack_hex := Some (hex (slice 0 4 payload))\<rparr>) c else c)"

definition notification_attrs :: "response \<Rightarrow> bytes \<Rightarrow> attrs" where
  "notification_attrs r payload =
     (if r = BLOOM then (if 4 \<le> length payload then [(''pour_index'', AInt (u32_at 0 payload))] else [])
      else if r = PODS then [(''xid'', AStr (strict_ascii (slice 0 6 payload)))]
      else if r = EASYMODE_BEGIN \<and> 4 \<le> length payload \<and> u32_at 0 payload \<le> 2
      then [(''slot'', AStr [char_of (65 + nat (u32_at 0 payload))])]
      else [])"

definition handle_events :: "response \<Rightarrow> bytes \<Rightarrow> client \<Rightarrow> client" where
  "handle_events r payload c =
     (case map_of NOTIFICATION_MAP r of
        Some event_type \<Rightarrow>
          if event_type \<in> {''grinding_started'', ''grinding_complete''}
             \<and> is_calibrating_grinder (status c)
          then c
          else fire_event ''notification'' event_type (notification_attrs r payload) c
      | None \<Rightarrow>
          if r = ERROR_LACK_OF_WATER
          then let value = (if 4 \<le> length payload then u32_at 0 payload else 0);
                   c1 = upd_status (\<lambda>s. s\<lparr>water_level_ok := (value = 1)\<rparr>) c
            in if value = 1 then fire_event ''notification'' ''water_refilled'' [] c1
               else fire_event ''error'' ''water_shortage'' [] c1
          else case map_of ERROR_MAP r of
                 Some event_type \<Rightarrow> fire_event ''error'' event_type [] c
               | None \<Rightarrow> c)"

definition handle_response :: "response \<Rightarrow> bytes \<Rightarrow> client \<Rightarrow> client res" where
  "handle_response r frame c =
     (let payload = frame_payload frame in
      bind_res (handle_status r payload c) (\<lambda>c1.
        Inr (handle_events r payload (handle_mode_ack r payload c1))))"

text \<open>\<^verbatim>\<open>_parse_response\<close>: reading the command of a frame shorter than five bytes raises; a
  handler that raises is logged and the client stays as it was.\<close>

definition parse_response :: "bytes \<Rightarrow> client \<Rightarrow> client res" where
  "parse_response frame c =
     bind_res (frame_command frame) (\<lambda>cmd.
       let c1 = resolve_pending_acks cmd frame c in
       Inr (case response_of cmd of
              None \<Rightarrow> c1
            | Some r \<Rightarrow> (case handle_response r frame c1 of Inl e \<Rightarrow> c1 | Inr c2 \<Rightarrow> c2)))"

section \<open>The notification callback\<close>

function process_frames :: "bytes \<Rightarrow> nat \<Rightarrow> client \<Rightarrow> client \<times> py_error option" where
  "process_frames raw offset c =
     (case next_frame raw offset of
        None \<Rightarrow> (c, None)
      | Some (frame, offset') \<Rightarrow>
          let c1 = scan_for_status_frame frame c in
          (case parse_response frame c1 of
             Inl e \<Rightarrow> (c1, Some e)
           | Inr c2 \<Rightarrow> process_frames raw offset' c2))"
  by pat_completeness auto

lemma parse_response_ok_iff: "is_ok (parse_response frame c) \<longleftrightarrow> 5 \<le> length frame"
  unfolding frame_command_ok_iff [symmetric]
  by (cases "frame_command frame") (simp_all add: parse_response_def Let_def)

lemma next_frame_progress:
  assumes "next_frame raw offset = Some (f, offset')" "5 \<le> length f"
  shows "offset < offset'" "offset' \<le> length raw"
proof -
  obtain start where "offset \<le> start" "frame_at raw start f" "offset' = start + length f"
    using next_frame_Some [OF assms(1)] by blast
  with assms(2) show "offset < offset'" "offset' \<le> length raw" by (auto simp only: frame_at_def)
qed

termination process_frames
proof (relation "measure (\<lambda>(raw, offset, c). length raw - offset)", goal_cases)
  case (2 raw offset c r f offset' c1 c2)
  have "5 \<le> length f" using 2 parse_response_ok_iff [of f c1] by simp
  then show ?case using next_frame_progress [of raw offset f offset'] 2 by simp
qed simp

declare process_frames.simps [simp del]

definition on_notification :: "rat \<Rightarrow> bytes \<Rightarrow> client \<Rightarrow> client \<times> py_error option" where
  "on_notification now raw c =
     (let c1 = c\<lparr>last_notification_monotonic := now\<rparr>;
          c2 = (if serial_number (status c1) = [] then scan_for_machine_info raw c1 else c1);
          c3 = scan_for_advanced_settings raw c2;
          c4 = scan_for_alarm_frame raw c3
      in process_frames raw 0 c4)"

section \<open>Facts about acknowledgements\<close>

lemma map_of_finish_future:
  "map_of (ack_done (finish_future res fut c)) k =
     (if k = fut \<and> map_of (ack_done c) fut = None then Some res else map_of (ack_done c) k)"
  by (auto simp: finish_future_def split: option.splits)

lemma finish_future_frame [simp]:
  "pending_acks (finish_future res fut c) = pending_acks c"
  "status (finish_future res fut c) = status c" "events (finish_future res fut c) = events c"
  "weight_out_of_limit_count (finish_future res fut c) = weight_out_of_limit_count c"
  "scale_calibrating (finish_future res fut c) = scale_calibrating c"
  "brew_context (finish_future res fut c) = brew_context c"
  by (simp_all add: finish_future_def split: option.splits)

lemma fold_finish_future:
  "map_of (ack_done (fold (finish_future res) futs c)) k =
     (case map_of (ack_done c) k of Some v \<Rightarrow> Some v | None \<Rightarrow> if k \<in> set futs then Some res else None)"
  by (induction futs arbitrary: c) (auto simp: map_of_finish_future split: option.splits)

lemma fold_finish_frame [simp]:
  "pending_acks (fold (finish_future res) futs c) = pending_acks c"
  "status (fold (finish_future res) futs c) = status c"
  "events (fold (finish_future res) futs c) = events c"
  "weight_out_of_limit_count (fold (finish_future res) futs c) = weight_out_of_limit_count c"
  "scale_calibrating (fold (finish_future res) futs c) = scale_calibrating c"
  "brew_context (fold (finish_future res) futs c) = brew_context c"
  by (induction futs arbitrary: c) simp_all

section \<open>What every notification keeps\<close>

text \<open>The part of the callback before the frame loop.\<close>

definition prescan :: "rat \<Rightarrow> bytes \<Rightarrow> client \<Rightarrow> client" where
  "prescan now raw c =
     (let c1 = c\<lparr>last_notification_monotonic := now\<rparr>;
          c2 = (if serial_number (status c1) = [] then scan_for_machine_info raw c1 else c1)
      in scan_for_alarm_frame raw (scan_for_advanced_settings raw c2))"

lemma on_notification_prescan: "on_notification now raw c = process_frames raw 0 (prescan now raw c)"
  by (simp add: on_notification_def prescan_def Let_def)

text \<open>
  A contract on predicates of the receive state: what the elementary updates of the receive
  path keep, the whole callback keeps, whatever the bytes.
\<close>

locale receive_law =
  fixes inv :: "client \<Rightarrow> bool"
  assumes stamp: "inv c \<Longrightarrow> inv (c\<lparr>last_notification_monotonic := t\<rparr>)"
    and heartbeat: "inv c \<Longrightarrow> inv (status_code_step code c)"
    and resolve: "inv c \<Longrightarrow> frame_command f = Inr cmd \<Longrightarrow> inv (resolve_pending_acks cmd f c)"
    and response: "inv c \<Longrightarrow> handle_response r f c = Inr d \<Longrightarrow> inv d"
    and advanced: "inv c \<Longrightarrow> inv (set_advanced m v c)"
    and alarmed: "inv c \<Longrightarrow> inv (alarm_event alarm c)"
    and info: "inv c \<Longrightarrow> inv (c\<lparr>status := (status c)
        \<lparr>serial_number := sn, version := ver, mode_bytes := mb\<rparr>\<rparr>)"
begin

lemma scan_for_status_frame_inv: "inv c \<Longrightarrow> inv (scan_for_status_frame f c)"
  by (auto simp: scan_for_status_frame_def heartbeat split: list.splits)

lemma parse_response_inv: "inv c \<Longrightarrow> parse_response f c = Inr d \<Longrightarrow> inv d"
proof -
  assume inv: "inv c" and p: "parse_response f c = Inr d"
  obtain cmd where cmd: "frame_command f = Inr cmd"
    using p by (auto simp: parse_response_def bind_res_Inr_iff)
  let ?c1 = "resolve_pending_acks cmd f c"
  have c1: "inv ?c1" using inv cmd by (rule resolve)
  show ?thesis
  proof (cases "response_of cmd")
    case (Some r)
    then show ?thesis
      using p cmd c1 response [OF c1, of r f]
      by (cases "handle_response r f ?c1") (auto simp: parse_response_def Let_def)
  qed (use p cmd c1 in \<open>simp add: parse_response_def Let_def\<close>)
qed

lemma process_frames_inv: "inv c \<Longrightarrow> inv (fst (process_frames raw offset c))"
proof (induction raw offset c rule: process_frames.induct)
  case (1 raw offset c)
  note step = process_frames.simps [of raw offset c]
  show ?case
  proof (cases "next_frame raw offset")
    case None
    then show ?thesis using "1.prems" by (simp add: step)
  next
    case (Some r)
    obtain f o' where r: "r = (f, o')" by (cases r)
    let ?c1 = "scan_for_status_frame f c"
    have c1: "inv ?c1" using "1.prems" by (rule scan_for_status_frame_inv)
    show ?thesis
    proof (cases "parse_response f ?c1")
      case (Inl e)
      then show ?thesis using c1 by (simp add: step Some r)
    next
      case (Inr d)
      then have "inv (fst (process_frames raw o' d))"
        using "1.IH" [OF Some [unfolded r] refl refl Inr] parse_response_inv [OF c1 Inr] by blast
      then show ?thesis using Inr by (simp add: step Some r)
    qed
  qed
qed

lemma scan_advanced_inv: "inv c \<Longrightarrow> inv (scan_advanced raw offset c)"
proof (induction "length raw - offset" arbitrary: offset c rule: less_induct)
  case less
  have IH: "inv (scan_advanced raw o' d)" if "offset < o'" "offset < length raw" "inv d" for o' d
    by (rule less.hyps) (use that in auto)
  show ?case
    using less.prems advanced [OF less.prems]
    by (subst scan_advanced.simps) (simp add: Let_def IH)
qed

lemma scan_alarms_inv: "inv c \<Longrightarrow> inv (scan_alarms raw offset c)"
proof (induction "length raw - offset" arbitrary: offset c rule: less_induct)
  case less
  have ev: "inv (alarm_event code c)" for code
    using less.prems by (rule alarmed)
  show ?case
    by (subst scan_alarms.simps) (auto intro!: less.hyps simp: less.prems ev)
qed

lemma scan_info_inv: "inv c \<Longrightarrow> inv (scan_info raw start c)"
proof (induction raw start c rule: scan_info.induct)
  case (1 raw start c)
  then show ?case
    by (subst scan_info.simps) (auto simp: Let_def info split: option.splits)
qed

lemma prescan_inv: "inv c \<Longrightarrow> inv (prescan now raw c)"
proof -
  assume "inv c"
  then have c1: "inv (c\<lparr>last_notification_monotonic := now\<rparr>)" by (rule stamp)
  let ?c1 = "c\<lparr>last_notification_monotonic := now\<rparr>"
  let ?c2 = "if serial_number (status ?c1) = [] then scan_for_machine_info raw ?c1 else ?c1"
  have "inv ?c2" using c1 scan_info_inv [OF c1] by (simp add: scan_for_machine_info_def)
  then show ?thesis
    unfolding prescan_def Let_def scan_for_alarm_frame_def scan_for_advanced_settings_def
    by (intro scan_alarms_inv scan_advanced_inv)
qed

lemma on_notification_inv: "inv c \<Longrightarrow> inv (fst (on_notification now raw c))"
  by (simp add: on_notification_prescan process_frames_inv prescan_inv)

end

section \<open>The receive invariant\<close>

definition SCREENS :: "string option set" where
  "SCREENS = {None, Some ''home'', Some ''grind'', Some ''pour'', Some ''scale'', Some ''settings''}"

definition STATE_LABELS :: "string option set" where
  "STATE_LABELS = {None, Some ''water_shortage'', Some ''no_beans'', Some ''awaiting_confirm'',
     Some ''recipe_loaded'', Some ''starting'', Some ''brewing'', Some ''ready'',
     Some ''calibrating_grinder'', Some ''descaling'', Some ''calibrating_scale''}"

definition client_inv :: "client \<Rightarrow> bool" where
  "client_inv c \<longleftrightarrow>
     weight_out_of_limit_count c \<le> WEIGHT_GLITCH_ESCAPE_COUNT \<and>
     0 \<le> g_size (grinder (status c)) \<and>
     pour_pattern_live (status c) \<in> {None, Some 0, Some 1, Some 2} \<and>
     screen (status c) \<in> SCREENS \<and> last_page (status c) \<in> SCREENS \<and>
     raw_state_label (status c) \<in> STATE_LABELS \<and>
     (scale_calibrating c \<longrightarrow> \<not> brew_context c)"

lemma u32_at_nonneg [simp]: "0 \<le> u32_at off payload"
  by (simp add: u32_at_def)

lemma grind_size_of_raw_pos [simp]: "0 \<le> grind_size_of_raw raw"
  by (simp add: grind_size_of_raw_def)

lemma screen_map_range: "map_of SCREEN_CODE_MAP code \<in> SCREENS"
proof (cases "map_of SCREEN_CODE_MAP code")
  case (Some p)
  then have "p \<in> snd ` set SCREEN_CODE_MAP" by (metis map_of_SomeD snd_conv image_eqI)
  then show ?thesis using Some by (auto simp: SCREEN_CODE_MAP_def SCREENS_def)
qed (simp add: SCREENS_def)

lemma fire_event_inv [simp]: "client_inv (fire_event cat ty a c) = client_inv c"
  by (simp add: client_inv_def fire_event_def)

lemma client_inv_status:
  assumes "client_inv c" "0 \<le> g_size (grinder s)" "pour_pattern_live s \<in> {None, Some 0, Some 1, Some 2}"
    "screen s \<in> SCREENS" "last_page s \<in> SCREENS" "raw_state_label s \<in> STATE_LABELS"
  shows "client_inv (c\<lparr>status := s\<rparr>)"
  using assms by (simp add: client_inv_def)

lemma apply_screen_inv:
  "client_inv c \<Longrightarrow> client_inv (c\<lparr>status := apply_screen code (status c)\<rparr>)"
  using screen_map_range [of code]
  by (auto simp: client_inv_def apply_screen_def stop_runs_def Let_def split: option.splits)

lemma state_label_for_range: "state_label_for code c \<in> STATE_LABELS"
proof (cases "map_of RAW_STATE_LABEL_MAP code")
  case (Some l)
  then have "l \<in> snd ` set RAW_STATE_LABEL_MAP" by (metis map_of_SomeD snd_conv image_eqI)
  then show ?thesis
    using Some by (auto simp: state_label_for_def RAW_STATE_LABEL_MAP_def STATE_LABELS_def)
qed (simp add: state_label_for_def STATE_LABELS_def)

lemma status_code_step_inv: "client_inv c \<Longrightarrow> client_inv (status_code_step code c)"
proof -
  assume inv: "client_inv c"
  have "client_inv (update_brew_context code (update_calibration_latch code c))"
    using inv by (auto simp: client_inv_def update_brew_context_def update_calibration_latch_def)
  then have "client_inv (upd_status (\<lambda>s. s\<lparr>raw_state_label := state_label_for code d\<rparr>)
      (update_brew_context code (update_calibration_latch code c)))" for d
    using state_label_for_range [of code d] by (simp add: client_inv_def)
  from apply_screen_inv [OF this] show ?thesis by (simp add: status_code_step_def Let_def)
qed

interpretation heartbeat: invariant_step status_code_step client_inv
  by unfold_locales (rule status_code_step_inv)

lemma filter_weight_inv: "client_inv c \<Longrightarrow> client_inv (snd (filter_weight w c))"
  by (auto simp: filter_weight_def client_inv_def WEIGHT_GLITCH_ESCAPE_COUNT_def split: option.splits)

lemma handle_weight_inv: "client_inv c \<Longrightarrow> client_inv (handle_weight payload c)"
  using filter_weight_inv [of c "f32_at payload"]
  by (auto simp: handle_weight_def client_inv_def split: prod.splits)

lemma handle_machine_info_inv: "client_inv c \<Longrightarrow> client_inv (handle_machine_info payload c)"
  by (simp add: handle_machine_info_def Let_def client_inv_def)

lemmas handler_defs = handle_brewer_temperature_def handle_in_brewer_def handle_in_grinder_def
  handle_grinder_size_def handle_grinder_speed_def handle_current_grinder_def
  handle_brewer_mode_def handle_unit_change_def

lemma handlers_inv:
  assumes "client_inv c"
  shows "client_inv (handle_brewer_temperature payload c)" "client_inv (handle_in_brewer payload c)"
    "client_inv (handle_in_grinder payload c)" "client_inv (handle_grinder_size payload c)"
    "client_inv (handle_grinder_speed payload c)" "client_inv (handle_current_grinder payload c)"
    "client_inv (handle_brewer_mode payload c)" "client_inv (handle_unit_change payload c)"
  using assms by (auto simp: handler_defs Let_def client_inv_def SCREENS_def fire_event_def)

text \<open>Updates of fields the invariant does not read, or reads only for their range.\<close>

lemma client_inv_upd:
  "client_inv (upd_status (\<lambda>s. s\<lparr>state := st\<rparr>) c) = client_inv c"
  "client_inv (upd_status (\<lambda>s. s\<lparr>water_volume := v\<rparr>) c) = client_inv c"
  "client_inv (upd_status (\<lambda>s. s\<lparr>is_sleeping := q\<rparr>) c) = client_inv c"
  "client_inv (upd_status (\<lambda>s. s\<lparr>is_calibrating_grinder := q\<rparr>) c) = client_inv c"
  "client_inv (upd_grinder (\<lambda>g. g\<lparr>g_position := v\<rparr>) c) = client_inv c"
  "client_inv (upd_grinder (\<lambda>g. g\<lparr>g_is_running := q\<rparr>) c) = client_inv c"
  "client_inv (upd_grinder (\<lambda>g. g\<lparr>g_is_running := q, g_speed := v\<rparr>) c) = client_inv c"
  "client_inv (upd_brewer (\<lambda>b. b\<lparr>b_is_running := q\<rparr>) c) = client_inv c"
  "client_inv c \<Longrightarrow> x \<in> {''scale'', ''home''} \<Longrightarrow> client_inv (upd_status (\<lambda>s. s\<lparr>screen := Some x\<rparr>) c)"
  by (auto simp: client_inv_def SCREENS_def)

lemma handle_status_inv: "client_inv c \<Longrightarrow> handle_status r payload c = Inr d \<Longrightarrow> client_inv d"
proof -
  assume inv: "client_inv c" and h: "handle_status r payload c = Inr d"
  have "case handle_status r payload c of Inl _ \<Rightarrow> True | Inr d \<Rightarrow> client_inv d"
  proof (cases "r = WATER_VOLUME")
    case True
    then show ?thesis using inv by (cases "int_of_float (f32_at payload)") (simp_all add: client_inv_upd)
  next
    case False
    then show ?thesis
      by (cases r) (simp_all only: handle_status.simps sum.case if_split client_inv_upd handlers_inv
          handle_weight_inv handle_machine_info_inv inv insert_iff simp_thms)
  qed
  with h show ?thesis by simp
qed

lemma handle_mode_ack_inv: "client_inv c \<Longrightarrow> client_inv (handle_mode_ack r payload c)"
  by (simp add: handle_mode_ack_def client_inv_def)

lemma handle_events_inv: "client_inv c \<Longrightarrow> client_inv (handle_events r payload c)"
  by (auto simp: handle_events_def Let_def client_inv_def fire_event_def split: option.splits)

lemma handle_response_inv: "client_inv c \<Longrightarrow> handle_response r f c = Inr d \<Longrightarrow> client_inv d"
  by (auto simp: handle_response_def Let_def bind_res_Inr_iff
      intro!: handle_events_inv handle_mode_ack_inv dest: handle_status_inv)

lemma resolve_pending_acks_inv: "client_inv c \<Longrightarrow> client_inv (resolve_pending_acks cmd f c)"
  by (simp add: resolve_pending_acks_def client_inv_def)

lemma set_advanced_inv: "client_inv c \<Longrightarrow> client_inv (set_advanced cmd v c)"
  by (simp add: set_advanced_def client_inv_def)

interpretation wf: receive_law client_inv
proof
  fix c d :: client and t r f
  show "client_inv c \<Longrightarrow> client_inv (c\<lparr>last_notification_monotonic := t\<rparr>)"
    and "client_inv c \<Longrightarrow> client_inv (c\<lparr>status := (status c)
        \<lparr>serial_number := sn, version := ver, mode_bytes := mb\<rparr>\<rparr>)" for sn ver mb
    by (simp_all add: client_inv_def)
  show "client_inv c \<Longrightarrow> handle_response r f c = Inr d \<Longrightarrow> client_inv d"
    by (rule handle_response_inv)
  show "client_inv c \<Longrightarrow> client_inv (alarm_event code c)" for code
    by (auto simp: alarm_event_def split: option.split)
qed (auto intro: status_code_step_inv resolve_pending_acks_inv set_advanced_inv)

text \<open>The callback as a step on (time, buffer) inputs; bleak logs what escapes and goes on.\<close>

definition notify :: "rat \<times> bytes \<Rightarrow> client \<Rightarrow> client" where
  "notify tb c = fst (on_notification (fst tb) (snd tb) c)"

interpretation receive: invariant_step notify client_inv
  by unfold_locales (simp add: notify_def wf.on_notification_inv)

lemma init_client_inv: "client_inv (init_client now)"
  by (simp add: client_inv_def init_client_def init_status_def init_grinder_def SCREENS_def STATE_LABELS_def)

section \<open>What notifications do to acknowledgements\<close>

definition acks :: "client \<Rightarrow> (int \<times> nat list) list \<times> (nat \<times> bytes res) list" where
  "acks c = (pending_acks c, ack_done c)"

text \<open>
  Since \<open>c0\<close>, the waiters are the same, no result was lost or changed, and every new result is
  a frame whose command that waiter awaits.
\<close>

definition acks_since :: "client \<Rightarrow> client \<Rightarrow> bool" where
  "acks_since c0 c \<longleftrightarrow> pending_acks c = pending_acks c0 \<and>
     (\<forall>fut. map_of (ack_done c) fut = map_of (ack_done c0) fut \<or>
        (map_of (ack_done c0) fut = None \<and> (\<exists>f cmd. map_of (ack_done c) fut = Some (Inr f) \<and>
           frame_command f = Inr cmd \<and> fut \<in> set (pending_for cmd c0))))"

lemma acks_since_refl [simp]: "acks_since c c"
  by (simp add: acks_since_def)

lemma acks_since_acks: "acks d = acks c \<Longrightarrow> acks_since c0 c \<Longrightarrow> acks_since c0 d"
  by (simp add: acks_since_def acks_def)

lemma acks_since_trans: "acks_since a b \<Longrightarrow> acks_since b c \<Longrightarrow> acks_since a c"
  unfolding acks_since_def pending_for_def by (metis (no_types, lifting) option.distinct(1))

lemma acks_upd [simp]:
  "acks (c\<lparr>status := st\<rparr>) = acks c" "acks (fire_event cat ty a c) = acks c"
  "acks (c\<lparr>last_notification_monotonic := t\<rparr>) = acks c"
  "acks (c\<lparr>last_accepted_weight := lw\<rparr>) = acks c"
  "acks (c\<lparr>weight_out_of_limit_count := n\<rparr>) = acks c"
  "acks (c\<lparr>scale_calibrating := q\<rparr>) = acks c" "acks (c\<lparr>brew_context := q\<rparr>) = acks c"
  by (simp_all add: acks_def fire_event_def)

lemma status_code_step_acks: "acks (status_code_step code c) = acks c"
  by (simp add: status_code_step_def Let_def update_brew_context_def update_calibration_latch_def acks_def)

lemma handlers_acks [simp]:
  "acks (handle_brewer_temperature payload c) = acks c" "acks (handle_in_brewer payload c) = acks c"
  "acks (handle_in_grinder payload c) = acks c" "acks (handle_grinder_size payload c) = acks c"
  "acks (handle_grinder_speed payload c) = acks c" "acks (handle_current_grinder payload c) = acks c"
  "acks (handle_brewer_mode payload c) = acks c" "acks (handle_unit_change payload c) = acks c"
  "acks (handle_machine_info payload c) = acks c" "acks (handle_weight payload c) = acks c"
  by (simp_all add: handler_defs handle_machine_info_def handle_weight_def filter_weight_def Let_def
      split: option.splits prod.splits)

lemma handle_status_acks: "handle_status r payload c = Inr d \<Longrightarrow> acks d = acks c"
proof -
  assume h: "handle_status r payload c = Inr d"
  have "case handle_status r payload c of Inl _ \<Rightarrow> True | Inr d \<Rightarrow> acks d = acks c"
  proof (cases "r = WATER_VOLUME")
    case True
    then show ?thesis by (cases "int_of_float (f32_at payload)") simp_all
  next
    case False
    then show ?thesis
      by (cases r) (simp_all only: handle_status.simps sum.case if_distrib [of acks] if_cancel
          acks_upd handlers_acks simp_thms)
  qed
  with h show ?thesis by simp
qed

lemma handle_events_acks: "acks (handle_events r payload c) = acks c"
  by (simp add: handle_events_def Let_def split: option.split)

lemma handle_response_acks: "handle_response r f c = Inr d \<Longrightarrow> acks d = acks c"
  by (auto simp: handle_response_def Let_def bind_res_Inr_iff handle_mode_ack_def handle_events_acks
      dest: handle_status_acks)

lemma resolve_acks_since:
  "acks_since c0 c \<Longrightarrow> frame_command f = Inr cmd \<Longrightarrow> acks_since c0 (resolve_pending_acks cmd f c)"
  by (rule acks_since_trans)
    (auto simp: acks_since_def resolve_pending_acks_def fold_finish_future split: option.splits)

interpretation ack: receive_law "acks_since c0" for c0
proof
  fix c d :: client and r f
  show "acks_since c0 c \<Longrightarrow> handle_response r f c = Inr d \<Longrightarrow> acks_since c0 d"
    by (rule acks_since_acks) (rule handle_response_acks)
  show "acks_since c0 c \<Longrightarrow> acks_since c0 (set_advanced m v c)" for m v
    by (simp add: set_advanced_def acks_since_def)
  show "acks_since c0 c \<Longrightarrow> acks_since c0 (alarm_event code c)" for code
    by (auto simp: alarm_event_def split: option.split intro: acks_since_acks [rotated])
qed (auto simp: status_code_step_acks intro: resolve_acks_since acks_since_acks [rotated])

section \<open>Dispatch of a well-formed buffer\<close>

definition frame_step :: "bytes \<Rightarrow> client \<Rightarrow> client" where
  "frame_step f c = (case parse_response f (scan_for_status_frame f c) of
     Inl _ \<Rightarrow> scan_for_status_frame f c | Inr d \<Rightarrow> d)"

lemma well_framed_length: "well_framed f \<Longrightarrow> 5 \<le> length f"
  by (simp add: well_framed_def)

lemma process_frames_stream:
  assumes "list_all (\<lambda>(noise, f). no_header noise \<and> well_framed f) segs" "no_header tail"
  shows "process_frames (pre @ concat (map (\<lambda>(noise, f). noise @ f) segs) @ tail) (length pre) c
    = (fold frame_step (map snd segs) c, None)"
  using assms(1)
proof (induction segs arbitrary: pre c)
  case Nil
  have "next_frame (pre @ tail) (length pre) = None"
    using next_frame_skip [OF assms(2), of pre "[]"] by (simp add: next_frame_end)
  then show ?case by (subst process_frames.simps) simp
next
  case (Cons s segs)
  obtain noise f where s: "s = (noise, f)" by (cases s)
  let ?rest = "concat (map (\<lambda>(noise, f). noise @ f) segs) @ tail"
  have ok: "no_header noise" "well_framed f" using Cons.prems s by auto
  have nf: "next_frame (pre @ noise @ f @ ?rest) (length pre) = Some (f, length (pre @ noise @ f))"
    using next_frame_skip [OF ok(1), of pre "f @ ?rest"]
      next_frame_hit [OF ok(2), of "pre @ noise" ?rest] by simp
  obtain d where d: "parse_response f (scan_for_status_frame f c) = Inr d"
    using parse_response_ok_iff [of f "scan_for_status_frame f c"] well_framed_length [OF ok(2)]
    by (auto simp: is_ok_iff)
  have "process_frames ((pre @ noise @ f) @ ?rest) (length (pre @ noise @ f)) d
      = (fold frame_step (map snd segs) d, None)"
    by (rule Cons.IH) (use Cons.prems in simp)
  then have "process_frames (pre @ noise @ f @ ?rest) (length pre) c
      = (fold frame_step (map snd segs) d, None)"
    by (subst process_frames.simps) (simp add: nf d)
  moreover have "frame_step f c = d" by (simp add: frame_step_def d)
  ultimately show ?case using s by simp
qed

section \<open>Properties\<close>

text \<open>
  C16. Whatever bytes the machine sends, in any number of notifications, the receive state
  stays well-formed: the glitch counter is at most four, the grind size is never negative,
  the live pattern is a pattern, screen, last page and state label are known ones, and a latched scale
  calibration excludes a brew context.
\<close>

theorem receive_invariant: "client_inv (fold notify tbs (init_client now))"
  by (rule receive.run_inv) (rule init_client_inv)

text \<open>
  A notification that carries several frames, with header-free noise around them, handles
  every frame in order, each with its heartbeat scan before its dispatch, and raises nothing.
\<close>

theorem batched_frames_all_handled:
  assumes "list_all (\<lambda>(noise, f). no_header noise \<and> well_framed f) segs" and "no_header tail"
  shows "process_frames (concat (map (\<lambda>(noise, f). noise @ f) segs) @ tail) 0 c
    = (fold frame_step (map snd segs) c, None)"
  using process_frames_stream [OF assms, of "[]"] by simp

theorem batched_frames_all_handled_witness:
  "snd (process_frames ([0x00] @ encode_frame 0x58 1 7 40507 0xC1 [] [0, 0]
      @ encode_frame 0x58 1 7 8023 0xC1 [0x22] [0, 0]) 0 (init_client 0)) = None"
proof -
  let ?f = "encode_frame 0x58 1 7 40507 0xC1 [] [0, 0]"
  let ?g = "encode_frame 0x58 1 7 8023 0xC1 [0x22] [0, 0]"
  have h: "list_all (\<lambda>(noise, f). no_header noise \<and> well_framed f) [([0x00], ?f), ([], ?g)]"
    "no_header []"
    by (simp_all add: no_header_def encode_frame_well_framed framing_consts)
  show ?thesis using batched_frames_all_handled [OF h, of "init_client 0"] by simp
qed

text \<open>
  A frame whose length field is below five passes the scanner's checks but makes the
  callback raise \<^verbatim>\<open>struct.error\<close>: the rest of the buffer is not handled, whatever it holds.
\<close>

theorem short_frame_aborts_buffer:
  assumes "frame_at raw offset f" and "length f < 5"
  shows "(process_frames raw offset c = (scan_for_status_frame f c, Some StructError)) \<and>
    (scan_for_status_frame f c = c)"
proof -
  have nf: "next_frame raw offset = Some (f, offset + length f)"
    using assms(1) by (subst next_frame.simps) (auto simp: frame_at_def Let_def)
  have "frame_command f = Inl StructError"
    using assms(2) by (simp add: frame_command_def unpack_H_def unpack_le_def)
  then have c1: "process_frames raw offset c = (scan_for_status_frame f c, Some StructError)"
    by (subst process_frames.simps) (simp add: nf parse_response_def)
  have c2: "scan_for_status_frame f c = c" using assms(2) by (simp add: scan_for_status_frame_def)
  show ?thesis using c1 c2 by blast
qed

theorem short_frame_aborts_buffer_witness:
  "process_frames ([0x58, 1, 7, 0x57, 0x1F, 4, 0, 0, 0, 0xC1]
      @ encode_frame 0x58 1 7 40522 0xC1 [0, 0, 0, 0] [0, 0]) 0 (init_client 0)
   = (init_client 0, Some StructError)"
proof -
  let ?raw = "[0x58, 1, 7, 0x57, 0x1F, 4, 0, 0, 0, 0xC1]
      @ encode_frame 0x58 1 7 40522 0xC1 [0, 0, 0, 0] [0, 0]"
  have f: "frame_at ?raw 0 [0x58, 1, 7, 0x57]"
    by (simp add: frame_at_def framing_consts slice_def)
  show ?thesis
    using short_frame_aborts_buffer [OF f, of "init_client 0"] by simp
qed

text \<open>
  An echoed frame resolves exactly the waiters of its own command: each gets that frame
  unless it already had a result, and no other waiter changes.
\<close>

theorem ack_resolves_own_waiters:
  "map_of (ack_done (resolve_pending_acks cmd frame c)) fut =
     (case map_of (ack_done c) fut of
        Some v \<Rightarrow> Some v
      | None \<Rightarrow> if fut \<in> set (pending_for cmd c) then Some (Inr frame) else None) \<and>
   status (resolve_pending_acks cmd frame c) = status c"
  by (simp add: resolve_pending_acks_def fold_finish_future)

text \<open>
  While the grinder is being calibrated, the responses that announce a grinding start or
  stop fire no event at all, so the sweep's own motor runs never look like a grind; otherwise
  each fires its one notification.
\<close>

theorem calibration_suppresses_grind_events:
  assumes "r \<in> {GRINDER_BEGIN, GRINDER_RUN_BEGIN, R_GRINDER_STOP}" "handle_response r frame c = Inr d"
  shows "map fst (events d) = (if is_calibrating_grinder (status c) then map fst (events c)
    else map fst (events c) @ [(''notification'',
      if r = R_GRINDER_STOP then ''grinding_complete'' else ''grinding_started'', [])])"
  using assms
  by (auto simp: handle_response_def handle_mode_ack_def handle_events_def NOTIFICATION_MAP_def
      notification_attrs_def fire_event_def Let_def)

theorem calibration_suppresses_grind_events_witness:
  "\<exists>d. handle_response R_GRINDER_STOP [] (upd_status (\<lambda>s. s\<lparr>is_calibrating_grinder := True\<rparr>) (init_client 0))
     = Inr d \<and> events d = []"
proof -
  let ?c = "upd_status (\<lambda>s. s\<lparr>is_calibrating_grinder := True\<rparr>) (init_client 0)"
  obtain d where d: "handle_response R_GRINDER_STOP [] ?c = Inr d"
    by (simp add: handle_response_def Let_def)
  have "events d = []"
    using calibration_suppresses_grind_events [OF _ d] by (simp add: init_client_def)
  with d show ?thesis by blast
qed

lemma hex_digit_inj: "m < 16 \<Longrightarrow> n < 16 \<Longrightarrow> hex_digit m = hex_digit n \<Longrightarrow> m = n"
proof -
  assume "m < 16" "n < 16" and eq: "hex_digit m = hex_digit n"
  have "distinct ''0123456789abcdef''" by simp
  moreover have "length ''0123456789abcdef'' = 16" by simp
  ultimately show "m = n"
    using \<open>m < 16\<close> \<open>n < 16\<close> eq nth_eq_iff_index_eq unfolding hex_digit_def by (metis mod_less)
qed

lemma hex_byte_inj:
  assumes "hex_digit (unat a div 16) = hex_digit (unat b div 16)" "hex_digit (unat a) = hex_digit (unat b)"
  shows "(a :: byte) = b"
proof -
  have lt: "unat x div 16 < 16" for x :: byte
    by (rule less_mult_imp_div_less) (use byte_unat_lt [of x] in simp)
  have "hex_digit n = hex_digit (n mod 16)" for n by (simp add: hex_digit_def)
  then have "unat a mod 16 = unat b mod 16"
    using assms(2) hex_digit_inj [of "unat a mod 16" "unat b mod 16"] by simp
  moreover have "unat a div 16 = unat b div 16" using assms(1) lt hex_digit_inj by blast
  ultimately have "unat a = unat b" by (metis div_mult_mod_eq)
  then show ?thesis by (simp only: word_unat_eq_iff)
qed

lemma hex_inj: "hex xs = hex ys \<Longrightarrow> xs = ys"
proof (induction xs arbitrary: ys)
  case (Cons x xs)
  then obtain y ys' where "ys = y # ys'" by (cases ys) (auto simp: hex_def)
  with Cons show ?case by (auto simp: hex_def intro: hex_byte_inj)
qed (auto simp: hex_def split: list.splits dest: sym)

text \<open>
  The mode-switch acknowledgement decides the reported mode: after one, the machine mode
  is easy exactly when the acknowledged code is the Easy code, whatever the connect-time
  snapshot said.
\<close>

theorem mode_ack_decides_mode:
  assumes "4 \<le> length (frame_payload frame)" "handle_response EASYMODE_TYPE frame c = Inr d"
  shows "machine_mode d =
    (if slice 0 4 (frame_payload frame) = [0x91, 0x32, 0x78, 0x56] then ''easy'' else ''pro'')"
proof -
  have easy: "hex [0x91, 0x32, 0x78, 0x56] = MACHINE_INFO_MODE_EASY_HEX"
    by (simp add: hex_def hex_digit_def MACHINE_INFO_MODE_EASY_HEX_def)
  have "mode_ack_hex (status d) = Some (hex (slice 0 4 (frame_payload frame)))"
    using assms by (auto simp: handle_response_def handle_mode_ack_def handle_events_def
        NOTIFICATION_MAP_def ERROR_MAP_def Let_def)
  then show ?thesis using easy hex_inj by (auto simp: machine_mode_def)
qed

theorem mode_ack_decides_mode_witness:
  "\<exists>d. handle_response EASYMODE_TYPE (encode_frame 0x58 1 7 11511 0xC2 [0x91, 0x32, 0x78, 0x56] [0, 0])
     (init_client 0) = Inr d \<and> machine_mode d = ''easy''"
proof -
  let ?f = "encode_frame 0x58 1 7 11511 0xC2 [0x91, 0x32, 0x78, 0x56] [0, 0]"
  have p: "frame_payload ?f = [0x91, 0x32, 0x78, 0x56]"
    using encode_frame_fields(5) [of "[0x91, 0x32, 0x78, 0x56]"] by (simp add: frame_payload_def)
  obtain d where d: "handle_response EASYMODE_TYPE ?f (init_client 0) = Inr d"
    by (simp add: handle_response_def Let_def)
  have "machine_mode d = ''easy''"
    using mode_ack_decides_mode [OF _ d] by (simp add: p slice_def)
  with d show ?thesis by blast
qed

end
