(* ===== verification/Session.thy ===== *)
theory Session
  imports Client "HOL-Library.AList"
begin

text \<open>
  The live session (\<^verbatim>\<open>ble/connection.py\<close>, the sending half of \<^verbatim>\<open>ble/client.py\<close> and
  \<^verbatim>\<open>ble/components.py\<close>).  Coroutines are functions on a \<open>world\<close>: the client, the link, the
  clock, what was written so far, and a script of what the surroundings do.  Every \<^verbatim>\<open>await\<close>
  that yields to the event loop (a sleep, a GATT write, a wait for an acknowledgement) consumes
  one \<open>tick\<close> of the script: the notifications delivered meanwhile (handled by
  \<open>on_notification\<close>), whether the link dropped, whether a write in progress failed, and how long
  it took.  Past the end of the script nothing arrives and no write fails.
\<close>

section \<open>Worlds and coroutines\<close>

record tick =
  t_notifs :: "bytes list"
  t_drop :: bool
  t_fault :: bool
  t_elapsed :: rat

definition quiet :: tick where
  "quiet = \<lparr>t_notifs = [], t_drop = False, t_fault = False, t_elapsed = 0\<rparr>"

record sent =
  s_time :: rat
  s_command :: int
  s_type :: int
  s_payload :: bytes

record world =
  w_client :: client
  w_link :: bool
  w_expect_disconnect :: bool
  w_mtu :: int
  w_now :: rat
  w_next_future :: nat
  w_sent :: "sent list"
  w_writes :: "bytes list"
  w_ticks :: "tick list"

type_synonym 'a co = "(world, 'a) act"

definition upd_client :: "(client \<Rightarrow> client) \<Rightarrow> unit co" where
  "upd_client f w = (Inr (), w\<lparr>w_client := f (w_client w)\<rparr>)"

lemma upd_client_run [simp]: "upd_client f w = (Inr (), w\<lparr>w_client := f (w_client w)\<rparr>)"
  by (simp add: upd_client_def)

section \<open>Awaiting\<close>

definition deliver :: "tick \<Rightarrow> rat \<Rightarrow> world \<Rightarrow> world" where
  "deliver t dt w =
     (let now = w_now w + dt in
      w\<lparr>w_now := now,
        w_client := fold (\<lambda>raw c. fst (on_notification now raw c)) (t_notifs t) (w_client w),
        w_link := w_link w \<and> \<not> t_drop t\<rparr>)"

definition next_tick :: "world \<Rightarrow> tick \<times> world" where
  "next_tick w = (case w_ticks w of [] \<Rightarrow> (quiet, w) | t # ts \<Rightarrow> (t, w\<lparr>w_ticks := ts\<rparr>))"

text \<open>\<^verbatim>\<open>asyncio.sleep(d)\<close> lasts at least \<open>d\<close>.\<close>

definition sleep :: "rat \<Rightarrow> unit co" where
  "sleep d w = (let (t, w1) = next_tick w in (Inr (), deliver t (max d (t_elapsed t)) w1))"

section \<open>Writing\<close>

definition gatt_write :: "bytes \<Rightarrow> unit co" where
  "gatt_write chunk w =
     (let (t, w1) = next_tick w; w2 = deliver t (max 0 (t_elapsed t)) w1
      in if t_fault t then (Inl BleakError, w2)
         else (Inr (), w2\<lparr>w_writes := w_writes w2 @ [chunk]\<rparr>))"

fun gatt_write_all :: "bytes list \<Rightarrow> unit co" where
  "gatt_write_all [] = return_co ()"
| "gatt_write_all (chunk # chunks) = then_co (gatt_write chunk) (gatt_write_all chunks)"

definition write_command :: "bytes \<Rightarrow> unit co" where
  "write_command data w =
     (if \<not> w_link w then (Inl ConnectionError, w)
      else let mtu_size = (if w_mtu w = 0 then 23 else w_mtu w)
        in gatt_write_all (split_write_chunks data mtu_size) w)"

definition log_sent :: "rat \<Rightarrow> int \<Rightarrow> int \<Rightarrow> bytes \<Rightarrow> unit co" where
  "log_sent started command type_code payload w =
     (Inr (), w\<lparr>w_sent := w_sent w @
        [\<lparr>s_time = started, s_command = command, s_type = type_code, s_payload = payload\<rparr>]\<rparr>)"

definition DEVICE_ID :: int where "DEVICE_ID = 1"

text \<open>
  \<^verbatim>\<open>_send_command_raw\<close>.  \<open>w_sent\<close> is a ghost record of the commands handed to the radio in
  full, with the time the send began.
\<close>

definition send_command_raw :: "int \<Rightarrow> bytes \<Rightarrow> int \<Rightarrow> bool co" where
  "send_command_raw command data type_code w =
     (if \<not> w_link w then (Inl ConnectionError, w)
      else bind_co (lift_res (build_packet_raw command data type_code DEVICE_ID)) (\<lambda>packet.
           then_co (write_command packet)
          (then_co (log_sent (w_now w) command type_code data) (return_co True))) w)"

definition send_command :: "int \<Rightarrow> int list \<Rightarrow> int \<Rightarrow> bool co" where
  "send_command command data type_code w =
     (if \<not> w_link w then (Inl ConnectionError, w)
      else bind_co (lift_res (map_res pack_I data)) (\<lambda>parts.
           bind_co (lift_res (build_packet command data type_code DEVICE_ID)) (\<lambda>packet.
           then_co (write_command packet)
          (then_co (log_sent (w_now w) command type_code (concat parts)) (return_co True)))) w)"

section \<open>Awaiting an acknowledgement\<close>

definition add_waiter :: "int \<Rightarrow> nat \<Rightarrow> client \<Rightarrow> client" where
  "add_waiter command fut c =
     c\<lparr>pending_acks := AList.update command (pending_for command c @ [fut]) (pending_acks c)\<rparr>"

definition remove_waiter :: "int \<Rightarrow> nat \<Rightarrow> client \<Rightarrow> client" where
  "remove_waiter command fut c =
     (case map_of (pending_acks c) command of
        None \<Rightarrow> c
      | Some ws \<Rightarrow>
          let ws' = remove1 fut ws in
          c\<lparr>pending_acks := (if ws' = [] then AList.delete command (pending_acks c)
                               else AList.update command ws' (pending_acks c))\<rparr>)"

text \<open>\<^verbatim>\<open>asyncio.wait_for(future, timeout)\<close>.\<close>

definition wait_for :: "nat \<Rightarrow> rat \<Rightarrow> bytes co" where
  "wait_for fut timeout w =
     (case map_of (ack_done (w_client w)) fut of
        Some r \<Rightarrow> (r, w)
      | None \<Rightarrow>
          let (t, w1) = next_tick w; w2 = deliver t (min timeout (max 0 (t_elapsed t))) w1
          in case map_of (ack_done (w_client w2)) fut of
               Some r \<Rightarrow> (r, w2)
             | None \<Rightarrow> (Inl AckTimeout, w2\<lparr>w_now := w_now w + timeout\<rparr>))"

datatype payload_arg = Data "int list" | Raw bytes

primrec send_payload :: "int \<Rightarrow> payload_arg \<Rightarrow> int \<Rightarrow> bool co" where
  "send_payload command (Data d) type_code = send_command command d type_code"
| "send_payload command (Raw r) type_code = send_command_raw command r type_code"

definition send_and_wait :: "int \<Rightarrow> payload_arg \<Rightarrow> rat \<Rightarrow> int \<Rightarrow> bytes co" where
  "send_and_wait command p timeout type_code w =
     (let fut = w_next_future w;
          w0 = w\<lparr>w_next_future := fut + 1, w_client := add_waiter command fut (w_client w)\<rparr>;
          (r, w1) = then_co (send_payload command p type_code) (wait_for fut timeout) w0
      in (r, w1\<lparr>w_client := remove_waiter command fut (w_client w1)\<rparr>))"

section \<open>Laws of coroutines\<close>

text \<open>
  A contract on relations between the world before and after: what delivery, writing and the
  passing of time respect, every coroutine built from them respects.
\<close>

locale world_law = act_law R for R :: "world \<Rightarrow> world \<Rightarrow> bool" +
  assumes R_deliver: "0 \<le> dt \<Longrightarrow> R w (deliver t dt w)"
    and R_ticks: "R w (w\<lparr>w_ticks := ts\<rparr>)"
    and R_writes: "R w (w\<lparr>w_writes := w_writes w @ cs\<rparr>)"
    and R_sent: "R w (w\<lparr>w_sent := w_sent w @ ss\<rparr>)"
    and R_clock: "w_now w \<le> t' \<Longrightarrow> R w (w\<lparr>w_now := t'\<rparr>)"
begin

lemma R_next_tick: "R w (snd (next_tick w))"
  by (auto simp: next_tick_def R_refl R_ticks split: list.splits)

lemma keeps_sleep: "0 \<le> d \<Longrightarrow> keeps R (sleep d)"
  unfolding keeps_def sleep_def
  by (auto split: prod.splits intro!: R_trans [OF _ R_deliver]) (metis R_next_tick snd_conv)

lemma keeps_gatt_write: "keeps R (gatt_write chunk)"
  unfolding keeps_def gatt_write_def Let_def
  by (auto split: prod.splits intro!: R_trans [OF _ R_deliver] R_trans [OF _ R_writes])
    (metis R_next_tick snd_conv)+

lemma keeps_gatt_write_all: "keeps R (gatt_write_all chunks)"
  by (induction chunks) (simp add: keeps_def R_refl, simp add: keeps_then keeps_gatt_write)

lemma keeps_write_command: "keeps R (write_command data)"
  using keeps_gatt_write_all by (simp add: keeps_def write_command_def Let_def R_refl)

lemma keeps_log_sent: "keeps R (log_sent t0 command ty payload)"
  by (simp add: keeps_def log_sent_def R_sent)

lemma keeps_guard: "keeps R m \<Longrightarrow> keeps R (\<lambda>w. if \<not> w_link w then (x, w) else m w)"
  by (simp add: keeps_def R_refl)

lemma keeps_now: "(\<And>t. keeps R (m t)) \<Longrightarrow> keeps R (\<lambda>w. m (w_now w) w)"
  by (simp add: keeps_def)

lemmas keeps_base = keeps_return keeps_raise keeps_lift keeps_bind keeps_then keeps_catch
  keeps_sleep keeps_write_command keeps_log_sent keeps_guard

lemma keeps_send_command_raw: "keeps R (send_command_raw command data ty)"
proof -
  have "keeps R (\<lambda>w. (\<lambda>t. bind_co (lift_res (build_packet_raw command data ty DEVICE_ID)) (\<lambda>packet.
      then_co (write_command packet)
     (then_co (log_sent t command ty data) (return_co True)))) (w_now w) w)"
    by (rule keeps_now) (intro keeps_base)
  then show ?thesis unfolding send_command_raw_def [abs_def] by (rule keeps_guard)
qed

lemma keeps_send_command: "keeps R (send_command command data ty)"
proof -
  have "keeps R (\<lambda>w. (\<lambda>t. bind_co (lift_res (map_res pack_I data)) (\<lambda>parts.
      bind_co (lift_res (build_packet command data ty DEVICE_ID)) (\<lambda>packet.
      then_co (write_command packet)
     (then_co (log_sent t command ty (concat parts)) (return_co True))))) (w_now w) w)"
    by (rule keeps_now) (intro keeps_base)
  then show ?thesis unfolding send_command_def [abs_def] by (rule keeps_guard)
qed

lemma keeps_send_payload: "keeps R (send_payload command p ty)"
  by (cases p) (simp_all add: keeps_send_command keeps_send_command_raw)

lemma keeps_wait_for: "0 \<le> timeout \<Longrightarrow> keeps R (wait_for fut timeout)"
  unfolding keeps_def
proof
  fix w :: world assume t0: "0 \<le> timeout"
  obtain t w1 where nt: "next_tick w = (t, w1)" by (cases "next_tick w")
  let ?dt = "min timeout (max 0 (t_elapsed t))"
  have now: "w_now w1 = w_now w" using nt by (auto simp: next_tick_def split: list.splits)
  have "R w w1" using R_next_tick [of w] nt by simp
  then have d: "R w (deliver t ?dt w1)" by (rule R_trans) (use t0 in \<open>intro R_deliver; simp\<close>)
  then have "R w ((deliver t ?dt w1)\<lparr>w_now := w_now w + timeout\<rparr>)"
    by (rule R_trans) (use t0 now in \<open>intro R_clock; simp add: deliver_def Let_def\<close>)
  with d show "R w (snd (wait_for fut timeout w))"
    by (simp add: wait_for_def nt Let_def R_refl split: option.splits)
qed

end

text \<open>Acknowledgements: a coroutine that starts no wait of its own keeps the waiters.\<close>

definition acks_step :: "world \<Rightarrow> world \<Rightarrow> bool" where
  "acks_step w w' \<longleftrightarrow> acks_since (w_client w) (w_client w') \<and> w_next_future w' = w_next_future w"

lemma deliver_acks: "acks_since (w_client w) (w_client (deliver t dt w))"
proof -
  have "acks_since c0 c \<Longrightarrow> acks_since c0 (fold (\<lambda>raw c. fst (on_notification now raw c)) rs c)"
    for c0 c now rs
    by (induction rs arbitrary: c) (simp_all add: ack.on_notification_inv)
  then show ?thesis by (simp add: deliver_def Let_def)
qed

interpretation aw: world_law acks_step
  by unfold_locales
    (auto simp: acks_step_def deliver_acks intro: acks_since_trans, simp add: deliver_def Let_def)

text \<open>Time never goes back and what was sent stays sent.\<close>

definition progress :: "world \<Rightarrow> world \<Rightarrow> bool" where
  "progress w w' \<longleftrightarrow> w_now w \<le> w_now w' \<and> (\<exists>ss. w_sent w' = w_sent w @ ss)"

locale free_world_law = world_law +
  assumes R_client: "R w (w\<lparr>w_client := c\<rparr>)"
    and R_future: "R w (w\<lparr>w_next_future := n\<rparr>)"
begin

lemma keeps_upd_client: "keeps R (upd_client f)"
  by (simp add: keeps_def R_client)

lemma keeps_send_and_wait: "0 \<le> timeout \<Longrightarrow> keeps R (send_and_wait command p timeout ty)"
  unfolding keeps_def
proof
  fix w :: world assume t0: "0 \<le> timeout"
  let ?w0 = "w\<lparr>w_next_future := w_next_future w + 1,
      w_client := add_waiter command (w_next_future w) (w_client w)\<rparr>"
  let ?m = "then_co (send_payload command p ty) (wait_for (w_next_future w) timeout)"
  have 0: "R w ?w0" using R_trans [OF R_future R_client] by fastforce
  have "keeps R ?m" by (intro keeps_then keeps_send_payload keeps_wait_for t0)
  then have 1: "R w (snd (?m ?w0))" using 0 R_trans by (simp add: keeps_def)
  show "R w (snd (send_and_wait command p timeout ty w))"
    using R_trans [OF 1 R_client] by (simp add: send_and_wait_def Let_def split_beta)
qed

end

interpretation pw: free_world_law progress
  by unfold_locales (auto simp: progress_def deliver_def Let_def)

section \<open>What a send puts on the wire\<close>

lemma next_tick_frame:
  assumes "next_tick w = (t, w1)"
  shows "w_writes w1 = w_writes w" "w_sent w1 = w_sent w" "w_client w1 = w_client w" "w_now w1 = w_now w"
  using assms by (auto simp: next_tick_def split: list.splits)

lemma deliver_frame [simp]:
  "w_writes (deliver t dt w) = w_writes w" "w_sent (deliver t dt w) = w_sent w"
  "w_now (deliver t dt w) = w_now w + dt" "w_next_future (deliver t dt w) = w_next_future w"
  by (simp_all add: deliver_def Let_def)

lemma gatt_write_ok:
  "gatt_write chunk w = (Inr u, w') \<Longrightarrow> w_writes w' = w_writes w @ [chunk] \<and> w_sent w' = w_sent w"
  by (auto simp: gatt_write_def Let_def dest: next_tick_frame split: prod.splits if_splits)

lemma gatt_write_all_ok:
  "gatt_write_all chunks w = (Inr u, w') \<Longrightarrow>
     w_writes w' = w_writes w @ chunks \<and> w_sent w' = w_sent w"
  by (induction chunks arbitrary: w)
    (auto simp: then_co_def bind_co_Inr dest!: gatt_write_ok)

lemma write_command_ok:
  "write_command data w = (Inr u, w') \<Longrightarrow> w_link w \<and> w_sent w' = w_sent w \<and>
     w_writes w' = w_writes w @ split_write_chunks data (if w_mtu w = 0 then 23 else w_mtu w)"
  by (auto simp: write_command_def Let_def dest: gatt_write_all_ok split: if_splits)

section \<open>Commands of the client\<close>

definition CMD_HANDSHAKE :: int where "CMD_HANDSHAKE = 8100"
definition CMD_GRINDER_START :: int where "CMD_GRINDER_START = 3500"
definition CMD_CALIBRATE_GRINDER :: int where "CMD_CALIBRATE_GRINDER = 3502"
definition CMD_GRINDER_STOP :: int where "CMD_GRINDER_STOP = 3505"
definition CMD_BREWER_START :: int where "CMD_BREWER_START = 4506"
definition CMD_BREWER_STOP :: int where "CMD_BREWER_STOP = 4507"
definition CMD_BREWER_SET_TEMPERATURE :: int where "CMD_BREWER_SET_TEMPERATURE = 4510"
definition CMD_TEA_RECIPE_MAKE :: int where "CMD_TEA_RECIPE_MAKE = 4512"
definition CMD_TEA_RECIPE_CODE :: int where "CMD_TEA_RECIPE_CODE = 4513"
definition CMD_RECIPE_SEND_AUTO :: int where "CMD_RECIPE_SEND_AUTO = 8001"
definition CMD_RECIPE_EXECUTE :: int where "CMD_RECIPE_EXECUTE = 8002"
definition CMD_RECIPE_SEND_MANUAL :: int where "CMD_RECIPE_SEND_MANUAL = 8004"
definition CMD_GRINDER_IN :: int where "CMD_GRINDER_IN = 8006"
definition CMD_BREWER_IN :: int where "CMD_BREWER_IN = 8007"
definition CMD_GRINDER_QUIT :: int where "CMD_GRINDER_QUIT = 8012"
definition CMD_BREWER_QUIT :: int where "CMD_BREWER_QUIT = 8013"
definition CMD_BREWER_SET_PATTERN :: int where "CMD_BREWER_SET_PATTERN = 8016"
definition CMD_RECIPE_START_QUIT :: int where "CMD_RECIPE_START_QUIT = 8017"
definition CMD_GRINDER_PAUSE :: int where "CMD_GRINDER_PAUSE = 8018"
definition CMD_BREWER_PAUSE :: int where "CMD_BREWER_PAUSE = 8019"
definition CMD_GRINDER_RESTART :: int where "CMD_GRINDER_RESTART = 8020"
definition CMD_BREWER_RESTART :: int where "CMD_BREWER_RESTART = 8021"
definition CMD_SET_BYPASS :: int where "CMD_SET_BYPASS = 8102"
definition CMD_SET_DISPLAY_BRIGHTNESS :: int where "CMD_SET_DISPLAY_BRIGHTNESS = 8103"
definition CMD_SET_CUP :: int where "CMD_SET_CUP = 8104"
definition CMD_POUR_RADIUS_GET :: int where "CMD_POUR_RADIUS_GET = 11506"
definition CMD_POUR_RADIUS_SET :: int where "CMD_POUR_RADIUS_SET = 11507"
definition CMD_VIBRATION_AMPLITUDE_GET :: int where "CMD_VIBRATION_AMPLITUDE_GET = 11508"
definition CMD_VIBRATION_AMPLITUDE_SET :: int where "CMD_VIBRATION_AMPLITUDE_SET = 11509"
definition CMD_RECIPE_STOP :: int where "CMD_RECIPE_STOP = 40519"

lemmas command_ids = CMD_HANDSHAKE_def CMD_GRINDER_START_def CMD_CALIBRATE_GRINDER_def
  CMD_GRINDER_STOP_def CMD_BREWER_START_def CMD_BREWER_STOP_def CMD_BREWER_SET_TEMPERATURE_def
  CMD_TEA_RECIPE_MAKE_def CMD_TEA_RECIPE_CODE_def CMD_RECIPE_SEND_AUTO_def CMD_RECIPE_EXECUTE_def
  CMD_RECIPE_SEND_MANUAL_def CMD_GRINDER_IN_def CMD_BREWER_IN_def CMD_GRINDER_QUIT_def
  CMD_BREWER_QUIT_def CMD_BREWER_SET_PATTERN_def CMD_RECIPE_START_QUIT_def CMD_GRINDER_PAUSE_def
  CMD_BREWER_PAUSE_def CMD_GRINDER_RESTART_def CMD_BREWER_RESTART_def CMD_SET_BYPASS_def
  CMD_SET_DISPLAY_BRIGHTNESS_def CMD_SET_CUP_def CMD_POUR_RADIUS_GET_def CMD_POUR_RADIUS_SET_def
  CMD_VIBRATION_AMPLITUDE_GET_def CMD_VIBRATION_AMPLITUDE_SET_def CMD_RECIPE_STOP_def

definition ACK_TIMEOUT_S :: rat where "ACK_TIMEOUT_S = 3 / 2"
definition ACK_TIMEOUT_RECIPE_SEND_S :: rat where "ACK_TIMEOUT_RECIPE_SEND_S = 3"
definition HANDSHAKE_DATA :: "int list" where "HANDSHAKE_DATA = [185, 1]"
definition ADVANCED_SETTINGS_TYPE_CODE :: int where "ADVANCED_SETTINGS_TYPE_CODE = 2"

definition async_send_handshake :: "bool co" where
  "async_send_handshake w =
     (if \<not> w_link w then (Inr False, w)
      else catch_co (then_co (send_command CMD_HANDSHAKE HANDSHAKE_DATA 1) (return_co True))
             (\<lambda>_. return_co False) w)"

definition reset_state :: "unit co" where
  "reset_state =
     then_co async_send_handshake
    (then_co (sleep (1 / 5))
    (catch_co
      (then_co (send_command CMD_RECIPE_STOP [] 1)
      (then_co (sleep (1 / 2))
      (then_co (send_command CMD_BREWER_QUIT [] 1)
      (then_co (send_command CMD_GRINDER_QUIT [] 1)
        (sleep (1 / 2))))))
      (\<lambda>_. return_co ())))"

text \<open>
  Connecting and disconnecting go through Home Assistant's Bluetooth stack, which is not part
  of the repository: \<open>establish\<close> is what \<^verbatim>\<open>establish_connection\<close> does (raise, or a link state),
  \<open>subscribe\<close> what \<^verbatim>\<open>start_notify\<close> does, \<open>hang_up\<close> what bleak's \<^verbatim>\<open>disconnect\<close> does.
\<close>

definition connection_connect :: "bool res \<Rightarrow> bool co" where
  "connection_connect establish w =
     (case establish of
        Inl e \<Rightarrow> (Inl e, w\<lparr>w_expect_disconnect := False\<rparr>)
      | Inr up \<Rightarrow> (Inr up, w\<lparr>w_expect_disconnect := False, w_link := up\<rparr>))"

definition start_notify :: "unit res \<Rightarrow> unit co" where
  "start_notify subscribe w = (if \<not> w_link w then (Inl ConnectionError, w) else (subscribe, w))"

definition connection_disconnect :: "unit res \<Rightarrow> unit co" where
  "connection_disconnect hang_up w =
     (case hang_up of
        Inl e \<Rightarrow> (Inl e, w\<lparr>w_expect_disconnect := True\<rparr>)
      | Inr _ \<Rightarrow> (Inr (), w\<lparr>w_expect_disconnect := True, w_link := False\<rparr>))"

definition set_connected :: "bool \<Rightarrow> client \<Rightarrow> client" where
  "set_connected b c = c\<lparr>status := (status c)\<lparr>connected := b\<rparr>\<rparr>"

definition client_connect :: "bool res \<Rightarrow> unit res \<Rightarrow> unit res \<Rightarrow> bool co" where
  "client_connect establish subscribe subscribe_read w =
     (if w_link w then (Inr True, w)
      else case connection_connect establish w of
        (Inl e, w1) \<Rightarrow> (Inr False, w1)
      | (Inr _, w1) \<Rightarrow>
          if \<not> w_link w1 then (Inr False, w1)
          else then_co (start_notify subscribe)
              (then_co (catch_co (start_notify subscribe_read) (\<lambda>_. return_co ()))
              (then_co (upd_client (set_connected True))
              (then_co reset_state
              (then_co (sleep (1 / 2)) (return_co True))))) w1)"

definition client_disconnect :: "unit res \<Rightarrow> unit co" where
  "client_disconnect hang_up w =
     (let teardown =
        (if w_link w
         then then_co (if cleanup_on_disconnect (w_client w)
                       then catch_co reset_state (\<lambda>_. return_co ()) else return_co ())
                (connection_disconnect hang_up)
         else return_co ())
      in then_co teardown (upd_client (\<lambda>c. fail_pending_acks (set_connected False c))) w)"

definition stop_recipe :: "bool co" where "stop_recipe = send_command CMD_RECIPE_STOP [] 1"

definition float_bits :: "pyfloat \<Rightarrow> int res" where
  "float_bits x = bind_res (pack_f x) unpack_I"

definition cup_args :: "pyfloat \<Rightarrow> pyfloat \<Rightarrow> int list res" where
  "cup_args f1 f2 = bind_res (float_bits f1) (\<lambda>b1. bind_res (float_bits f2) (\<lambda>b2. Inr [b1, b2]))"

definition bypass_args :: "pyfloat \<Rightarrow> pyfloat \<Rightarrow> int \<Rightarrow> int list res" where
  "bypass_args v t dose =
     bind_res (float_bits v) (\<lambda>vb.
     bind_res (float_bits (fmul t (Fin 10))) (\<lambda>tb. Inr [vb, tb, dose]))"

definition set_cup :: "pyfloat \<Rightarrow> pyfloat \<Rightarrow> bool co" where
  "set_cup f1 f2 = bind_co (lift_res (cup_args f1 f2)) (\<lambda>a. send_command CMD_SET_CUP a 1)"

definition set_bypass :: "pyfloat \<Rightarrow> pyfloat \<Rightarrow> int \<Rightarrow> bool co" where
  "set_bypass v t dose = bind_co (lift_res (bypass_args v t dose)) (\<lambda>a. send_command CMD_SET_BYPASS a 1)"

definition execute_coffee_recipe :: "unit co" where
  "execute_coffee_recipe = then_co (send_command CMD_RECIPE_EXECUTE [] 1) (return_co ())"

definition async_get_pour_radius :: "unit co" where
  "async_get_pour_radius w =
     (if w_link w
      then then_co (send_command CMD_POUR_RADIUS_GET [] ADVANCED_SETTINGS_TYPE_CODE) (return_co ()) w
      else (Inr (), w))"

definition async_set_pour_radius :: "int \<Rightarrow> unit co" where
  "async_set_pour_radius v =
     then_co (send_command CMD_POUR_RADIUS_SET [v] ADVANCED_SETTINGS_TYPE_CODE)
       (upd_client (upd_status (\<lambda>s. s\<lparr>pour_radius := Some v\<rparr>)))"

definition async_get_vibration_amplitude :: "unit co" where
  "async_get_vibration_amplitude w =
     (if w_link w
      then then_co (send_command CMD_VIBRATION_AMPLITUDE_GET [] ADVANCED_SETTINGS_TYPE_CODE) (return_co ()) w
      else (Inr (), w))"

definition async_set_vibration_amplitude :: "int \<Rightarrow> unit co" where
  "async_set_vibration_amplitude v =
     then_co (send_command CMD_VIBRATION_AMPLITUDE_SET [v] ADVANCED_SETTINGS_TYPE_CODE)
       (upd_client (upd_status (\<lambda>s. s\<lparr>vibration_amplitude := Some v\<rparr>)))"

definition client_calibrate_grinder :: "unit co" where
  "client_calibrate_grinder = then_co (send_command CMD_CALIBRATE_GRINDER [1000] 1) (return_co ())"

definition DISPLAY_BRIGHTNESS_RAW :: "(int \<times> int) list" where
  "DISPLAY_BRIGHTNESS_RAW = [(1, 1), (2, 8), (3, 15)]"

definition async_set_display_brightness :: "int \<Rightarrow> unit co" where
  "async_set_display_brightness level =
     (case map_of DISPLAY_BRIGHTNESS_RAW level of
        None \<Rightarrow> raise_co KeyError
      | Some raw \<Rightarrow> then_co (send_command CMD_SET_DISPLAY_BRIGHTNESS [raw] 1) (return_co ()))"

section \<open>The grinder and brewer controllers\<close>

definition grinder_store :: "int option \<Rightarrow> int option \<Rightarrow> unit co" where
  "grinder_store sz speed =
     upd_client (\<lambda>c. c\<lparr>gc_size := (case sz of None \<Rightarrow> gc_size c | Some v \<Rightarrow> v),
                          gc_speed := (case speed of None \<Rightarrow> gc_speed c | Some v \<Rightarrow> v)\<rparr>)"

definition grinder_enter_mode :: "int option \<Rightarrow> int option \<Rightarrow> bool co" where
  "grinder_enter_mode sz speed =
     then_co (grinder_store sz speed)
       (\<lambda>w. send_command CMD_GRINDER_IN [gc_size (w_client w), gc_speed (w_client w)] 1 w)"

definition grinder_send_start :: "bool co" where
  "grinder_send_start w =
     send_command CMD_GRINDER_START [1000, gc_size (w_client w), gc_speed (w_client w)] 1 w"

definition grinder_start :: "int option \<Rightarrow> int option \<Rightarrow> bool co" where
  "grinder_start sz speed =
     then_co (grinder_store sz speed)
    (then_co (grinder_enter_mode None None)
    (then_co (sleep 2) grinder_send_start))"

definition grinder_confirm_start :: "int option \<Rightarrow> int option \<Rightarrow> bool co" where
  "grinder_confirm_start sz speed = then_co (grinder_store sz speed) grinder_send_start"

definition grinder_stop :: "bool co" where "grinder_stop = send_command CMD_GRINDER_STOP [] 1"
definition grinder_pause :: "bool co" where "grinder_pause = send_command CMD_GRINDER_PAUSE [] 1"
definition grinder_restart :: "bool co" where "grinder_restart = send_command CMD_GRINDER_RESTART [] 1"

definition brewer_enter_mode :: "bool co" where "brewer_enter_mode = send_command CMD_BREWER_IN [] 1"

definition brewer_start :: "pyfloat \<Rightarrow> pyfloat \<Rightarrow> pyfloat \<Rightarrow> int \<Rightarrow> int \<Rightarrow> bool co" where
  "brewer_start v t flow pat water_source =
     bind_co (lift_res (float_bits (fmul flow (Fin 10)))) (\<lambda>fb.
     bind_co (lift_res (float_bits (fmul v (Fin 10)))) (\<lambda>vb.
     bind_co (lift_res (float_bits (fmul t (Fin 10)))) (\<lambda>tb.
     bind_co (lift_res (map_res pack_I [fb, vb, tb, water_source, pat])) (\<lambda>parts.
       send_command_raw CMD_BREWER_START (concat parts) 1))))"

definition brewer_set_temperature :: "pyfloat \<Rightarrow> bool co" where
  "brewer_set_temperature t =
     bind_co (lift_res (round_float (fmul t (Fin 10)))) (\<lambda>v.
       send_command CMD_BREWER_SET_TEMPERATURE [v] 1)"

definition brewer_set_pattern :: "int \<Rightarrow> bool co" where
  "brewer_set_pattern pat = send_command CMD_BREWER_SET_PATTERN [pat] 1"

definition brewer_stop :: "bool co" where "brewer_stop = send_command CMD_BREWER_STOP [] 1"
definition brewer_pause :: "bool co" where "brewer_pause = send_command CMD_BREWER_PAUSE [] 1"
definition brewer_restart :: "bool co" where "brewer_restart = send_command CMD_BREWER_RESTART [] 1"

section \<open>Facts about waiting\<close>

definition payload_bytes :: "payload_arg \<Rightarrow> bytes res" where
  "payload_bytes p =
     (case p of Data d \<Rightarrow> bind_res (map_res pack_I d) (\<lambda>parts. Inr (concat parts)) | Raw r \<Rightarrow> Inr r)"

lemma send_payload_ok:
  assumes "send_payload command p ty w = (Inr b, w')"
  shows "b \<and> w_link w \<and> (\<exists>data packet. payload_bytes p = Inr data \<and>
     build_packet_raw command data ty DEVICE_ID = Inr packet \<and>
     w_writes w' = w_writes w @ split_write_chunks packet (if w_mtu w = 0 then 23 else w_mtu w) \<and>
     w_sent w' = w_sent w @ [\<lparr>s_time = w_now w, s_command = command, s_type = ty, s_payload = data\<rparr>])"
  using assms
  by (cases p) (fastforce simp: send_command_def send_command_raw_def then_co_def bind_co_Inr
      payload_bytes_def build_packet_def bind_res_Inr_iff log_sent_def dest!: write_command_ok
      split: if_splits)+

text \<open>
  The waiters of a world are well-formed: one entry per command, and every future that waits or
  has a result was allocated.
\<close>

definition waiters_wf :: "world \<Rightarrow> bool" where
  "waiters_wf w \<longleftrightarrow> distinct (map fst (pending_acks (w_client w))) \<and>
     (\<forall>cmd. \<forall>k \<in> set (pending_for cmd (w_client w)). k < w_next_future w) \<and>
     (\<forall>k r. map_of (ack_done (w_client w)) k = Some r \<longrightarrow> k < w_next_future w)"

lemma pending_for_add_waiter:
  "pending_for cmd (add_waiter command fut c) =
     (if cmd = command then pending_for command c @ [fut] else pending_for cmd c)"
  by (simp add: pending_for_def add_waiter_def update_conv')

lemma pending_for_remove_waiter:
  "pending_for cmd (remove_waiter command fut c) =
    (if cmd = command then remove1 fut (pending_for command c) else pending_for cmd c)"
  by (cases "map_of (pending_acks c) command")
    (simp_all add: pending_for_def remove_waiter_def update_conv' delete_conv' Let_def)

lemma waiter_keys:
  "distinct (map fst (pending_acks c)) \<Longrightarrow> distinct (map fst (pending_acks (add_waiter command fut c)))"
  "distinct (map fst (pending_acks c)) \<Longrightarrow> distinct (map fst (pending_acks (remove_waiter command fut c)))"
  by (auto simp: add_waiter_def remove_waiter_def Let_def distinct_update distinct_delete
      split: option.splits)

lemma waiter_done [simp]:
  "ack_done (add_waiter command fut c) = ack_done c"
  "ack_done (remove_waiter command fut c) = ack_done c"
  by (simp_all add: add_waiter_def remove_waiter_def Let_def split: option.splits)

lemma waiters_wf_step:
  assumes wf: "waiters_wf w" and st: "acks_step w w'"
  shows "waiters_wf w'"
proof -
  have p: "pending_acks (w_client w') = pending_acks (w_client w)"
    and n: "w_next_future w' = w_next_future w"
    using st by (auto simp: acks_step_def acks_since_def)
  have "k < w_next_future w" if "map_of (ack_done (w_client w')) k = Some r" for k r
    using st that wf unfolding acks_step_def acks_since_def waiters_wf_def
    by (metis option.distinct(1))
  then show ?thesis using wf p n by (simp add: waiters_wf_def pending_for_def)
qed

lemma pending_for_step: "acks_step w w' \<Longrightarrow> pending_for cmd (w_client w') = pending_for cmd (w_client w)"
  by (simp add: acks_step_def acks_since_def pending_for_def)

text \<open>The inside of \<open>send_and_wait\<close>: its waiter is registered, then the send and the wait run.\<close>

definition registered :: "int \<Rightarrow> world \<Rightarrow> world" where
  "registered command w = w\<lparr>w_next_future := w_next_future w + 1,
     w_client := add_waiter command (w_next_future w) (w_client w)\<rparr>"

lemma send_and_wait_unfold:
  "send_and_wait command p timeout ty w =
     (let (r, w1) = then_co (send_payload command p ty) (wait_for (w_next_future w) timeout) (registered command w)
      in (r, w1\<lparr>w_client := remove_waiter command (w_next_future w) (w_client w1)\<rparr>))"
  by (simp add: send_and_wait_def registered_def Let_def)

lemma registered_wf: "waiters_wf w \<Longrightarrow> waiters_wf (registered command w)"
  by (auto simp: waiters_wf_def registered_def pending_for_add_waiter waiter_keys less_Suc_eq)

lemma send_and_wait_inner:
  assumes "waiters_wf w" "0 \<le> timeout"
    and "then_co (send_payload command p ty) (wait_for (w_next_future w) timeout) (registered command w) = (r, w1)"
  shows "acks_step (registered command w) w1" "waiters_wf w1"
proof -
  have "keeps acks_step (then_co (send_payload command p ty) (wait_for (w_next_future w) timeout))"
    by (intro aw.keeps_then aw.keeps_send_payload aw.keeps_wait_for assms(2))
  then show "acks_step (registered command w) w1" using assms(3) by (rule keepsD)
  then show "waiters_wf w1" by (rule waiters_wf_step [OF registered_wf [OF assms(1)]])
qed

lemma wait_for_ok:
  "wait_for fut timeout w = (Inr f, w') \<Longrightarrow> map_of (ack_done (w_client w')) fut = Some (Inr f)"
  by (auto simp: wait_for_def Let_def split: option.splits prod.splits)

lemma send_and_wait_waiters:
  assumes "waiters_wf w" "0 \<le> timeout" "send_and_wait command p timeout ty w = (r, w')"
  shows "waiters_wf w'" "pending_for cmd (w_client w') = pending_for cmd (w_client w)"
proof -
  obtain r1 w1 where in1: "then_co (send_payload command p ty) (wait_for (w_next_future w) timeout)
      (registered command w) = (r1, w1)" by fastforce
  note inner = send_and_wait_inner [OF assms(1,2) in1]
  have w': "w' = w1\<lparr>w_client := remove_waiter command (w_next_future w) (w_client w1)\<rparr>"
    using assms(3) in1 by (simp add: send_and_wait_unfold)
  have fresh: "w_next_future w \<notin> set (pending_for command (w_client w))"
    using assms(1) by (auto simp: waiters_wf_def)
  show p: "pending_for cmd (w_client w') = pending_for cmd (w_client w)" for cmd
    using fresh by (simp add: w' pending_for_remove_waiter pending_for_step [OF inner(1)]
        registered_def pending_for_add_waiter remove1_append)
  have n: "w_next_future w' = w_next_future w + 1"
    using inner(1) w' by (simp add: acks_step_def registered_def)
  show "waiters_wf w'"
    using assms(1) inner(2) n unfolding waiters_wf_def p
    by (simp add: w' waiter_keys less_SucI)
qed

lemma keeps_reset_state: "keeps acks_step reset_state"
proof -
  have "keeps acks_step async_send_handshake"
    unfolding async_send_handshake_def [abs_def]
    by (intro aw.keeps_base aw.keeps_send_command)
  then show ?thesis
    unfolding reset_state_def by (intro aw.keeps_base aw.keeps_send_command) simp_all
qed

lemma pending_for_in_concat: "k \<in> set (pending_for cmd c) \<Longrightarrow> k \<in> set (concat (map snd (pending_acks c)))"
  by (cases "map_of (pending_acks c) cmd") (auto simp: pending_for_def dest!: map_of_SomeD intro: rev_bexI)

lemma fail_pending_acks_done:
  "k \<in> set (pending_for cmd c) \<Longrightarrow> map_of (ack_done (fail_pending_acks c)) k =
     Some (case map_of (ack_done c) k of Some r \<Rightarrow> r | None \<Rightarrow> Inl AckTimeout)"
  using pending_for_in_concat [of k cmd c]
  by (auto simp: fail_pending_acks_def fold_finish_future split: option.splits)

section \<open>Properties\<close>

text \<open>
  A send that returns has put exactly one frame on the wire: the GATT writes it made, each
  of at most 100 bytes, concatenate to the packet of the command and its payload, that packet
  passes the CRC check, and the link was up.
\<close>

theorem send_writes_packet:
  assumes "send_payload command p ty w = (Inr b, w')"
  shows "\<exists>data packet chunks. payload_bytes p = Inr data \<and>
    build_packet_raw command data ty DEVICE_ID = Inr packet \<and> crc16 packet = 0 \<and>
    w_writes w' = w_writes w @ chunks \<and> concat chunks = packet \<and>
    (\<forall>c \<in> set chunks. length c \<le> 100) \<and> w_link w"
proof -
  obtain data packet where *: "payload_bytes p = Inr data"
    "build_packet_raw command data ty DEVICE_ID = Inr packet" "w_link w"
    "w_writes w' = w_writes w @ split_write_chunks packet (if w_mtu w = 0 then 23 else w_mtu w)"
    using send_payload_ok [OF assms] by blast
  have "crc16 packet = 0" by (simp only: build_packet_raw_layout [OF *(2)] Let_def crc16_residue)
  then show ?thesis using * concat_split_write_chunks split_write_chunks_small by blast
qed

lemma acks_since_keeps_result:
  "acks_since c0 c \<Longrightarrow> map_of (ack_done c0) k = Some r \<Longrightarrow> map_of (ack_done c) k = Some r"
  unfolding acks_since_def by (metis option.distinct(1))

lemma parse_response_since:
  assumes "frame_command f = Inr cmd"
  shows "\<exists>d. parse_response f c = Inr d \<and> acks_since (resolve_pending_acks cmd f c) d"
proof (cases "response_of cmd")
  case (Some r)
  then show ?thesis
    using acks_since_acks [OF handle_response_acks acks_since_refl, of r f]
    by (cases "handle_response r f (resolve_pending_acks cmd f c)")
      (auto simp: parse_response_def assms Let_def)
qed (simp add: parse_response_def assms Let_def)

text \<open>A delivered echo gives every waiter of its command a frame.\<close>

lemma echo_settles:
  assumes "well_framed f" "frame_command f = Inr cmd" "fut \<in> set (pending_for cmd c)"
    "map_of (ack_done c) fut = None"
  shows "\<exists>g. map_of (ack_done (fst (on_notification now f c))) fut = Some (Inr g)"
proof -
  obtain c4 where on: "on_notification now f c = process_frames f 0 c4" and c4: "acks_since c c4"
    using ack.prescan_inv [OF acks_since_refl] by (metis on_notification_prescan)
  let ?c5 = "scan_for_status_frame f c4"
  have c5: "acks_since c ?c5" using c4 by (rule ack.scan_for_status_frame_inv)
  obtain d where d: "parse_response f ?c5 = Inr d" and r: "acks_since (resolve_pending_acks cmd f ?c5) d"
    using parse_response_since [OF assms(2)] by blast
  have "process_frames f 0 c4 = (d, None)"
    using process_frames_stream [of "[([], f)]" "[]" "[]" c4] assms(1) d
    by (simp add: no_header_def frame_step_def)
  moreover have "\<exists>g. map_of (ack_done (resolve_pending_acks cmd f ?c5)) fut = Some (Inr g)"
  proof -
    have "fut \<in> set (pending_for cmd ?c5)"
      using c5 assms(3) by (simp add: acks_since_def pending_for_def)
    then have new: "map_of (ack_done ?c5) fut = None \<Longrightarrow> ?thesis"
      by (simp add: resolve_pending_acks_def fold_finish_future)
    have "map_of (ack_done ?c5) fut = None \<or> (\<exists>g. map_of (ack_done ?c5) fut = Some (Inr g))"
      using c5 assms(4) unfolding acks_since_def by metis
    then show ?thesis
      using new by (auto simp: resolve_pending_acks_def fold_finish_future)
  qed
  ultimately show ?thesis using r on by (auto dest: acks_since_keeps_result)
qed

definition demo_world :: "tick list \<Rightarrow> world" where
  "demo_world ts = \<lparr>w_client = init_client 0, w_link = True, w_expect_disconnect = False, w_mtu = 0,
     w_now = 0, w_next_future = 0, w_sent = [], w_writes = [], w_ticks = ts\<rparr>"

lemma demo_world_simps [simp]:
  "w_client (demo_world ts) = init_client 0" "w_link (demo_world ts)" "w_mtu (demo_world ts) = 0"
  "w_now (demo_world ts) = 0" "w_next_future (demo_world ts) = 0" "w_sent (demo_world ts) = []"
  "w_writes (demo_world ts) = []" "w_ticks (demo_world ts) = ts"
  by (simp_all add: demo_world_def)

lemma demo_waiters_wf [simp]: "waiters_wf (demo_world ts)"
  by (simp add: waiters_wf_def pending_for_def init_client_def)

text \<open>Without a script every write succeeds.\<close>

lemma quiet_gatt_write_all:
  "w_ticks w = [] \<Longrightarrow> \<exists>w'. gatt_write_all chunks w = (Inr (), w') \<and> w_ticks w' = [] \<and> w_link w' = w_link w
     \<and> w_client w' = w_client w"
proof (induction chunks arbitrary: w)
  case (Cons c cs)
  let ?w1 = "(deliver quiet 0 w)\<lparr>w_writes := w_writes w @ [c]\<rparr>"
  have 1: "gatt_write c w = (Inr (), ?w1)"
    using Cons.prems by (simp add: gatt_write_def next_tick_def quiet_def Let_def)
  have 2: "w_ticks ?w1 = []" "w_link ?w1 = w_link w" "w_client ?w1 = w_client w"
    using Cons.prems by (simp_all add: deliver_def quiet_def Let_def)
  show ?case using Cons.IH [OF 2(1)] 2 by (simp add: then_co_def bind_co_def 1)
qed simp

lemma quiet_send_raw:
  assumes "w_ticks w = []" "w_link w" "is_ok (build_packet_raw command data ty DEVICE_ID)"
  shows "\<exists>w'. send_command_raw command data ty w = (Inr True, w') \<and> w_ticks w' = [] \<and> w_link w'"
proof -
  obtain packet where p: "build_packet_raw command data ty DEVICE_ID = Inr packet"
    using assms(3) by (auto elim: is_okE)
  obtain w1 where w1: "write_command packet w = (Inr (), w1)" "w_ticks w1 = []" "w_link w1"
    using quiet_gatt_write_all [OF assms(1)] assms(2) by (auto simp: write_command_def Let_def)
  show ?thesis
    using w1 assms(2) by (simp add: send_command_raw_def then_co_def bind_co_def p log_sent_def)
qed

theorem send_writes_packet_witness:
  "\<exists>w' data packet chunks. send_payload 8104 (Raw [1, 2]) 1 (demo_world []) = (Inr True, w') \<and>
     payload_bytes (Raw [1, 2]) = Inr data \<and> build_packet_raw 8104 data 1 DEVICE_ID = Inr packet \<and>
     w_writes w' = chunks \<and> concat chunks = packet"
proof -
  have "is_ok (build_packet_raw 8104 [1, 2] 1 DEVICE_ID)"
    by (subst build_packet_raw_ok_iff) (simp add: DEVICE_ID_def)
  then obtain w' where w': "send_payload 8104 (Raw [1, 2]) 1 (demo_world []) = (Inr True, w')"
    using quiet_send_raw [of "demo_world []" 8104 "[1, 2]" 1] by auto
  from send_writes_packet [OF this] w' show ?thesis by auto
qed

text \<open>
  C17. What \<^verbatim>\<open>send_and_wait\<close> returns is the echo of the command it sent, received after the
  waiter was registered: never a frame of another command nor the result of an earlier wait.
\<close>

theorem send_and_wait_echo:
  assumes "waiters_wf w" and "0 \<le> timeout"
    and "send_and_wait command p timeout ty w = (Inr f, w')"
  shows "(frame_command f = Inr command) \<and>
    (\<exists>t data. w_sent w' = w_sent w @ [\<lparr>s_time = t, s_command = command, s_type = ty, s_payload = data\<rparr>])"
proof -
  let ?fut = "w_next_future w" and ?w0 = "registered command w"
  obtain w1 where in1: "then_co (send_payload command p ty) (wait_for ?fut timeout) ?w0 = (Inr f, w1)"
    and w': "w' = w1\<lparr>w_client := remove_waiter command ?fut (w_client w1)\<rparr>"
    using assms(3) by (auto simp: send_and_wait_unfold split: prod.splits)
  then obtain b w2 where snd: "send_payload command p ty ?w0 = (Inr b, w2)"
    and wait: "wait_for ?fut timeout w2 = (Inr f, w1)"
    by (auto simp: then_co_def bind_co_Inr)
  have "map_of (ack_done (w_client w1)) ?fut = Some (Inr f)" using wait by (rule wait_for_ok)
  moreover have "map_of (ack_done (w_client ?w0)) ?fut = None"
    using assms(1) by (auto simp: waiters_wf_def registered_def)
  ultimately obtain cmd where "frame_command f = Inr cmd" "?fut \<in> set (pending_for cmd (w_client ?w0))"
    using send_and_wait_inner(1) [OF assms(1,2) in1] unfolding acks_step_def acks_since_def
    by (metis Inr_inject option.distinct(1) option.inject)
  then have c1: "frame_command f = Inr command"
    using assms(1) by (auto simp: registered_def pending_for_add_waiter waiters_wf_def split: if_splits)
  have "w_sent w1 = w_sent w2"
    using wait by (auto simp: wait_for_def Let_def dest: next_tick_frame split: option.splits prod.splits)
  then have c2: "\<exists>t data. w_sent w' = w_sent w @ [\<lparr>s_time = t, s_command = command, s_type = ty, s_payload = data\<rparr>]"
    using send_payload_ok [OF snd] w' by (auto simp: registered_def)
  show ?thesis using c1 c2 by blast
qed

lemma deliver_echo:
  assumes "f \<in> set (t_notifs t)" "well_framed f" "frame_command f = Inr cmd"
    "fut \<in> set (pending_for cmd (w_client w))" "map_of (ack_done (w_client w)) fut = None"
  shows "\<exists>g. map_of (ack_done (w_client (deliver t dt w))) fut = Some (Inr g)"
proof -
  obtain xs ys where sp: "t_notifs t = xs @ f # ys" using assms(1) by (meson split_list)
  let ?st = "\<lambda>raw c. fst (on_notification (w_now w + dt) raw c)"
  have since: "acks_since c (fold ?st rs c)" for rs c
  proof -
    have "acks_since c0 c \<Longrightarrow> acks_since c0 (fold ?st rs c)" for c0 c
      by (induction rs arbitrary: c) (simp_all add: ack.on_notification_inv)
    then show ?thesis by simp
  qed
  let ?c1 = "fold ?st xs (w_client w)"
  have s1: "acks_since (w_client w) ?c1" by (rule since)
  then have p1: "fut \<in> set (pending_for cmd ?c1)"
    using assms(4) by (simp add: acks_since_def pending_for_def)
  have "\<exists>g. map_of (ack_done (?st f ?c1)) fut = Some (Inr g)"
  proof (cases "map_of (ack_done ?c1) fut")
    case None
    then show ?thesis by (rule echo_settles [OF assms(2,3) p1])
  next
    case (Some r)
    then obtain g where "map_of (ack_done ?c1) fut = Some (Inr g)"
      using s1 assms(5) unfolding acks_since_def by (metis option.distinct(1))
    then show ?thesis
      using acks_since_keeps_result [OF ack.on_notification_inv [OF acks_since_refl]] by blast
  qed
  then obtain g where "map_of (ack_done (?st f ?c1)) fut = Some (Inr g)" by blast
  from acks_since_keeps_result [OF since this, of ys] show ?thesis
    by (simp add: deliver_def Let_def sp)
qed

lemma echo_completes:
  assumes "waiters_wf w" and "send_payload command p ty (registered command w) = (Inr b, w1)"
    and "next_tick w1 = (t, w2)" and "f \<in> set (t_notifs t)" and "well_framed f"
    and "frame_command f = Inr command"
  shows "\<exists>g w'. send_and_wait command p timeout ty w = (Inr g, w')"
proof -
  let ?fut = "w_next_future w" and ?w0 = "registered command w"
  have st: "acks_step ?w0 w1" by (rule keepsD [OF aw.keeps_send_payload assms(2)])
  have "?fut \<in> set (pending_for command (w_client ?w0))"
    by (simp add: registered_def pending_for_add_waiter)
  then have p: "?fut \<in> set (pending_for command (w_client w1))"
    and c: "w_client w2 = w_client w1"
    using pending_for_step [OF st] next_tick_frame [OF assms(3)] by simp_all
  have n0: "map_of (ack_done (w_client ?w0)) ?fut = None"
    using assms(1) by (auto simp: waiters_wf_def registered_def)
  have "\<exists>g w'. wait_for ?fut timeout w1 = (Inr g, w')"
  proof (cases "map_of (ack_done (w_client w1)) ?fut")
    case None
    then show ?thesis
      using deliver_echo [OF assms(4-6), of ?fut w2 "min timeout (max 0 (t_elapsed t))"] p c
      by (auto simp: wait_for_def assms(3) Let_def)
  next
    case (Some r)
    then obtain g where "map_of (ack_done (w_client w1)) ?fut = Some (Inr g)"
      using st n0 unfolding acks_step_def acks_since_def by (metis option.distinct(1))
    then show ?thesis by (simp add: wait_for_def)
  qed
  then show ?thesis
    using assms(2) by (auto simp: send_and_wait_unfold then_co_def bind_co_def)
qed

text \<open>
  C18. A sent command whose echo arrives while it is awaited completes: \<^verbatim>\<open>send_and_wait\<close>
  returns a frame and does not time out, whatever else arrives around the echo.
\<close>

theorem send_and_wait_completes:
  assumes "waiters_wf w" and "send_payload command p ty (registered command w) = (Inr b, w1)"
    and "next_tick w1 = (t, w2)" and "f \<in> set (t_notifs t)" and "well_framed f"
    and "frame_command f = Inr command"
  shows "\<exists>g w'. send_and_wait command p timeout ty w = (Inr g, w')"
  using assms by (rule echo_completes)

definition echo_tick :: "bytes \<Rightarrow> tick" where
  "echo_tick f = \<lparr>t_notifs = [f], t_drop = False, t_fault = False, t_elapsed = 1\<rparr>"

definition cup_echo :: bytes where
  "cup_echo = encode_frame 0x58 1 7 8104 0xC1 [] [0, 0]"

lemma cup_echo_frame: "well_framed cup_echo" "frame_command cup_echo = Inr 8104"
  by (simp_all add: cup_echo_def encode_frame_well_framed encode_frame_fields framing_consts
      frame_command_def unpack_H_def unpack_le_def le_val_le_bytes)

lemma bare_send_one_write:
  assumes "w_ticks w = quiet # ts" "w_link w" "w_mtu w = 0"
  shows "\<exists>w1. send_payload 8104 (Raw []) 1 w = (Inr True, w1) \<and> w_ticks w1 = ts"
proof -
  have "is_ok (build_packet_raw 8104 [] 1 DEVICE_ID)"
    by (subst build_packet_raw_ok_iff) (simp add: DEVICE_ID_def)
  then obtain packet where p: "build_packet_raw 8104 [] 1 DEVICE_ID = Inr packet"
    by (auto elim: is_okE)
  have "length packet = 12" using build_packet_raw_layout [OF p] by (simp add: Let_def)
  then have ch: "split_write_chunks packet 23 = [packet]"
    by (auto simp: split_write_chunks_def chunk_size_def chunks_of.simps)
  show ?thesis
    using assms by (simp add: send_command_raw_def then_co_def bind_co_def p write_command_def ch
        gatt_write_def next_tick_def Let_def quiet_def log_sent_def deliver_def)
qed

lemma cup_echo_run:
  "\<exists>w1. send_payload 8104 (Raw []) 1 (registered 8104 (demo_world [quiet, echo_tick cup_echo])) = (Inr True, w1)
     \<and> w_ticks w1 = [echo_tick cup_echo]"
  by (rule bare_send_one_write) (simp_all add: registered_def)

theorem send_and_wait_completes_witness:
  "\<exists>g w'. send_and_wait 8104 (Raw []) (3 / 2) 1 (demo_world [quiet, echo_tick cup_echo]) = (Inr g, w')"
proof -
  obtain w1 where w1: "send_payload 8104 (Raw []) 1 (registered 8104 (demo_world [quiet, echo_tick cup_echo])) = (Inr True, w1)"
    "w_ticks w1 = [echo_tick cup_echo]" using cup_echo_run by blast
  have "next_tick w1 = (echo_tick cup_echo, w1\<lparr>w_ticks := []\<rparr>)" by (simp add: next_tick_def w1)
  from send_and_wait_completes [OF demo_waiters_wf w1(1) this _ cup_echo_frame]
  show ?thesis by (simp add: echo_tick_def)
qed

theorem send_and_wait_echo_witness:
  "\<exists>g w'. send_and_wait 8104 (Raw []) (3 / 2) 1 (demo_world [quiet, echo_tick cup_echo]) = (Inr g, w')
     \<and> frame_command g = Inr 8104"
proof -
  obtain w1 where w1: "send_payload 8104 (Raw []) 1 (registered 8104 (demo_world [quiet, echo_tick cup_echo])) = (Inr True, w1)"
    "w_ticks w1 = [echo_tick cup_echo]" using cup_echo_run by blast
  have nt: "next_tick w1 = (echo_tick cup_echo, w1\<lparr>w_ticks := []\<rparr>)" by (simp add: next_tick_def w1)
  obtain g w' where r: "send_and_wait 8104 (Raw []) (3 / 2) 1 (demo_world [quiet, echo_tick cup_echo]) = (Inr g, w')"
    using echo_completes [OF demo_waiters_wf w1(1) nt _ cup_echo_frame, of "3 / 2"]
    by (auto simp: echo_tick_def)
  from send_and_wait_echo [OF demo_waiters_wf _ r] r show ?thesis by simp
qed

text \<open>
  However \<^verbatim>\<open>send_and_wait\<close> ends (echo, timeout, failed write, no link), it leaves no waiter
  behind: the futures waiting for each command are those from before the call.
\<close>

theorem send_and_wait_no_leak:
  assumes "waiters_wf w" and "0 \<le> timeout"
  shows "pending_for cmd (w_client (snd (send_and_wait command p timeout ty w))) = pending_for cmd (w_client w) \<and>
    waiters_wf (snd (send_and_wait command p timeout ty w))"
  using send_and_wait_waiters [OF assms, of command p ty]
  by (metis prod.collapse)

theorem send_and_wait_no_leak_witness:
  "pending_for 8104 (w_client (snd (send_and_wait 8104 (Data [1, 2]) (3 / 2) 1 (demo_world [])))) = []"
  using send_and_wait_no_leak [of "demo_world []" "3 / 2" 8104 8104 "Data [1, 2]" 1]
  by (simp add: pending_for_def init_client_def)

text \<open>
  Disconnecting settles every outstanding wait: whoever was waiting for an echo has a
  result afterwards (the echo, or a timeout), nobody waits any more, and the status says
  disconnected.
\<close>

theorem disconnect_settles_waiters:
  assumes "client_disconnect hang_up w = (Inr (), w')"
  shows "(pending_acks (w_client w') = []) \<and>
    (\<not> connected (status (w_client w'))) \<and>
    (k \<in> set (pending_for cmd (w_client w)) \<longrightarrow> (\<exists>r. map_of (ack_done (w_client w')) k = Some r))"
proof -
  let ?td = "if w_link w
         then then_co (if cleanup_on_disconnect (w_client w)
                       then catch_co reset_state (\<lambda>_. return_co ()) else return_co ())
                (connection_disconnect hang_up)
         else return_co ()"
  obtain w1 where td: "?td w = (Inr (), w1)"
    and w': "w' = w1\<lparr>w_client := fail_pending_acks (set_connected False (w_client w1))\<rparr>"
    using assms by (auto simp: client_disconnect_def Let_def then_co_def bind_co_Inr)
  have "keeps acks_step ?td"
  proof -
    have "keeps acks_step (connection_disconnect hang_up)"
      by (auto simp: keeps_def connection_disconnect_def acks_step_def split: sum.splits)
    then show ?thesis
      by (auto intro!: aw.keeps_then aw.keeps_catch keeps_reset_state aw.keeps_return)
  qed
  then have st: "acks_step w w1" using td by (rule keepsD)
  have p: "pending_for cmd (set_connected False (w_client w1)) = pending_for cmd (w_client w)" for cmd
    using pending_for_step [OF st] by (simp add: pending_for_def set_connected_def)
  have c1: "pending_acks (w_client w') = []" and c2: "\<not> connected (status (w_client w'))"
    by (simp_all add: w' fail_pending_acks_def set_connected_def)
  have c3: "k \<in> set (pending_for cmd (w_client w)) \<Longrightarrow> \<exists>r. map_of (ack_done (w_client w')) k = Some r"
    using fail_pending_acks_done [of k cmd "set_connected False (w_client w1)"] by (simp add: p w')
  show ?thesis using c1 c2 c3 by blast
qed

definition waiting_world :: world where
  "waiting_world = (demo_world [])\<lparr>w_link := False,
     w_client := (init_client 0)\<lparr>pending_acks := [(8104, [3])]\<rparr>\<rparr>"

theorem disconnect_settles_waiters_witness:
  "\<exists>w' r. client_disconnect (Inr ()) waiting_world = (Inr (), w') \<and>
     map_of (ack_done (w_client w')) 3 = Some r"
proof -
  obtain w' where w': "client_disconnect (Inr ()) waiting_world = (Inr (), w')"
    by (simp add: client_disconnect_def Let_def waiting_world_def then_co_def bind_co_def)
  have "3 \<in> set (pending_for 8104 (w_client waiting_world))"
    by (simp add: waiting_world_def pending_for_def)
  with disconnect_settles_waiters [OF w', of 3 8104] w' show ?thesis by blast
qed

section \<open>A link that neither drops nor faults\<close>

definition sound_link :: "world \<Rightarrow> bool" where
  "sound_link w \<longleftrightarrow> w_link w \<and> list_all (\<lambda>t. \<not> t_drop t \<and> \<not> t_fault t) (w_ticks w)"

lemma sound_tick:
  assumes "sound_link w" "next_tick w = (t, w1)"
  shows "\<not> t_drop t \<and> \<not> t_fault t \<and> sound_link (deliver t d w1)"
  using assms by (auto simp: sound_link_def next_tick_def quiet_def deliver_def Let_def split: list.splits)

lemma smooth_sleep: "smooth sound_link (sleep d)"
  by (rule smoothI) (auto simp: sleep_def sound_tick split: prod.split)

lemma smooth_write_command: "smooth sound_link (write_command data)"
proof -
  have 1: "smooth sound_link (gatt_write chunk)" for chunk
  proof (rule smoothI)
    fix w assume w: "sound_link w"
    obtain t w1 where t: "next_tick w = (t, w1)" by fastforce
    show "is_ok (fst (gatt_write chunk w)) \<and> sound_link (snd (gatt_write chunk w))"
      using sound_tick [OF w t, of "max 0 (t_elapsed t)"] by (simp add: gatt_write_def t Let_def sound_link_def)
  qed
  have "smooth sound_link (gatt_write_all chunks)" for chunks
    by (induction chunks) (simp_all only: gatt_write_all.simps smooth_return smooth_then 1)
  then have "sound_link w \<Longrightarrow> is_ok (fst (gatt_write_all chunks w)) \<and> sound_link (snd (gatt_write_all chunks w))" for chunks w
    by (simp add: smooth_def)
  then show ?thesis
    by (intro smoothI) (auto simp: write_command_def Let_def sound_link_def)
qed

lemma smooth_send_bare:
  assumes "0 \<le> command" "command < 65536" "0 \<le> ty" "ty < 256"
  shows "smooth sound_link (send_command command [] ty)"
proof (rule smoothI)
  fix w assume w: "sound_link w"
  have "is_ok (build_packet_raw command [] ty DEVICE_ID)"
    by (subst build_packet_raw_ok_iff) (use assms in \<open>simp add: DEVICE_ID_def\<close>)
  then obtain packet where p: "build_packet command [] ty DEVICE_ID = Inr packet"
    by (auto simp: build_packet_def elim: is_okE)
  have log: "smooth sound_link (log_sent t0 command ty d)" for t0 d
    by (simp add: smooth_def log_sent_def sound_link_def)
  have "smooth sound_link (then_co (write_command packet) (then_co (log_sent (w_now w) command ty []) (return_co True)))"
    by (intro smooth_then smooth_write_command log smooth_return)
  moreover have "send_command command [] ty w
      = then_co (write_command packet) (then_co (log_sent (w_now w) command ty []) (return_co True)) w"
    using w by (simp add: send_command_def sound_link_def p bind_co_def)
  ultimately show "is_ok (fst (send_command command [] ty w)) \<and> sound_link (snd (send_command command [] ty w))"
    using w by (simp add: smooth_def)
qed

end
