(* ===== verification/Brewing.thy ===== *)
theory Brewing
  imports Session "HOL-Library.Sublist"
begin

text \<open>
  Recipe execution (\<^verbatim>\<open>brewing.py\<close>): the tea and coffee recipe payloads, the acknowledged and
  floor-spaced command chains that arm a recipe, the verification that a brew really started,
  the two-stage confirm, the scale commands, and the Easy Mode slot batch.
\<close>

section \<open>Constants\<close>

definition TEA_CUP_BOUNDS :: "rat \<times> rat" where "TEA_CUP_BOUNDS = (200, 0)"
definition BACK_TO_HOME :: int where "BACK_TO_HOME = 8022"
definition STEP_SETTLE_COFFEE_S :: rat where "STEP_SETTLE_COFFEE_S = 1"
definition STEP_SETTLE_TEA_S :: rat where "STEP_SETTLE_TEA_S = 2"
definition CMD_TARE :: int where "CMD_TARE = 8500"
definition CMD_SCALE_IN :: int where "CMD_SCALE_IN = 8003"
definition CMD_SCALE_QUIT :: int where "CMD_SCALE_QUIT = 8014"
definition CMD_EASY_RECIPE_SEND :: int where "CMD_EASY_RECIPE_SEND = 11510"
definition CMD_EASY_RECIPE_ORDER :: int where "CMD_EASY_RECIPE_ORDER = 11512"
definition SLOT_GRINDER_OFF :: int where "SLOT_GRINDER_OFF = 4"
definition SLOT_GRINDER_ON :: int where "SLOT_GRINDER_ON = 2"
definition SLOT_SCALE_BIT :: int where "SLOT_SCALE_BIT = 16"

definition SLOT_INDEX_BY_LETTER :: "(string \<times> int) list" where
  "SLOT_INDEX_BY_LETTER = [(''A'', 0), (''B'', 1), (''C'', 2)]"

definition TEA_PATTERN_BYTE :: int where "TEA_PATTERN_BYTE = 1"
definition TEA_SIPHON_CAP :: int where "TEA_SIPHON_CAP = 90"

lemmas brewing_ids = BACK_TO_HOME_def CMD_TARE_def CMD_SCALE_IN_def CMD_SCALE_QUIT_def
  CMD_EASY_RECIPE_SEND_def CMD_EASY_RECIPE_ORDER_def

unbundle bit_operations_syntax

definition slot_flags :: "bool \<Rightarrow> bool \<Rightarrow> int" where
  "slot_flags scale_on grinder_on =
     (let flags = (if grinder_on then SLOT_GRINDER_ON else SLOT_GRINDER_OFF)
      in if scale_on then flags OR SLOT_SCALE_BIT else flags)"

section \<open>The tea payload\<close>

text \<open>Python's true division of two ints: the correctly rounded quotient.\<close>

definition int_truediv :: "int \<Rightarrow> int \<Rightarrow> pyfloat res" where
  "int_truediv a b =
     (if b = 0 then Inl ZeroDivisionError
      else case to_double (of_int a / of_int b) of Fin q \<Rightarrow> Inr (Fin q) | _ \<Rightarrow> Inl OverflowError)"

definition tea_substep :: "pour_step \<Rightarrow> int \<Rightarrow> bytes res" where
  "tea_substep p v = pack_BBBB v (temperature p) TEA_PATTERN_BYTE (vibration_int (vibration p))"

text \<open>The sub-step loop: 127 ml at a time while more remain, then the rest if there is any.\<close>

function tea_volumes :: "int \<Rightarrow> int list" where
  "tea_volumes remaining =
     (if 127 < remaining then 127 # tea_volumes (remaining - 127)
      else if 0 < remaining then [remaining] else [])"
  by pat_completeness auto
termination
  by (relation "measure nat") auto

declare tea_volumes.simps [simp del]

definition soak_byte :: "pour_step \<Rightarrow> int res" where
  "soak_byte p =
     bind_res (float_of_int (pausing p)) (\<lambda>x.
     bind_res (round_float (fmul x (Fin (round64 (6 / 10))))) (\<lambda>n. Inr (max 1 (min n 255))))"

definition tea_blocks :: "xbloom_recipe \<Rightarrow> nat \<times> pour_step \<Rightarrow> bytes res" where
  "tea_blocks r ip = (case ip of (i, p) \<Rightarrow>
     bind_res (map_res (tea_substep p) (tea_volumes (min (volume p) TEA_SIPHON_CAP))) (\<lambda>subs.
     bind_res (soak_byte p) (\<lambda>soak.
     bind_res (flow_byte p) (\<lambda>fb.
     bind_res (pack_BBBB 0 soak (if i = 0 then rpm r mod 256 else 0) fb) (\<lambda>t.
       Inr (concat subs @ t))))))"

definition tea_ratio_byte :: "xbloom_recipe \<Rightarrow> int res" where
  "tea_ratio_byte r =
     bind_res (int_of_float (bean_weight r)) (\<lambda>dose.
       if 0 < dose
       then bind_res (int_truediv (total_water r) dose) (\<lambda>q.
            bind_res (int_of_float (fmul q (Fin 10))) (\<lambda>n. Inr (n mod 256)))
       else Inr 0)"

definition build_tea_payload :: "xbloom_recipe \<Rightarrow> bytes res" where
  "build_tea_payload r =
     bind_res (map_res (tea_blocks r) (List.enumerate 0 (pours r))) (\<lambda>parts.
     bind_res (tea_ratio_byte r) (\<lambda>ratio.
     bind_res (pack_BB (grind_size r mod 256) ratio) (\<lambda>footer.
     bind_res (pack_B (int (length (concat parts)))) (\<lambda>len. Inr (len @ concat parts @ footer)))))"

section \<open>The coffee payload\<close>

definition coffee_ratio :: "xbloom_recipe \<Rightarrow> pyfloat res" where
  "coffee_ratio r =
     (if flt (Fin 0) (bean_weight r)
      then bind_res (float_of_int (sum_list (map volume (pours r)))) (\<lambda>t. fdiv t (bean_weight r))
      else Inr (Fin 0))"

definition ratio_byte :: "xbloom_recipe \<Rightarrow> int res" where
  "ratio_byte r =
     bind_res (coffee_ratio r) (\<lambda>q.
     bind_res (ceil_float (fmul q (Fin 10))) (\<lambda>n. Inr (min n 255)))"

definition build_coffee_recipe_payload :: "xbloom_recipe \<Rightarrow> bytes res" where
  "build_coffee_recipe_payload r =
     bind_res (build_recipe_payload r) (\<lambda>vendored.
     let body_content = slice 1 (length vendored - 2) vendored in
     bind_res (ratio_byte r) (\<lambda>ratio.
     bind_res (pack_BB (grind_size r mod 256) ratio) (\<lambda>footer.
     bind_res (pack_B (int (length body_content))) (\<lambda>len. Inr (len @ body_content @ footer)))))"

definition is_tea_recipe :: "xbloom_recipe \<Rightarrow> bool" where
  "is_tea_recipe r \<longleftrightarrow> cup_type r = CUP_TEA"

definition COFFEE_CUP_BOUNDS_GRIND :: "(int \<times> rat \<times> rat) list" where
  "COFFEE_CUP_BOUNDS_GRIND = [(1, 80, 40), (2, 90, 40), (3, 90, 40)]"
definition COFFEE_CUP_BOUNDS_NO_GRIND :: "(int \<times> rat \<times> rat) list" where
  "COFFEE_CUP_BOUNDS_NO_GRIND = [(1, 80, 0), (2, 90, 0), (3, 90, 0)]"
definition COFFEE_CUP_BOUNDS_DEFAULT :: "rat \<times> rat" where
  "COFFEE_CUP_BOUNDS_DEFAULT = (90, 40)"

section \<open>Verifying that a brew started\<close>

definition BREW_START_TIMEOUT_S :: rat where "BREW_START_TIMEOUT_S = 8"
definition BREW_STARTED_LABELS :: "string list" where
  "BREW_STARTED_LABELS = [''starting'', ''brewing'']"
definition BREW_REFUSED_LABELS :: "string list" where
  "BREW_REFUSED_LABELS = [''water_shortage'', ''no_beans'']"

function verify_loop :: "rat \<Rightarrow> string option \<Rightarrow> world \<Rightarrow> string res \<times> world" where
  "verify_loop deadline label w =
     (if w_now w < deadline
      then let l = raw_state_label (status (w_client w)) in
        case l of
          Some s \<Rightarrow>
            if s \<in> set BREW_STARTED_LABELS then (Inr s, w)
            else if s \<in> set BREW_REFUSED_LABELS then (Inl (BrewStartUnconfirmed s), w)
            else verify_loop deadline l (snd (sleep (1 / 10) w))
        | None \<Rightarrow> verify_loop deadline l (snd (sleep (1 / 10) w))
      else if label = Some ''awaiting_confirm''
      then (Inl (BrewStartUnconfirmed ''awaiting_confirm''), w)
      else (Inl (BrewStartUnconfirmed ''timeout''), w))"
  by pat_completeness auto

lemma sleep_now: "w_now w + d \<le> w_now (snd (sleep d w))"
  by (cases "next_tick w") (auto simp: sleep_def next_tick_frame(4))

text \<open>The polls of a tenth of a second left until the deadline.\<close>

definition polls_left :: "rat \<Rightarrow> world \<Rightarrow> nat" where
  "polls_left deadline w = nat \<lceil>(deadline - w_now w) * 10\<rceil>"

lemma polls_left_sleep:
  assumes "w_now w < deadline"
  shows "polls_left deadline (snd (sleep (1 / 10) w)) < polls_left deadline w"
proof -
  have "(deadline - w_now (snd (sleep (1 / 10) w))) * 10 \<le> (deadline - w_now w) * 10 - 1"
    using sleep_now [of w "1 / 10"] by simp
  then have "\<lceil>(deadline - w_now (snd (sleep (1 / 10) w))) * 10\<rceil> \<le> \<lceil>(deadline - w_now w) * 10\<rceil> - 1"
    by (metis ceiling_diff_one ceiling_mono)
  moreover have "0 < \<lceil>(deadline - w_now w) * 10\<rceil>" using assms by simp
  ultimately show ?thesis unfolding polls_left_def by linarith
qed

termination verify_loop
  by (relation "measure (\<lambda>(deadline, label, w). polls_left deadline w)")
    (auto simp: polls_left_sleep)

declare verify_loop.simps [simp del]

definition async_verify_brew_started :: "rat \<Rightarrow> string co" where
  "async_verify_brew_started timeout w = verify_loop (w_now w + timeout) None w"

section \<open>The arming chains\<close>

definition ack_step :: "int \<Rightarrow> payload_arg \<Rightarrow> rat \<Rightarrow> rat \<Rightarrow> unit co" where
  "ack_step command p timeout settle w =
     (let started = w_now w in
      bind_co (send_and_wait command p timeout 1) (\<lambda>_ w1.
        let remaining = settle - (w_now w1 - started)
        in if 0 < remaining then sleep remaining w1 else (Inr (), w1)) w)"

definition grinding :: "xbloom_recipe \<Rightarrow> bool" where
  "grinding r \<longleftrightarrow> 0 < grind_size r \<and> flt (Fin 0) (bean_weight r)"

definition coffee_dose :: "xbloom_recipe \<Rightarrow> int res" where
  "coffee_dose r = (if flt (Fin 0) (bean_weight r) then int_of_float (bean_weight r) else Inr 0)"

definition coffee_cup_bounds :: "xbloom_recipe \<Rightarrow> rat \<times> rat" where
  "coffee_cup_bounds r =
     (let bounds_table = (if grinding r then COFFEE_CUP_BOUNDS_GRIND else COFFEE_CUP_BOUNDS_NO_GRIND)
      in case map_of bounds_table (cup_type r) of None \<Rightarrow> COFFEE_CUP_BOUNDS_DEFAULT | Some b \<Rightarrow> b)"

definition recipe_cmd :: "xbloom_recipe \<Rightarrow> int" where
  "recipe_cmd r = (if grinding r then CMD_RECIPE_SEND_AUTO else CMD_RECIPE_SEND_MANUAL)"

definition async_arm_coffee :: "xbloom_recipe \<Rightarrow> pyfloat \<Rightarrow> pyfloat \<Rightarrow> unit co" where
  "async_arm_coffee r bypass_volume bypass_temperature w =
     (if \<not> w_link w then (Inl ConnectionError, w)
      else bind_co (lift_res (coffee_dose r)) (\<lambda>dose.
        then_co (ack_step BACK_TO_HOME (Data []) ACK_TIMEOUT_S STEP_SETTLE_COFFEE_S)
       (bind_co (lift_res (bypass_args bypass_volume bypass_temperature dose)) (\<lambda>bargs.
        then_co (ack_step CMD_SET_BYPASS (Data bargs) ACK_TIMEOUT_S STEP_SETTLE_COFFEE_S)
       (bind_co (lift_res (cup_args (Fin (fst (coffee_cup_bounds r))) (Fin (snd (coffee_cup_bounds r))))) (\<lambda>cargs.
        then_co (ack_step CMD_SET_CUP (Data cargs) ACK_TIMEOUT_S STEP_SETTLE_COFFEE_S)
       (bind_co (lift_res (build_coffee_recipe_payload r)) (\<lambda>payload.
        ack_step (recipe_cmd r) (Raw payload) ACK_TIMEOUT_RECIPE_SEND_S STEP_SETTLE_COFFEE_S))))))) w)"

definition async_brew_coffee :: "xbloom_recipe \<Rightarrow> pyfloat \<Rightarrow> pyfloat \<Rightarrow> unit co" where
  "async_brew_coffee r bypass_volume bypass_temperature =
     then_co (async_arm_coffee r bypass_volume bypass_temperature)
    (then_co (sleep 1)
    (then_co execute_coffee_recipe
    (then_co (async_verify_brew_started BREW_START_TIMEOUT_S) (return_co ()))))"

definition async_arm_tea :: "xbloom_recipe \<Rightarrow> bytes co" where
  "async_arm_tea r w =
     (if \<not> w_link w then (Inl ConnectionError, w)
      else then_co (ack_step BACK_TO_HOME (Data []) ACK_TIMEOUT_S STEP_SETTLE_TEA_S)
       (bind_co (lift_res (bypass_args (Fin 0) (Fin 0) 0)) (\<lambda>bargs.
        then_co (ack_step CMD_SET_BYPASS (Data bargs) ACK_TIMEOUT_S STEP_SETTLE_TEA_S)
       (bind_co (lift_res (cup_args (Fin (fst TEA_CUP_BOUNDS)) (Fin (snd TEA_CUP_BOUNDS)))) (\<lambda>cargs.
        then_co (ack_step CMD_SET_CUP (Data cargs) ACK_TIMEOUT_S STEP_SETTLE_TEA_S)
       (bind_co (lift_res (build_tea_payload r)) (\<lambda>payload.
        then_co (ack_step CMD_TEA_RECIPE_CODE (Raw payload) ACK_TIMEOUT_RECIPE_SEND_S STEP_SETTLE_TEA_S)
          (return_co payload))))))) w)"

definition async_brew_tea :: "xbloom_recipe \<Rightarrow> unit co" where
  "async_brew_tea r =
     bind_co (async_arm_tea r) (\<lambda>payload.
     then_co (sleep 2)
    (then_co (send_and_wait CMD_TEA_RECIPE_MAKE (Raw payload) ACK_TIMEOUT_RECIPE_SEND_S 1)
      (return_co ())))"

definition async_execute_recipe :: "xbloom_recipe \<Rightarrow> pyfloat \<Rightarrow> pyfloat \<Rightarrow> unit co" where
  "async_execute_recipe r bypass_volume bypass_temperature =
     (if is_tea_recipe r then async_brew_tea r
      else async_brew_coffee r bypass_volume bypass_temperature)"

definition async_arm_recipe :: "xbloom_recipe \<Rightarrow> pyfloat \<Rightarrow> pyfloat \<Rightarrow> bytes option co" where
  "async_arm_recipe r bypass_volume bypass_temperature =
     (if is_tea_recipe r then bind_co (async_arm_tea r) (\<lambda>payload. return_co (Some payload))
      else then_co (async_arm_coffee r bypass_volume bypass_temperature) (return_co None))"

definition async_confirm_recipe :: "bool \<Rightarrow> bytes option \<Rightarrow> unit co" where
  "async_confirm_recipe is_tea tea_payload =
     (if is_tea
      then case tea_payload of
             None \<Rightarrow> raise_co ValueError
           | Some payload \<Rightarrow>
               then_co (send_and_wait CMD_TEA_RECIPE_MAKE (Raw payload) ACK_TIMEOUT_RECIPE_SEND_S 1)
                 (return_co ())
      else then_co execute_coffee_recipe
          (then_co (async_verify_brew_started BREW_START_TIMEOUT_S) (return_co ())))"

section \<open>Scale commands and Easy Mode slots\<close>

definition when_connected :: "int \<Rightarrow> unit co" where
  "when_connected command w =
     (if \<not> w_link w then (Inl ConnectionError, w)
      else then_co (send_command command [] 1) (return_co ()) w)"

definition async_tare :: "unit co" where "async_tare = when_connected CMD_TARE"
definition async_enter_scale :: "unit co" where "async_enter_scale = when_connected CMD_SCALE_IN"
definition async_exit_scale :: "unit co" where "async_exit_scale = when_connected CMD_SCALE_QUIT"

definition slot_payload :: "bool \<Rightarrow> int \<Rightarrow> xbloom_recipe \<Rightarrow> bytes res" where
  "slot_payload scale_on slot_index r =
     bind_res (build_coffee_recipe_payload r) (\<lambda>blob.
     bind_res (pack_BB slot_index (slot_flags scale_on (grinding r))) (\<lambda>head. Inr (head @ blob)))"

definition write_slot :: "bool \<Rightarrow> int \<Rightarrow> xbloom_recipe \<Rightarrow> unit co" where
  "write_slot scale_on slot_index r =
     bind_co (lift_res (slot_payload scale_on slot_index r)) (\<lambda>payload.
     then_co (send_command_raw CMD_EASY_RECIPE_SEND payload 2) (sleep (4 / 5)))"

fun write_slots :: "bool \<Rightarrow> (string \<times> int) list \<Rightarrow> (string \<rightharpoonup> xbloom_recipe) \<Rightarrow> unit co" where
  "write_slots scale_on [] slot_recipes = return_co ()"
| "write_slots scale_on ((letter, i) # rest) slot_recipes =
     (case slot_recipes letter of
        None \<Rightarrow> raise_co KeyError
      | Some r \<Rightarrow> then_co (write_slot scale_on i r) (write_slots scale_on rest slot_recipes))"

definition order_payload :: bytes where
  "order_payload = map word_of_int (int (length SLOT_INDEX_BY_LETTER) # map snd SLOT_INDEX_BY_LETTER)"

definition async_write_easy_slots :: "(string \<rightharpoonup> xbloom_recipe) \<Rightarrow> bool \<Rightarrow> unit co" where
  "async_write_easy_slots slot_recipes scale_on w =
     (if \<not> w_link w then (Inl ConnectionError, w)
      else if filter (\<lambda>letter. slot_recipes letter = None) (map fst SLOT_INDEX_BY_LETTER) \<noteq> []
      then (Inl ValueError, w)
      else then_co (write_slots scale_on SLOT_INDEX_BY_LETTER slot_recipes)
          (then_co (send_command_raw CMD_EASY_RECIPE_ORDER order_payload 2) (sleep (4 / 5))) w)"

section \<open>What a send adds to the record\<close>

lemma sleep_sent: "w_sent (snd (sleep d w)) = w_sent w"
  by (cases "next_tick w") (simp add: sleep_def next_tick_frame)

lemma gatt_write_all_sent: "w_sent (snd (gatt_write_all chunks w)) = w_sent w"
proof (induction chunks arbitrary: w)
  case (Cons c cs)
  obtain t w1 where nt: "next_tick w = (t, w1)" by (cases "next_tick w")
  show ?case
    using Cons.IH by (simp add: then_co_def bind_co_def gatt_write_def nt Let_def next_tick_frame [OF nt])
qed simp

lemma write_command_sent: "w_sent (snd (write_command data w)) = w_sent w"
  by (simp add: write_command_def Let_def gatt_write_all_sent)

lemma send_payload_err: "send_payload command p ty w = (Inl e, w') \<Longrightarrow> w_sent w' = w_sent w"
proof (cases p)
  case (Data d)
  moreover assume "send_payload command p ty w = (Inl e, w')"
  ultimately show ?thesis
    using write_command_sent
    by (auto simp: send_command_def then_co_def bind_co_eq log_sent_def split: if_splits sum.splits)
next
  case (Raw d)
  moreover assume "send_payload command p ty w = (Inl e, w')"
  ultimately show ?thesis
    using write_command_sent
    by (auto simp: send_command_raw_def then_co_def bind_co_eq log_sent_def split: if_splits sum.splits)
qed

lemma wait_for_sent: "w_sent (snd (wait_for fut timeout w)) = w_sent w"
  by (cases "next_tick w") (auto simp: wait_for_def Let_def next_tick_frame split: option.splits)

lemma send_and_wait_sent:
  assumes "send_and_wait command p timeout ty w = (r, w')"
  shows "(w_sent w' = w_sent w \<and> \<not> is_ok r) \<or> (\<exists>data. payload_bytes p = Inr data \<and>
    w_sent w' = w_sent w @ [\<lparr>s_time = w_now w, s_command = command, s_type = ty, s_payload = data\<rparr>])"
proof -
  let ?w0 = "registered command w"
  obtain r0 w1 where snd: "send_payload command p ty ?w0 = (r0, w1)" by fastforce
  show ?thesis
  proof (cases r0)
    case (Inl e)
    then show ?thesis
      using assms snd send_payload_err [of command p ty ?w0 e w1]
      by (auto simp: send_and_wait_unfold then_co_def bind_co_def registered_def is_ok_def)
  next
    case (Inr b)
    then have "\<exists>data. payload_bytes p = Inr data \<and> w_sent w1 = w_sent w @
        [\<lparr>s_time = w_now w, s_command = command, s_type = ty, s_payload = data\<rparr>]"
      using send_payload_ok [of command p ty ?w0 b w1] snd by (auto simp: registered_def)
    moreover have "w_sent w' = w_sent w1"
      using assms snd Inr wait_for_sent [of "w_next_future w" timeout w1]
      by (auto simp: send_and_wait_unfold then_co_def bind_co_def split: prod.splits)
    ultimately show ?thesis by auto
  qed
qed

section \<open>Chains of commands\<close>

text \<open>
  \<open>spaced gap t ss\<close>: the sends of \<open>ss\<close> began at \<open>t\<close> or later, each at least \<open>gap\<close> after the one
  before.  \<open>chain b gap cs m\<close>: whatever happens, what \<open>m\<close> sends is an initial part of the
  script \<open>cs\<close>, spaced by \<open>gap\<close>; it is all of \<open>cs\<close> if \<open>m\<close> returns, and then, if \<open>b\<close>, the gap
  after the last send has passed too.
\<close>

fun spaced :: "rat \<Rightarrow> rat \<Rightarrow> sent list \<Rightarrow> bool" where
  "spaced gap t [] \<longleftrightarrow> True"
| "spaced gap t (x # xs) \<longleftrightarrow> t \<le> s_time x \<and> spaced gap (s_time x + gap) xs"

definition free_at :: "rat \<Rightarrow> rat \<Rightarrow> sent list \<Rightarrow> rat" where
  "free_at gap t ss = (if ss = [] then t else s_time (List.last ss) + gap)"

definition script :: "(sent \<Rightarrow> bool) list \<Rightarrow> sent list \<Rightarrow> bool" where
  "script cs ss \<longleftrightarrow> length ss \<le> length cs \<and> list_all2 (\<lambda>c x. c x) (take (length ss) cs) ss"

definition chain :: "bool \<Rightarrow> rat \<Rightarrow> (sent \<Rightarrow> bool) list \<Rightarrow> 'a co \<Rightarrow> bool" where
  "chain b gap cs m \<longleftrightarrow> (\<forall>w r w'. m w = (r, w') \<longrightarrow> w_now w \<le> w_now w' \<and>
     (\<exists>ss. w_sent w' = w_sent w @ ss \<and> script cs ss \<and> spaced gap (w_now w) ss \<and>
        (is_ok r \<longrightarrow> length ss = length cs \<and> (b \<longrightarrow> free_at gap (w_now w) ss \<le> w_now w'))))"

lemma spaced_mono: "t \<le> t' \<Longrightarrow> spaced gap t' ss \<Longrightarrow> spaced gap t ss"
  by (cases ss) auto

lemma spaced_append: "spaced gap t (xs @ ys) \<longleftrightarrow> spaced gap t xs \<and> spaced gap (free_at gap t xs) ys"
proof (induction xs arbitrary: t)
  case (Cons x xs)
  have "free_at gap (s_time x + gap) xs = free_at gap t (x # xs)" by (simp add: free_at_def)
  then show ?case using Cons by simp
qed (simp add: free_at_def)

lemma free_at_append: "free_at gap t (xs @ ys) = free_at gap (free_at gap t xs) ys"
  by (simp add: free_at_def)

lemma free_at_mono: "t \<le> t' \<Longrightarrow> free_at gap t ss \<le> free_at gap t' ss"
  by (simp add: free_at_def)

lemma script_Nil [simp]: "script cs []"
  by (simp add: script_def)

lemma script_append_left: "script cs ss \<Longrightarrow> script (cs @ ds) ss"
  by (simp add: script_def)

lemma script_append: "script cs ss \<Longrightarrow> length ss = length cs \<Longrightarrow> script ds ts \<Longrightarrow> script (cs @ ds) (ss @ ts)"
  by (simp add: script_def list_all2_appendI)

lemma script_sound: "script cs ss \<Longrightarrow> x \<in> set ss \<Longrightarrow> \<exists>c \<in> set cs. c x"
  unfolding script_def by (metis in_set_conv_nth in_set_takeD list_all2_conv_all_nth nth_mem)

lemma chainD:
  assumes "chain b gap cs m" "m w = (r, w')"
  obtains ss where "w_sent w' = w_sent w @ ss" "script cs ss" "spaced gap (w_now w) ss"
    "is_ok r \<Longrightarrow> length ss = length cs"
  using assms unfolding chain_def by blast

lemma chain_bind:
  assumes m: "chain True gap cs m" and f: "\<And>x w v. m w = (Inr x, v) \<Longrightarrow> chain b gap ds (f x)"
  shows "chain b gap (cs @ ds) (bind_co m f)"
  unfolding chain_def
proof (intro allI impI)
  fix w r w' assume run: "bind_co m f w = (r, w')"
  obtain r1 v where mv: "m w = (r1, v)" by fastforce
  obtain ss where ss: "w_now w \<le> w_now v" "w_sent v = w_sent w @ ss" "script cs ss"
    "spaced gap (w_now w) ss"
    "is_ok r1 \<Longrightarrow> length ss = length cs \<and> free_at gap (w_now w) ss \<le> w_now v"
    using m mv unfolding chain_def by blast
  show "w_now w \<le> w_now w' \<and> (\<exists>ss. w_sent w' = w_sent w @ ss \<and> script (cs @ ds) ss \<and>
      spaced gap (w_now w) ss \<and> (is_ok r \<longrightarrow> length ss = length (cs @ ds) \<and>
        (b \<longrightarrow> free_at gap (w_now w) ss \<le> w_now w')))"
  proof (cases r1)
    case (Inl e)
    then show ?thesis using run mv ss by (auto simp: bind_co_def is_ok_def intro: script_append_left)
  next
    case (Inr x)
    then have fv: "f x v = (r, w')" using run mv by (simp add: bind_co_def)
    obtain ts where ts: "w_now v \<le> w_now w'" "w_sent w' = w_sent v @ ts" "script ds ts"
      "spaced gap (w_now v) ts"
      "is_ok r \<Longrightarrow> length ts = length ds \<and> (b \<longrightarrow> free_at gap (w_now v) ts \<le> w_now w')"
      using f [of w x v] fv mv Inr unfolding chain_def by blast
    have ok1: "length ss = length cs" "free_at gap (w_now w) ss \<le> w_now v"
      using ss(5) Inr by (simp_all add: is_ok_def)
    have "spaced gap (w_now w) (ss @ ts)"
      using ss(4) spaced_mono [OF ok1(2) ts(4)] by (simp add: spaced_append)
    moreover have "free_at gap (w_now w) (ss @ ts) \<le> w_now w'" if "is_ok r" b
      using free_at_mono [OF ok1(2), of gap ts] ts(5) that by (simp add: free_at_append)
    ultimately show ?thesis
      using ss ts ok1 script_append [OF ss(3) ok1(1) ts(3)]
      by (intro conjI exI [of _ "ss @ ts"]) auto
  qed
qed

lemma chain_then:
  "chain True gap cs m \<Longrightarrow> chain b gap ds n \<Longrightarrow> chain b gap (cs @ ds) (then_co m n)"
  by (simp add: then_co_def chain_bind)

lemma chain_step: "chain True gap [c] m \<Longrightarrow> chain b gap ds n \<Longrightarrow> chain b gap (c # ds) (then_co m n)"
  using chain_then [of gap "[c]" m b ds n] by simp

lemma chain_quiet: "(\<And>w. w_now w \<le> w_now (snd (m w)) \<and> w_sent (snd (m w)) = w_sent w) \<Longrightarrow> chain b gap [] m"
  by (auto simp: chain_def free_at_def) (metis snd_conv)+

lemma chain_lift:
  assumes "\<And>x. r = Inr x \<Longrightarrow> chain b gap cs (f x)"
  shows "chain b gap cs (bind_co (lift_res r) f)"
proof (cases r)
  case (Inl e)
  then show ?thesis by (auto simp: chain_def bind_co_def is_ok_def intro!: exI [of _ "[]"])
next
  case (Inr x)
  then show ?thesis using assms by (simp add: chain_def bind_co_def)
qed

lemma chain_linked:
  "chain b gap cs m \<Longrightarrow> chain b gap cs (\<lambda>w. if \<not> w_link w then (Inl e, w) else m w)"
  by (auto simp: chain_def is_ok_def)

text \<open>The waits and sends of this component as chains.\<close>

lemma chain_sleep: "0 \<le> d \<Longrightarrow> chain b gap [] (sleep d)"
proof (rule chain_quiet)
  fix w :: world assume "0 \<le> d"
  then show "w_now w \<le> w_now (snd (sleep d w)) \<and> w_sent (snd (sleep d w)) = w_sent w"
    using sleep_now [of w d] sleep_sent [of d w] by linarith
qed

lemma chain_return: "chain b gap [] (return_co x)"
  by (rule chain_quiet) simp

lemma chain_ack_step:
  assumes t0: "0 \<le> timeout"
    and c: "\<And>t data. payload_bytes p = Inr data \<Longrightarrow>
      c \<lparr>s_time = t, s_command = command, s_type = 1, s_payload = data\<rparr>"
  shows "chain True gap [c] (ack_step command p timeout gap)"
  unfolding chain_def
proof (intro allI impI)
  fix w r w' assume run: "ack_step command p timeout gap w = (r, w')"
  obtain r1 v where mv: "send_and_wait command p timeout 1 w = (r1, v)" by fastforce
  have now: "w_now w \<le> w_now v"
    using keepsD [OF pw.keeps_send_and_wait [OF t0] mv] by (simp add: progress_def)
  have sent: "(w_sent v = w_sent w \<and> \<not> is_ok r1) \<or> (\<exists>x. c x \<and> s_time x = w_now w \<and> w_sent v = w_sent w @ [x])"
    using send_and_wait_sent [OF mv] c by (metis sent.select_convs(1))
  show "w_now w \<le> w_now w' \<and> (\<exists>ss. w_sent w' = w_sent w @ ss \<and> script [c] ss \<and>
      spaced gap (w_now w) ss \<and> (is_ok r \<longrightarrow> length ss = length [c] \<and>
        (True \<longrightarrow> free_at gap (w_now w) ss \<le> w_now w')))"
  proof (cases r1)
    case (Inl e)
    then have "r = Inl e" "w' = v" using run mv by (simp_all add: ack_step_def Let_def bind_co_def)
    then show ?thesis using sent now by (auto simp: script_def is_ok_def)
  next
    case (Inr f)
    let ?rem = "gap - (w_now v - w_now w)"
    have w': "(r, w') = (if 0 < ?rem then sleep ?rem v else (Inr (), v))"
      using run mv Inr by (simp add: ack_step_def Let_def bind_co_def)
    have "w_sent w' = w_sent v" "w_now w + gap \<le> w_now w'" "w_now v \<le> w_now w'"
      using arg_cong [OF w', of snd] sleep_sent [of ?rem v] sleep_now [of v ?rem]
      by (simp_all split: if_splits)
    moreover obtain x where "c x" "s_time x = w_now w" "w_sent v = w_sent w @ [x]"
      using sent Inr by (auto simp: is_ok_def)
    ultimately show ?thesis
      using now by (intro conjI exI [of _ "[x]"]) (auto simp: script_def free_at_def)
  qed
qed

lemma chain_one:
  assumes "\<And>w r w'. m w = (r, w') \<Longrightarrow> w_now w \<le> w_now w' \<and> ((w_sent w' = w_sent w \<and> \<not> is_ok r) \<or>
    (\<exists>x. c x \<and> s_time x = w_now w \<and> w_sent w' = w_sent w @ [x]))"
  shows "chain False gap [c] m"
  unfolding chain_def
proof (intro allI impI)
  fix w r w' assume run: "m w = (r, w')"
  from assms [OF this]
  show "w_now w \<le> w_now w' \<and> (\<exists>ss. w_sent w' = w_sent w @ ss \<and> script [c] ss \<and>
      spaced gap (w_now w) ss \<and> (is_ok r \<longrightarrow> length ss = length [c] \<and>
        (False \<longrightarrow> free_at gap (w_now w) ss \<le> w_now w')))"
    by (auto simp: script_def)
qed

lemma chain_send:
  assumes c: "\<And>t data. payload_bytes p = Inr data \<Longrightarrow>
      c \<lparr>s_time = t, s_command = command, s_type = ty, s_payload = data\<rparr>"
  shows "chain False gap [c] (send_payload command p ty)"
proof (rule chain_one)
  fix w r w' assume run: "send_payload command p ty w = (r, w')"
  have "w_now w \<le> w_now w'"
    using keepsD [OF pw.keeps_send_payload run] by (simp add: progress_def)
  moreover have "(w_sent w' = w_sent w \<and> \<not> is_ok r) \<or>
      (\<exists>x. c x \<and> s_time x = w_now w \<and> w_sent w' = w_sent w @ [x])"
  proof (cases r)
    case (Inl e)
    then show ?thesis using run send_payload_err [of command p ty w e w'] by (simp add: is_ok_def)
  next
    case (Inr b)
    then show ?thesis using run send_payload_ok [of command p ty w b w'] c
      by (metis sent.select_convs(1))
  qed
  ultimately show "w_now w \<le> w_now w' \<and> ((w_sent w' = w_sent w \<and> \<not> is_ok r) \<or>
      (\<exists>x. c x \<and> s_time x = w_now w \<and> w_sent w' = w_sent w @ [x]))" by blast
qed

lemma chain_send_and_wait:
  assumes t0: "0 \<le> timeout"
    and c: "\<And>t data. payload_bytes p = Inr data \<Longrightarrow>
      c \<lparr>s_time = t, s_command = command, s_type = ty, s_payload = data\<rparr>"
  shows "chain False gap [c] (send_and_wait command p timeout ty)"
proof (rule chain_one)
  fix w r w' assume run: "send_and_wait command p timeout ty w = (r, w')"
  have "w_now w \<le> w_now w'"
    using keepsD [OF pw.keeps_send_and_wait [OF t0] run] by (simp add: progress_def)
  then show "w_now w \<le> w_now w' \<and> ((w_sent w' = w_sent w \<and> \<not> is_ok r) \<or>
      (\<exists>x. c x \<and> s_time x = w_now w \<and> w_sent w' = w_sent w @ [x]))"
    using send_and_wait_sent [OF run] c by (metis sent.select_convs(1))
qed

text \<open>A final step that is not followed by a settle time ends the sends of a chain.\<close>

lemma chain_tail:
  assumes m: "chain False gap cs m" and f: "\<And>x. chain b gap [] (f x)"
  shows "chain False gap cs (bind_co m f)"
  unfolding chain_def
proof (intro allI impI)
  fix w r w' assume run: "bind_co m f w = (r, w')"
  obtain r1 v where mv: "m w = (r1, v)" by fastforce
  obtain ss where ss: "w_now w \<le> w_now v" "w_sent v = w_sent w @ ss" "script cs ss"
    "spaced gap (w_now w) ss" "is_ok r1 \<Longrightarrow> length ss = length cs"
    using m mv unfolding chain_def by blast
  have "w_sent w' = w_sent v" "w_now v \<le> w_now w'" "is_ok r \<Longrightarrow> is_ok r1"
  proof -
    have q: "w_sent w' = w_sent v \<and> w_now v \<le> w_now w'" if "r1 = Inr x" for x
      using f [of x] run mv that by (auto simp: chain_def script_def bind_co_def)
    show "w_sent w' = w_sent v" "w_now v \<le> w_now w'" "is_ok r \<Longrightarrow> is_ok r1"
      using q run mv by (cases r1; auto simp: bind_co_def is_ok_def)+
  qed
  then show "w_now w \<le> w_now w' \<and> (\<exists>ss. w_sent w' = w_sent w @ ss \<and> script cs ss \<and>
      spaced gap (w_now w) ss \<and> (is_ok r \<longrightarrow> length ss = length cs \<and>
        (False \<longrightarrow> free_at gap (w_now w) ss \<le> w_now w')))"
    using ss by auto
qed

lemma chain_end: "chain False gap cs m \<Longrightarrow> chain b gap [] n \<Longrightarrow> chain False gap cs (then_co m n)"
  by (simp add: then_co_def chain_tail)

section \<open>Facts about the start verification\<close>

lemma verify_loop_spec:
  "verify_loop deadline label w = (r, w') \<Longrightarrow> w_now w \<le> w_now w' \<and> w_sent w' = w_sent w \<and>
     (case r of
        Inr s \<Rightarrow> s \<in> set BREW_STARTED_LABELS \<and> raw_state_label (status (w_client w')) = Some s \<and> w_now w' < deadline
      | Inl e \<Rightarrow> (\<exists>m. e = BrewStartUnconfirmed m \<and> (m \<in> set BREW_REFUSED_LABELS \<or> deadline \<le> w_now w')))"
proof (induction deadline label w rule: verify_loop.induct)
  case (1 deadline label w)
  let ?l = "raw_state_label (status (w_client w))" and ?v = "snd (sleep (1 / 10) w)"
  have v: "w_now w \<le> w_now ?v" "w_sent ?v = w_sent w"
    using sleep_now [of w "1 / 10"] sleep_sent by auto
  note step = verify_loop.simps [of deadline label w]
  show ?case
  proof (cases "w_now w < deadline \<and> (\<forall>s. ?l = Some s \<longrightarrow> s \<notin> set BREW_STARTED_LABELS \<and> s \<notin> set BREW_REFUSED_LABELS)")
    case True
    then have "verify_loop deadline ?l ?v = (r, w')"
      using "1.prems" by (cases ?l) (simp_all add: step Let_def)
    moreover have "verify_loop deadline ?l ?v = (r, w') \<Longrightarrow> w_now ?v \<le> w_now w' \<and> w_sent w' = w_sent ?v \<and>
     (case r of
        Inr s \<Rightarrow> s \<in> set BREW_STARTED_LABELS \<and> raw_state_label (status (w_client w')) = Some s \<and> w_now w' < deadline
      | Inl e \<Rightarrow> (\<exists>m. e = BrewStartUnconfirmed m \<and> (m \<in> set BREW_REFUSED_LABELS \<or> deadline \<le> w_now w')))"
      using "1.IH" True by (cases ?l) (simp_all, blast?)
    ultimately show ?thesis using v by auto
  next
    case False
    then show ?thesis
      using "1.prems" by (cases ?l) (auto simp: step Let_def not_less split: if_splits)
  qed
qed

lemma verify_spec:
  assumes "async_verify_brew_started timeout w = (r, w')"
  shows "w_now w \<le> w_now w'" "w_sent w' = w_sent w"
    "r = Inr s \<Longrightarrow> s \<in> set BREW_STARTED_LABELS \<and> raw_state_label (status (w_client w')) = Some s"
  using verify_loop_spec [OF assms [unfolded async_verify_brew_started_def]] by auto

lemma chain_verify: "chain b gap [] (async_verify_brew_started timeout)"
  by (rule chain_quiet) (metis prod.collapse verify_spec(1,2))

section \<open>The scripts of the chains\<close>

definition bare :: "int \<Rightarrow> sent \<Rightarrow> bool" where
  "bare command x \<longleftrightarrow> s_command x = command \<and> s_type x = 1 \<and> s_payload x = []"

definition with_args :: "int \<Rightarrow> int list res \<Rightarrow> sent \<Rightarrow> bool" where
  "with_args command args x \<longleftrightarrow> s_command x = command \<and> s_type x = 1 \<and>
     bind_res args (\<lambda>d. payload_bytes (Data d)) = Inr (s_payload x)"

definition with_raw :: "int \<Rightarrow> int \<Rightarrow> bytes res \<Rightarrow> sent \<Rightarrow> bool" where
  "with_raw command ty raw x \<longleftrightarrow> s_command x = command \<and> s_type x = ty \<and> raw = Inr (s_payload x)"

text \<open>Arming a coffee: home, bypass and dose, cup bounds, recipe.\<close>

definition coffee_arm_script :: "xbloom_recipe \<Rightarrow> pyfloat \<Rightarrow> pyfloat \<Rightarrow> (sent \<Rightarrow> bool) list" where
  "coffee_arm_script r bv bt =
     [bare 8022,
      with_args 8102 (bind_res (coffee_dose r) (bypass_args bv bt)),
      with_args 8104 (cup_args (Fin (fst (coffee_cup_bounds r))) (Fin (snd (coffee_cup_bounds r)))),
      with_raw (if grinding r then 8001 else 8004) 1 (build_coffee_recipe_payload r)]"

definition tea_arm_script :: "xbloom_recipe \<Rightarrow> (sent \<Rightarrow> bool) list" where
  "tea_arm_script r =
     [bare 8022, with_args 8102 (bypass_args (Fin 0) (Fin 0) 0),
      with_args 8104 (cup_args (Fin 200) (Fin 0)), with_raw 4513 1 (build_tea_payload r)]"

lemma ack_timeouts [simp]: "0 \<le> ACK_TIMEOUT_S" "0 \<le> ACK_TIMEOUT_RECIPE_SEND_S"
  by (simp_all add: ACK_TIMEOUT_S_def ACK_TIMEOUT_RECIPE_SEND_S_def)

lemma chain_bare: "chain True gap [bare command] (ack_step command (Data []) ACK_TIMEOUT_S gap)"
  by (rule chain_ack_step) (auto simp: bare_def payload_bytes_def)

lemma chain_args:
  "args = Inr d \<Longrightarrow> chain True gap [with_args command args] (ack_step command (Data d) ACK_TIMEOUT_S gap)"
  by (rule chain_ack_step) (auto simp: with_args_def)

lemma chain_raw:
  "raw = Inr d \<Longrightarrow> chain True gap [with_raw command 1 raw] (ack_step command (Raw d) ACK_TIMEOUT_RECIPE_SEND_S gap)"
  by (rule chain_ack_step) (auto simp: with_raw_def payload_bytes_def)

lemmas chain_rules = chain_linked chain_lift chain_step chain_bare chain_args chain_raw

lemma coffee_arm_chain: "chain True 1 (coffee_arm_script r bv bt) (async_arm_coffee r bv bt)"
  unfolding coffee_arm_script_def async_arm_coffee_def [abs_def] STEP_SETTLE_COFFEE_S_def
    recipe_cmd_def command_ids BACK_TO_HOME_def
  by (intro chain_rules) simp_all

lemma tea_arm_chain: "chain True 2 (tea_arm_script r) (async_arm_tea r)"
  unfolding tea_arm_script_def async_arm_tea_def [abs_def] STEP_SETTLE_TEA_S_def TEA_CUP_BOUNDS_def
    fst_conv snd_conv command_ids BACK_TO_HOME_def
  by (intro chain_rules chain_return) simp_all

lemma execute_chain: "chain False gap [bare 8002] execute_coffee_recipe"
proof -
  have "chain False gap [bare 8002] (send_payload 8002 (Data []) 1)"
    by (rule chain_send) (auto simp: bare_def payload_bytes_def)
  from chain_end [OF this chain_return] show ?thesis
    by (simp add: execute_coffee_recipe_def CMD_RECIPE_EXECUTE_def)
qed

lemma coffee_go_chain:
  "chain False gap [bare 8002] (then_co execute_coffee_recipe
     (then_co (async_verify_brew_started BREW_START_TIMEOUT_S) (return_co ())))"
  using chain_then [OF chain_verify chain_return] by (intro chain_end [OF execute_chain]) simp

lemma coffee_brew_chain: "chain False 1 (coffee_arm_script r bv bt @ [bare 8002]) (async_brew_coffee r bv bt)"
proof -
  have "chain False 1 ([] @ [bare 8002]) (then_co (sleep 1) (then_co execute_coffee_recipe
     (then_co (async_verify_brew_started BREW_START_TIMEOUT_S) (return_co ()))))"
    by (intro chain_then [OF chain_sleep coffee_go_chain]) simp
  then show ?thesis
    unfolding async_brew_coffee_def by (intro chain_then [OF coffee_arm_chain]) simp
qed

lemma tea_arm_returns: "async_arm_tea r w = (Inr p, w') \<Longrightarrow> build_tea_payload r = Inr p"
  by (auto simp: async_arm_tea_def then_co_def bind_co_Inr split: if_splits)

lemma tea_brew_chain:
  "chain False 2 (tea_arm_script r @ [with_raw 4512 1 (build_tea_payload r)]) (async_brew_tea r)"
  unfolding async_brew_tea_def
proof (rule chain_bind [OF tea_arm_chain])
  fix p w v assume "async_arm_tea r w = (Inr p, v)"
  then have p: "build_tea_payload r = Inr p" by (rule tea_arm_returns)
  have "chain False 2 [with_raw 4512 1 (build_tea_payload r)]
      (send_and_wait CMD_TEA_RECIPE_MAKE (Raw p) ACK_TIMEOUT_RECIPE_SEND_S 1)"
    by (rule chain_send_and_wait) (auto simp: with_raw_def payload_bytes_def p CMD_TEA_RECIPE_MAKE_def)
  from chain_then [OF chain_sleep chain_end [OF this chain_return], of 2]
  show "chain False 2 [with_raw 4512 1 (build_tea_payload r)] (then_co (sleep 2)
      (then_co (send_and_wait CMD_TEA_RECIPE_MAKE (Raw p) ACK_TIMEOUT_RECIPE_SEND_S 1) (return_co ())))"
    by simp
qed

lemma chain_send_sleep:
  assumes "0 \<le> gap" and c: "\<And>t data. payload_bytes p = Inr data \<Longrightarrow>
      c \<lparr>s_time = t, s_command = command, s_type = ty, s_payload = data\<rparr>"
  shows "chain True gap [c] (then_co (send_payload command p ty) (sleep gap))"
  unfolding chain_def
proof (intro allI impI)
  fix w r w' assume run: "then_co (send_payload command p ty) (sleep gap) w = (r, w')"
  obtain r1 v where mv: "send_payload command p ty w = (r1, v)" by fastforce
  have now: "w_now w \<le> w_now v"
    using keepsD [OF pw.keeps_send_payload mv] by (simp add: progress_def)
  show "w_now w \<le> w_now w' \<and> (\<exists>ss. w_sent w' = w_sent w @ ss \<and> script [c] ss \<and>
      spaced gap (w_now w) ss \<and> (is_ok r \<longrightarrow> length ss = length [c] \<and>
        (True \<longrightarrow> free_at gap (w_now w) ss \<le> w_now w')))"
  proof (cases r1)
    case (Inl e)
    then show ?thesis
      using run mv now send_payload_err [of command p ty w e v] by (auto simp: then_co_def bind_co_def is_ok_def)
  next
    case (Inr b)
    then have w': "w' = snd (sleep gap v)" using run mv by (simp add: then_co_def bind_co_def)
    have sent: "w_sent w' = w_sent v" "w_now v + gap \<le> w_now w'"
      using sleep_sent [of gap v] sleep_now [of v gap] by (simp_all add: w')
    obtain x where x: "c x" "s_time x = w_now w" "w_sent v = w_sent w @ [x]"
      using send_payload_ok [of command p ty w b v] mv Inr c by (metis sent.select_convs(1))
    have "w_now w \<le> w_now w'" "w_now w + gap \<le> w_now w'" using sent(2) now assms(1) by linarith+
    then show ?thesis using sent(1) x by (intro conjI exI [of _ "[x]"]) (auto simp: script_def free_at_def)
  qed
qed

lemma slot_chain:
  "chain True (4 / 5) [with_raw 11510 2 (slot_payload on i r)] (write_slot on i r)"
  unfolding write_slot_def
proof (rule chain_lift)
  fix p assume "slot_payload on i r = Inr p"
  then have "chain True (4 / 5) [with_raw 11510 2 (slot_payload on i r)]
      (then_co (send_payload 11510 (Raw p) 2) (sleep (4 / 5)))"
    by (intro chain_send_sleep) (auto simp: with_raw_def payload_bytes_def)
  then show "chain True (4 / 5) [with_raw 11510 2 (slot_payload on i r)]
      (then_co (send_command_raw CMD_EASY_RECIPE_SEND p 2) (sleep (4 / 5)))"
    by (simp add: CMD_EASY_RECIPE_SEND_def)
qed

definition slots_script :: "(string \<rightharpoonup> xbloom_recipe) \<Rightarrow> bool \<Rightarrow> (sent \<Rightarrow> bool) list" where
  "slots_script rs on =
     [with_raw 11510 2 (slot_payload on 0 (the (rs ''A''))),
      with_raw 11510 2 (slot_payload on 1 (the (rs ''B''))),
      with_raw 11510 2 (slot_payload on 2 (the (rs ''C''))),
      with_raw 11512 2 (Inr [3, 0, 1, 2])]"

lemma easy_slots_chain:
  assumes "rs ''A'' = Some a" "rs ''B'' = Some b" "rs ''C'' = Some c"
  shows "chain True (4 / 5) (slots_script rs on) (async_write_easy_slots rs on)"
proof -
  have ws: "write_slots on SLOT_INDEX_BY_LETTER rs = then_co (write_slot on 0 a)
      (then_co (write_slot on 1 b) (then_co (write_slot on 2 c) (return_co ())))"
    by (simp add: SLOT_INDEX_BY_LETTER_def assms)
  have "chain True (4 / 5) (butlast (slots_script rs on)) (write_slots on SLOT_INDEX_BY_LETTER rs)"
    unfolding ws slots_script_def assms
    by (simp, intro chain_step slot_chain chain_return)
  moreover have "chain True (4 / 5) [with_raw 11512 2 (Inr [3, 0, 1, 2])]
      (then_co (send_command_raw CMD_EASY_RECIPE_ORDER order_payload 2) (sleep (4 / 5)))"
    using chain_send_sleep [of "4 / 5" "Raw order_payload" "with_raw 11512 2 (Inr [3, 0, 1, 2])" 11512 2]
    by (simp add: with_raw_def payload_bytes_def CMD_EASY_RECIPE_ORDER_def order_payload_def
        SLOT_INDEX_BY_LETTER_def)
  ultimately have "chain True (4 / 5) (butlast (slots_script rs on) @ [with_raw 11512 2 (Inr [3, 0, 1, 2])])
      (then_co (write_slots on SLOT_INDEX_BY_LETTER rs)
        (then_co (send_command_raw CMD_EASY_RECIPE_ORDER order_payload 2) (sleep (4 / 5))))"
    by (rule chain_then)
  then have "chain True (4 / 5) (slots_script rs on)
      (then_co (write_slots on SLOT_INDEX_BY_LETTER rs)
        (then_co (send_command_raw CMD_EASY_RECIPE_ORDER order_payload 2) (sleep (4 / 5))))"
    by (simp add: slots_script_def)
  moreover have "filter (\<lambda>letter. rs letter = None) (map fst SLOT_INDEX_BY_LETTER) = []"
    by (simp add: SLOT_INDEX_BY_LETTER_def assms)
  ultimately show ?thesis
    unfolding async_write_easy_slots_def [abs_def] by (simp only: simp_thms if_False if_True) (rule chain_linked)
qed

section \<open>Properties of the chains\<close>

text \<open>
  C1. A coffee brew sends an initial part of its script and nothing else: 8022, 8102 with the
  bypass and the dose, 8104 with the cup bounds, 8001 (8004 without grinding) with the recipe,
  then 8002; consecutive sends begin at least one second apart, and a brew that returns sent
  all five.
\<close>

theorem coffee_brew_follows_script:
  assumes "async_brew_coffee r bv bt w = (res, w')"
  shows "\<exists>ss. w_sent w' = w_sent w @ ss \<and> script (coffee_arm_script r bv bt @ [bare 8002]) ss \<and>
      spaced 1 (w_now w) ss \<and> (is_ok res \<longrightarrow> length ss = 5)"
proof -
  have "length (coffee_arm_script r bv bt @ [bare 8002]) = 5" by (simp add: coffee_arm_script_def)
  with chainD [OF coffee_brew_chain assms] show ?thesis by metis
qed

theorem coffee_brew_follows_script_witness:
  "\<exists>res w' ss. async_brew_coffee demo_recipe (Fin 0) (Fin 0) (demo_world []) = (res, w') \<and>
     w_sent w' = ss \<and> script (coffee_arm_script demo_recipe (Fin 0) (Fin 0) @ [bare 8002]) ss \<and> spaced 1 0 ss"
proof -
  obtain res w' where run: "async_brew_coffee demo_recipe (Fin 0) (Fin 0) (demo_world []) = (res, w')"
    by fastforce
  from coffee_brew_follows_script [OF run] run show ?thesis by auto
qed

text \<open>
  A chain that fails before the recipe is loaded never executes: if arming raises (a lost
  echo, a failed write, no link, a recipe that does not fit), the brew raises the same error
  in the same world, and 8002 is not among what was sent.
\<close>

theorem failed_arm_never_executes:
  assumes "async_arm_coffee r bv bt w = (Inl e, w1)"
  shows "(async_brew_coffee r bv bt w = (Inl e, w1)) \<and>
    (\<exists>ss. w_sent w1 = w_sent w @ ss \<and> 8002 \<notin> s_command ` set ss)"
proof -
  have c1: "async_brew_coffee r bv bt w = (Inl e, w1)"
    by (simp add: async_brew_coffee_def then_co_def bind_co_def assms)
  obtain ss where ss: "w_sent w1 = w_sent w @ ss" "script (coffee_arm_script r bv bt) ss"
    using chainD [OF coffee_arm_chain assms] by blast
  have "s_command x \<noteq> 8002" if "x \<in> set ss" for x
    using script_sound [OF ss(2) that]
    by (cases "grinding r") (auto simp: coffee_arm_script_def bare_def with_args_def with_raw_def)
  then have "8002 \<notin> s_command ` set ss" by (metis imageE)
  with ss(1) have c2: "\<exists>ss. w_sent w1 = w_sent w @ ss \<and> 8002 \<notin> s_command ` set ss" by (intro exI conjI)
  show ?thesis using c1 c2 by blast
qed

theorem failed_arm_never_executes_witness:
  "async_brew_coffee demo_recipe (Fin 0) (Fin 0) ((demo_world [])\<lparr>w_link := False\<rparr>)
     = (Inl ConnectionError, (demo_world [])\<lparr>w_link := False\<rparr>)"
  by (rule failed_arm_never_executes [THEN conjunct1]) (simp add: async_arm_coffee_def)

text \<open>
  C2. Confirming a coffee returns only when the machine itself says so: its own heartbeat label
  is then \<open>starting\<close> or \<open>brewing\<close>, exactly one bare 8002 was sent and nothing after it.
\<close>

theorem confirm_returns_only_if_started:
  assumes "async_confirm_recipe False tea_payload w = (Inr (), w')"
  shows "(raw_state_label (status (w_client w')) \<in> {Some ''starting'', Some ''brewing''}) \<and>
    (\<exists>x. w_sent w' = w_sent w @ [x] \<and> bare 8002 x)"
proof -
  obtain s v where "async_verify_brew_started BREW_START_TIMEOUT_S v = (Inr s, w')"
    using assms by (auto simp: async_confirm_recipe_def then_co_def bind_co_Inr)
  from verify_spec(3) [OF this refl]
  have c1: "raw_state_label (status (w_client w')) \<in> {Some ''starting'', Some ''brewing''}"
    by (auto simp: BREW_STARTED_LABELS_def)
  have run: "then_co execute_coffee_recipe (then_co (async_verify_brew_started BREW_START_TIMEOUT_S)
      (return_co ())) w = (Inr (), w')"
    using assms by (simp add: async_confirm_recipe_def)
  obtain ss where "w_sent w' = w_sent w @ ss" "script [bare 8002] ss" "length ss = 1"
    by (rule chainD [OF coffee_go_chain [of 0] run]) (simp add: is_ok_def)
  then have c2: "\<exists>x. w_sent w' = w_sent w @ [x] \<and> bare 8002 x"
    by (cases ss) (auto simp: script_def)
  show ?thesis using c1 c2 by blast
qed

lemma quiet_execute:
  assumes "w_ticks w = []" "w_link w"
  shows "\<exists>v. execute_coffee_recipe w = (Inr (), v) \<and> w_client v = w_client w \<and> w_now v = w_now w"
proof -
  have "is_ok (build_packet_raw 8002 [] 1 DEVICE_ID)"
    by (subst build_packet_raw_ok_iff) (simp add: DEVICE_ID_def)
  then obtain packet where p: "build_packet 8002 [] 1 DEVICE_ID = Inr packet"
    by (auto simp: build_packet_def elim: is_okE)
  have wr: "\<exists>v. gatt_write_all chunks u = (Inr (), v) \<and> w_client v = w_client u \<and> w_now v = w_now u"
    if "w_ticks u = []" for chunks u
    using that
  proof (induction chunks arbitrary: u)
    case (Cons c cs)
    let ?u = "(deliver quiet 0 u)\<lparr>w_writes := w_writes u @ [c]\<rparr>"
    have 1: "gatt_write c u = (Inr (), ?u)"
      using Cons.prems by (simp add: gatt_write_def next_tick_def quiet_def Let_def)
    have "w_ticks ?u = []" using Cons.prems by (simp add: deliver_def Let_def)
    from Cons.IH [OF this] show ?case
      by (simp add: then_co_def bind_co_def 1) (simp add: deliver_def quiet_def Let_def)
  qed simp
  then obtain v where "write_command packet w = (Inr (), v)" "w_client v = w_client w" "w_now v = w_now w"
    using assms by (fastforce simp: write_command_def Let_def)
  then show ?thesis
    using assms(2)
    by (simp add: execute_coffee_recipe_def send_command_def then_co_def bind_co_def p
        CMD_RECIPE_EXECUTE_def log_sent_def)
qed

definition brewing_world :: world where
  "brewing_world = (demo_world [])\<lparr>w_client := upd_status (\<lambda>s. s\<lparr>raw_state_label := Some ''brewing''\<rparr>) (init_client 0)\<rparr>"

theorem confirm_returns_only_if_started_witness:
  "\<exists>w'. async_confirm_recipe False None brewing_world = (Inr (), w') \<and>
     raw_state_label (status (w_client w')) \<in> {Some ''starting'', Some ''brewing''}"
proof -
  obtain v where v: "execute_coffee_recipe brewing_world = (Inr (), v)"
    "w_client v = w_client brewing_world" "w_now v = w_now brewing_world"
    using quiet_execute [of brewing_world] by (auto simp: brewing_world_def)
  have "async_verify_brew_started BREW_START_TIMEOUT_S v = (Inr ''brewing'', v)"
    by (simp add: async_verify_brew_started_def verify_loop.simps v(2,3) brewing_world_def
        BREW_START_TIMEOUT_S_def BREW_STARTED_LABELS_def)
  then have run: "async_confirm_recipe False None brewing_world = (Inr (), v)"
    by (simp add: async_confirm_recipe_def then_co_def bind_co_def v(1))
  from confirm_returns_only_if_started [OF run] run show ?thesis by blast
qed

text \<open>
  A tea brew follows its script, two seconds apart: 8022, 8102 with no bypass and no dose,
  8104 with the tea bounds, 4513 with the tea payload and 4512 with the same bytes again.
  Arming returns exactly the bytes it sent, so the two-stage confirm re-sends them too; a tea
  confirm without them raises and sends nothing.
\<close>

theorem tea_brew_follows_script:
  assumes "async_brew_tea r w = (res, w')"
  shows "(\<exists>ss. w_sent w' = w_sent w @ ss \<and> spaced 2 (w_now w) ss \<and> (is_ok res \<longrightarrow> length ss = 5) \<and> script (tea_arm_script r @ [with_raw 4512 1 (build_tea_payload r)]) ss) \<and>
    (async_arm_recipe r bv bt u = (Inr (Some p), u') \<longrightarrow> is_tea_recipe r \<and> build_tea_payload r = Inr p) \<and>
    (async_confirm_recipe True None u = (Inl ValueError, u))"
proof -
  have "length (tea_arm_script r @ [with_raw 4512 1 (build_tea_payload r)]) = 5"
    by (simp add: tea_arm_script_def)
  with chainD [OF tea_brew_chain assms]
  have c1: "\<exists>ss. w_sent w' = w_sent w @ ss \<and> spaced 2 (w_now w) ss \<and> (is_ok res \<longrightarrow> length ss = 5) \<and>
      script (tea_arm_script r @ [with_raw 4512 1 (build_tea_payload r)]) ss" by metis
  have c2: "async_arm_recipe r bv bt u = (Inr (Some p), u') \<Longrightarrow> is_tea_recipe r \<and> build_tea_payload r = Inr p"
    by (auto simp: async_arm_recipe_def then_co_def bind_co_Inr dest: tea_arm_returns split: if_splits)
  have c3: "async_confirm_recipe True None u = (Inl ValueError, u)"
    by (simp add: async_confirm_recipe_def)
  show ?thesis using c1 c2 c3 by blast
qed

theorem tea_brew_follows_script_witness:
  "\<exists>res w' ss. async_brew_tea (demo_recipe\<lparr>cup_type := 4\<rparr>) (demo_world []) = (res, w') \<and> w_sent w' = ss \<and>
     spaced 2 0 ss"
proof -
  obtain res w' where run: "async_brew_tea (demo_recipe\<lparr>cup_type := 4\<rparr>) (demo_world []) = (res, w')"
    by fastforce
  from tea_brew_follows_script [OF run] run show ?thesis by auto
qed

text \<open>
  The Easy Mode batch is all or nothing in what it asks for: without all three slots it
  raises and sends nothing; with them it sends, in this order and at least 0.8 s apart, the
  frames of slots A, B and C (each its index, its flags and its recipe blob) and the slot
  order 3, 0, 1, 2, all as type-2 packets, and a batch that returns sent all four.
\<close>

theorem easy_slots_batch:
  assumes "w_link w"
  shows "(rs letter = None \<longrightarrow> letter \<in> {''A'', ''B'', ''C''} \<longrightarrow> async_write_easy_slots rs on w = (Inl ValueError, w)) \<and>
    ({''A'', ''B'', ''C''} \<subseteq> dom rs \<longrightarrow> async_write_easy_slots rs on w = (res, w') \<longrightarrow> (\<exists>ss. w_sent w' = w_sent w @ ss \<and> script (slots_script rs on) ss \<and> spaced (4 / 5) (w_now w) ss \<and> (is_ok res \<longrightarrow> length ss = 4)))"
proof -
  have c1: "rs letter = None \<Longrightarrow> letter \<in> {''A'', ''B'', ''C''} \<Longrightarrow>
      async_write_easy_slots rs on w = (Inl ValueError, w)"
    using assms by (auto simp: async_write_easy_slots_def SLOT_INDEX_BY_LETTER_def)
  have c2: "\<exists>ss. w_sent w' = w_sent w @ ss \<and> script (slots_script rs on) ss \<and>
      spaced (4 / 5) (w_now w) ss \<and> (is_ok res \<longrightarrow> length ss = 4)"
    if dom: "{''A'', ''B'', ''C''} \<subseteq> dom rs" and run: "async_write_easy_slots rs on w = (res, w')"
  proof -
    obtain a b c where "rs ''A'' = Some a" "rs ''B'' = Some b" "rs ''C'' = Some c"
      using dom by (auto simp: dom_def)
  note ch = easy_slots_chain [OF this, of on]
  have "length (slots_script rs on) = 4" by (simp add: slots_script_def)
  with chainD [OF ch run] show ?thesis by metis
  qed
  show ?thesis using c1 c2 by blast
qed

theorem easy_slots_batch_witness:
  "async_write_easy_slots [''A'' \<mapsto> demo_recipe] True (demo_world []) = (Inl ValueError, demo_world []) \<and>
   (\<exists>res w' ss. async_write_easy_slots (\<lambda>_. Some demo_recipe) True (demo_world []) = (res, w') \<and>
      w_sent w' = ss \<and> script (slots_script (\<lambda>_. Some demo_recipe) True) ss)"
proof -
  obtain res w' where run: "async_write_easy_slots (\<lambda>_. Some demo_recipe) True (demo_world []) = (res, w')"
    by fastforce
  have "async_write_easy_slots [''A'' \<mapsto> demo_recipe] True (demo_world []) = (Inl ValueError, demo_world [])"
    using easy_slots_batch [of "demo_world []" "[''A'' \<mapsto> demo_recipe]" "''B''"] by simp
  with easy_slots_batch [of "demo_world []" "\<lambda>_. Some demo_recipe" _ True res w'] run show ?thesis
    by (auto simp: dom_def)
qed

section \<open>Facts about the payloads\<close>

text \<open>Doubles near the values of a brew: correctly rounded, so off by a relative \<open>2 ^ -53\<close>.\<close>

lemma to_double_close:
  assumes "x = 0 \<or> 1 / 1000 \<le> x" "x \<le> 10 ^ 6"
  obtains y where "to_double x = Fin y" "\<bar>y - x\<bar> \<le> x / 2 ^ 53"
proof (cases "x = 0")
  case True
  then have "to_double x = Fin 0" by (simp add: to_double_def round64_def round_to_def overflow64_def)
  then show thesis using that True by simp
next
  case False
  then have x: "1 / 1000 \<le> x" using assms by simp
  have "(2 :: rat) powi (- 1074 + int 53 - 1) \<le> 2 powi (- 10)" by (rule powi_2_mono) simp
  also have "\<dots> = 1 / 1024" by (simp add: power_int_minus)
  also have "\<dots> \<le> \<bar>x\<bar>" using x by linarith
  finally have "\<bar>round64 x - x\<bar> \<le> \<bar>x\<bar> * 2 powi (- int 53)"
    unfolding round64_def by (rule round_to_rel_error)
  moreover have "(2 :: rat) powi (- int 53) = 1 / 2 ^ 53" 
    by (simp only: power_int_minus power_int_of_nat divide_inverse mult_1_left)
  moreover have "\<bar>x\<bar> = x" using x by linarith
  ultimately have err: "\<bar>round64 x - x\<bar> \<le> x / 2 ^ 53" by (simp only: times_divide_eq_right mult_1_right)
  have "x / 2 ^ 53 \<le> x" using x by simp
  then have "0 \<le> round64 x" "round64 x \<le> 2 * x" using err by linarith+
  moreover have "(2 * 10 ^ 6 :: rat) < 2 powi 1024"
  proof -
    have "(2 * 10 ^ 6 :: rat) < 2 powi 30" by (simp add: power_int_def)
    also have "\<dots> \<le> 2 powi 1024" by (rule powi_2_mono) simp
    finally show ?thesis .
  qed
  ultimately have "round64 x < 2 powi 1024" "- (2 powi 1024) < round64 x"
    using assms(2) powi_pos [of 1024] by linarith+
  then have "to_double x = Fin (round64 x)" by (simp add: to_double_def overflow64_def)
  then show thesis using that err by blast
qed

lemma ratio_byte_value:
  assumes "bean_weight r = Fin (of_int d)" "0 < d" "d \<le> 100"
    and T: "T = sum_list (map volume (pours r))" "0 \<le> T" "T \<le> 8096"
  obtains n where "ratio_byte r = Inr (min n 255)" "10 * T \<le> d * n" "d * n \<le> 10 * T + d"
proof -
  let ?x = "of_int T / of_int d :: rat"
  have d: "(1 :: rat) \<le> of_int d" "of_int d \<le> (100 :: rat)" using assms(2,3) by auto
  have "?x \<le> of_int T" using d T(2) by (simp add: divide_le_eq mult_le_cancel_left1)
  also have "\<dots> \<le> 8096" using T(3) by simp
  finally have x8: "?x \<le> 8096" .
  have x0: "?x = 0 \<or> 1 / 100 \<le> ?x"
  proof (cases "T = 0")
    case False
    then have "(1 :: rat) \<le> of_int T" using T(2) by auto
    then have "1 / 100 \<le> ?x" using d by (intro frac_le) simp_all
    then show ?thesis ..
  qed simp
  obtain y where y: "to_double ?x = Fin y" "\<bar>y - ?x\<bar> \<le> ?x / 2 ^ 53"
  proof (rule to_double_close [of ?x])
    show "?x = 0 \<or> 1 / 1000 \<le> ?x" using x0 by linarith
    show "?x \<le> 10 ^ 6" by (rule order_trans [OF x8]) simp
  qed
  have y0: "y = 0 \<or> 1 / 200 \<le> y" "y \<le> 8097"
  proof -
    have "?x / 2 ^ 53 \<le> ?x / 2" using x0 by auto
    then show "y = 0 \<or> 1 / 200 \<le> y" using x0 y(2) by auto
    have "?x / 2 ^ 53 \<le> 1" using x8 by simp
    then show "y \<le> 8097" using x8 y(2) by linarith
  qed
  obtain z where z: "to_double (y * 10) = Fin z" "\<bar>z - y * 10\<bar> \<le> y * 10 / 2 ^ 53"
  proof (rule to_double_close [of "y * 10"])
    show "y * 10 = 0 \<or> 1 / 1000 \<le> y * 10" "y * 10 \<le> 10 ^ 6" using y0 by auto
  qed
  have e1: "?x / 2 ^ 53 \<le> 1 / 100000" "y * 10 / 2 ^ 53 \<le> 1 / 100000"
    using x8 y0(2) by simp_all
  have gen: "\<bar>z - X * 10\<bar> \<le> 1 / 1000"
    if "\<bar>y - X\<bar> \<le> e" "e \<le> 1 / 100000" "\<bar>z - y * 10\<bar> \<le> f" "f \<le> 1 / 100000" for X e f
    using that by linarith
  have zx: "\<bar>z - ?x * 10\<bar> \<le> 1 / 1000" by (rule gen [OF y(2) e1(1) z(2) e1(2)])
  let ?n = "\<lceil>z\<rceil>"
  have "float_of_int T = Inr (Fin (of_int T))"
    using to_double_int [of T] T(2,3) by (simp add: float_of_int_def)
  then have "coffee_ratio r = Inr (Fin y)"
    using assms(1,2) y(1) by (simp add: coffee_ratio_def T(1) [symmetric])
  then have "ratio_byte r = Inr (min ?n 255)" by (simp add: ratio_byte_def z(1))
  moreover have "of_int (10 * T) < (of_int (d * ?n + 1) :: rat)" "(of_int (d * ?n) :: rat) < of_int (10 * T + d + 1)"
  proof -
    have dx: "of_int d * (?x * 10) = of_int (10 * T)" using assms(2) by simp
    have absd: "\<bar>of_int d :: rat\<bar> = of_int d" using assms(2) by simp
    have "\<bar>of_int d * z - of_int d * (?x * 10)\<bar> = of_int d * \<bar>z - ?x * 10\<bar>"
      by (simp only: right_diff_distrib [symmetric] abs_mult absd)
    also have "\<dots> \<le> 100 * (1 / 1000)" by (rule mult_mono) (use d zx in auto)
    finally have dz: "\<bar>of_int d * z - of_int (10 * T)\<bar> \<le> 1 / 10" unfolding dx by simp
    have "of_int d * z \<le> of_int d * of_int ?n" by (rule mult_left_mono) (use d in auto)
    then show "of_int (10 * T) < (of_int (d * ?n + 1) :: rat)"
      using dz unfolding of_int_add of_int_mult [of d] of_int_1 by linarith
    have "of_int ?n \<le> z + 1" using ceiling_correct [of z] by linarith
    then have "of_int d * of_int ?n \<le> of_int d * (z + 1)" by (rule mult_left_mono) (use d in auto)
    then have "of_int d * of_int ?n \<le> of_int d * z + of_int d" by (simp add: distrib_left)
    then show "(of_int (d * ?n) :: rat) < of_int (10 * T + d + 1)"
      using dz unfolding of_int_add of_int_mult [of d] of_int_1 by linarith
  qed
  ultimately show thesis using that [of ?n] unfolding of_int_less_iff by linarith
qed

text \<open>A payload that packs bounds its water.\<close>

lemma substep_total: "map_res (substep p) (substep_volumes v) = Inr subs \<Longrightarrow>
   0 \<le> v \<and> v \<le> 127 * int (length (substep_volumes v))"
proof -
  assume ok: "map_res (substep p) (substep_volumes v) = Inr subs"
  have "v \<le> 127 * int (length (substep_volumes v))"
  proof -
    have "v mod 127 < 127" by simp
    then have "\<forall>u \<in> set (substep_volumes v). u \<le> 127"
      by (auto simp: substep_volumes_def intro: less_imp_le)
    moreover have "\<forall>u \<in> set us. u \<le> 127 \<Longrightarrow> sum_list us \<le> 127 * int (length us)" for us :: "int list"
      by (induction us) auto
    ultimately show ?thesis by (metis sum_list_substep_volumes)
  qed
  moreover have "0 \<le> v"
    using ok by (cases "127 < v") (auto simp: substep_volumes_def substep_def pack_BBBB_def pack_B_def
        pack_le_def bind_res_Inr_iff split: if_splits)
  ultimately show ?thesis by simp
qed

lemma blocks_total:
  "map_res (pour_blocks r) (List.enumerate k ps) = Inr parts \<Longrightarrow>
     0 \<le> sum_list (map volume ps) \<and> 4 * sum_list (map volume ps) \<le> 127 * int (body_length ps)"
proof (induction ps arbitrary: k parts)
  case (Cons p ps)
  obtain subs where "map_res (substep p) (substep_volumes (volume p)) = Inr subs"
    using Cons.prems by (auto simp: bind_res_Inr_iff pour_blocks_def)
  from substep_total [OF this]
  have "0 \<le> volume p" "volume p \<le> 127 * int (length (substep_volumes (volume p)))" by simp_all
  moreover obtain parts' where "map_res (pour_blocks r) (List.enumerate (Suc k) ps) = Inr parts'"
    using Cons.prems by (auto simp: bind_res_Inr_iff)
  ultimately show ?case using Cons.IH by (fastforce simp: body_length_def)
qed (simp add: body_length_def)

lemma coffee_payload_layout:
  assumes "build_coffee_recipe_payload r = Inr bs"
  obtains body n where "recipe_body r = Inr body" "length body \<le> 255" "ratio_byte r = Inr n"
    "0 \<le> n" "n < 256" "bs = [word_of_int (int (length body))] @ body
       @ [word_of_int (grind_size r mod 256), word_of_int n]"
proof -
  obtain v n footer len where v: "build_recipe_payload r = Inr v" and n: "ratio_byte r = Inr n"
    and f: "pack_BB (grind_size r mod 256) n = Inr footer"
    and bs: "pack_B (int (length (slice 1 (length v - 2) v))) = Inr len"
      "bs = len @ slice 1 (length v - 2) v @ footer"
    using assms by (auto simp: build_coffee_recipe_payload_def Let_def bind_res_Inr_iff)
  obtain body where body: "recipe_body r = Inr body" "length body \<le> 255"
    "v = [word_of_int (int (length body))] @ body
       @ [word_of_int (grind_size r mod 256), word_of_int ((total_water r * 10) mod 256)]"
    using build_recipe_payload_layout [OF v] by blast
  then have sl: "slice 1 (length v - 2) v = body" by (simp add: slice_def)
  have "0 \<le> n" "n < 256" "footer = [word_of_int (grind_size r mod 256), word_of_int n]"
    using f by (auto simp: pack_BB_def pack_B_def pack_le_def bind_res_Inr_iff split: if_splits)
  moreover have "len = [word_of_int (int (length body))]"
    using bs(1) [unfolded sl] body(2) by (simp add: pack_B_ok)
  ultimately show thesis using that [OF body(1,2) n] bs(2) sl by simp
qed

lemma coffee_payload_volume:
  assumes "recipe_body r = Inr body" "length body \<le> 255"
  shows "0 \<le> sum_list (map volume (pours r))" "sum_list (map volume (pours r)) \<le> 8096"
proof -
  obtain parts where "map_res (pour_blocks r) (List.enumerate 0 (pours r)) = Inr parts"
    using assms(1) by (auto simp: recipe_body_def bind_res_Inr_iff)
  from blocks_total [OF this] recipe_body_length [OF assms(1)] assms(2)
  show "0 \<le> sum_list (map volume (pours r))" "sum_list (map volume (pours r)) \<le> 8096" by linarith+
qed

section \<open>Properties of the payloads\<close>

text \<open>
  C3. The coffee footer never undershoots: for a whole-gram dose the total the firmware
  reconstructs (dose times the ratio byte, in tenths of a millilitre) is at least the sum of
  the pours unless the byte is clamped at 255, and it exceeds that sum by at most a tenth of
  the dose.  The floating-point division, product and ceiling are the source's.
\<close>

theorem ratio_byte_never_undershoots:
  assumes "build_coffee_recipe_payload r = Inr bs" and "bean_weight r = Fin (of_int d)"
    and "0 < d" and "d \<le> 100"
  shows "(10 * sum_list (map volume (pours r)) \<le> d * uint (List.last bs) \<or> uint (List.last bs) = 255) \<and>
    (d * uint (List.last bs) \<le> 10 * sum_list (map volume (pours r)) + d)"
proof -
  let ?T = "sum_list (map volume (pours r))"
  obtain body m where bs: "recipe_body r = Inr body" "length body \<le> 255" "ratio_byte r = Inr m"
    "0 \<le> m" "m < 256" "List.last bs = word_of_int m"
    using coffee_payload_layout [OF assms(1)] by (metis append_assoc last_ConsR last_appendR list.distinct(1) last.simps)
  have lastv: "uint (List.last bs) = m" using bs(4-6) by (simp add: uint_word_of_int)
  obtain n where n: "ratio_byte r = Inr (min n 255)" "10 * ?T \<le> d * n" "d * n \<le> 10 * ?T + d"
    by (rule ratio_byte_value [OF assms(2-4) refl])
      (use coffee_payload_volume [OF bs(1,2)] in auto)
  then have m: "m = min n 255" using bs(3) by simp
  have c1: "10 * ?T \<le> d * uint (List.last bs) \<or> uint (List.last bs) = 255"
    using n(2) by (auto simp: lastv m min_def)
  have "d * min n 255 \<le> d * n" using assms(3) by (simp add: mult_left_mono)
  then have c2: "d * uint (List.last bs) \<le> 10 * ?T + d" using n(3) by (simp add: lastv m)
  show ?thesis using c1 c2 by blast
qed

lemma demo_coffee_payload: "\<exists>bs. build_coffee_recipe_payload demo_recipe = Inr bs"
proof -
  obtain body where body: "recipe_body demo_recipe = Inr body"
    using recipe_body_ok [of demo_recipe] demo_pour_wire by (auto simp: demo_recipe_def elim: is_okE)
  then have len: "length body = 24" using recipe_body_length demo_body_length by metis
  then obtain v where v: "build_recipe_payload demo_recipe = Inr v" "length v = 27"
    using body by (auto simp: build_recipe_payload_def pack_BB_ok pack_B_ok)
  obtain n where n: "ratio_byte demo_recipe = Inr (min n 255)" "10 * 400 \<le> 18 * n"
  proof (rule ratio_byte_value [of demo_recipe 18 400])
    show "bean_weight demo_recipe = Fin (of_int 18)" "400 = sum_list (map volume (pours demo_recipe))"
      by (simp_all add: demo_recipe_def demo_pour_def)
    show "0 < (18 :: int)" "(18 :: int) \<le> 100" "0 \<le> (400 :: int)" "(400 :: int) \<le> 8096" by simp_all
  qed (rule that)
  have "length (slice 1 (length v - 2) v) = 24" using v(2) by (simp add: slice_def)
  then show ?thesis
    using v(1) n by (simp add: build_coffee_recipe_payload_def Let_def pack_BB_ok pack_B_ok)
qed

theorem ratio_byte_never_undershoots_witness:
  "\<exists>bs. build_coffee_recipe_payload demo_recipe = Inr bs \<and>
     (10 * 400 \<le> 18 * uint (List.last bs) \<or> uint (List.last bs) = 255) \<and> 18 * uint (List.last bs) \<le> 10 * 400 + 18"
proof -
  obtain bs where bs: "build_coffee_recipe_payload demo_recipe = Inr bs" using demo_coffee_payload by blast
  have "bean_weight demo_recipe = Fin (of_int 18)" "sum_list (map volume (pours demo_recipe)) = 400"
    by (simp_all add: demo_recipe_def demo_pour_def)
  with ratio_byte_never_undershoots [OF bs, of 18] bs show ?thesis by auto
qed

definition half_gram_recipe :: xbloom_recipe where
  "half_gram_recipe = \<lparr>grind_size = 50, total_water = 240, rpm = 80, cup_type = 2, name = ''V60'',
     bean_weight = Fin (31 / 2), recipe_id = 0, pours = [demo_pour\<lparr>volume := 120\<rparr>, demo_pour\<lparr>volume := 120\<rparr>]\<rparr>"

text \<open>
  A fractional dose does undershoot: command 8102 carries the dose truncated to whole
  grams while the ratio byte is computed from the untruncated one, so for 15.5 g and 240 ml the
  total the firmware reconstructs is 232.5 ml, below the sum of the pours.
\<close>

theorem fractional_dose_undershoots:
  "coffee_dose half_gram_recipe = Inr 15 \<and> ratio_byte half_gram_recipe = Inr 155 \<and>
   15 * 155 < 10 * sum_list (map volume (pours half_gram_recipe))"
proof -
  obtain y where y: "to_double (480 / 31) = Fin y" "\<bar>y - 480 / 31\<bar> \<le> 480 / 31 / 2 ^ 53"
    by (rule to_double_close [of "480 / 31"]) auto
  have "(480 / 31 / 2 ^ 53 :: rat) \<le> 1 / 1000" by simp
  then have y1: "\<bar>y - 480 / 31\<bar> \<le> 1 / 1000" using y(2) by linarith
  then have yb: "15 \<le> y" "y \<le> 16" by linarith+
  obtain z where z: "to_double (y * 10) = Fin z" "\<bar>z - y * 10\<bar> \<le> y * 10 / 2 ^ 53"
    by (rule to_double_close [of "y * 10"]) (use yb in auto)
  have "y * 10 / 2 ^ 53 \<le> 1 / 1000" using yb by simp
  then have "154 < z" "z \<le> 155" using z(2) y1 by linarith+
  then have "\<lceil>z\<rceil> = 155" by (simp add: ceiling_eq_iff)
  moreover have "float_of_int 240 = Inr (Fin 240)"
    using to_double_int [of 240] by (simp add: float_of_int_def)
  ultimately have "ratio_byte half_gram_recipe = Inr 155"
    using y(1) z(1) by (simp add: ratio_byte_def coffee_ratio_def half_gram_recipe_def)
  moreover have "coffee_dose half_gram_recipe = Inr 15"
    by (simp add: coffee_dose_def half_gram_recipe_def trunc_rat_def floor_eq_iff)
  ultimately show ?thesis by (simp add: half_gram_recipe_def)
qed

text \<open>The tea payload block by block.\<close>

definition tea_block :: "xbloom_recipe \<Rightarrow> nat \<Rightarrow> pour_step \<Rightarrow> int \<Rightarrow> int \<Rightarrow> bytes" where
  "tea_block r i p soak fb =
     (if 0 < volume p
      then [word_of_int (min (volume p) 90), word_of_int (temperature p), 1, word_of_int (vibration_int (vibration p))]
      else []) @ [0, word_of_int soak, (if i = 0 then word_of_int (rpm r mod 256) else 0), word_of_int fb]"

lemma tea_volumes_capped: "tea_volumes (min v 90) = (if 0 < v then [min v 90] else [])"
  by (subst tea_volumes.simps) simp

lemma soak_byte_range: "soak_byte p = Inr n \<Longrightarrow> 1 \<le> n \<and> n \<le> 255"
  by (auto simp: soak_byte_def bind_res_Inr_iff)

lemma pack_BBBB_Inr:
  "pack_BBBB a b c d = Inr bs \<longleftrightarrow> bs = [word_of_int a, word_of_int b, word_of_int c, word_of_int d] \<and>
     {a, b, c, d} \<subseteq> {0..<256}"
  by (auto simp: pack_BBBB_def pack_B_def pack_le_def bind_res_Inr_iff split: if_splits)

lemma tea_blocks_layout:
  assumes "tea_blocks r (i, p) = Inr bs"
  shows "\<exists>soak fb. 1 \<le> soak \<and> soak \<le> 255 \<and> soak_byte p = Inr soak \<and> flow_byte p = Inr fb \<and> bs = tea_block r i p soak fb"
proof -
  obtain subs soak fb t where subs: "map_res (tea_substep p) (tea_volumes (min (volume p) 90)) = Inr subs"
    and soak: "soak_byte p = Inr soak" and fb: "flow_byte p = Inr fb"
    and t: "pack_BBBB 0 soak (if i = 0 then rpm r mod 256 else 0) fb = Inr t" and bs: "bs = concat subs @ t"
    using assms by (auto simp: tea_blocks_def bind_res_Inr_iff TEA_SIPHON_CAP_def)
  have "concat subs = (if 0 < volume p
      then [word_of_int (min (volume p) 90), word_of_int (temperature p), 1, word_of_int (vibration_int (vibration p))]
      else [])"
    using subs by (auto simp: tea_volumes_capped bind_res_Inr_iff tea_substep_def TEA_PATTERN_BYTE_def
        pack_BBBB_Inr split: if_splits)
  then have "bs = tea_block r i p soak fb" using t bs by (simp add: tea_block_def pack_BBBB_Inr)
  then show ?thesis using soak fb soak_byte_range by blast
qed

text \<open>
  A tea payload never floods the brewer nor loses a steep boundary: each pour is one block,
  at most one sub-step of at most 90 ml (the authored volume when that is smaller) with the
  circular pattern, and a timing block whose soak byte is never zero.
\<close>

theorem tea_payload_blocks:
  assumes "build_tea_payload r = Inr bs"
  shows "\<exists>blocks footer. bs = word_of_int (int (length (concat blocks))) # concat blocks @ footer \<and>
    length (concat blocks) \<le> 255 \<and> length footer = 2 \<and> length blocks = length (pours r) \<and>
    (\<forall>i < length blocks. \<exists>soak fb. 1 \<le> soak \<and> soak \<le> 255 \<and> soak_byte (pours r ! i) = Inr soak \<and>
       blocks ! i = tea_block r i (pours r ! i) soak fb)"
proof -
  obtain parts ratio footer len where parts: "map_res (tea_blocks r) (List.enumerate 0 (pours r)) = Inr parts"
    and f: "pack_BB (grind_size r mod 256) ratio = Inr footer"
    and len: "pack_B (int (length (concat parts))) = Inr len" and bs: "bs = len @ concat parts @ footer"
    using assms by (auto simp: build_tea_payload_def bind_res_Inr_iff)
  have blk: "length parts = length ps \<and> (\<forall>i < length parts. tea_blocks r (k + i, ps ! i) = Inr (parts ! i))"
    if "map_res (tea_blocks r) (List.enumerate k ps) = Inr parts" for k ps parts
    using that
  proof (induction ps arbitrary: k parts)
    case (Cons p ps)
    then obtain b bs' where b: "tea_blocks r (k, p) = Inr b" "parts = b # bs'"
      "map_res (tea_blocks r) (List.enumerate (Suc k) ps) = Inr bs'" by (auto simp: bind_res_Inr_iff)
    from Cons.IH [OF b(3)] show ?case
      by (auto simp: b nth_Cons' less_Suc_eq_0_disj)
  qed simp
  note blk0 = blk [OF parts]
  have "\<exists>soak fb. 1 \<le> soak \<and> soak \<le> 255 \<and> soak_byte (pours r ! i) = Inr soak \<and>
      parts ! i = tea_block r i (pours r ! i) soak fb" if "i < length parts" for i
    using tea_blocks_layout [of r i "pours r ! i" "parts ! i"] blk0 that by auto
  moreover have "len = [word_of_int (int (length (concat parts)))]" "length (concat parts) \<le> 255"
    using len by (auto simp: pack_B_def pack_le_def split: if_splits)
  moreover have "length footer = 2"
    using f by (auto simp: pack_BB_def pack_B_def pack_le_def bind_res_Inr_iff split: if_splits)
  ultimately show ?thesis
    using bs blk0 by (intro exI [of _ parts] exI [of _ footer]) simp
qed

definition demo_tea :: xbloom_recipe where
  "demo_tea = \<lparr>grind_size = 0, total_water = 200, rpm = 80, cup_type = 4, name = ''Oolong'',
     bean_weight = Fin 0, recipe_id = 0, pours = [demo_pour\<lparr>pausing := 0\<rparr>]\<rparr>"

lemma demo_tea_payload: "\<exists>bs. build_tea_payload demo_tea = Inr bs"
proof -
  have z: "to_double 0 = Fin 0" using to_double_int [of 0] by simp
  have "soak_byte (demo_pour\<lparr>pausing := 0\<rparr>) = Inr 1"
    by (simp add: soak_byte_def float_of_int_def z round_half_even_def)
  moreover have "flow_byte (demo_pour\<lparr>pausing := 0\<rparr>) = Inr 30"
    using demo_flow by (simp add: flow_byte_def demo_pour_def trunc_rat_def)
  ultimately show ?thesis
    by (simp add: build_tea_payload_def demo_tea_def tea_blocks_def tea_substep_def TEA_SIPHON_CAP_def
        TEA_PATTERN_BYTE_def tea_volumes_capped demo_pour_def pack_BBBB_ok pack_BB_ok pack_B_ok
        tea_ratio_byte_def trunc_rat_def)
qed

theorem tea_payload_blocks_witness:
  "\<exists>bs blocks footer. build_tea_payload demo_tea = Inr bs \<and>
     bs = word_of_int (int (length (concat blocks))) # concat blocks @ footer \<and> length blocks = 1"
proof -
  obtain bs where bs: "build_tea_payload demo_tea = Inr bs" using demo_tea_payload by blast
  have "length (pours demo_tea) = 1" by (simp add: demo_tea_def)
  with tea_payload_blocks [OF bs] bs show ?thesis by auto
qed

end
