(* ===== verification/Schema.thy ===== *)
theory Schema
  imports Models
begin

text \<open>
  Recipe dictionaries (\<^verbatim>\<open>schema.py\<close> and the recipe builder of \<^verbatim>\<open>coordinator/recipes.py\<close>): the
  coercions of the schema, protected fields, name deduplication, rescaling of pours, the total
  water, the translation of a validated dictionary into the machine's recipe, and per-pour
  overrides.  A validated dictionary has every key of the schema, so it is a record; text is
  ASCII.
\<close>

section \<open>Strings\<close>

definition py_space :: "char \<Rightarrow> bool" where
  "py_space c \<longleftrightarrow> (of_char c :: nat) \<in> {9..13} \<union> {28..32}"

definition py_strip :: "string \<Rightarrow> string" where
  "py_strip s = rev (dropWhile py_space (rev (dropWhile py_space s)))"

definition lower_char :: "char \<Rightarrow> char" where
  "lower_char c = (let n = (of_char c :: nat) in if 65 \<le> n \<and> n \<le> 90 then char_of (n + 32) else c)"

definition py_lower :: "string \<Rightarrow> string" where "py_lower s = map lower_char s"

text \<open>\<^verbatim>\<open>str(n)\<close> of a natural number.\<close>

fun dec_digits :: "nat \<Rightarrow> string" where
  "dec_digits n = (if n < 10 then [char_of (48 + n)] else dec_digits (n div 10) @ [char_of (48 + n mod 10)])"

declare dec_digits.simps [simp del]

section \<open>Coercions\<close>

datatype pyval = PBool bool | PInt int | PStr string | POther

definition PATTERN_NAME_TO_INT :: "(string \<times> int) list" where
  "PATTERN_NAME_TO_INT = [(''center'', 0), (''circular'', 1), (''spiral'', 2)]"

fun coerce_pour_pattern :: "pyval \<Rightarrow> int res" where
  "coerce_pour_pattern (PBool b) = Inl VolInvalid"
| "coerce_pour_pattern (PInt n) = (if n \<in> {0, 1, 2} then Inr n else Inl VolInvalid)"
| "coerce_pour_pattern (PStr s) =
     (case map_of PATTERN_NAME_TO_INT (py_lower (py_strip s)) of Some n \<Rightarrow> Inr n | None \<Rightarrow> Inl VolInvalid)"
| "coerce_pour_pattern POther = Inl VolInvalid"

definition TEMPERATURE_NAME_TO_C :: "(string \<times> int) list" where
  "TEMPERATURE_NAME_TO_C = [(''rt'', 20), (''bp'', 98)]"

fun coerce_temperature_c :: "pyval \<Rightarrow> int res" where
  "coerce_temperature_c (PBool b) = Inl VolInvalid"
| "coerce_temperature_c (PInt n) = (if 0 < n then Inr n else Inl VolInvalid)"
| "coerce_temperature_c (PStr s) =
     (case map_of TEMPERATURE_NAME_TO_C (py_lower (py_strip s)) of Some n \<Rightarrow> Inr n | None \<Rightarrow> Inl VolInvalid)"
| "coerce_temperature_c POther = Inl VolInvalid"

section \<open>Recipe dictionaries\<close>

record pour_dict =
  volume_ml :: int
  temperature_c :: int
  pour_flow_rate :: pyfloat
  pause_seconds :: int
  pattern_code :: int
  vibration_name :: string

record recipe_dict =
  rd_uid :: "string option"
  rd_cloud_table_id :: "int option"
  rd_share_url :: "string option"
  rd_source :: "string option"
  rd_name :: string
  rd_grind_size :: int
  rd_rpm :: int
  dose_g :: pyfloat
  ratio :: "pyfloat option"
  rd_cup_type :: string
  rd_bypass_volume :: pyfloat
  rd_bypass_temperature :: pyfloat
  rd_pours :: "pour_dict list"

definition RECIPE_PROTECTED_FIELDS :: "string list" where
  "RECIPE_PROTECTED_FIELDS = [''uid'', ''cloud_table_id'', ''share_url'', ''source'']"

definition strip_protected_recipe_fields :: "(string \<times> 'v) list \<Rightarrow> (string \<times> 'v) list" where
  "strip_protected_recipe_fields recipe = filter (\<lambda>(k, v). k \<notin> set RECIPE_PROTECTED_FIELDS) recipe"

section \<open>Names\<close>

definition numbered :: "string \<Rightarrow> nat \<Rightarrow> string" where
  "numbered nm n = nm @ '' ('' @ dec_digits n @ '')''"

lemma dec_digits_inj: "dec_digits m = dec_digits n \<Longrightarrow> m = n"
proof (induction m arbitrary: n rule: dec_digits.induct)
  case (1 m)
  have d: "(char_of (48 + a) :: char) = char_of (48 + b) \<Longrightarrow> a < 10 \<Longrightarrow> b < 10 \<Longrightarrow> a = b" for a b :: nat
    by (simp add: char_of_eq_iff take_bit_nat_eq_self)
  have len: "dec_digits k \<noteq> []" for k by (subst dec_digits.simps) simp
  show ?case
  proof (cases "m < 10 \<or> n < 10")
    case True
    then show ?thesis
      using "1.prems" d len [of "m div 10"] len [of "n div 10"]
      by (subst (asm) (1 2) dec_digits.simps) (auto split: if_splits)
  next
    case False
    then have "dec_digits (m div 10) = dec_digits (n div 10)" "char_of (48 + m mod 10) = (char_of (48 + n mod 10) :: char)"
      using "1.prems" by (subst (asm) (1 2) dec_digits.simps; simp)+
    then have "m div 10 = n div 10" "m mod 10 = n mod 10"
      using "1.IH" False d [of "m mod 10" "n mod 10"] by auto
    then show ?thesis by (metis div_mult_mod_eq)
  qed
qed

lemma numbered_inj: "numbered nm m = numbered nm n \<longleftrightarrow> m = n"
  by (auto simp: numbered_def dest: dec_digits_inj)

text \<open>The candidates from \<open>n\<close> on that are taken: the loop passes over each once.\<close>

definition taken_from :: "string \<Rightarrow> string list \<Rightarrow> nat \<Rightarrow> nat set" where
  "taken_from nm existing n = {m. n \<le> m \<and> numbered nm m \<in> set existing}"

lemma finite_taken: "finite (taken_from nm existing n)"
proof -
  have "inj (numbered nm)" by (simp add: inj_def numbered_inj)
  then have "finite (numbered nm -` set existing)" by (rule finite_vimageI [rotated]) simp
  then show ?thesis by (rule rev_finite_subset) (auto simp: taken_from_def)
qed

function dedupe_from :: "string \<Rightarrow> string list \<Rightarrow> nat \<Rightarrow> string" where
  "dedupe_from nm existing n =
     (if numbered nm n \<in> set existing then dedupe_from nm existing (n + 1) else numbered nm n)"
  by pat_completeness auto
termination
proof (relation "measure (\<lambda>(nm, existing, n). card (taken_from nm existing n))", goal_cases)
  case (2 nm existing n)
  have "n \<in> taken_from nm existing n" "n \<notin> taken_from nm existing (n + 1)"
    "taken_from nm existing (n + 1) \<subseteq> taken_from nm existing n"
    using 2 by (auto simp: taken_from_def)
  then have "taken_from nm existing (n + 1) \<subset> taken_from nm existing n" by blast
  then show ?case using finite_taken by (simp add: psubset_card_mono)
qed simp

declare dedupe_from.simps [simp del]

definition dedupe_name :: "string \<Rightarrow> string list \<Rightarrow> string" where
  "dedupe_name nm existing = (if nm \<notin> set existing then nm else dedupe_from nm existing 2)"

section \<open>Water\<close>

text \<open>
  \<^verbatim>\<open>sum(float(p["volume_ml"]) for p in pours)\<close>, left to right; while the partial sums are whole
  numbers below \<open>2 ^ 53\<close> every summation order and compensation gives this value.
\<close>

definition float_volumes :: "pour_dict list \<Rightarrow> pyfloat res" where
  "float_volumes ps =
     bind_res (map_res (\<lambda>p. float_of_int (volume_ml p)) ps) (\<lambda>vs. Inr (foldl fadd (Fin 0) vs))"

definition scaled_volume :: "pyfloat \<Rightarrow> pour_dict \<Rightarrow> pour_dict res" where
  "scaled_volume factor p =
     bind_res (float_of_int (volume_ml p)) (\<lambda>v.
     bind_res (round_float (fmul v factor)) (\<lambda>n. Inr (p\<lparr>volume_ml := max 1 n\<rparr>)))"

definition scale_pours_to_total :: "pour_dict list \<Rightarrow> pyfloat \<Rightarrow> pour_dict list res" where
  "scale_pours_to_total ps target_total_ml =
     (if ps = [] then Inr []
      else bind_res (float_volumes ps) (\<lambda>current_total.
        if fle current_total (Fin 0) \<or> fle target_total_ml (Fin 0) then Inr ps
        else bind_res (fdiv target_total_ml current_total) (\<lambda>factor.
          bind_res (map_res (scaled_volume factor) (butlast ps)) (\<lambda>scaled.
          let running = sum_list (map volume_ml scaled) in
          bind_res (round_float target_total_ml) (\<lambda>n.
            Inr (scaled @ [(List.last ps)\<lparr>volume_ml := max 1 (n - running)\<rparr>]))))))"

definition compute_total_water_ml :: "recipe_dict \<Rightarrow> pyfloat res" where
  "compute_total_water_ml r =
     (case ratio r of
        Some q \<Rightarrow> if flt (Fin 0) (dose_g r) \<and> ftruthy q then Inr (fmul (dose_g r) q)
                  else float_volumes (rd_pours r)
      | None \<Rightarrow> float_volumes (rd_pours r))"

section \<open>Building the machine's recipe\<close>

definition YAML_CUP_TYPE_MAP :: "(string \<times> int) list" where
  "YAML_CUP_TYPE_MAP = [(''x_pod'', CUP_X_POD), (''xpod'', CUP_X_POD), (''omni_dripper'', CUP_OMNI_DRIPPER),
     (''other'', CUP_OTHER), (''tea'', CUP_TEA)]"

definition YAML_VIBRATION_MAP :: "(string \<times> vibration_pattern) list" where
  "YAML_VIBRATION_MAP = [(''none'', VNone), (''before'', VBefore), (''after'', VAfter), (''both'', VBoth)]"

definition lookup_or :: "'v \<Rightarrow> (string \<times> 'v) list \<Rightarrow> string \<Rightarrow> 'v" where
  "lookup_or d m k = (case map_of m k of None \<Rightarrow> d | Some v \<Rightarrow> v)"

definition build_pour :: "pour_dict \<Rightarrow> pour_step res" where
  "build_pour p =
     bind_res (pour_pattern_of (pattern_code p)) (\<lambda>pat.
       pour_post_init \<lparr>volume = volume_ml p, temperature = temperature_c p, flow_rate = pour_flow_rate p,
         pausing = pause_seconds p, pattern = pat,
         vibration = lookup_or VNone YAML_VIBRATION_MAP (py_lower (py_strip (vibration_name p)))\<rparr>)"

definition build_recipe_from_yaml :: "recipe_dict \<Rightarrow> xbloom_recipe res" where
  "build_recipe_from_yaml raw =
     (let cup_val = lookup_or 0 YAML_CUP_TYPE_MAP (py_lower (py_strip (rd_cup_type raw))) in
      bind_res (map_res build_pour (rd_pours raw)) (\<lambda>ps.
      bind_res (compute_total_water_ml raw) (\<lambda>t.
      bind_res (round_float t) (\<lambda>total.
        recipe_post_init \<lparr>grind_size = rd_grind_size raw, total_water = total, rpm = rd_rpm raw,
          cup_type = cup_val, name = rd_name raw, bean_weight = dose_g raw, recipe_id = 0, pours = ps\<rparr>))))"

record pour_override =
  pour_index :: int
  ov_volume :: "int option"
  ov_flow_rate :: "pyfloat option"
  ov_pattern :: "int option"

definition override_pour :: "pour_override \<Rightarrow> pour_step \<Rightarrow> pour_step res" where
  "override_pour ov p =
     (let p1 = (case ov_volume ov of None \<Rightarrow> p | Some v \<Rightarrow> p\<lparr>volume := v\<rparr>);
          p2 = (case ov_flow_rate ov of None \<Rightarrow> p1 | Some f \<Rightarrow> p1\<lparr>flow_rate := f\<rparr>)
      in case ov_pattern ov of
           None \<Rightarrow> Inr p2
         | Some n \<Rightarrow> bind_res (pour_pattern_of n) (\<lambda>pat. Inr (p2\<lparr>pattern := pat\<rparr>)))"

definition apply_pour_override :: "pour_override \<Rightarrow> xbloom_recipe \<Rightarrow> xbloom_recipe res" where
  "apply_pour_override ov r =
     (let idx = pour_index ov in
      if \<not> (0 \<le> idx \<and> idx < int (length (pours r))) then Inr r
      else bind_res (override_pour ov (pours r ! nat idx)) (\<lambda>p. Inr (r\<lparr>pours := (pours r)[nat idx := p]\<rparr>)))"

fun apply_pour_overrides :: "xbloom_recipe \<Rightarrow> pour_override list \<Rightarrow> xbloom_recipe res" where
  "apply_pour_overrides r [] = Inr r"
| "apply_pour_overrides r (ov # ovs) = bind_res (apply_pour_override ov r) (\<lambda>r'. apply_pour_overrides r' ovs)"

section \<open>Facts\<close>

lemma dedupe_from_spec:
  "\<exists>m \<ge> n. dedupe_from nm existing n = numbered nm m \<and> numbered nm m \<notin> set existing \<and>
     (\<forall>k. n \<le> k \<and> k < m \<longrightarrow> numbered nm k \<in> set existing)"
proof (induction nm existing n rule: dedupe_from.induct)
  case (1 nm existing n)
  show ?case
  proof (cases "numbered nm n \<in> set existing")
    case True
    then obtain m where m: "n + 1 \<le> m" "dedupe_from nm existing (n + 1) = numbered nm m"
      "numbered nm m \<notin> set existing" "\<forall>k. n + 1 \<le> k \<and> k < m \<longrightarrow> numbered nm k \<in> set existing"
      using "1.IH" by blast
    have "numbered nm k \<in> set existing" if "n \<le> k" "k < m" for k
      using that m(4) True by (cases "k = n") auto
    then show ?thesis using m(1-3) True by (intro exI [of _ m]) (subst dedupe_from.simps, auto)
  next
    case False
    then show ?thesis by (subst dedupe_from.simps) auto
  qed
qed

lemma scaled_volume_Inr:
  "scaled_volume factor p = Inr q \<Longrightarrow> 1 \<le> volume_ml q \<and> q = p\<lparr>volume_ml := volume_ml q\<rparr>"
  by (auto simp: scaled_volume_def bind_res_Inr_iff)

lemma scaled_list:
  "map_res (scaled_volume factor) ps = Inr qs \<Longrightarrow> length qs = length ps \<and>
     (\<forall>q \<in> set qs. 1 \<le> volume_ml q) \<and> map (\<lambda>q. q\<lparr>volume_ml := 0\<rparr>) qs = map (\<lambda>p. p\<lparr>volume_ml := 0\<rparr>) ps"
proof (induction ps arbitrary: qs)
  case (Cons p ps)
  then obtain q qs' where q: "scaled_volume factor p = Inr q" "qs = q # qs'"
    "map_res (scaled_volume factor) ps = Inr qs'" by (auto simp: bind_res_Inr_iff)
  have "q\<lparr>volume_ml := 0\<rparr> = p\<lparr>volume_ml := 0\<rparr>"
    using scaled_volume_Inr [OF q(1)] by (metis pour_dict.unfold_congs(1) pour_dict.update_convs(1) pour_dict.cases)
  then show ?case using Cons.IH [OF q(3)] scaled_volume_Inr [OF q(1)] q(2) by simp
qed simp

lemma build_pour_Inr:
  assumes "build_pour p = Inr q"
  shows "volume q = volume_ml p" "temperature q = temperature_c p" "0 \<le> volume q" "0 \<le> pausing q"
    "temperature q = 0 \<or> 40 \<le> temperature q \<and> temperature q \<le> 100"
  using assms by (auto simp: build_pour_def pour_post_init_def bind_res_Inr_iff split: if_splits)

lemma build_pour_err: "build_pour p = Inl e \<Longrightarrow> e = ValueError"
  by (auto simp: build_pour_def pour_post_init_def pour_pattern_of_def split: if_splits)

lemma map_res_Inr_all: "map_res f xs = Inr ys \<Longrightarrow> list_all2 (\<lambda>x y. f x = Inr y) xs ys"
  by (induction xs arbitrary: ys) (auto simp: bind_res_Inr_iff)

lemma list_all2_preimage: "list_all2 P xs ys \<Longrightarrow> y \<in> set ys \<Longrightarrow> \<exists>x \<in> set xs. P x y"
  by (induction rule: list_all2_induct) auto

lemma list_all2_image: "list_all2 P xs ys \<Longrightarrow> x \<in> set xs \<Longrightarrow> \<exists>y \<in> set ys. P x y"
  by (induction rule: list_all2_induct) auto

lemma map_res_err: "map_res f xs = Inl e \<Longrightarrow> \<exists>x \<in> set xs. f x = Inl e"
proof (induction xs)
  case (Cons x xs)
  then show ?case by (cases "f x"; cases "map_res f xs") auto
qed simp

section \<open>Properties\<close>

text \<open>
  Deduplication always ends and gives a free name: the name itself when it is free,
  otherwise the name with the smallest number from 2 on that is not taken.
\<close>

theorem dedupe_name_fresh:
  "dedupe_name nm existing \<notin> set existing \<and>
   (dedupe_name nm existing = nm \<or> (nm \<in> set existing \<and> (\<exists>m \<ge> 2. dedupe_name nm existing = numbered nm m \<and>
      (\<forall>k. 2 \<le> k \<and> k < m \<longrightarrow> numbered nm k \<in> set existing))))"
  using dedupe_from_spec [of 2 nm existing] by (auto simp: dedupe_name_def)

theorem dedupe_name_fresh_witness:
  "dedupe_name ''V60'' [''V60'', ''V60 (2)''] = ''V60 (3)'' \<and> dedupe_name ''V60'' [''V60'', ''V60 (2)''] \<notin> set [''V60'', ''V60 (2)'']"
proof -
  have "dedupe_name ''V60'' [''V60'', ''V60 (2)''] = ''V60 (3)''"
    by (simp add: dedupe_name_def dedupe_from.simps numbered_def dec_digits.simps char_of_def bit_0)
  then show ?thesis using dedupe_name_fresh [of "''V60''" "[''V60'', ''V60 (2)'']"] by simp
qed

text \<open>
  Rescaling pours to a target: every pour keeps its other fields and at least one
  millilitre, and the volumes sum to the rounded target exactly when the pours before the last
  leave room for it; otherwise the last pour is one millilitre and the sum is one more than
  what the others took.  So the sum overshoots every target below the number of pours.
\<close>

theorem scaled_pours_total:
  assumes "ps \<noteq> []" and "float_volumes ps = Inr tot" and "\<not> fle tot (Fin 0)"
    and "\<not> fle target (Fin 0)" and "scale_pours_to_total ps target = Inr qs"
  shows "(map (\<lambda>q. q\<lparr>volume_ml := 0\<rparr>) qs = map (\<lambda>p. p\<lparr>volume_ml := 0\<rparr>) ps) \<and>
    (\<forall>q \<in> set qs. 1 \<le> volume_ml q) \<and>
    (\<exists>n. round_float target = Inr n \<and> sum_list (map volume_ml qs) = max n (sum_list (map volume_ml (butlast qs)) + 1)) \<and>
    (int (length ps) \<le> sum_list (map volume_ml qs))"
proof -
  obtain factor scaled n where sc: "map_res (scaled_volume factor) (butlast ps) = Inr scaled"
    and n: "round_float target = Inr n"
    and qs: "qs = scaled @ [(List.last ps)\<lparr>volume_ml := max 1 (n - sum_list (map volume_ml scaled))\<rparr>]"
    using assms by (auto simp: scale_pours_to_total_def Let_def bind_res_Inr_iff)
  note l = scaled_list [OF sc]
  have "map (\<lambda>q. q\<lparr>volume_ml := 0\<rparr>) qs = map (\<lambda>p. p\<lparr>volume_ml := 0\<rparr>) (butlast ps @ [List.last ps])"
    using l by (simp add: qs)
  then have c1: "map (\<lambda>q. q\<lparr>volume_ml := 0\<rparr>) qs = map (\<lambda>p. p\<lparr>volume_ml := 0\<rparr>) ps" using assms(1) by simp
  have c2: "\<forall>q \<in> set qs. 1 \<le> volume_ml q" using l by (auto simp: qs)
  have c3: "\<exists>n. round_float target = Inr n \<and>
      sum_list (map volume_ml qs) = max n (sum_list (map volume_ml (butlast qs)) + 1)"
    using n by (simp add: qs max_def)
  have "sum_list (map volume_ml xs) \<ge> int (length xs)" if "\<forall>q \<in> set xs. 1 \<le> volume_ml q" for xs :: "pour_dict list"
    using that by (induction xs) auto
  moreover have "length qs = length ps" using l assms(1) by (simp add: qs)
  ultimately have c4: "int (length ps) \<le> sum_list (map volume_ml qs)" using c2 by metis
  show ?thesis using c1 c2 c3 c4 by blast
qed

definition sip :: "int \<Rightarrow> pour_dict" where
  "sip v = \<lparr>volume_ml = v, temperature_c = 92, pour_flow_rate = Fin 3, pause_seconds = 0, pattern_code = 2,
     vibration_name = ''none''\<rparr>"

lemma small_doubles: "to_double 0 = Fin 0" "to_double 1 = Fin 1" "to_double 2 = Fin 2" "to_double 3 = Fin 3"
  using to_double_int [of 0] to_double_int [of 1] to_double_int [of 2] to_double_int [of 3] by simp_all

lemma sips_total: "float_volumes [sip 1, sip 1] = Inr (Fin 2)"
  by (simp add: float_volumes_def sip_def float_of_int_def small_doubles)

theorem scaled_pours_total_witness:
  "scale_pours_to_total [sip 1, sip 1] (Fin 2) = Inr [sip 1, sip 1] \<and> int (length [sip 1, sip 1]) \<le> sum_list (map volume_ml [sip 1, sip 1])"
proof -
  have "scaled_volume (Fin 1) (sip 1) = Inr (sip 1)"
    using round_half_even_of_int [of 1] by (simp add: scaled_volume_def sip_def float_of_int_def small_doubles)
  then have run: "scale_pours_to_total [sip 1, sip 1] (Fin 2) = Inr [sip 1, sip 1]"
    using sips_total round_half_even_of_int [of 2]
    by (simp add: scale_pours_to_total_def fle_def small_doubles sip_def)
  moreover have "\<not> fle (Fin 2) (Fin 0)" by (simp add: fle_def)
  ultimately show ?thesis using scaled_pours_total [OF _ sips_total, of "Fin 2" "[sip 1, sip 1]"] by simp
qed

text \<open>
  A recipe built from a dictionary is in the range the machine takes and is the recipe of
  that dictionary: same grind size (zero included), dose and pours, a known RPM, and it is a
  tea recipe exactly when the trimmed, lower-cased cup type says so.
\<close>

theorem built_recipe_faithful:
  assumes "build_recipe_from_yaml raw = Inr r"
  shows "(grind_size r = rd_grind_size raw \<and> 0 \<le> grind_size r \<and> grind_size r \<le> 150) \<and>
    (bean_weight r = dose_g raw) \<and>
    (rpm r \<in> set VALID_RPMS) \<and>
    (map volume (pours r) = map volume_ml (rd_pours raw)) \<and>
    (\<forall>q \<in> set (pours r). 0 \<le> volume q \<and> (temperature q = 0 \<or> 40 \<le> temperature q \<and> temperature q \<le> 100)) \<and>
    (cup_type r = CUP_TEA \<longleftrightarrow> py_lower (py_strip (rd_cup_type raw)) = ''tea'')"
proof -
  obtain ps tw where ps: "map_res build_pour (rd_pours raw) = Inr ps"
    and r: "recipe_post_init \<lparr>grind_size = rd_grind_size raw, total_water = tw, rpm = rd_rpm raw,
      cup_type = lookup_or 0 YAML_CUP_TYPE_MAP (py_lower (py_strip (rd_cup_type raw))),
      name = rd_name raw, bean_weight = dose_g raw, recipe_id = 0, pours = ps\<rparr> = Inr r"
    using assms by (auto simp: build_recipe_from_yaml_def Let_def bind_res_Inr_iff)
  then have req: "r = \<lparr>grind_size = rd_grind_size raw, total_water = tw, rpm = rd_rpm raw,
      cup_type = lookup_or 0 YAML_CUP_TYPE_MAP (py_lower (py_strip (rd_cup_type raw))),
      name = rd_name raw, bean_weight = dose_g raw, recipe_id = 0, pours = ps\<rparr>"
    and rng: "0 \<le> grind_size r \<and> grind_size r \<le> 150" "rpm r \<in> set VALID_RPMS"
    by (auto simp: recipe_post_init_def split: if_splits)
  have c1: "grind_size r = rd_grind_size raw \<and> 0 \<le> grind_size r \<and> grind_size r \<le> 150"
    and c2: "bean_weight r = dose_g raw" and c3: "rpm r \<in> set VALID_RPMS" using rng req by simp_all
  have l: "list_all2 (\<lambda>p q. build_pour p = Inr q) (rd_pours raw) ps" by (rule map_res_Inr_all [OF ps])
  then have "map volume ps = map volume_ml (rd_pours raw)"
    by (induction rule: list_all2_induct) (auto dest: build_pour_Inr(1))
  then have c4: "map volume (pours r) = map volume_ml (rd_pours raw)" by (simp add: req)
  have "0 \<le> volume q \<and> (temperature q = 0 \<or> 40 \<le> temperature q \<and> temperature q \<le> 100)" if "q \<in> set ps" for q
  proof -
    from list_all2_preimage [OF l that] obtain p where "build_pour p = Inr q" by blast
    from build_pour_Inr(3,5) [OF this] show ?thesis by blast
  qed
  then have c5: "\<forall>q \<in> set (pours r). 0 \<le> volume q \<and> (temperature q = 0 \<or> 40 \<le> temperature q \<and> temperature q \<le> 100)"
    by (simp add: req)
  have c6: "cup_type r = CUP_TEA \<longleftrightarrow> py_lower (py_strip (rd_cup_type raw)) = ''tea''"
    by (simp add: req lookup_or_def YAML_CUP_TYPE_MAP_def CUP_TEA_def CUP_X_POD_def CUP_OMNI_DRIPPER_def CUP_OTHER_def)
  show ?thesis using c1 c2 c3 c4 c5 c6 by blast
qed

text \<open>
  Room temperature is accepted by the schema but never brewed: the names RT and rt coerce
  to 20 degrees, and every recipe with a pour at 20 degrees fails to build.
\<close>

theorem room_temperature_never_builds:
  assumes "p \<in> set (rd_pours raw)" and "coerce_temperature_c (PStr ''RT'') = Inr (temperature_c p)"
  shows "build_recipe_from_yaml raw = Inl ValueError"
proof -
  have "temperature_c p = 20"
    using assms(2) by (simp add: py_strip_def py_lower_def py_space_def lower_char_def TEMPERATURE_NAME_TO_C_def char_of_def bit_0)
  then have bad: "build_pour p = Inl ValueError"
    using build_pour_err build_pour_Inr(2,5) by (cases "build_pour p") fastforce+
  show ?thesis
  proof (cases "map_res build_pour (rd_pours raw)")
    case (Inl e)
    then have "e = ValueError" using map_res_err build_pour_err by blast
    then show ?thesis using Inl by (simp add: build_recipe_from_yaml_def Let_def)
  next
    case (Inr ps)
    from map_res_Inr_all [OF this] obtain q where "build_pour p = Inr q"
      using list_all2_image [OF _ assms(1)] by blast
    then show ?thesis using bad by simp
  qed
qed

definition demo_dict :: "pour_dict list \<Rightarrow> recipe_dict" where
  "demo_dict ps = \<lparr>rd_uid = None, rd_cloud_table_id = None, rd_share_url = None, rd_source = None,
     rd_name = ''V60'', rd_grind_size = 50, rd_rpm = 80, dose_g = Fin 15, ratio = None,
     rd_cup_type = ''Omni_Dripper'', rd_bypass_volume = Fin 0, rd_bypass_temperature = Fin 0, rd_pours = ps\<rparr>"

theorem room_temperature_never_builds_witness:
  "build_recipe_from_yaml (demo_dict [sip 100\<lparr>temperature_c := 20\<rparr>]) = Inl ValueError"
  by (rule room_temperature_never_builds [of "sip 100\<lparr>temperature_c := 20\<rparr>"])
    (simp_all add: demo_dict_def py_strip_def py_lower_def py_space_def lower_char_def TEMPERATURE_NAME_TO_C_def char_of_def bit_0)

theorem built_recipe_faithful_witness:
  "\<exists>r. build_recipe_from_yaml (demo_dict [sip 2]) = Inr r \<and> map volume (pours r) = [2]"
proof -
  have "build_pour (sip 2) = Inr \<lparr>volume = 2, temperature = 92, flow_rate = Fin 3, pausing = 0, pattern = SPIRAL, vibration = VNone\<rparr>"
    by (simp add: build_pour_def sip_def pour_pattern_of_def pour_post_init_def lookup_or_def YAML_VIBRATION_MAP_def
        py_strip_def py_lower_def py_space_def lower_char_def)
  moreover have "float_volumes [sip 2] = Inr (Fin 2)"
    by (simp add: float_volumes_def sip_def float_of_int_def small_doubles)
  ultimately obtain r where r: "build_recipe_from_yaml (demo_dict [sip 2]) = Inr r"
    by (simp add: build_recipe_from_yaml_def demo_dict_def compute_total_water_ml_def recipe_post_init_def VALID_RPMS_def)
  from built_recipe_faithful [OF r] r show ?thesis by (simp add: demo_dict_def sip_def)
qed

end
