(* ===== verification/Coord.thy ===== *)
theory Coord
  imports Brewing Schema
begin

text \<open>
  The coordinator's state and its event handling (\<^verbatim>\<open>coordinator/constants.py\<close>,
  \<^verbatim>\<open>coordinator/state.py\<close> and the state of \<^verbatim>\<open>coordinator/__init__.py\<close>): the setpoints and their
  mirrors of the machine's knobs, the bookkeeping of armed and running operations, the derived
  state string, the poll, and the dispatch of client events.  What the code hands to Home
  Assistant's event loop (\<^verbatim>\<open>async_create_task\<close>, \<^verbatim>\<open>call_soon_threadsafe\<close>, a requested refresh) is
  queued in \<open>k_tasks\<close> in the order it is requested; \<open>k_delivered\<close> records the calls made to
  event listeners.  \<^verbatim>\<open>hass\<close> and its loop are taken to be present.
\<close>

section \<open>Constants and pure helpers\<close>

definition BLE_SILENCE_TIMEOUT_S :: rat where "BLE_SILENCE_TIMEOUT_S = 15"
definition RECONNECT_BACKOFF_BASE_S :: pyfloat where "RECONNECT_BACKOFF_BASE_S = Fin 5"
definition RECONNECT_BACKOFF_MAX_S :: pyfloat where "RECONNECT_BACKOFF_MAX_S = Fin 300"
definition MIN_FIRMWARE_EASY_MODE :: string where "MIN_FIRMWARE_EASY_MODE = ''V12.0D.210''"
definition MIN_FIRMWARE_TEA :: string where "MIN_FIRMWARE_TEA = ''V12.0D.300''"
definition WATER_SOURCE_TANK :: int where "WATER_SOURCE_TANK = 0"
definition WATER_SOURCE_DIRECT :: int where "WATER_SOURCE_DIRECT = 1"
definition WEIGHT_UNIT_OPTIONS :: "(string \<times> int) list" where
  "WEIGHT_UNIT_OPTIONS = [(''ml'', 0), (''g'', 1), (''oz'', 2)]"
definition TEMP_UNIT_OPTIONS :: "(string \<times> int) list" where
  "TEMP_UNIT_OPTIONS = [(''f'', 0), (''c'', 1)]"
definition RAW_TO_WEIGHT_UNIT :: "(int \<times> string) list" where
  "RAW_TO_WEIGHT_UNIT = map (\<lambda>(k, v). (v, k)) WEIGHT_UNIT_OPTIONS"
definition RAW_TO_TEMP_UNIT :: "(int \<times> string) list" where
  "RAW_TO_TEMP_UNIT = map (\<lambda>(k, v). (v, k)) TEMP_UNIT_OPTIONS"
definition CMD_SWITCH_WATER_FEED :: int where "CMD_SWITCH_WATER_FEED = 4508"
definition CMD_RECIPE_PAUSE :: int where "CMD_RECIPE_PAUSE = 40518"
definition CMD_RECIPE_RESTART :: int where "CMD_RECIPE_RESTART = 40524"
definition MODE_SWITCH_HEX :: "(string \<times> string) list" where
  "MODE_SWITCH_HEX = [(''pro'', ''00000000''), (''easy'', ''91327856'')]"
definition MODE_SWITCH_ACK_TIMEOUT_S :: rat where "MODE_SWITCH_ACK_TIMEOUT_S = 3 / 2"
definition MODE_SWITCH_MAX_ATTEMPTS :: nat where "MODE_SWITCH_MAX_ATTEMPTS = 3"
definition WAKE_RETRY_DELAY_S :: rat where "WAKE_RETRY_DELAY_S = 3 / 2"
definition WAKE_RETRY_MAX_ATTEMPTS :: nat where "WAKE_RETRY_MAX_ATTEMPTS = 3"
definition WAKE_WAIT_S :: rat where "WAKE_WAIT_S = 3"

text \<open>
  \<^verbatim>\<open>^V12\.0D\.(\d+)$\<close> on the stripped string.  A trailing newline, which \<^verbatim>\<open>$\<close> would allow, is
  removed by the strip; \<open>dec_digits\<close> are the decimal digits of ASCII.
\<close>

definition FIRMWARE_PREFIX :: string where "FIRMWARE_PREFIX = ''V12.0D.''"

definition digits_value :: "string \<Rightarrow> int" where
  "digits_value ds = fold (\<lambda>c n. 10 * n + (of_char c - 48)) ds 0"

definition firmware_build :: "string \<Rightarrow> int option" where
  "firmware_build v =
     (let t = py_strip v; ds = drop (length FIRMWARE_PREFIX) t in
      if take (length FIRMWARE_PREFIX) t = FIRMWARE_PREFIX \<and> ds \<noteq> [] \<and>
         list_all (\<lambda>c. 48 \<le> (of_char c :: nat) \<and> (of_char c :: nat) \<le> 57) ds
      then Some (digits_value ds) else None)"

definition firmware_at_least :: "string \<Rightarrow> string \<Rightarrow> bool" where
  "firmware_at_least v minimum =
     (case (firmware_build v, firmware_build minimum) of
        (Some current, Some required) \<Rightarrow> required \<le> current
      | _ \<Rightarrow> True)"

definition vibration_level_to_raw :: "int \<Rightarrow> int" where
  "vibration_level_to_raw level = 1000 + level * 100"

definition pour_radius_level_to_raw :: "int \<Rightarrow> int \<Rightarrow> int" where
  "pour_radius_level_to_raw level center = center - (2 - level) * 80"

section \<open>The coordinator's state\<close>

record snapshot =
  d_connected :: bool
  d_weight :: "pyfloat option"
  d_temperature :: "pyfloat option"
  d_state :: string
  d_operation :: "string option"
  d_grinder_running :: bool
  d_brewer_running :: bool
  d_water_level_ok :: bool
  d_version :: string
  d_serial_number :: string
  d_mode :: string
  d_error :: "string option"
  d_live_grind_size :: "int option"
  d_live_grind_speed :: "int option"
  d_voltage :: "int option"
  d_pour_radius :: "int option"
  d_vibration_amplitude :: "int option"

definition DEFAULT_STATE :: snapshot where
  "DEFAULT_STATE =
     \<lparr>d_connected = False, d_weight = None, d_temperature = None, d_state = ''unknown'',
      d_operation = None, d_grinder_running = False, d_brewer_running = False,
      d_water_level_ok = False, d_version = [], d_serial_number = [], d_mode = ''pro'',
      d_error = None, d_live_grind_size = None, d_live_grind_speed = None, d_voltage = None,
      d_pour_radius = None, d_vibration_amplitude = None\<rparr>"

datatype task =
    AsyncRefresh
  | UpdateListeners
  | DoDispatch bool event "string list"
  | EnrichAndDispatch event "string list"
  | SyncUnits attrs
  | DropStaleLink
  | EnterIdleStandby
  | AsyncConnect
  | PushUnitPreferences
  | PersistOptions
  | RefreshAdvancedSettings
  | CalibrationTimeoutFallback
  | MachineInfoRetryLoop
  | RegistryUpdate string string

record coord =
  k_world :: world
  k_client :: bool
  k_data :: snapshot
  k_recipes :: "(string \<times> recipe_dict) list"
  k_selected_recipe :: "string option"
  k_grind_size :: int
  k_rpm :: int
  k_temperature :: int
  k_volume :: int
  k_flow_rate :: pyfloat
  k_pour_pattern :: int
  k_live_grind_size :: "int option"
  k_executing_recipe :: bool
  k_active_recipe_pours :: "pour_step list option"
  k_current_pour_index :: "int option"
  k_water_source :: int
  k_mode :: string
  k_weight_unit :: string
  k_temp_unit :: string
  k_pending_unit_pushes :: "string list"
  k_event_listeners :: "nat list"
  k_last_serial :: string
  k_last_version :: string
  k_water_shortage :: bool
  k_pod_prompt_active :: bool
  k_active_operation :: "string option"
  k_armed_operation :: "string option"
  k_armed_recipe_is_tea :: bool
  k_armed_recipe_tea_payload :: "bytes option"
  k_last_reconcile_screen :: "string option"
  k_manual_paused :: bool
  k_manual_run_seen :: bool
  k_manual_pause_seen :: bool
  k_manual_disconnect :: bool
  k_force_reconnect_pending :: bool
  k_session_timeout :: int
  k_idle_disconnected :: bool
  k_last_activity_monotonic :: rat
  k_idle_standby_pending :: bool
  k_reconnect_failures :: nat
  k_reconnect_blocked_until :: rat
  k_machine_info_task :: bool
  k_tasks :: "task list"
  k_delivered :: "(nat \<times> event) list"

type_synonym 'a ko = "(coord, 'a) act"

abbreviation k_now :: "coord \<Rightarrow> rat" where "k_now k \<equiv> w_now (k_world k)"
abbreviation k_status :: "coord \<Rightarrow> device_status" where "k_status k \<equiv> status (w_client (k_world k))"
abbreviation k_connected :: "coord \<Rightarrow> bool" where "k_connected k \<equiv> k_client k \<and> w_link (k_world k)"

definition request :: "task \<Rightarrow> coord \<Rightarrow> coord" where
  "request t k = k\<lparr>k_tasks := k_tasks k @ [t]\<rparr>"

definition init_coord :: "world \<Rightarrow> int \<Rightarrow> int \<Rightarrow> string \<Rightarrow> string \<Rightarrow> string \<Rightarrow> coord" where
  "init_coord w session_timeout initial_water_source initial_mode initial_weight_unit initial_temp_unit =
     \<lparr>k_world = w, k_client = False, k_data = DEFAULT_STATE, k_recipes = [], k_selected_recipe = None,
      k_grind_size = 50, k_rpm = 80, k_temperature = 93, k_volume = 250, k_flow_rate = Fin 3,
      k_pour_pattern = 0, k_live_grind_size = None, k_executing_recipe = False,
      k_active_recipe_pours = None, k_current_pour_index = None,
      k_water_source = initial_water_source, k_mode = initial_mode,
      k_weight_unit = initial_weight_unit, k_temp_unit = initial_temp_unit,
      k_pending_unit_pushes = [], k_event_listeners = [], k_last_serial = [], k_last_version = [],
      k_water_shortage = False, k_pod_prompt_active = False, k_active_operation = None,
      k_armed_operation = None, k_armed_recipe_is_tea = False, k_armed_recipe_tea_payload = None,
      k_last_reconcile_screen = None, k_manual_paused = False, k_manual_run_seen = False,
      k_manual_pause_seen = False, k_manual_disconnect = False, k_force_reconnect_pending = False,
      k_session_timeout = session_timeout, k_idle_disconnected = False,
      k_last_activity_monotonic = w_now w, k_idle_standby_pending = False,
      k_reconnect_failures = 0, k_reconnect_blocked_until = 0, k_machine_info_task = False,
      k_tasks = [], k_delivered = []\<rparr>"

definition note_activity :: "coord \<Rightarrow> coord" where
  "note_activity k = k\<lparr>k_last_activity_monotonic := k_now k\<rparr>"

definition check_connected :: "coord \<Rightarrow> bool" where
  "check_connected k \<longleftrightarrow> k_connected k"

section \<open>Mirrors of the machine's knobs\<close>

definition get_int :: "string \<Rightarrow> attrs \<Rightarrow> int option" where
  "get_int key a = (case map_of a key of Some (AInt n) \<Rightarrow> Some n | _ \<Rightarrow> None)"

text \<open>An \<^verbatim>\<open>int\<close> or \<^verbatim>\<open>float\<close> attribute; Python compares and rounds ints exactly.\<close>

definition get_number :: "string \<Rightarrow> attrs \<Rightarrow> pyfloat option" where
  "get_number key a =
     (case map_of a key of Some (AInt n) \<Rightarrow> Some (Fin (of_int n)) | Some (AFloat x) \<Rightarrow> Some x | _ \<Rightarrow> None)"

definition apply_grinder_knob :: "device_status option \<Rightarrow> attrs \<Rightarrow> coord \<Rightarrow> coord" where
  "apply_grinder_knob st a k =
     (case st of
        None \<Rightarrow> k
      | Some s \<Rightarrow>
          if screen s \<noteq> Some ''grind'' \<or> g_is_running (grinder s) then k
          else let
            (k1, c1) = (case get_int ''size'' a of
                Some sz \<Rightarrow> if 1 \<le> sz \<and> sz \<le> 80 \<and> sz \<noteq> k_grind_size k
                           then (k\<lparr>k_grind_size := sz\<rparr>, True) else (k, False)
              | None \<Rightarrow> (k, False));
            (k2, c2) = (case get_int ''rpm'' a of
                Some r \<Rightarrow> if 60 \<le> r \<and> r \<le> 120 \<and> r \<noteq> k_rpm k1
                          then (k1\<lparr>k_rpm := r\<rparr>, True) else (k1, c1)
              | None \<Rightarrow> (k1, c1))
          in if c2 then request UpdateListeners k2 else k2)"

definition slider_position :: "rat \<Rightarrow> int" where
  "slider_position t = (if t < 40 then 39 else if 95 < t then 96 else round_half_even t)"

definition apply_brewer_values :: "attrs \<Rightarrow> coord \<Rightarrow> bool \<times> coord" where
  "apply_brewer_values a k = (let
     (c1, k1) = (case get_number ''temperature'' a of
         Some (Fin t) \<Rightarrow>
           if 15 \<le> t \<and> t \<le> 100 \<and> slider_position t \<noteq> k_temperature k
           then (True, k\<lparr>k_temperature := slider_position t\<rparr>) else (False, k)
       | _ \<Rightarrow> (False, k));
     (c2, k2) = (case get_int ''pattern'' a of
         Some p \<Rightarrow> if p \<in> {0, 1, 2} \<and> p \<noteq> k_pour_pattern k1
                   then (True, k1\<lparr>k_pour_pattern := p\<rparr>) else (c1, k1)
       | None \<Rightarrow> (c1, k1))
     in (c2, k2))"

definition apply_brewer_knob :: "device_status option \<Rightarrow> attrs \<Rightarrow> coord \<Rightarrow> coord" where
  "apply_brewer_knob st a k =
     (case st of
        None \<Rightarrow> k
      | Some s \<Rightarrow>
          if screen s \<noteq> Some ''pour'' \<or> b_is_running (brewer s) then k
          else let (changed, k1) = apply_brewer_values a k
               in if changed then request UpdateListeners k1 else k1)"

definition apply_brewer_page_entry :: "device_status option \<Rightarrow> attrs \<Rightarrow> coord \<Rightarrow> coord" where
  "apply_brewer_page_entry st a k =
     (if k_armed_operation k = Some ''pour'' then k
      else case st of
        None \<Rightarrow> k
      | Some s \<Rightarrow>
          if screen s \<noteq> Some ''pour'' \<or> b_is_running (brewer s) then k
          else let
            (c1, k1) = apply_brewer_values a k;
            (c2, k2) = (case get_int ''volume'' a of
                Some v \<Rightarrow> if 30 \<le> v \<and> v \<le> 500 \<and> v \<noteq> k_volume k1
                          then (True, k1\<lparr>k_volume := v\<rparr>) else (c1, k1)
              | None \<Rightarrow> (c1, k1))
          in if c2 then request UpdateListeners k2 else k2)"

definition tracked_live_grind_size :: "device_status \<Rightarrow> coord \<Rightarrow> int option \<times> coord" where
  "tracked_live_grind_size s k =
     (let k1 = (if g_is_running (grinder s)
                then k\<lparr>k_live_grind_size := (if g_size (grinder s) = 0 then None
                         else Some (g_size (grinder s)))\<rparr>
                else k)
      in (k_live_grind_size k1, k1))"

section \<open>Reconciling the bookkeeping with telemetry\<close>

definition PAGE_OPERATIONS :: "(string \<times> string) list" where
  "PAGE_OPERATIONS = [(''pour'', ''manual_pour''), (''grind'', ''manual_grind'')]"

definition OPERATION_PAGES :: "(string \<times> string) list" where
  "OPERATION_PAGES = map (\<lambda>(page, op). (op, page)) PAGE_OPERATIONS"

definition manual_running :: "device_status \<Rightarrow> string \<Rightarrow> bool" where
  "manual_running s op =
     (if op = ''manual_pour''
      then b_is_running (brewer s) \<or> raw_state_label s \<in> {Some ''starting'', Some ''brewing''}
      else g_is_running (grinder s))"

definition reconcile_armed_with_screen :: "device_status \<Rightarrow> coord \<Rightarrow> coord" where
  "reconcile_armed_with_screen s k =
     (let previous = k_last_reconcile_screen k; k1 = k\<lparr>k_last_reconcile_screen := screen s\<rparr>
      in if screen s = Some ''home'' \<and> k_armed_operation k1 \<in> {Some ''grind'', Some ''pour''} \<and>
            previous = k_armed_operation k1
         then k1\<lparr>k_armed_operation := None\<rparr> else k1)"

definition clear_manual_run :: "coord \<Rightarrow> coord" where
  "clear_manual_run k =
     k\<lparr>k_manual_paused := False, k_manual_run_seen := False, k_manual_pause_seen := False\<rparr>"

definition get :: "('a \<times> 'b) list \<Rightarrow> 'a option \<Rightarrow> 'b option" where
  "get m key = (case key of None \<Rightarrow> None | Some x \<Rightarrow> map_of m x)"

definition note_manual_run :: "string \<Rightarrow> string \<Rightarrow> coord \<Rightarrow> coord" where
  "note_manual_run page op k =
     (let k1 = (if k_active_operation k = None \<and> k_armed_operation k \<in> {None, Some page}
                then k\<lparr>k_armed_operation := None, k_active_operation := Some op\<rparr> else k)
      in if k_active_operation k1 = Some op
         then let k2 = k1\<lparr>k_manual_run_seen := True\<rparr>
           in if k_manual_pause_seen k2
              then k2\<lparr>k_manual_paused := False, k_manual_pause_seen := False\<rparr> else k2
         else k1)"

definition note_manual_idle :: "device_status \<Rightarrow> coord \<Rightarrow> coord" where
  "note_manual_idle s k =
     (let own_page = get OPERATION_PAGES (k_active_operation k)
      in if own_page = None then clear_manual_run k
         else if screen s \<noteq> None \<and> screen s \<noteq> own_page
         then clear_manual_run (k\<lparr>k_active_operation := None\<rparr>)
         else if screen s = own_page \<and> k_manual_paused k then k\<lparr>k_manual_pause_seen := True\<rparr>
         else if screen s = own_page \<and> k_manual_run_seen k
         then clear_manual_run (k\<lparr>k_active_operation := None\<rparr>)
         else k)"

definition reconcile_manual_operation :: "device_status \<Rightarrow> coord \<Rightarrow> coord" where
  "reconcile_manual_operation s k =
     (case (last_page s, get PAGE_OPERATIONS (last_page s)) of
        (Some page, Some op) \<Rightarrow>
          if manual_running s op then note_manual_run page op k else note_manual_idle s k
      | _ \<Rightarrow> note_manual_idle s k)"

section \<open>The derived state\<close>

definition derive_state_string :: "device_status \<Rightarrow> coord \<Rightarrow> string" where
  "derive_state_string s k =
     (if k_armed_operation k = Some ''recipe'' then ''armed_recipe''
      else if is_calibrating_grinder s then ''calibrating_grinder''
      else if k_water_shortage k then ''water_shortage''
      else if is_sleeping s then ''sleeping''
      else if raw_state_label s \<notin> {None, Some []} then the (raw_state_label s)
      else if k_manual_paused k \<and> screen s \<in> {None, Some ''grind'', Some ''pour''} then ''paused''
      else if screen s \<in> {Some ''grind'', Some ''pour'', Some ''scale''} \<and>
              \<not> g_is_running (grinder s) \<and> \<not> b_is_running (brewer s)
      then ''standalone_'' @ the (screen s)
      else if screen s = None \<and> k_armed_operation k \<in> {Some ''grind'', Some ''pour''}
      then ''standalone_'' @ the (k_armed_operation k)
      else let state_str = device_state_value (state s)
           in if state_str = ''unknown'' then ''idle'' else state_str)"

section \<open>The poll\<close>

text \<open>\<^verbatim>\<open>round(x, 1)\<close> of a float: correctly rounded to one decimal, as the nearest double.\<close>

fun round1 :: "pyfloat \<Rightarrow> pyfloat" where
  "round1 (Fin x) = to_double (of_int (round_half_even (x * 10)) / 10)"
| "round1 x = x"

definition maybe_update_device_registry :: "snapshot \<Rightarrow> coord \<Rightarrow> coord" where
  "maybe_update_device_registry d k =
     (if d_serial_number d = k_last_serial k \<and> d_version d = k_last_version k then k
      else let k1 = k\<lparr>k_last_serial := d_serial_number d, k_last_version := d_version d\<rparr>
        in if d_serial_number d = [] \<and> d_version d = [] then k1
           else request (RegistryUpdate (d_serial_number d) (d_version d)) k1)"

text \<open>The part after the supervisor's two link checks, inside the \<^verbatim>\<open>try\<close>.\<close>

definition read_status :: "coord \<Rightarrow> snapshot \<times> coord" where
  "read_status k =
     (let s = k_status k;
          k2 = reconcile_manual_operation s (reconcile_armed_with_screen s k);
          (live, k3) = tracked_live_grind_size s k2;
          d = \<lparr>d_connected = True,
               d_weight = (if is_sleeping s then None else Some (round1 (sc_weight (scale s)))),
               d_temperature = (if ftruthy (b_temperature (brewer s))
                                then Some (round1 (b_temperature (brewer s))) else None),
               d_state = derive_state_string s k2,
               d_operation = k_active_operation k2,
               d_grinder_running = g_is_running (grinder s),
               d_brewer_running = b_is_running (brewer s),
               d_water_level_ok = (\<not> k_water_shortage k),
               d_version = version s, d_serial_number = serial_number s,
               d_mode = (if serial_number s \<noteq> [] then machine_mode (w_client (k_world k)) else k_mode k),
               d_error = None, d_live_grind_size = live,
               d_live_grind_speed = Some (g_speed (grinder s)), d_voltage = Some (voltage s),
               d_pour_radius = pour_radius s, d_vibration_amplitude = vibration_amplitude s\<rparr>;
          k4 = (if d_state d \<notin> {''idle'', ''sleeping''} then note_activity k3 else k3)
      in if d_state d = ''idle''
         then case (if ftruthy (b_temperature (brewer s))
                    then map_sum id Some (round_float (b_temperature (brewer s))) else Inr None) of
             Inl _ \<Rightarrow> (DEFAULT_STATE, k4)
           | Inr t \<Rightarrow>
               let k5 = (case t of None \<Rightarrow> k4 | Some n \<Rightarrow> k4\<lparr>k_temperature := n\<rparr>);
                   k6 = (case pour_pattern_live s of None \<Rightarrow> k5 | Some p \<Rightarrow> k5\<lparr>k_pour_pattern := p\<rparr>)
               in (d, maybe_update_device_registry d k6)
         else (d, maybe_update_device_registry d k4))"

text \<open>
  The reconnect supervisor's gate; \<open>connecting\<close> says whether a connect holds \<^verbatim>\<open>_connect_lock\<close>.
\<close>

definition maybe_schedule_reconnect :: "bool \<Rightarrow> coord \<Rightarrow> coord" where
  "maybe_schedule_reconnect connecting k =
     (if k_manual_disconnect k \<or> k_idle_disconnected k then k
      else if connecting then k
      else if k_now k < k_reconnect_blocked_until k then k
      else request AsyncConnect k)"

definition async_update_data :: "bool \<Rightarrow> coord \<Rightarrow> snapshot \<times> coord" where
  "async_update_data connecting k =
     (if k_connected k
      then if \<not> k_force_reconnect_pending k \<and> \<not> is_sleeping (k_status k) \<and>
              BLE_SILENCE_TIMEOUT_S < k_now k - last_notification_monotonic (w_client (k_world k))
           then (DEFAULT_STATE, request DropStaleLink (k\<lparr>k_force_reconnect_pending := True\<rparr>))
           else if 0 < k_session_timeout k \<and> \<not> k_idle_standby_pending k \<and>
              k_armed_operation k = None \<and> k_active_operation k = None \<and> \<not> k_pod_prompt_active k \<and>
              of_int (k_session_timeout k) < k_now k - k_last_activity_monotonic k
           then (DEFAULT_STATE, request EnterIdleStandby (k\<lparr>k_idle_standby_pending := True\<rparr>))
           else read_status k
      else (DEFAULT_STATE, maybe_schedule_reconnect connecting k))"

section \<open>Event dispatch\<close>

definition register_event_listener :: "nat \<Rightarrow> coord \<Rightarrow> coord" where
  "register_event_listener cb k =
     (if cb \<in> set (k_event_listeners k) then k
      else k\<lparr>k_event_listeners := k_event_listeners k @ [cb]\<rparr>)"

definition unregister_event_listener :: "nat \<Rightarrow> coord \<Rightarrow> coord" where
  "unregister_event_listener cb k = k\<lparr>k_event_listeners := remove1 cb (k_event_listeners k)\<rparr>"

definition finish_run :: "coord \<Rightarrow> coord" where
  "finish_run k = clear_manual_run
     (k\<lparr>k_executing_recipe := False, k_active_recipe_pours := None, k_current_pour_index := None,
        k_active_operation := None\<rparr>)"

text \<open>The water-shortage latch, and whether the event itself is kept from the listeners.\<close>

definition water_latch :: "string \<Rightarrow> string \<Rightarrow> coord \<Rightarrow> bool \<times> coord" where
  "water_latch category event_type k =
     (if category = ''error'' \<and> event_type = ''water_shortage''
      then if k_water_source k = WATER_SOURCE_TANK
           then (False, k\<lparr>k_water_shortage := True\<rparr>)
           else (True, k\<lparr>k_water_shortage := False\<rparr>)
      else if category = ''notification'' \<and> event_type = ''water_refilled''
      then (False, k\<lparr>k_water_shortage := False\<rparr>)
      else if category = ''notification'' \<and>
              event_type \<in> {''brewing_started'', ''pour_complete'', ''recipe_complete''}
      then (False, k\<lparr>k_water_shortage := False\<rparr>)
      else (False, k))"

definition track_pod_prompt :: "string \<Rightarrow> string \<Rightarrow> coord \<Rightarrow> coord" where
  "track_pod_prompt category event_type k =
     (if category = ''notification'' \<and> event_type = ''pod_detected''
      then k\<lparr>k_pod_prompt_active := True\<rparr>
      else if category = ''notification'' \<and> event_type \<in> {''grinding_started'', ''brewing_started''}
      then k\<lparr>k_pod_prompt_active := False\<rparr>
      else k)"

definition start_recipe_run :: "coord \<Rightarrow> coord" where
  "start_recipe_run k =
     k\<lparr>k_armed_operation := None, k_armed_recipe_is_tea := False,
       k_armed_recipe_tea_payload := None, k_active_operation := Some ''recipe''\<rparr>"

definition armed_to_active :: "string \<Rightarrow> string \<Rightarrow> coord \<Rightarrow> coord" where
  "armed_to_active category event_type k =
     (if category = ''notification'' \<and> event_type = ''easy_slot_started'' then start_recipe_run k
      else if category = ''notification'' \<and> event_type \<in> {''grinding_started'', ''brewing_started''}
      then if k_armed_operation k = Some ''recipe'' then start_recipe_run k
           else if k_armed_operation k = Some ''grind'' \<and> event_type = ''grinding_started''
           then k\<lparr>k_armed_operation := None, k_active_operation := Some ''manual_grind''\<rparr>
           else if k_armed_operation k = Some ''pour'' \<and> event_type = ''brewing_started''
           then k\<lparr>k_armed_operation := None, k_active_operation := Some ''manual_pour''\<rparr>
           else k
      else k)"

text \<open>The pour being poured, and the end of a run; also whether the pour index was set.\<close>

definition track_run :: "string \<Rightarrow> string \<Rightarrow> attrs \<Rightarrow> coord \<Rightarrow> bool \<times> coord" where
  "track_run category event_type a k =
     (if category = ''notification'' \<and> event_type = ''bloom'' \<and> k_executing_recipe k \<and>
         k_active_recipe_pours k \<notin> {None, Some []}
      then (case get_int ''pour_index'' a of
              Some idx \<Rightarrow>
                let ps = the (k_active_recipe_pours k) in
                if 0 \<le> idx \<and> idx < int (length ps)
                then (True, k\<lparr>k_current_pour_index := Some idx,
                              k_flow_rate := flow_rate (ps ! nat idx)\<rparr>)
                else (False, k)
            | None \<Rightarrow> (False, k))
      else if category = ''notification'' \<and> event_type \<in> {''pour_complete'', ''recipe_complete''}
      then (False, finish_run k)
      else if category = ''error'' \<and>
              event_type \<in> {''no_beans'', ''abnormal_dose_or_water'', ''abnormal_gear_position''}
      then (False, finish_run k)
      else if category = ''notification'' \<and> event_type = ''grinding_complete'' \<and>
              k_active_operation k = Some ''manual_grind''
      then (False, k\<lparr>k_active_operation := None\<rparr>)
      else (False, k))"

text \<open>
  \<^verbatim>\<open>_dispatch_event\<close>; \<open>st\<close> is the client's status when the event fires (\<open>None\<close> without a client).
  The notification of the listeners is left to the event loop, after the pod lookup for a pod
  with an id.
\<close>

definition dispatch_event :: "device_status option \<Rightarrow> event \<Rightarrow> coord \<Rightarrow> coord" where
  "dispatch_event st ev k = (case ev of (category, event_type, a) \<Rightarrow>
     if category = ''settings'' \<and> event_type = ''grinder_knob'' then apply_grinder_knob st a k
     else if category = ''settings'' \<and> event_type = ''brewer_knob'' then apply_brewer_knob st a k
     else if category = ''settings'' \<and> event_type = ''brewer_page_entry''
     then apply_brewer_page_entry st a k
     else if category = ''settings'' \<and> event_type = ''unit_change'' then request (SyncUnits a) k
     else let
       prev_shortage = k_water_shortage k;
       (suppress_event, k1) = water_latch category event_type k;
       cleared_events = (if prev_shortage \<and> \<not> k_water_shortage k1
                         then [''water_shortage_cleared''] else []);
       k2 = (if prev_shortage \<noteq> k_water_shortage k1 then request AsyncRefresh k1 else k1);
       k3 = armed_to_active category event_type (track_pod_prompt category event_type k2);
       (pour_index_changed, k4) = track_run category event_type a k3;
       k5 = (if pour_index_changed then request AsyncRefresh k4 else k4)
     in request
          (if category = ''notification'' \<and> event_type = ''pod_detected'' \<and>
              map_of a ''xid'' \<notin> {None, Some (AStr []), Some (AInt 0)}
           then EnrichAndDispatch ev cleared_events
           else DoDispatch suppress_event ev cleared_events) k5)"

definition dispatch_events :: "(event \<times> device_status) list \<Rightarrow> coord \<Rightarrow> coord" where
  "dispatch_events evs k = fold (\<lambda>(ev, s). dispatch_event (Some s) ev) evs k"

text \<open>A part of the state no event changes.\<close>

lemma dispatch_events_frame:
  assumes "\<And>st cat ty a k. f (dispatch_event (Some st) (cat, ty, a) k) = f k"
  shows "f (dispatch_events evs k) = f k"
proof (induction evs arbitrary: k)
  case (Cons e evs)
  obtain cat ty a s where "e = ((cat, ty, a), s)" by (cases e) auto
  then have "dispatch_events (e # evs) k = dispatch_events evs (dispatch_event (Some s) (cat, ty, a) k)"
    by (simp add: dispatch_events_def)
  then show ?case using Cons.IH assms by simp
qed (simp add: dispatch_events_def)

text \<open>\<^verbatim>\<open>_do_dispatch\<close>, on the listeners registered when it runs.\<close>

definition do_dispatch :: "bool \<Rightarrow> event \<Rightarrow> string list \<Rightarrow> coord \<Rightarrow> coord" where
  "do_dispatch suppress_event ev cleared_events k =
     (let real = (if suppress_event then [] else map (\<lambda>cb. (cb, ev)) (k_event_listeners k));
          synth = concat (map (\<lambda>cleared. map (\<lambda>cb. (cb, (''error'', cleared, [])))
                    (k_event_listeners k)) cleared_events)
      in k\<lparr>k_delivered := k_delivered k @ real @ synth\<rparr>)"

text \<open>
  \<^verbatim>\<open>_async_lookup_pod\<close>: the cloud's answer (a parameter: an error, nothing, or details) becomes
  extra attributes, and never an exception; the enriched event is then dispatched.
\<close>

definition async_lookup_pod :: "attrs option res \<Rightarrow> attrs" where
  "async_lookup_pod fetched =
     (case fetched of Inl _ \<Rightarrow> [] | Inr None \<Rightarrow> [] | Inr (Some detail) \<Rightarrow> detail)"

definition attrs_update :: "attrs \<Rightarrow> attrs \<Rightarrow> attrs" where
  "attrs_update a extra = fold (\<lambda>(key, v). AList.update key v) extra a"

definition enrich_and_dispatch :: "attrs option res \<Rightarrow> event \<Rightarrow> string list \<Rightarrow> coord \<Rightarrow> coord" where
  "enrich_and_dispatch fetched ev cleared_events k =
     (case ev of (category, event_type, a) \<Rightarrow>
        do_dispatch False (category, event_type, attrs_update a (async_lookup_pod fetched))
          cleared_events k)"

section \<open>What each part leaves alone\<close>

lemmas dispatch_parts = request_def water_latch_def track_pod_prompt_def start_recipe_run_def
  armed_to_active_def track_run_def finish_run_def clear_manual_run_def

lemmas knob_parts = apply_grinder_knob_def apply_brewer_knob_def apply_brewer_page_entry_def
  apply_brewer_values_def

lemma knob_frame [simp]:
  "k_water_shortage (apply_grinder_knob st a k) = k_water_shortage k"
  "k_water_shortage (apply_brewer_knob st a k) = k_water_shortage k"
  "k_water_shortage (apply_brewer_page_entry st a k) = k_water_shortage k"
  "k_water_source (apply_grinder_knob st a k) = k_water_source k"
  "k_water_source (apply_brewer_knob st a k) = k_water_source k"
  "k_water_source (apply_brewer_page_entry st a k) = k_water_source k"
  by (auto simp: knob_parts request_def Let_def split: option.splits pyfloat.splits)

lemma parts_frame [simp]:
  "k_water_shortage (track_pod_prompt cat ty k) = k_water_shortage k"
  "k_water_shortage (armed_to_active cat ty k) = k_water_shortage k"
  "k_water_shortage (snd (track_run cat ty a k)) = k_water_shortage k"
  "k_water_source (track_pod_prompt cat ty k) = k_water_source k"
  "k_water_source (armed_to_active cat ty k) = k_water_source k"
  "k_water_source (snd (track_run cat ty a k)) = k_water_source k"
  "k_water_source (snd (water_latch cat ty k)) = k_water_source k"
  "k_tasks (track_pod_prompt cat ty k) = k_tasks k"
  "k_tasks (armed_to_active cat ty k) = k_tasks k"
  "k_tasks (snd (track_run cat ty a k)) = k_tasks k"
  "k_tasks (snd (water_latch cat ty k)) = k_tasks k"
  by (auto simp: dispatch_parts Let_def split: option.splits)

lemma request_frame [simp]:
  "k_water_shortage (request t k) = k_water_shortage k"
  "k_water_source (request t k) = k_water_source k"
  "k_tasks (request t k) = k_tasks k @ [t]"
  by (simp_all add: request_def)

section \<open>The water-shortage latch\<close>

text \<open>
  What the latch should be, from the events alone: a shortage reported on tank water sets it,
  a shortage reported on a plumbed line, a refill and the signs of a successful brew clear it.
\<close>

definition latch_after :: "bool \<Rightarrow> event \<Rightarrow> bool \<Rightarrow> bool" where
  "latch_after tank ev on = (case ev of (category, event_type, _) \<Rightarrow>
     if (category, event_type) = (''error'', ''water_shortage'') then tank
     else if category = ''notification'' \<and>
       event_type \<in> {''water_refilled'', ''brewing_started'', ''pour_complete'', ''recipe_complete''}
     then False else on)"

definition onset :: "bool \<Rightarrow> event \<Rightarrow> bool \<Rightarrow> nat" where
  "onset tank ev on = (if \<not> on \<and> latch_after tank ev on then 1 else 0)"

fun onsets :: "bool \<Rightarrow> event list \<Rightarrow> bool \<Rightarrow> nat" where
  "onsets tank [] on = 0"
| "onsets tank (ev # evs) on = onset tank ev on + onsets tank evs (latch_after tank ev on)"

fun clears_of :: "task \<Rightarrow> nat" where
  "clears_of (DoDispatch _ _ cleared) = count_list cleared ''water_shortage_cleared''"
| "clears_of (EnrichAndDispatch _ cleared) = count_list cleared ''water_shortage_cleared''"
| "clears_of _ = 0"

definition cleared_count :: "task list \<Rightarrow> nat" where
  "cleared_count ts = sum_list (map clears_of ts)"

lemma cleared_count_append [simp]: "cleared_count (ts @ us) = cleared_count ts + cleared_count us"
  by (simp add: cleared_count_def)

lemma cleared_count_knobs [simp]:
  "cleared_count (k_tasks (apply_grinder_knob st a k)) = cleared_count (k_tasks k)"
  "cleared_count (k_tasks (apply_brewer_knob st a k)) = cleared_count (k_tasks k)"
  "cleared_count (k_tasks (apply_brewer_page_entry st a k)) = cleared_count (k_tasks k)"
  by (auto simp: knob_parts request_def cleared_count_def Let_def split: option.splits pyfloat.splits)

lemma water_latch_shortage:
  "k_water_shortage (snd (water_latch cat ty k))
     = latch_after (k_water_source k = WATER_SOURCE_TANK) (cat, ty, a) (k_water_shortage k)"
  by (auto simp: water_latch_def latch_after_def)

lemma latch_after_settings [simp]: "latch_after tank (''settings'', ty, a) on = on"
  by (simp add: latch_after_def)

lemma cleared_count_Cons [simp]:
  "cleared_count [] = 0" "cleared_count (t # ts) = clears_of t + cleared_count ts"
  by (simp_all add: cleared_count_def)

lemma dispatch_shortage:
  "k_water_shortage (dispatch_event st (cat, ty, a) k)
     = latch_after (k_water_source k = WATER_SOURCE_TANK) (cat, ty, a) (k_water_shortage k)"
  "k_water_source (dispatch_event st (cat, ty, a) k) = k_water_source k"
  by (cases "cat = ''settings''";
      simp add: dispatch_event_def Let_def split_beta water_latch_shortage [where a = a])+

lemma dispatch_cleared:
  "cleared_count (k_tasks (dispatch_event st (cat, ty, a) k))
     = cleared_count (k_tasks k) + (if k_water_shortage k \<and>
         \<not> latch_after (k_water_source k = WATER_SOURCE_TANK) (cat, ty, a) True then 1 else 0)"
  by (cases "cat = ''settings''"; cases "k_water_shortage k";
      simp add: dispatch_event_def Let_def split_beta water_latch_shortage [where a = a])

section \<open>Following events\<close>

lemma latch_history:
  "k_water_shortage (dispatch_events evs k)
     = fold (latch_after (k_water_source k = WATER_SOURCE_TANK)) (map fst evs) (k_water_shortage k)"
  "cleared_count (k_tasks (dispatch_events evs k)) + of_bool (k_water_shortage (dispatch_events evs k))
     = cleared_count (k_tasks k) + of_bool (k_water_shortage k)
       + onsets (k_water_source k = WATER_SOURCE_TANK) (map fst evs) (k_water_shortage k)"
proof (induction evs arbitrary: k)
  case (Cons e evs)
  obtain cat ty a s where e: "e = ((cat, ty, a), s)" by (cases e) auto
  have step: "dispatch_events (e # evs) k = dispatch_events evs (dispatch_event (Some s) (cat, ty, a) k)" for k
    by (simp add: dispatch_events_def e)
  case 1
  show ?case unfolding step by (simp add: Cons.IH(1) dispatch_shortage e)
  case 2
  show ?case unfolding step
    by (cases "k_water_shortage k")
      (simp_all add: Cons.IH(2) dispatch_shortage dispatch_cleared e onset_def)
qed (simp_all add: dispatch_events_def)

section \<open>Leaving an armed page\<close>

fun leaves_page :: "string \<Rightarrow> string option list \<Rightarrow> bool" where
  "leaves_page page (x # y # ys) \<longleftrightarrow> (x = Some page \<and> y = Some ''home'') \<or> leaves_page page (y # ys)"
| "leaves_page page _ \<longleftrightarrow> False"

definition reconcile_screens :: "device_status list \<Rightarrow> coord \<Rightarrow> coord" where
  "reconcile_screens = fold reconcile_armed_with_screen"

lemma reconcile_unarmed:
  "k_armed_operation k = None \<Longrightarrow> k_armed_operation (reconcile_screens ss k) = None"
  by (induction ss arbitrary: k)
    (auto simp: reconcile_screens_def reconcile_armed_with_screen_def Let_def)

lemma reconcile_leaves:
  assumes "k_armed_operation k = Some page" "page \<in> {''grind'', ''pour''}"
  shows "k_armed_operation (reconcile_screens ss k)
     = (if leaves_page page (k_last_reconcile_screen k # map screen ss) then None else Some page)"
  using assms
proof (induction ss arbitrary: k)
  case (Cons s ss)
  let ?k = "reconcile_armed_with_screen s k"
  have run: "reconcile_screens (s # ss) k = reconcile_screens ss ?k" by (simp add: reconcile_screens_def)
  have prev: "k_last_reconcile_screen ?k = screen s"
    by (simp add: reconcile_armed_with_screen_def Let_def)
  show ?case
  proof (cases "k_last_reconcile_screen k = Some page \<and> screen s = Some ''home''")
    case True
    then have "k_armed_operation ?k = None"
      using Cons.prems by (auto simp: reconcile_armed_with_screen_def Let_def)
    then show ?thesis using reconcile_unarmed run True by simp
  next
    case False
    then have "k_armed_operation ?k = Some page"
      using Cons.prems by (auto simp: reconcile_armed_with_screen_def Let_def)
    then show ?thesis using Cons.IH [of ?k] Cons.prems(2) prev run False by simp
  qed
qed (simp add: reconcile_screens_def)

section \<open>The tasks a poll requests\<close>

lemma reconcile_tasks [simp]:
  "k_tasks (reconcile_armed_with_screen s k) = k_tasks k"
  "k_tasks (reconcile_manual_operation s k) = k_tasks k"
  "k_tasks (snd (tracked_live_grind_size s k)) = k_tasks k"
  "k_tasks (note_activity k) = k_tasks k"
  by (auto simp: reconcile_armed_with_screen_def reconcile_manual_operation_def note_manual_run_def
      note_manual_idle_def clear_manual_run_def tracked_live_grind_size_def note_activity_def Let_def
      split: option.splits)

lemma reconcile_world [simp]:
  "k_world (reconcile_armed_with_screen s k) = k_world k"
  "k_world (reconcile_manual_operation s k) = k_world k"
  "k_world (snd (tracked_live_grind_size s k)) = k_world k"
  by (auto simp: reconcile_armed_with_screen_def reconcile_manual_operation_def note_manual_run_def
      note_manual_idle_def clear_manual_run_def tracked_live_grind_size_def Let_def
      split: option.splits)

lemma registry_frame [simp]:
  "set (k_tasks (maybe_update_device_registry d k)) \<subseteq> insert (RegistryUpdate (d_serial_number d) (d_version d)) (set (k_tasks k))"
  "set (k_tasks k) \<subseteq> set (k_tasks (maybe_update_device_registry d k))"
  "k_last_activity_monotonic (maybe_update_device_registry d k) = k_last_activity_monotonic k"
  by (auto simp: maybe_update_device_registry_def request_def Let_def)

lemma registry_tasks:
  "t \<noteq> RegistryUpdate (d_serial_number d) (d_version d) \<Longrightarrow>
   t \<in> set (k_tasks (maybe_update_device_registry d k)) \<longleftrightarrow> t \<in> set (k_tasks k)"
  by (auto simp: maybe_update_device_registry_def request_def Let_def)

lemma read_status_tasks:
  "EnterIdleStandby \<in> set (k_tasks (snd (read_status k))) \<longleftrightarrow> EnterIdleStandby \<in> set (k_tasks k)"
  by (simp add: read_status_def Let_def split_beta registry_tasks split: sum.split option.split)

lemma read_status_activity:
  "d_state (fst (read_status k)) \<notin> {''idle'', ''sleeping'', ''unknown''} \<Longrightarrow>
   k_last_activity_monotonic (snd (read_status k)) = k_now k"
  by (auto simp: read_status_def Let_def split_beta note_activity_def DEFAULT_STATE_def
      split: sum.splits option.splits if_splits)

section \<open>The options of the state sensor\<close>

definition STATE_SENSOR_OPTIONS :: "string list" where
  "STATE_SENSOR_OPTIONS =
     [''unknown'', ''idle'', ''grinding'', ''brewing'', ''paused'', ''error'', ''sleeping'',
      ''no_beans'', ''water_shortage'', ''ready'', ''starting'', ''calibrating_grinder'',
      ''standalone_grind'', ''standalone_pour'', ''standalone_scale'', ''armed_recipe'',
      ''awaiting_confirm'', ''recipe_loaded'', ''descaling'', ''calibrating_scale'']"

lemma state_options:
  "''armed_recipe'' \<in> set STATE_SENSOR_OPTIONS" "''calibrating_grinder'' \<in> set STATE_SENSOR_OPTIONS"
  "''water_shortage'' \<in> set STATE_SENSOR_OPTIONS" "''sleeping'' \<in> set STATE_SENSOR_OPTIONS"
  "''paused'' \<in> set STATE_SENSOR_OPTIONS" "''idle'' \<in> set STATE_SENSOR_OPTIONS"
  "device_state_value v \<in> set STATE_SENSOR_OPTIONS"
  by (simp_all add: STATE_SENSOR_OPTIONS_def, cases v, simp_all)

lemma label_options: "l \<in> STATE_LABELS \<Longrightarrow> l \<noteq> None \<Longrightarrow> the l \<in> set STATE_SENSOR_OPTIONS"
  by (auto simp: STATE_LABELS_def STATE_SENSOR_OPTIONS_def)

lemma page_options:
  "p \<in> {Some ''grind'', Some ''pour'', Some ''scale''} \<Longrightarrow>
     ''standalone_'' @ the p \<in> set STATE_SENSOR_OPTIONS"
  by (auto simp: STATE_SENSOR_OPTIONS_def)

lemma derive_state_option:
  assumes "raw_state_label s \<in> STATE_LABELS"
  shows "derive_state_string s k \<in> set STATE_SENSOR_OPTIONS"
proof -
  note parts = state_options label_options [OF assms] page_options [of "screen s"]
    page_options [of "k_armed_operation k"]
  show ?thesis
    unfolding derive_state_string_def Let_def using parts
    by (simp only: split: if_split) (simp only: insert_iff, blast)
qed

section \<open>Properties\<close>

text \<open>
  The state the sensor publishes is always one of the options it declares, whatever bytes the
  machine has sent and whatever the coordinator has recorded.
\<close>

theorem published_state_is_declared:
  "derive_state_string (status (fold notify tbs (init_client now))) k \<in> set STATE_SENSOR_OPTIONS"
proof (rule derive_state_option)
  have "client_inv (fold notify tbs (init_client now))"
    by (rule receive.run_inv) (rule init_client_inv)
  then show "raw_state_label (status (fold notify tbs (init_client now))) \<in> STATE_LABELS"
    by (simp add: client_inv_def)
qed

text \<open>
  C11. The water-shortage latch is a function of the event history (a shortage reported on tank
  water sets it; a refill, the signs of a successful brew, or a shortage reported on a plumbed line
  clear it), and every onset of a shortage is matched by exactly one
  \<^verbatim>\<open>water_shortage_cleared\<close> handed to the listeners, unless it is still latched.
\<close>

theorem water_shortage_history:
  "k_water_shortage (dispatch_events evs k)
     = fold (latch_after (k_water_source k = WATER_SOURCE_TANK)) (map fst evs) (k_water_shortage k)
   \<and> cleared_count (k_tasks (dispatch_events evs k)) + of_bool (k_water_shortage (dispatch_events evs k))
     = cleared_count (k_tasks k) + of_bool (k_water_shortage k)
       + onsets (k_water_source k = WATER_SOURCE_TANK) (map fst evs) (k_water_shortage k)"
  using latch_history by blast

text \<open>
  An armed grind or pour is dropped by telemetry exactly when the machine is seen to go
  directly from the armed page to home; home reports before the page has been seen leave the arm
  alone, however many there are.
\<close>

theorem armed_page_dropped_iff_left:
  assumes "k_armed_operation k = Some page" "page \<in> {''grind'', ''pour''}"
  shows "k_armed_operation (fold reconcile_armed_with_screen ss k)
     = (if leaves_page page (k_last_reconcile_screen k # map screen ss) then None else Some page)"
  using reconcile_leaves [OF assms] by (simp add: reconcile_screens_def)

definition demo_coord :: coord where
  "demo_coord = (init_coord (demo_world []) 600 0 ''pro'' ''g'' ''c'')\<lparr>k_client := True\<rparr>"

lemma demo_coord_simps [simp]:
  "k_world demo_coord = demo_world []" "k_client demo_coord" "k_armed_operation demo_coord = None"
  "k_active_operation demo_coord = None" "\<not> k_manual_paused demo_coord"
  "\<not> k_pod_prompt_active demo_coord" "\<not> k_water_shortage demo_coord"
  "k_session_timeout demo_coord = 600" "k_last_activity_monotonic demo_coord = 0"
  "k_tasks demo_coord = []" "k_last_reconcile_screen demo_coord = None"
  "\<not> k_force_reconnect_pending demo_coord" "\<not> k_idle_standby_pending demo_coord"
  "k_water_source demo_coord = 0" "k_temperature demo_coord = 93" "k_reconnect_failures demo_coord = 0"
  "\<not> k_manual_disconnect demo_coord" "\<not> k_idle_disconnected demo_coord"
  by (simp_all add: demo_coord_def init_coord_def)

definition at_screen :: "string \<Rightarrow> device_status" where
  "at_screen p = init_status\<lparr>screen := Some p, last_page := Some p\<rparr>"

theorem armed_page_dropped_iff_left_witness:
  "k_armed_operation (fold reconcile_armed_with_screen [at_screen ''home'', at_screen ''home'']
       (demo_coord\<lparr>k_armed_operation := Some ''grind''\<rparr>)) = Some ''grind''
   \<and> k_armed_operation (fold reconcile_armed_with_screen [at_screen ''grind'', at_screen ''home'']
       (demo_coord\<lparr>k_armed_operation := Some ''grind''\<rparr>)) = None"
proof -
  let ?k = "demo_coord\<lparr>k_armed_operation := Some ''grind''\<rparr>"
  have "k_armed_operation ?k = Some ''grind''" "''grind'' \<in> {''grind'', ''pour''}" by simp_all
  from armed_page_dropped_iff_left [OF this, of "[at_screen ''home'', at_screen ''home'']"]
    armed_page_dropped_iff_left [OF this, of "[at_screen ''grind'', at_screen ''home'']"]
  show ?thesis by (simp add: at_screen_def demo_coord_def init_coord_def)
qed

definition stale_link :: "coord \<Rightarrow> bool" where
  "stale_link k \<longleftrightarrow> \<not> k_force_reconnect_pending k \<and> \<not> is_sleeping (k_status k) \<and>
     BLE_SILENCE_TIMEOUT_S < k_now k - last_notification_monotonic (w_client (k_world k))"

text \<open>
  A poll asks for idle standby exactly when the link is up and not stale, the timeout is
  enabled, no standby is pending, nothing is armed, nothing is running, no pod prompt is open, and
  more than the timeout has passed since the last activity.
\<close>

theorem standby_requested_iff:
  "EnterIdleStandby \<in> set (k_tasks (snd (async_update_data connecting k))) \<longleftrightarrow>
     EnterIdleStandby \<in> set (k_tasks k) \<or>
     (k_connected k \<and> \<not> stale_link k \<and> 0 < k_session_timeout k \<and> \<not> k_idle_standby_pending k \<and>
      k_armed_operation k = None \<and> k_active_operation k = None \<and> \<not> k_pod_prompt_active k \<and>
      of_int (k_session_timeout k) < k_now k - k_last_activity_monotonic k)"
  by (cases "k_client k"; cases "w_link (k_world k)")
    (auto simp: async_update_data_def maybe_schedule_reconnect_def read_status_tasks stale_link_def
      request_def)

section \<open>A manual run as a state machine\<close>

text \<open>
  The life of a manual pour or grind, seen from the poll: its phase, and what a poll can observe.  A
  grind that completes while it is paused ends the operation but leaves the mark of the pause, and
  with it whether the page was seen since: the next run takes it over until a poll clears it.
\<close>

datatype phase = Off | Starting | Running | Pausing | Paused | Leftover bool

datatype observation = SeenRunning | OtherRunning | OnPage | Blank | Away

definition observe :: "string \<Rightarrow> string \<Rightarrow> device_status \<Rightarrow> observation" where
  "observe page op s =
     (if last_page s = Some page \<and> manual_running s op then SeenRunning
      else if \<exists>(p, o')\<in>set PAGE_OPERATIONS. last_page s = Some p \<and> manual_running s o' then OtherRunning
      else if screen s = Some page then OnPage
      else if screen s = None then Blank else Away)"

fun phase_step :: "bool \<Rightarrow> observation \<Rightarrow> phase \<Rightarrow> phase" where
  "phase_step free SeenRunning Off = (if free then Running else Off)"
| "phase_step free SeenRunning Pausing = Pausing"
| "phase_step free SeenRunning (Leftover seen) = (if free then if seen then Running else Pausing else Leftover seen)"
| "phase_step free SeenRunning _ = Running"
| "phase_step free OtherRunning (Leftover seen) = (if free then Off else Leftover seen)"
| "phase_step free OnPage Running = Off"
| "phase_step free OnPage Pausing = Paused"
| "phase_step free Away _ = Off"
| "phase_step free OnPage (Leftover _) = Off"
| "phase_step free Blank (Leftover _) = Off"
| "phase_step free _ ph = ph"

definition phase_of :: "string \<Rightarrow> coord \<Rightarrow> phase" where
  "phase_of op k =
     (if k_active_operation k = None \<and> k_manual_paused k then Leftover (k_manual_pause_seen k)
      else if k_active_operation k \<noteq> Some op then Off
      else if \<not> k_manual_paused k then (if k_manual_run_seen k then Running else Starting)
      else if k_manual_pause_seen k then Paused else Pausing)"

lemma phase_run_seen:
  "phase_of op (note_manual_run page op k)
     = phase_step (k_active_operation k = None \<and> k_armed_operation k \<in> {None, Some page}) SeenRunning (phase_of op k)"
  by (cases "k_active_operation k = Some op"; cases "k_manual_paused k"; cases "k_manual_pause_seen k")
    (auto simp: phase_of_def note_manual_run_def Let_def)

lemma phase_other_run:
  "op' \<noteq> op \<Longrightarrow> phase_of op (note_manual_run page' op' k)
     = phase_step (k_active_operation k = None \<and> k_armed_operation k \<in> {None, Some page'}) OtherRunning (phase_of op k)"
  by (cases "k_active_operation k = Some op"; cases "k_manual_paused k"; cases "k_manual_pause_seen k")
   (auto simp: phase_of_def note_manual_run_def Let_def)

lemma phase_not_running:
  assumes "get OPERATION_PAGES (Some op) = Some page"
  shows "phase_of op (note_manual_idle s k)
    = phase_step free (if screen s = Some page then OnPage else if screen s = None then Blank else Away)
        (phase_of op k)"
proof (cases "k_active_operation k = Some op")
  case True
  then show ?thesis
    using assms by (cases "k_manual_paused k")
      (auto simp: phase_of_def note_manual_idle_def clear_manual_run_def Let_def)
next
  case False
  then show ?thesis
    by (cases "k_active_operation k")
     (auto simp: phase_of_def note_manual_idle_def clear_manual_run_def Let_def get_def split: option.splits)
qed

lemma page_operation_cases:
  "get PAGE_OPERATIONS p = (if p = Some ''pour'' then Some ''manual_pour''
     else if p = Some ''grind'' then Some ''manual_grind'' else None)"
  by (auto simp: get_def PAGE_OPERATIONS_def split: option.splits)

lemma operation_page_cases [simp]:
  "get OPERATION_PAGES None = None"
  "get OPERATION_PAGES (Some ''manual_pour'') = Some ''pour''"
  "get OPERATION_PAGES (Some ''manual_grind'') = Some ''grind''"
  by (simp_all add: get_def OPERATION_PAGES_def PAGE_OPERATIONS_def)

lemma observe_simps:
  "observe page op s =
     (if last_page s = Some page \<and> manual_running s op then SeenRunning
      else if (last_page s = Some ''pour'' \<and> manual_running s ''manual_pour'') \<or>
              (last_page s = Some ''grind'' \<and> manual_running s ''manual_grind'') then OtherRunning
      else if screen s = Some page then OnPage
      else if screen s = None then Blank else Away)"
  by (simp add: observe_def PAGE_OPERATIONS_def)

definition unmarked :: "coord \<Rightarrow> bool" where
  "unmarked k \<longleftrightarrow> \<not> k_manual_paused k \<and> \<not> k_manual_run_seen k \<and> \<not> k_manual_pause_seen k"

lemma idle_unmarks: "k_active_operation (note_manual_idle s k) = None \<Longrightarrow> unmarked (note_manual_idle s k)"
  by (cases "k_active_operation k")
    (auto simp: unmarked_def note_manual_idle_def clear_manual_run_def Let_def split: if_splits)

text \<open>
  C20. What a poll does to a manual pour or grind is the step of a small state machine, in every
  state: a run starts when its page's operation is seen running with nothing active and nothing
  else armed; a run still reported running right after a pause stays pausing, the page seen then
  makes it paused, and running seen after that is a resume; the page seen after an unpaused run ends
  it, as does any other page; a blank screen changes nothing.  When a grind completed while paused,
  the mark of the pause is left over: a run seen then takes it over, and any poll that sees none
  clears it.  After a poll that sees nothing running and leaves no operation active, no mark of a run
  or a pause is left.
\<close>

theorem manual_run_refines_phases:
  assumes "(page, op) \<in> set PAGE_OPERATIONS"
  shows "phase_of op (reconcile_manual_operation s k)
      = phase_step (k_active_operation k = None \<and> (k_armed_operation k = None \<or> k_armed_operation k = last_page s))
          (observe page op s) (phase_of op k) \<and>
    (observe page op s \<in> {OnPage, Blank, Away} \<and> k_active_operation (reconcile_manual_operation s k) = None \<longrightarrow>
       unmarked (reconcile_manual_operation s k))"
proof -
  consider (pour) "page = ''pour''" "op = ''manual_pour''" | (grind) "page = ''grind''" "op = ''manual_grind''"
    using assms(1) by (auto simp: PAGE_OPERATIONS_def)
  then show ?thesis (is "_ = phase_step ?free _ _ \<and> _")
  proof cases
    case pour
    then show ?thesis
      by (simp add: reconcile_manual_operation_def page_operation_cases observe_simps idle_unmarks
          phase_run_seen phase_other_run phase_not_running [OF operation_page_cases(2), where free = ?free] split: option.split)
  next
    case grind
    then show ?thesis
      by (simp add: reconcile_manual_operation_def page_operation_cases observe_simps idle_unmarks
          phase_run_seen phase_other_run phase_not_running [OF operation_page_cases(3), where free = ?free] split: option.split)
  qed
qed

theorem manual_run_refines_phases_witness:
  "phase_of ''manual_pour'' (reconcile_manual_operation
       ((at_screen ''pour'')\<lparr>brewer := (brewer (at_screen ''pour''))\<lparr>b_is_running := True\<rparr>\<rparr>) demo_coord) = Running"
proof -
  let ?s = "(at_screen ''pour'')\<lparr>brewer := (brewer (at_screen ''pour''))\<lparr>b_is_running := True\<rparr>\<rparr>"
  have "(''pour'', ''manual_pour'') \<in> set PAGE_OPERATIONS" by (simp add: PAGE_OPERATIONS_def)
  from manual_run_refines_phases [OF this, of ?s demo_coord]
  have "phase_of ''manual_pour'' (reconcile_manual_operation ?s demo_coord)
    = phase_step (k_active_operation demo_coord = None \<and>
        (k_armed_operation demo_coord = None \<or> k_armed_operation demo_coord = last_page ?s))
        (observe ''pour'' ''manual_pour'' ?s) (phase_of ''manual_pour'' demo_coord)" by blast
  then show ?thesis
    by (simp add: observe_simps manual_running_def at_screen_def demo_coord_def init_coord_def phase_of_def)
qed

lemma round_float_20: "round_float (Fin 20) = Inr 20"
  using round_half_even_of_int [of 20] by simp

text \<open>
  A poll that finds the machine idle overwrites the temperature setpoint with the raw reading:
  with the knob at room temperature (20.0 on the wire) the setpoint becomes 20, below the slider's
  minimum of 39, although the knob's own push maps 20 to 39.
\<close>

theorem idle_poll_unmaps_room_temperature:
  assumes "async_update_data connecting k = (d, k')" "d_connected d" "d_state d = ''idle''"
    "b_temperature (brewer (k_status k)) = Fin 20"
  shows "k_temperature k' = 20 \<and> slider_position 20 = 39"
proof -
  have "read_status k = (d, k')"
    using assms(1,2) by (auto simp: async_update_data_def DEFAULT_STATE_def split: if_splits)
  then have "k_temperature k' = 20"
    using assms(2,3,4)
    by (auto simp: read_status_def Let_def split_beta ftruthy_def round_float_20
        maybe_update_device_registry_def request_def DEFAULT_STATE_def
        simp del: round_float.simps split: sum.splits option.splits if_splits)
  then show ?thesis by (simp add: slider_position_def)
qed

definition idle_rt_coord :: coord where
  "idle_rt_coord = demo_coord\<lparr>k_world := (demo_world [])\<lparr>w_client := (init_client 0)
     \<lparr>status := (at_screen ''home'')\<lparr>brewer := (brewer (at_screen ''home''))\<lparr>b_temperature := Fin 20\<rparr>\<rparr>\<rparr>\<rparr>\<rparr>"

lemma idle_rt_coord_poll:
  "d_connected (fst (async_update_data False idle_rt_coord))"
  "d_state (fst (async_update_data False idle_rt_coord)) = ''idle''"
proof -
  have s: "k_status idle_rt_coord = (at_screen ''home'')\<lparr>brewer := (brewer (at_screen ''home''))
      \<lparr>b_temperature := Fin 20\<rparr>\<rparr>"
    by (simp add: idle_rt_coord_def)
  have "async_update_data False idle_rt_coord = read_status idle_rt_coord"
    by (simp add: async_update_data_def idle_rt_coord_def at_screen_def init_status_def init_client_def
        BLE_SILENCE_TIMEOUT_S_def)
  moreover have "derive_state_string (k_status idle_rt_coord) (reconcile_manual_operation (k_status idle_rt_coord)
      (reconcile_armed_with_screen (k_status idle_rt_coord) idle_rt_coord)) = ''idle''"
    unfolding s by (simp add: reconcile_armed_with_screen_def reconcile_manual_operation_def page_operation_cases
        note_manual_idle_def clear_manual_run_def idle_rt_coord_def derive_state_string_def
        at_screen_def init_status_def Let_def)
  ultimately show "d_connected (fst (async_update_data False idle_rt_coord))"
    "d_state (fst (async_update_data False idle_rt_coord)) = ''idle''"
    by (simp_all add: read_status_def Let_def split_beta s ftruthy_def round_float_20
        del: round_float.simps)
qed

theorem idle_poll_unmaps_room_temperature_witness:
  "k_temperature (snd (async_update_data False idle_rt_coord)) = 20"
proof -
  obtain d k' where run: "async_update_data False idle_rt_coord = (d, k')" by (cases "async_update_data False idle_rt_coord")
  moreover from run have "d_connected d" "d_state d = ''idle''"
    using idle_rt_coord_poll by simp_all
  ultimately have "k_temperature k' = 20"
    using idle_poll_unmaps_room_temperature [of False idle_rt_coord d k']
    by (simp add: idle_rt_coord_def)
  with run show ?thesis by simp
qed

section \<open>The end of a run\<close>

definition TERMINAL_EVENTS :: "(string \<times> string) set" where
  "TERMINAL_EVENTS = {(''notification'', ''pour_complete''), (''notification'', ''recipe_complete''),
     (''error'', ''no_beans''), (''error'', ''abnormal_dose_or_water''),
     (''error'', ''abnormal_gear_position'')}"

fun index_in_range :: "pour_step list option \<Rightarrow> int option \<Rightarrow> bool" where
  "index_in_range ps None \<longleftrightarrow> True"
| "index_in_range None (Some i) \<longleftrightarrow> False"
| "index_in_range (Some ps) (Some i) \<longleftrightarrow> 0 \<le> i \<and> i < int (length ps)"

definition pour_index_ok :: "coord \<Rightarrow> bool" where
  "pour_index_ok k \<longleftrightarrow> index_in_range (k_active_recipe_pours k) (k_current_pour_index k)"

definition run_view :: "coord \<Rightarrow> bool \<times> pour_step list option \<times> int option" where
  "run_view k = (k_executing_recipe k, k_active_recipe_pours k, k_current_pour_index k)"

lemma run_view_knobs [simp]:
  "run_view (apply_grinder_knob st a k) = run_view k"
  "run_view (apply_brewer_knob st a k) = run_view k"
  "run_view (apply_brewer_page_entry st a k) = run_view k"
  by (auto simp: knob_parts request_def run_view_def Let_def split: option.splits pyfloat.splits)

lemma run_view_parts [simp]:
  "run_view (track_pod_prompt cat ty k) = run_view k"
  "run_view (armed_to_active cat ty k) = run_view k"
  "run_view (snd (water_latch cat ty k)) = run_view k"
  "run_view (request t k) = run_view k"
  "k_active_operation (request t k) = k_active_operation k"
  by (simp_all add: dispatch_parts run_view_def)

lemma pour_index_ok_view: "run_view k' = run_view k \<Longrightarrow> pour_index_ok k' = pour_index_ok k"
  by (simp add: run_view_def pour_index_ok_def)

lemma executing_view: "run_view k' = run_view k \<Longrightarrow> k_executing_recipe k' = k_executing_recipe k"
  by (simp add: run_view_def)

lemma track_run_run:
  "k_executing_recipe (snd (track_run cat ty a k)) \<longleftrightarrow> k_executing_recipe k \<and> (cat, ty) \<notin> TERMINAL_EVENTS"
  "(cat, ty) \<in> TERMINAL_EVENTS \<Longrightarrow> k_active_operation (snd (track_run cat ty a k)) = None"
  by (auto simp: track_run_def TERMINAL_EVENTS_def finish_run_def clear_manual_run_def
      Let_def split: option.splits)

lemma track_run_index: "pour_index_ok k \<Longrightarrow> pour_index_ok (snd (track_run cat ty a k))"
proof -
  assume ok: "pour_index_ok k"
  have fin: "pour_index_ok (finish_run k)" by (simp add: finish_run_def clear_manual_run_def pour_index_ok_def)
  have same: "pour_index_ok (k\<lparr>k_active_operation := None\<rparr>)" using ok by (simp add: pour_index_ok_def)
  have bloom: "0 \<le> idx \<and> idx < int (length (the (k_active_recipe_pours k))) \<Longrightarrow>
      k_active_recipe_pours k \<noteq> None \<Longrightarrow>
      pour_index_ok (k\<lparr>k_current_pour_index := Some idx, k_flow_rate := fr\<rparr>)" for idx fr
    by (auto simp: pour_index_ok_def)
  show ?thesis unfolding track_run_def Let_def
    using ok fin same bloom by (simp split: option.split)
qed

text \<open>Events other than the four settings reach the tracker of the run.\<close>

lemma dispatch_tracks:
  assumes "(cat, ty) \<notin> {(''settings'', ''grinder_knob''), (''settings'', ''brewer_knob''),
    (''settings'', ''brewer_page_entry''), (''settings'', ''unit_change'')}"
  shows "\<exists>k1. run_view k1 = run_view k \<and>
    run_view (dispatch_event st (cat, ty, a) k) = run_view (snd (track_run cat ty a k1)) \<and>
    k_active_operation (dispatch_event st (cat, ty, a) k) = k_active_operation (snd (track_run cat ty a k1))"
proof -
  let ?k2 = "if k_water_shortage k \<noteq> k_water_shortage (snd (water_latch cat ty k))
    then request AsyncRefresh (snd (water_latch cat ty k)) else snd (water_latch cat ty k)"
  let ?k1 = "armed_to_active cat ty (track_pod_prompt cat ty ?k2)"
  have "run_view ?k1 = run_view k" by simp
  moreover have "\<exists>ts. dispatch_event st (cat, ty, a) k = fold request ts (snd (track_run cat ty a ?k1))"
  proof -
    let ?t = "track_run cat ty a ?k1"
    let ?cl = "if k_water_shortage k \<and> \<not> k_water_shortage (snd (water_latch cat ty k))
      then [''water_shortage_cleared''] else []"
    let ?u = "if cat = ''notification'' \<and> ty = ''pod_detected'' \<and>
          map_of a ''xid'' \<notin> {None, Some (AStr []), Some (AInt 0)}
        then EnrichAndDispatch (cat, ty, a) ?cl
        else DoDispatch (fst (water_latch cat ty k)) (cat, ty, a) ?cl"
    have "dispatch_event st (cat, ty, a) k = request ?u (if fst ?t then request AsyncRefresh (snd ?t) else snd ?t)"
      using assms unfolding dispatch_event_def Let_def split_beta fst_conv snd_conv insert_iff empty_iff
        prod.inject simp_thms de_Morgan_disj
      by (simp only: if_False if_True simp_thms)
    then have "dispatch_event st (cat, ty, a) k
        = fold request ((if fst ?t then [AsyncRefresh] else []) @ [?u]) (snd ?t)"
      by (cases "fst ?t") (simp_all only: fold_append fold_simps if_True if_False comp_apply append.simps)
    then show ?thesis by blast
  qed
  moreover have "run_view (fold request ts k') = run_view k' \<and>
      k_active_operation (fold request ts k') = k_active_operation k'" for ts k'
    by (induction ts arbitrary: k') simp_all
  ultimately show ?thesis by (intro exI [of _ ?k1]) force
qed

text \<open>
  Whatever events arrive, a recipe stops counting as executing exactly at a completion or a
  machine alarm, which also ends the active operation; the current pour always is one of the
  recipe's pours.
\<close>

theorem run_ends_at_terminal_events:
  assumes "pour_index_ok k"
  shows "(k_executing_recipe (dispatch_event st (cat, ty, a) k)
       \<longleftrightarrow> k_executing_recipe k \<and> (cat, ty) \<notin> TERMINAL_EVENTS)
     \<and> ((cat, ty) \<in> TERMINAL_EVENTS \<longrightarrow> k_active_operation (dispatch_event st (cat, ty, a) k) = None)
     \<and> pour_index_ok (dispatch_event st (cat, ty, a) k)"
proof (cases "(cat, ty) \<in> {(''settings'', ''grinder_knob''), (''settings'', ''brewer_knob''),
    (''settings'', ''brewer_page_entry''), (''settings'', ''unit_change'')}")
  case True
  then have "(cat, ty) \<notin> TERMINAL_EVENTS" by (auto simp: TERMINAL_EVENTS_def)
  moreover from True have v: "run_view (dispatch_event st (cat, ty, a) k) = run_view k"
    by (auto simp: dispatch_event_def)
  ultimately show ?thesis
    using assms by (simp add: pour_index_ok_view [OF v] executing_view [OF v])
next
  case False
  obtain k1 where k1: "run_view k1 = run_view k"
    and run: "run_view (dispatch_event st (cat, ty, a) k) = run_view (snd (track_run cat ty a k1))"
      "k_active_operation (dispatch_event st (cat, ty, a) k)
         = k_active_operation (snd (track_run cat ty a k1))"
    using dispatch_tracks [OF False] by meson
  have "pour_index_ok (snd (track_run cat ty a k1))"
    by (rule track_run_index) (simp add: pour_index_ok_view [OF k1] assms)
  then show ?thesis
    by (simp add: run(2) pour_index_ok_view [OF run(1)] executing_view [OF run(1)]
        executing_view [OF k1] track_run_run)
qed

theorem run_ends_at_terminal_events_witness:
  "\<not> k_executing_recipe (dispatch_event None (''error'', ''no_beans'', [])
      (demo_coord\<lparr>k_executing_recipe := True, k_active_operation := Some ''recipe''\<rparr>))"
  using run_ends_at_terminal_events
    [of "demo_coord\<lparr>k_executing_recipe := True, k_active_operation := Some ''recipe''\<rparr>"
      None "''error''" "''no_beans''" "[]"]
  by (simp add: TERMINAL_EVENTS_def pour_index_ok_def demo_coord_def init_coord_def)

end
