(* ===== verification/Supervisor.thy ===== *)
theory Supervisor
  imports Coord
begin

text \<open>
  The connection supervisor (\<^verbatim>\<open>coordinator/connection.py\<close>): connecting and disconnecting, the
  reconnect backoff, idle standby, the pushing and syncing of display units and water source, mode
  switching, waking a sleeping machine, and the retry around every user action.

  A coordinator coroutine is an action on the coordinator's state.  Code of the client runs on the
  embedded world; the events it fires are dispatched in order with the status each was fired
  with, and a link that goes down calls the disconnect hook.  One coordinator action runs at a
  time; where the code guards against another task running during an await, what that task does
  is a parameter.
\<close>

section \<open>Running client code\<close>

definition modify :: "(coord \<Rightarrow> coord) \<Rightarrow> unit ko" where "modify f k = (Inr (), f k)"

definition handle_unexpected_disconnect :: "coord \<Rightarrow> coord" where
  "handle_unexpected_disconnect k =
     (if k_manual_disconnect k then k else k\<lparr>k_machine_info_task := False, k_client := False\<rparr>)"

definition on_world :: "'a co \<Rightarrow> 'a ko" where
  "on_world m k =
     (let w = k_world k; (r, w') = m w;
          fired = drop (length (events (w_client w))) (events (w_client w'));
          k1 = dispatch_events fired (k\<lparr>k_world := w'\<rparr>)
      in (r, if w_link w \<and> \<not> w_link w' then handle_unexpected_disconnect k1 else k1))"

text \<open>Code that goes through \<^verbatim>\<open>self.client\<close> raises \<^verbatim>\<open>AttributeError\<close> without one.\<close>

definition on_client :: "'a co \<Rightarrow> 'a ko" where
  "on_client m k = (if k_client k then on_world m k else (Inl AttributeError, k))"

definition k_asleep :: "coord \<Rightarrow> bool" where
  "k_asleep k \<longleftrightarrow> k_client k \<and> is_sleeping (k_status k)"

section \<open>Backoff\<close>

text \<open>\<^verbatim>\<open>min(a, b)\<close> of floats.\<close>

definition fmin :: "pyfloat \<Rightarrow> pyfloat \<Rightarrow> pyfloat" where
  "fmin a b = (if flt b a then b else a)"

fun rat_of_float :: "pyfloat \<Rightarrow> rat" where
  "rat_of_float (Fin q) = q"
| "rat_of_float _ = 0"

definition backoff_delay :: "nat \<Rightarrow> pyfloat res" where
  "backoff_delay failures =
     bind_res (float_of_int (2 ^ (failures - 1))) (\<lambda>x.
       Inr (fmin (fmul RECONNECT_BACKOFF_BASE_S x) RECONNECT_BACKOFF_MAX_S))"

definition note_connect_failure :: "nat ko" where
  "note_connect_failure k =
     (let k1 = k\<lparr>k_reconnect_failures := k_reconnect_failures k + 1\<rparr> in
      case backoff_delay (k_reconnect_failures k1) of
        Inl e \<Rightarrow> (Inl e, k1)
      | Inr delay \<Rightarrow> (Inr (k_reconnect_failures k1),
                      k1\<lparr>k_reconnect_blocked_until := k_now k1 + rat_of_float delay\<rparr>))"

definition note_connect_success :: "coord \<Rightarrow> coord" where
  "note_connect_success k = k\<lparr>k_reconnect_failures := 0, k_reconnect_blocked_until := 0\<rparr>"

text \<open>\<^verbatim>\<open>_log_connect_failure\<close> without its log lines.\<close>

definition log_connect_failure :: "unit ko" where
  "log_connect_failure = then_co note_connect_failure (return_co ())"

section \<open>Display units and water source\<close>

definition CONF_WATER_SOURCE :: string where "CONF_WATER_SOURCE = ''water_source''"
definition CONF_WEIGHT_UNIT :: string where "CONF_WEIGHT_UNIT = ''weight_unit''"
definition CONF_TEMP_UNIT :: string where "CONF_TEMP_UNIT = ''temp_unit''"

definition UNIT_PUSH_ORDER :: "string list" where
  "UNIT_PUSH_ORDER = [CONF_WEIGHT_UNIT, CONF_TEMP_UNIT, CONF_WATER_SOURCE]"

definition SETTINGS_PAGE_SETTLE_S :: rat where "SETTINGS_PAGE_SETTLE_S = 5 / 2"

definition unit_push_command :: "string \<Rightarrow> coord \<Rightarrow> int \<times> int list" where
  "unit_push_command key k =
     (if key = CONF_WEIGHT_UNIT
      then (8005, [case map_of WEIGHT_UNIT_OPTIONS (k_weight_unit k) of
              None \<Rightarrow> the (map_of WEIGHT_UNIT_OPTIONS ''g'') | Some code \<Rightarrow> code])
      else if key = CONF_TEMP_UNIT
      then (8010, [case map_of TEMP_UNIT_OPTIONS (k_temp_unit k) of
              None \<Rightarrow> the (map_of TEMP_UNIT_OPTIONS ''c'') | Some code \<Rightarrow> code])
      else (CMD_SWITCH_WATER_FEED, [k_water_source k]))"

text \<open>One attempt, then up to \<open>n\<close> more, each after an unanswered one.\<close>

primrec unit_send_attempts :: "nat \<Rightarrow> bool \<Rightarrow> int \<Rightarrow> int list \<Rightarrow> unit ko" where
  "unit_send_attempts 0 asleep command payload =
     then_co (on_world (send_and_wait command (Data payload) ACK_TIMEOUT_S 1)) (return_co ())"
| "unit_send_attempts (Suc n) asleep command payload = (\<lambda>k.
     case on_world (send_and_wait command (Data payload) ACK_TIMEOUT_S 1) k of
       (Inr _, k1) \<Rightarrow> (Inr (), k1)
     | (Inl e, k1) \<Rightarrow>
         if e = AckTimeout
         then then_co (if asleep then on_world (sleep WAKE_RETRY_DELAY_S) else return_co ())
                (unit_send_attempts n asleep command payload) k1
         else (Inl e, k1))"

definition async_send_unit_command :: "int \<Rightarrow> int list \<Rightarrow> unit ko" where
  "async_send_unit_command command payload k =
     (let asleep = is_sleeping (k_status k);
          attempts = (if asleep then WAKE_RETRY_MAX_ATTEMPTS else 2)
      in unit_send_attempts (attempts - 1) asleep command payload k)"

definition async_return_machine_home :: "unit ko" where
  "async_return_machine_home =
     then_co (on_world (sleep SETTINGS_PAGE_SETTLE_S))
       (catch_co (then_co (on_world (send_and_wait BACK_TO_HOME (Data []) ACK_TIMEOUT_S 1)) (return_co ()))
         (\<lambda>_. return_co ()))"

text \<open>
  The loop over the pending keys; \<open>None\<close> is its early return.  \<open>present\<close> says whether the client it
  works with (the caller's, or \<^verbatim>\<open>self.client\<close>) is one at all.  \<open>meanwhile key\<close> is what other tasks
  do to the coordinator while the command of \<open>key\<close> is under way.
\<close>

primrec push_units :: "bool \<Rightarrow> (string \<Rightarrow> coord \<Rightarrow> coord) \<Rightarrow> string list \<Rightarrow> bool \<Rightarrow> bool option ko" where
  "push_units present meanwhile [] sent = return_co (Some sent)"
| "push_units present meanwhile (key # keys) sent = (\<lambda>k.
     if key \<notin> set (k_pending_unit_pushes k) then push_units present meanwhile keys sent k
     else let (command, payload) = unit_push_command key k;
              (r, k1) = (if present then async_send_unit_command command payload k
                         else (Inl AttributeError, k));
              k2 = meanwhile key k1
       in if r \<noteq> Inr () \<and> r \<noteq> Inl AckTimeout then (Inr None, k2)
          else let k3 = (if snd (unit_push_command key k2) = payload
                         then k2\<lparr>k_pending_unit_pushes := removeAll key (k_pending_unit_pushes k2)\<rparr>
                         else k2)
               in push_units present meanwhile keys True k3)"

definition apply_unit_preferences :: "bool \<Rightarrow> (string \<Rightarrow> coord \<Rightarrow> coord) \<Rightarrow> unit ko" where
  "apply_unit_preferences present meanwhile =
     bind_co (push_units present meanwhile UNIT_PUSH_ORDER False) (\<lambda>sent.
       if sent = Some True then async_return_machine_home else return_co ())"

definition async_sync_units_from_machine :: "attrs \<Rightarrow> coord \<Rightarrow> coord" where
  "async_sync_units_from_machine a k =
     (let pending = set (k_pending_unit_pushes k);
          weight = get RAW_TO_WEIGHT_UNIT (get_int ''weight_unit'' a);
          temp = get RAW_TO_TEMP_UNIT (get_int ''temp_unit'' a);
          water = get_int ''water_source'' a;
          (c1, k1) = (if weight \<noteq> None \<and> weight \<noteq> Some (k_weight_unit k) \<and> CONF_WEIGHT_UNIT \<notin> pending
                      then (True, k\<lparr>k_weight_unit := the weight\<rparr>) else (False, k));
          (c2, k2) = (if temp \<noteq> None \<and> temp \<noteq> Some (k_temp_unit k) \<and> CONF_TEMP_UNIT \<notin> pending
                      then (True, k1\<lparr>k_temp_unit := the temp\<rparr>) else (c1, k1));
          (c3, k3) = (if water \<in> {Some WATER_SOURCE_TANK, Some WATER_SOURCE_DIRECT} \<and>
                         water \<noteq> Some (k_water_source k) \<and> CONF_WATER_SOURCE \<notin> pending
                      then (True, k2\<lparr>k_water_source := the water\<rparr>) else (c2, k2))
      in if c3 then request UpdateListeners (request PersistOptions k3) else k3)"

text \<open>The options dictionary of the config entry, where a key may be absent.\<close>

record unit_options =
  opt_weight_unit :: "string option"
  opt_temp_unit :: "string option"
  opt_water_source :: "int option"

definition handle_unit_options_change :: "unit_options \<Rightarrow> coord \<Rightarrow> coord" where
  "handle_unit_options_change options k =
     (let weight = (case opt_weight_unit options of None \<Rightarrow> k_weight_unit k | Some v \<Rightarrow> v);
          temp = (case opt_temp_unit options of None \<Rightarrow> k_temp_unit k | Some v \<Rightarrow> v);
          water = (case opt_water_source options of None \<Rightarrow> k_water_source k | Some v \<Rightarrow> v);
          changed = (if weight \<noteq> k_weight_unit k then [CONF_WEIGHT_UNIT] else []) @
                    (if temp \<noteq> k_temp_unit k then [CONF_TEMP_UNIT] else []) @
                    (if water \<noteq> k_water_source k then [CONF_WATER_SOURCE] else [])
      in if changed = [] then k
         else request PushUnitPreferences
           (k\<lparr>k_weight_unit := weight, k_temp_unit := temp, k_water_source := water,
              k_pending_unit_pushes := List.union changed (k_pending_unit_pushes k)\<rparr>))"

section \<open>Connecting and disconnecting\<close>

text \<open>
  Home Assistant's Bluetooth stack, as the world sees it when asked: the outcome of establishing a
  link, of the two subscriptions, and of hanging up.
\<close>

record ble_stack =
  st_establish :: "world \<Rightarrow> bool res"
  st_subscribe :: "world \<Rightarrow> unit res"
  st_subscribe_read :: "world \<Rightarrow> unit res"
  st_hang_up :: "world \<Rightarrow> unit res"

definition stack_connect :: "ble_stack \<Rightarrow> bool co" where
  "stack_connect B w = client_connect (st_establish B w) (st_subscribe B w) (st_subscribe_read B w) w"

definition stack_disconnect :: "ble_stack \<Rightarrow> unit co" where
  "stack_disconnect B w = client_disconnect (st_hang_up B w) w"

text \<open>A fresh client on a fresh connection object.\<close>

definition new_client :: "coord \<Rightarrow> coord" where
  "new_client k =
     k\<lparr>k_client := True,
       k_world := (k_world k)\<lparr>w_client := (init_client (k_now k))\<lparr>cleanup_on_disconnect := False\<rparr>,
                               w_link := False, w_expect_disconnect := False\<rparr>\<rparr>"

definition schedule_machine_info_retry :: "coord \<Rightarrow> coord" where
  "schedule_machine_info_retry k =
     (if k_machine_info_task k then k
      else if k_client k \<and> serial_number (k_status k) \<noteq> [] then k
      else request MachineInfoRetryLoop (k\<lparr>k_machine_info_task := True\<rparr>))"

definition after_connected :: "(string \<Rightarrow> coord \<Rightarrow> coord) \<Rightarrow> bool ko" where
  "after_connected meanwhile =
     then_co (modify note_connect_success)
    (then_co (\<lambda>k. if k_pending_unit_pushes k \<noteq> [] then apply_unit_preferences True meanwhile k else (Inr (), k))
    (then_co (modify (request AsyncRefresh))
    (then_co (modify schedule_machine_info_retry)
    (then_co (modify (\<lambda>k. if serial_number (k_status k) \<noteq> [] then request RefreshAdvancedSettings k else k))
    (then_co (modify (\<lambda>k. k\<lparr>k_client := True\<rparr>))
      (return_co True))))))"

definition connect_failed :: "bool ko" where
  "connect_failed =
     then_co log_connect_failure (then_co (modify (\<lambda>k. k\<lparr>k_client := False\<rparr>)) (return_co False))"

definition async_connect :: "ble_stack \<Rightarrow> (string \<Rightarrow> coord \<Rightarrow> coord) \<Rightarrow> bool ko" where
  "async_connect B meanwhile k =
     (if k_connected k then (Inr True, k)
      else let k1 = note_activity (k\<lparr>k_manual_disconnect := False, k_idle_disconnected := False\<rparr>)
        in catch_co
             (bind_co (on_world (stack_connect B)) (\<lambda>ok.
                if ok then after_connected meanwhile else connect_failed))
             (\<lambda>_. connect_failed) (new_client k1))"

definition async_disconnect :: "ble_stack \<Rightarrow> unit ko" where
  "async_disconnect B k =
     (let k1 = k\<lparr>k_manual_disconnect := True, k_machine_info_task := False\<rparr>;
          k2 = (if k_client k1
                then (snd (on_world (stack_disconnect B) k1))\<lparr>k_client := False\<rparr> else k1)
      in (Inr (), request AsyncRefresh k2))"

definition async_drop_stale_link :: "ble_stack \<Rightarrow> unit ko" where
  "async_drop_stale_link B =
     then_co (async_disconnect B)
       (modify (\<lambda>k. k\<lparr>k_manual_disconnect := False, k_force_reconnect_pending := False\<rparr>))"

definition async_enter_idle_standby :: "ble_stack \<Rightarrow> unit ko" where
  "async_enter_idle_standby B =
     then_co (modify (\<lambda>k. k\<lparr>k_idle_disconnected := True\<rparr>))
    (then_co (async_disconnect B)
      (modify (\<lambda>k. k\<lparr>k_idle_standby_pending := False\<rparr>)))"

definition async_ensure_connected :: "ble_stack \<Rightarrow> (string \<Rightarrow> coord \<Rightarrow> coord) \<Rightarrow> bool ko" where
  "async_ensure_connected B meanwhile k =
     (let k1 = note_activity k
      in if k_connected k1 then (Inr True, k1)
         else if k_idle_disconnected k1 then async_connect B meanwhile k1
         else (Inr (check_connected k1), k1))"

definition async_push_unit_preferences :: "ble_stack \<Rightarrow> (string \<Rightarrow> coord \<Rightarrow> coord) \<Rightarrow> unit ko" where
  "async_push_unit_preferences B meanwhile k =
     (case async_ensure_connected B meanwhile k of
        (Inl _, k1) \<Rightarrow> (Inr (), k1)
      | (Inr _, k1) \<Rightarrow>
          if k_pending_unit_pushes k1 = [] then (Inr (), k1)
          else apply_unit_preferences (k_client k1) meanwhile k1)"

section \<open>Mode switching\<close>

definition hex_digit :: "char \<Rightarrow> nat option" where
  "hex_digit c = (let n = of_char c :: nat in
     if 48 \<le> n \<and> n \<le> 57 then Some (n - 48)
     else if 97 \<le> n \<and> n \<le> 102 then Some (n - 87) else None)"

text \<open>\<^verbatim>\<open>bytes.fromhex\<close> on an even number of digits.\<close>

fun from_hex :: "string \<Rightarrow> bytes" where
  "from_hex (a # b # cs) =
     (case (hex_digit a, hex_digit b) of (Some x, Some y) \<Rightarrow> of_nat (16 * x + y) # from_hex cs | _ \<Rightarrow> [])"
| "from_hex _ = []"

definition CMD_EASYMODE :: int where "CMD_EASYMODE = 11511"

text \<open>The acknowledgement is polled every tenth of a second; \<open>n\<close> polls are left.\<close>

primrec await_mode_ack :: "nat \<Rightarrow> string \<Rightarrow> bool ko" where
  "await_mode_ack 0 target = return_co False"
| "await_mode_ack (Suc n) target =
     then_co (on_world (sleep (1 / 10)))
       (\<lambda>k. if \<not> k_client k then (Inl AttributeError, k)
            else if mode_ack_hex (k_status k) = Some target then (Inr True, k)
            else await_mode_ack n target k)"

definition MODE_ACK_POLLS :: nat where "MODE_ACK_POLLS = 15"

primrec mode_attempts :: "nat \<Rightarrow> string \<Rightarrow> bool ko" where
  "mode_attempts 0 target = return_co False"
| "mode_attempts (Suc n) target =
     then_co (on_client (send_command_raw CMD_EASYMODE (from_hex target) 2))
    (bind_co (await_mode_ack MODE_ACK_POLLS target) (\<lambda>ok k.
       if ok then (Inr True, k)
       else if \<not> k_client k then (Inl AttributeError, k)
       else if \<not> is_sleeping (k_status k) then (Inr False, k)
       else mode_attempts n target k))"

definition async_switch_mode_with_retry :: "string \<Rightarrow> bool ko" where
  "async_switch_mode_with_retry md =
     (case map_of MODE_SWITCH_HEX md of
        None \<Rightarrow> raise_co KeyError
      | Some target \<Rightarrow> mode_attempts MODE_SWITCH_MAX_ATTEMPTS target)"

definition async_set_mode :: "ble_stack \<Rightarrow> (string \<Rightarrow> coord \<Rightarrow> coord) \<Rightarrow> string \<Rightarrow> unit ko" where
  "async_set_mode B meanwhile md =
     bind_co (async_ensure_connected B meanwhile) (\<lambda>ok.
       if \<not> ok then return_co ()
       else let m = py_lower (py_strip md)
         in if m \<notin> {''pro'', ''easy''} then raise_co ValueError
            else catch_co
                (then_co (async_switch_mode_with_retry m)
                (then_co (modify (\<lambda>k. request PersistOptions (k\<lparr>k_mode := m\<rparr>)))
                  (modify (request AsyncRefresh))))
                (\<lambda>_. return_co ()))"

section \<open>Waking and retrying\<close>

definition WAKE_POLLS :: nat where "WAKE_POLLS = 30"

primrec wait_awake :: "nat \<Rightarrow> bool ko" where
  "wait_awake 0 = (\<lambda>k. (Inr (\<not> k_asleep k), k))"
| "wait_awake (Suc n) = (\<lambda>k. if \<not> k_asleep k then (Inr True, k)
     else then_co (on_world (sleep (1 / 10))) (wait_awake n) k)"

definition async_wait_awake :: "bool ko" where "async_wait_awake = wait_awake WAKE_POLLS"

definition reconnect_to_wake :: "ble_stack \<Rightarrow> (string \<Rightarrow> coord \<Rightarrow> coord) \<Rightarrow> unit ko" where
  "reconnect_to_wake B meanwhile =
     then_co (async_disconnect B)
    (then_co (modify (\<lambda>k. k\<lparr>k_manual_disconnect := False\<rparr>))
    (then_co (async_connect B meanwhile) (return_co ())))"

definition async_wake_machine :: "ble_stack \<Rightarrow> (string \<Rightarrow> coord \<Rightarrow> coord) \<Rightarrow> unit ko" where
  "async_wake_machine B meanwhile =
     bind_co (\<lambda>k. if k_client k
                   then then_co (on_client async_send_handshake) async_wait_awake k
                   else (Inr False, k))
       (\<lambda>woke k. if woke \<or> k_armed_operation k \<noteq> None then (Inr (), k)
                 else reconnect_to_wake B meanwhile k)"

text \<open>One attempt and up to \<open>n\<close> more.\<close>

primrec retry_attempts :: "nat \<Rightarrow> bool \<Rightarrow> 'a ko \<Rightarrow> 'a ko" where
  "retry_attempts 0 asleep action = action"
| "retry_attempts (Suc n) asleep action = (\<lambda>k.
     case action k of
       (Inl e, k1) \<Rightarrow>
         if e = AckTimeout \<and> (asleep \<or> k_asleep k1)
         then then_co (on_world (sleep WAKE_RETRY_DELAY_S)) (retry_attempts n asleep action) k1
         else (Inl e, k1)
     | (Inr x, k1) \<Rightarrow>
         if \<not> k_asleep k1 then (Inr x, k1)
         else then_co (on_world (sleep WAKE_RETRY_DELAY_S)) (retry_attempts n asleep action) k1)"

definition async_retry_while_sleeping :: "ble_stack \<Rightarrow> (string \<Rightarrow> coord \<Rightarrow> coord) \<Rightarrow> 'a ko \<Rightarrow> 'a ko" where
  "async_retry_while_sleeping B meanwhile action k =
     (let asleep = k_asleep k
      in then_co (if asleep then async_wake_machine B meanwhile else return_co ())
           (retry_attempts (WAKE_RETRY_MAX_ATTEMPTS - 1) asleep action) k)"

section \<open>Filling in the machine's identity\<close>

definition MACHINE_INFO_RETRY_DELAYS_S :: "rat list" where
  "MACHINE_INFO_RETRY_DELAYS_S = [3, 5, 10, 20, 30]"

definition DI_SERIAL_UUID :: string where "DI_SERIAL_UUID = ''00002a25-0000-1000-8000-00805f9b34fb''"
definition DI_FIRMWARE_UUID :: string where "DI_FIRMWARE_UUID = ''00002a26-0000-1000-8000-00805f9b34fb''"
definition DI_SOFTWARE_UUID :: string where "DI_SOFTWARE_UUID = ''00002a28-0000-1000-8000-00805f9b34fb''"

text \<open>
  The Device Information characteristics; \<open>read\<close> is what bleak's \<^verbatim>\<open>read_gatt_char\<close> answers.
\<close>

definition set_text :: "bool \<Rightarrow> string \<Rightarrow> device_status \<Rightarrow> device_status" where
  "set_text is_serial text s = (if is_serial then s\<lparr>serial_number := text\<rparr> else s\<lparr>version := text\<rparr>)"

definition read_device_char :: "(string \<Rightarrow> bytes res) \<Rightarrow> string \<times> bool \<Rightarrow> device_status \<Rightarrow> device_status" where
  "read_device_char read target s = (case target of (uuid, is_serial) \<Rightarrow>
     if (if is_serial then serial_number s else version s) \<noteq> [] then s
     else case read uuid of
       Inl _ \<Rightarrow> s
     | Inr raw \<Rightarrow>
         if raw = [] then s
         else let text = strict_ascii raw in if text = [] then s else set_text is_serial text s)"

definition try_read_device_info_chars :: "(string \<Rightarrow> bytes res) \<Rightarrow> bool ko" where
  "try_read_device_info_chars read k =
     (if \<not> k_connected k then (Inr False, k)
      else let s = fold (read_device_char read)
             [(DI_SERIAL_UUID, True), (DI_FIRMWARE_UUID, False), (DI_SOFTWARE_UUID, False)] (k_status k)
        in (Inr (serial_number s \<noteq> [] \<or> version s \<noteq> []),
            k\<lparr>k_world := (k_world k)\<lparr>w_client := (w_client (k_world k))\<lparr>status := s\<rparr>\<rparr>\<rparr>))"

primrec machine_info_retries :: "(string \<Rightarrow> bytes res) \<Rightarrow> rat list \<Rightarrow> unit ko" where
  "machine_info_retries read [] = return_co ()"
| "machine_info_retries read (delay # delays) =
     then_co (on_world (sleep delay)) (\<lambda>k.
       if \<not> k_connected k then (Inr (), k)
       else if serial_number (k_status k) \<noteq> []
       then (Inr (), request RefreshAdvancedSettings (request AsyncRefresh k))
       else bind_co (try_read_device_info_chars read) (\<lambda>filled.
         if filled then modify (\<lambda>k. request RefreshAdvancedSettings (request AsyncRefresh k))
         else then_co (catch_co (on_client async_send_handshake) (\<lambda>_. return_co False))
                (machine_info_retries read delays)) k)"

definition machine_info_retry_loop :: "(string \<Rightarrow> bytes res) \<Rightarrow> unit ko" where
  "machine_info_retry_loop read = machine_info_retries read MACHINE_INFO_RETRY_DELAYS_S"

section \<open>What the dispatch of events leaves alone\<close>

definition sup_view where
  "sup_view k = ((k_world k, k_client k, k_manual_disconnect k, k_idle_disconnected k, k_reconnect_failures k,
     k_reconnect_blocked_until k, k_machine_info_task k),
     (k_weight_unit k, k_temp_unit k, k_water_source k, k_pending_unit_pushes k, k_mode k),
     (k_force_reconnect_pending k, k_idle_standby_pending k, k_session_timeout k, k_last_activity_monotonic k))"

lemma sup_view_upd [simp]:
  "sup_view (k\<lparr>k_grind_size := x1\<rparr>) = sup_view k" "sup_view (k\<lparr>k_rpm := x1\<rparr>) = sup_view k"
  "sup_view (k\<lparr>k_temperature := x1\<rparr>) = sup_view k" "sup_view (k\<lparr>k_pour_pattern := x1\<rparr>) = sup_view k"
  "sup_view (k\<lparr>k_volume := x1\<rparr>) = sup_view k" "sup_view (k\<lparr>k_tasks := x2\<rparr>) = sup_view k"
  "sup_view (k\<lparr>k_water_shortage := x3\<rparr>) = sup_view k"
  "sup_view (k\<lparr>k_pod_prompt_active := x3\<rparr>) = sup_view k"
  "sup_view (k\<lparr>k_armed_operation := x4, k_active_operation := x5\<rparr>) = sup_view k"
  "sup_view (k\<lparr>k_active_operation := x5\<rparr>) = sup_view k"
  "sup_view (k\<lparr>k_armed_operation := x4\<rparr>) = sup_view k"
  "sup_view (k\<lparr>k_current_pour_index := x6, k_flow_rate := x7\<rparr>) = sup_view k"
  "sup_view (start_recipe_run k) = sup_view k" "sup_view (finish_run k) = sup_view k"
  by (simp_all add: sup_view_def start_recipe_run_def finish_run_def clear_manual_run_def)

lemma sup_view_knobs [simp]:
  "sup_view (apply_grinder_knob st a k) = sup_view k"
  "sup_view (apply_brewer_knob st a k) = sup_view k"
  "sup_view (apply_brewer_page_entry st a k) = sup_view k"
  by (auto simp: knob_parts request_def Let_def split: option.splits pyfloat.splits)

lemma sup_view_parts [simp]:
  "sup_view (track_pod_prompt cat ty k) = sup_view k"
  "sup_view (armed_to_active cat ty k) = sup_view k"
  "sup_view (snd (water_latch cat ty k)) = sup_view k"
  "sup_view (request t k) = sup_view k"
  by (simp_all add: track_pod_prompt_def armed_to_active_def water_latch_def request_def)

lemma sup_view_track [simp]: "sup_view (snd (track_run cat ty a k)) = sup_view k"
  by (simp add: track_run_def Let_def split: option.split)

lemma dispatch_event_sup [simp]: "sup_view (dispatch_event st (cat, ty, a) k) = sup_view k"
  by (simp add: dispatch_event_def Let_def split_beta)

lemma dispatch_events_sup [simp]: "sup_view (dispatch_events evs k) = sup_view k"
  by (induction evs arbitrary: k) (auto simp: dispatch_events_def)

lemma dispatch_events_fields [simp]:
  "k_world (dispatch_events evs k) = k_world k" "k_client (dispatch_events evs k) = k_client k"
  "k_manual_disconnect (dispatch_events evs k) = k_manual_disconnect k"
  "k_idle_disconnected (dispatch_events evs k) = k_idle_disconnected k"
  "k_reconnect_failures (dispatch_events evs k) = k_reconnect_failures k"
  "k_reconnect_blocked_until (dispatch_events evs k) = k_reconnect_blocked_until k"
  "k_weight_unit (dispatch_events evs k) = k_weight_unit k"
  "k_temp_unit (dispatch_events evs k) = k_temp_unit k"
  "k_water_source (dispatch_events evs k) = k_water_source k"
  "k_pending_unit_pushes (dispatch_events evs k) = k_pending_unit_pushes k"
  using dispatch_events_sup [of evs k] by (simp_all only: sup_view_def prod.inject)

lemma hook_fields [simp]:
  "k_world (handle_unexpected_disconnect k) = k_world k"
  "k_manual_disconnect (handle_unexpected_disconnect k) = k_manual_disconnect k"
  "k_idle_disconnected (handle_unexpected_disconnect k) = k_idle_disconnected k"
  "k_reconnect_failures (handle_unexpected_disconnect k) = k_reconnect_failures k"
  "k_reconnect_blocked_until (handle_unexpected_disconnect k) = k_reconnect_blocked_until k"
  "k_weight_unit (handle_unexpected_disconnect k) = k_weight_unit k"
  "k_temp_unit (handle_unexpected_disconnect k) = k_temp_unit k"
  "k_water_source (handle_unexpected_disconnect k) = k_water_source k"
  "k_pending_unit_pushes (handle_unexpected_disconnect k) = k_pending_unit_pushes k"
  by (simp_all add: handle_unexpected_disconnect_def)

lemma on_world_fields [simp]:
  "k_manual_disconnect (snd (on_world m k)) = k_manual_disconnect k"
  "k_idle_disconnected (snd (on_world m k)) = k_idle_disconnected k"
  "k_reconnect_failures (snd (on_world m k)) = k_reconnect_failures k"
  "k_reconnect_blocked_until (snd (on_world m k)) = k_reconnect_blocked_until k"
  "k_weight_unit (snd (on_world m k)) = k_weight_unit k"
  "k_temp_unit (snd (on_world m k)) = k_temp_unit k"
  "k_water_source (snd (on_world m k)) = k_water_source k"
  "k_pending_unit_pushes (snd (on_world m k)) = k_pending_unit_pushes k"
  by (simp_all add: on_world_def Let_def split_beta)

lemma on_world_run [simp]:
  "fst (on_world m k) = fst (m (k_world k))" "k_world (snd (on_world m k)) = snd (m (k_world k))"
  by (simp_all add: on_world_def Let_def split_beta)

section \<open>Backoff\<close>

lemma round64_scaled:
  fixes m :: int
  assumes "1 \<le> m" "m < 2 ^ 52"
  shows "round64 (of_int m * 2 ^ n) = of_int m * 2 ^ n"
  unfolding round64_def
proof (rule round_to_exact [where m = m and k = "int n"])
  let ?x = "of_int m * 2 ^ n :: rat"
  have x: "0 < ?x" using assms(1) by simp
  have "(of_int m :: rat) < of_int (2 ^ 52)" using assms(2) by (simp only: of_int_less_iff)
  then have "?x < 2 powi (52 + int n)"
    by (simp add: power_int_add)
  with floor_log2_bounds(1) [OF x] have "floor_log2 ?x < 52 + int n"
    using powi_2_less order_le_less_trans by blast
  then show "quantum 53 (- 1074) ?x \<le> int n" using x by (simp add: quantum_def)
qed (simp add: power_int_def)

lemma to_double_scaled:
  assumes "1 \<le> m" "m < 2 ^ 52"
  shows "to_double (of_int m * 2 ^ n)
    = (if (2 :: rat) powi 1024 \<le> of_int m * 2 ^ n then PInf else Fin (of_int m * 2 ^ n))"
proof -
  have x: "0 < (of_int m * 2 ^ n :: rat)" using assms(1) by simp
  have "\<not> of_int m * 2 ^ n \<le> - ((2 :: rat) powi 1024)"
  proof
    assume "of_int m * 2 ^ n \<le> - ((2 :: rat) powi 1024)"
    with x have "0 < - ((2 :: rat) powi 1024)" by (rule order.strict_trans2)
    then show False using powi_pos [of 1024] by (simp only: neg_0_less_iff_less)
  qed
  then show ?thesis by (simp only: to_double_def overflow64_def round64_scaled [OF assms] if_False)
qed

lemma float_of_pow2:
  "float_of_int (2 ^ n) = (if n < 1024 then Inr (Fin (2 ^ n)) else Inl OverflowError)"
proof -
  have "(2 :: rat) powi 1024 \<le> of_int 1 * 2 ^ n \<longleftrightarrow> 1024 \<le> n"
    using power_increasing_iff [of "2 :: rat" 1024 n] by (simp add: power_int_def)
  then show ?thesis
    using to_double_scaled [of 1 n] by (simp add: float_of_int_def)
qed

lemma backoff_delay_value:
  "backoff_delay (Suc n) = (if n < 1024 then Inr (Fin (min (5 * 2 ^ n) 300)) else Inl OverflowError)"
proof (cases "n < 1024")
  case True
  have d: "to_double (5 * 2 ^ n) = (if (2 :: rat) powi 1024 \<le> 5 * 2 ^ n then PInf else Fin (5 * 2 ^ n))"
    using to_double_scaled [of 5 n] by simp
  have "fmin (to_double (5 * 2 ^ n)) (Fin 300) = Fin (min (5 * 2 ^ n) 300)"
  proof (cases "(2 :: rat) powi 1024 \<le> 5 * 2 ^ n")
    case True
    moreover have "(300 :: rat) \<le> 2 powi 1024" by (simp add: power_int_def)
    ultimately have "(300 :: rat) \<le> 5 * 2 ^ n" by (rule order.trans [rotated])
    then show ?thesis using True by (simp add: d fmin_def min_def)
  next
    case False
    then show ?thesis by (simp add: d fmin_def min_def not_le)
  qed
  then show ?thesis
    using True by (simp add: backoff_delay_def float_of_pow2 RECONNECT_BACKOFF_BASE_S_def RECONNECT_BACKOFF_MAX_S_def)
qed (simp add: backoff_delay_def float_of_pow2)

lemma note_connect_failure_run:
  "note_connect_failure k =
     (if k_reconnect_failures k < 1024
      then (Inr (k_reconnect_failures k + 1),
            k\<lparr>k_reconnect_failures := k_reconnect_failures k + 1,
              k_reconnect_blocked_until := k_now k + min (5 * 2 ^ k_reconnect_failures k) 300\<rparr>)
      else (Inl OverflowError, k\<lparr>k_reconnect_failures := k_reconnect_failures k + 1\<rparr>))"
  by (simp add: note_connect_failure_def backoff_delay_value)

section \<open>A connect that fails\<close>

lemma establish_fails:
  assumes "\<not> w_link w" "st_establish B w \<noteq> Inr True"
  shows "fst (stack_connect B w) = Inr False \<and> \<not> w_link (snd (stack_connect B w))
    \<and> w_now (snd (stack_connect B w)) = w_now w \<and> w_client (snd (stack_connect B w)) = w_client w"
  using assms by (auto simp: stack_connect_def client_connect_def connection_connect_def split: sum.splits)

definition connect_start :: "coord \<Rightarrow> coord" where
  "connect_start k =
     new_client (note_activity (k\<lparr>k_manual_disconnect := False, k_idle_disconnected := False\<rparr>))"

lemma connect_start_fields [simp]:
  "w_link (k_world (connect_start k)) = False" "k_client (connect_start k)"
  "k_reconnect_failures (connect_start k) = k_reconnect_failures k"
  "k_reconnect_blocked_until (connect_start k) = k_reconnect_blocked_until k"
  "k_now (connect_start k) = k_now k" "\<not> k_idle_disconnected (connect_start k)"
  "\<not> k_manual_disconnect (connect_start k)"
  by (simp_all add: connect_start_def new_client_def note_activity_def)

lemma async_connect_unfold:
  "\<not> k_connected k \<Longrightarrow> async_connect B meanwhile k = catch_co
     (bind_co (on_world (stack_connect B)) (\<lambda>ok. if ok then after_connected meanwhile else connect_failed))
     (\<lambda>_. connect_failed) (connect_start k)"
  unfolding async_connect_def connect_start_def Let_def by (simp only: if_False)

lemma async_connect_fails:
  assumes "\<not> k_connected k" "st_establish B (k_world (connect_start k)) \<noteq> Inr True"
  defines "k1 \<equiv> snd (on_world (stack_connect B) (connect_start k))"
  shows "async_connect B meanwhile k = (case connect_failed k1 of (Inl e, k2) \<Rightarrow> connect_failed k2 | (Inr x, k2) \<Rightarrow> (Inr x, k2))"
    "k_client k1" "k_reconnect_failures k1 = k_reconnect_failures k" "k_now k1 = k_now k"
    "k_reconnect_blocked_until k1 = k_reconnect_blocked_until k"
proof -
  note e = establish_fails [OF _ assms(2), simplified]
  have "fst (on_world (stack_connect B) (connect_start k)) = Inr False" using e by simp
  then have run: "on_world (stack_connect B) (connect_start k) = (Inr False, k1)"
    by (metis k1_def prod.collapse)
  show "async_connect B meanwhile k = (case connect_failed k1 of (Inl e, k2) \<Rightarrow> connect_failed k2 | (Inr x, k2) \<Rightarrow> (Inr x, k2))"
    unfolding async_connect_unfold [OF assms(1)] catch_co_def bind_co_run [where m = "on_world (stack_connect B)", OF run] by simp
  show "k_client k1" unfolding k1_def by (simp add: on_world_def Let_def split_beta)
  show "k_reconnect_failures k1 = k_reconnect_failures k" "k_now k1 = k_now k"
    "k_reconnect_blocked_until k1 = k_reconnect_blocked_until k"
    unfolding k1_def using e by simp_all
qed

section \<open>Properties\<close>

text \<open>
  C27. A connect that cannot establish a link returns false, drops the client and blocks the
  supervisor for five seconds doubled per consecutive failure, at most three hundred; but from the
  1025th consecutive failure on the delay overflows a float, and the connect raises instead, keeping
  the dead client and the old block, so that every following poll tries again at once.
\<close>

theorem failed_connect_backs_off:
  assumes "\<not> k_connected k" "st_establish B (k_world (connect_start k)) \<noteq> Inr True"
    "async_connect B meanwhile k = (r, k')"
  shows "if k_reconnect_failures k < 1024
    then r = Inr False \<and> \<not> k_client k' \<and> k_reconnect_failures k' = k_reconnect_failures k + 1 \<and>
      k_reconnect_blocked_until k' = k_now k + min (5 * 2 ^ k_reconnect_failures k) 300
    else r = Inl OverflowError \<and> k_client k' \<and> k_reconnect_blocked_until k' = k_reconnect_blocked_until k"
proof -
  define k1 where "k1 = snd (on_world (stack_connect B) (connect_start k))"
  note f = async_connect_fails [OF assms(1,2), folded k1_def]
  show ?thesis
    using assms(3) unfolding f(1)
    by (auto simp: connect_failed_def log_connect_failure_def then_co_def bind_co_def modify_def
        note_connect_failure_run f(2-) split: if_splits)
qed

definition offline_stack :: ble_stack where
  "offline_stack = \<lparr>st_establish = (\<lambda>_. Inl ConnectionError), st_subscribe = (\<lambda>_. Inr ()),
     st_subscribe_read = (\<lambda>_. Inr ()), st_hang_up = (\<lambda>_. Inr ())\<rparr>"

theorem failed_connect_backs_off_witness:
  "fst (async_connect offline_stack (\<lambda>_ k. k) (demo_coord\<lparr>k_client := False, k_reconnect_failures := 3\<rparr>)) = Inr False
   \<and> fst (async_connect offline_stack (\<lambda>_ k. k) (demo_coord\<lparr>k_client := False, k_reconnect_failures := 1024\<rparr>))
     = Inl OverflowError"
proof -
  have "\<not> k_connected (demo_coord\<lparr>k_client := False, k_reconnect_failures := n\<rparr>)"
    "st_establish offline_stack w \<noteq> Inr True" for n w
    by (simp_all add: offline_stack_def)
  note run = failed_connect_backs_off [OF this surjective_pairing, of _ "\<lambda>_ k. k"]
  show ?thesis using run [of 3] run [of 1024] by simp
qed

section \<open>A timed-out send was sent\<close>

lemma pack_no_timeout: "pack_I n \<noteq> Inl AckTimeout" "pack_H n \<noteq> Inl AckTimeout"
  by (simp_all add: pack_I_def pack_H_def pack_le_def)

lemma map_pack_no_timeout: "map_res pack_I d \<noteq> Inl AckTimeout"
  by (induction d) (auto simp: bind_res_def pack_no_timeout split: sum.splits)

lemma build_no_timeout: "build_packet_raw command data ty dev \<noteq> Inl AckTimeout"
  by (auto simp: build_packet_raw_def append_byte_def Let_def bind_res_def pack_no_timeout split: sum.splits if_splits)

lemma write_no_timeout: "fst (write_command data w) \<noteq> Inl AckTimeout"
proof -
  have "fst (gatt_write_all cs v) \<noteq> Inl AckTimeout" for cs v
  proof (induction cs arbitrary: v)
    case (Cons c cs)
    obtain t w1 where nt: "next_tick v = (t, w1)" by (cases "next_tick v")
    show ?case using Cons.IH by (simp add: then_co_def bind_co_def gatt_write_def nt Let_def)
  qed simp
  then show ?thesis by (simp add: write_command_def Let_def)
qed

lemma send_payload_no_timeout: "fst (send_payload command (Data d) ty w) \<noteq> Inl AckTimeout"
proof (cases "map_res pack_I d")
  case (Inl e)
  then show ?thesis
    using map_pack_no_timeout [of d] by (auto simp: send_command_def bind_co_def)
next
  case (Inr parts)
  show ?thesis
  proof (cases "build_packet_raw command (concat parts) ty DEVICE_ID")
    case (Inl e)
    then show ?thesis
      using Inr build_no_timeout by (auto simp: send_command_def bind_co_def build_packet_def)
  next
    case p: (Inr packet)
    show ?thesis
      using Inr p write_no_timeout [of packet w]
      by (cases "write_command packet w")
        (auto simp: send_command_def then_co_def bind_co_def build_packet_def log_sent_def split: sum.splits)
  qed
qed

definition was_sent :: "int \<Rightarrow> int list \<Rightarrow> world \<Rightarrow> bool" where
  "was_sent command payload w \<longleftrightarrow>
     (\<exists>e\<in>set (w_sent w). s_command e = command \<and> payload_bytes (Data payload) = Inr (s_payload e))"

lemma send_and_wait_was_sent:
  assumes "send_and_wait command (Data d) timeout ty w = (r, w')" "is_ok r \<or> r = Inl AckTimeout"
  shows "was_sent command d w'"
proof -
  have "w_sent w' \<noteq> w_sent w"
  proof (cases "is_ok r")
    case True
    then show ?thesis using send_and_wait_sent [OF assms(1)] by auto
  next
    case False
    then have r: "r = Inl AckTimeout" using assms(2) by simp
    obtain r0 w1 where s: "send_payload command (Data d) ty (registered command w) = (r0, w1)" by fastforce
    have "is_ok r0"
    proof (rule ccontr)
      assume "\<not> is_ok r0"
      then obtain e where e: "r0 = Inl e" by (cases r0) auto
      have "r = Inl e" using assms(1) by (simp add: send_and_wait_unfold then_co_def bind_co_def s e del: send_payload.simps)
      then show False using r e s send_payload_no_timeout [of command d ty "registered command w"]
        by (simp del: send_payload.simps)
    qed
    then obtain b where "r0 = Inr b" by (cases r0) auto
    with s have "send_payload command (Data d) ty (registered command w) = (Inr b, w1)" by simp
    from send_payload_ok [OF this] obtain x where "w_sent w1 = w_sent w @ [x]"
      by (auto simp: registered_def)
    moreover have "w_sent w' = w_sent w1"
      using assms(1) wait_for_sent [of "w_next_future w" timeout w1]
      by (auto simp: send_and_wait_unfold then_co_def bind_co_def s \<open>r0 = Inr b\<close> Let_def
          simp del: send_payload.simps split: prod.splits)
    ultimately show ?thesis by simp
  qed
  then show ?thesis
    using send_and_wait_sent [OF assms(1)] by (auto simp: was_sent_def)
qed

section \<open>Pushing settings\<close>

text \<open>What a send leaves alone: the settings, the queue, and what was sent before.\<close>

definition units_step :: "coord \<Rightarrow> coord \<Rightarrow> bool" where
  "units_step k k' \<longleftrightarrow> k_weight_unit k' = k_weight_unit k \<and> k_temp_unit k' = k_temp_unit k \<and>
     k_water_source k' = k_water_source k \<and> k_pending_unit_pushes k' = k_pending_unit_pushes k \<and>
     set (w_sent (k_world k)) \<subseteq> set (w_sent (k_world k'))"

interpretation us: act_law units_step
  by unfold_locales (auto simp: units_step_def)

lemma units_on_world: "keeps progress m \<Longrightarrow> keeps units_step (on_world m)"
  unfolding keeps_def units_step_def progress_def by (simp, metis Un_upper1 set_append)

lemma keeps_unit_sleep: "keeps units_step (on_world (sleep d))"
proof -
  have "units_step k (snd (on_world (sleep d) k))" for k
    by (simp add: units_step_def sleep_sent)
  then show ?thesis by (simp add: keeps_def)
qed

lemma keeps_unit_send: "keeps units_step (on_world (send_and_wait command p ACK_TIMEOUT_S ty))"
  by (rule units_on_world) (rule pw.keeps_send_and_wait, simp add: ACK_TIMEOUT_S_def)

lemma keeps_step_attempts: "keeps units_step (unit_send_attempts n asleep command payload)"
proof (induction n)
  case (Suc n)
  have "units_step k (snd (unit_send_attempts (Suc n) asleep command payload k))" for k
  proof (cases "on_world (send_and_wait command (Data payload) ACK_TIMEOUT_S 1) k")
    case (Pair r k1)
    have 1: "units_step k k1" using keepsD [OF keeps_unit_send Pair] .
    let ?m = "then_co (if asleep then on_world (sleep WAKE_RETRY_DELAY_S) else return_co ())
      (unit_send_attempts n asleep command payload)"
    have "keeps units_step ?m"
      by (rule us.keeps_then) (simp_all add: Suc keeps_unit_sleep us.keeps_return)
    then have "units_step k (snd (?m k1))" using us.R_trans [OF 1] by (simp add: keeps_def)
    then show ?thesis using 1 by (cases asleep) (simp_all add: Pair split: sum.split)
  qed
  then show ?case by (simp add: keeps_def)
qed (simp add: us.keeps_then us.keeps_return keeps_unit_send)

lemma was_sent_mono: "was_sent c d w \<Longrightarrow> set (w_sent w) \<subseteq> set (w_sent w') \<Longrightarrow> was_sent c d w'"
  by (auto simp: was_sent_def)

lemma attempts_sent:
  "unit_send_attempts n asleep command payload k = (r, k') \<Longrightarrow> r = Inr () \<or> r = Inl AckTimeout \<Longrightarrow>
     was_sent command payload (k_world k')"
proof (induction n arbitrary: k)
  case 0
  obtain r1 k1 where run: "on_world (send_and_wait command (Data payload) ACK_TIMEOUT_S 1) k = (r1, k1)"
    by fastforce
  then have "send_and_wait command (Data payload) ACK_TIMEOUT_S 1 (k_world k) = (r1, k_world k1)"
    using on_world_run [of "send_and_wait command (Data payload) ACK_TIMEOUT_S 1" k] by (metis fst_conv snd_conv prod.collapse)
  moreover have "k' = k1" "is_ok r1 \<or> r1 = Inl AckTimeout"
    using 0 run by (auto simp: then_co_def bind_co_def split: sum.splits)
  ultimately show ?case using send_and_wait_was_sent by blast
next
  case (Suc n)
  obtain r1 k1 where run: "on_world (send_and_wait command (Data payload) ACK_TIMEOUT_S 1) k = (r1, k1)"
    by fastforce
  then have sw: "send_and_wait command (Data payload) ACK_TIMEOUT_S 1 (k_world k) = (r1, k_world k1)"
    using on_world_run [of "send_and_wait command (Data payload) ACK_TIMEOUT_S 1" k] by (metis fst_conv snd_conv prod.collapse)
  show ?case
  proof (cases "r1 = Inl AckTimeout")
    case True
    obtain u k2 where s: "(if asleep then on_world (sleep WAKE_RETRY_DELAY_S) else return_co ()) k1 = (u, k2)"
      by fastforce
    then have "u = Inr ()" by (auto simp: on_world_def sleep_def Let_def split_beta split: if_splits)
    then have "unit_send_attempts n asleep command payload k2 = (r, k')"
      using Suc.prems(1) s by (simp add: run True then_co_def bind_co_def)
    from Suc.IH [OF this Suc.prems(2)] show ?thesis .
  next
    case False
    then have "k' = k1" "is_ok r1 \<or> r1 = Inl AckTimeout"
      using Suc.prems by (auto simp: run split: sum.splits)
    then show ?thesis using sw send_and_wait_was_sent by blast
  qed
qed

lemma async_send_sent:
  "async_send_unit_command command payload k = (r, k') \<Longrightarrow> r = Inr () \<or> r = Inl AckTimeout \<Longrightarrow>
     was_sent command payload (k_world k')"
  unfolding async_send_unit_command_def Let_def by (rule attempts_sent)

lemma async_send_step: "async_send_unit_command command payload k = (r, k') \<Longrightarrow> units_step k k'"
  unfolding async_send_unit_command_def Let_def by (rule keepsD [OF keeps_step_attempts])

text \<open>
  A setting is accounted for since \<open>k0\<close>: it is queued, or it was in step at \<open>k0\<close> and has not
  changed, or the machine has been sent the value it has now.
\<close>

definition accounted :: "coord \<Rightarrow> string \<Rightarrow> coord \<Rightarrow> bool" where
  "accounted k0 key k \<longleftrightarrow>
     key \<in> set (k_pending_unit_pushes k) \<or>
     (key \<notin> set (k_pending_unit_pushes k0) \<and> unit_push_command key k = unit_push_command key k0) \<or>
     was_sent (fst (unit_push_command key k)) (snd (unit_push_command key k)) (k_world k)"

lemma units_step_command: "units_step k k' \<Longrightarrow> unit_push_command key k' = unit_push_command key k"
  by (simp add: units_step_def unit_push_command_def)

lemma accounted_step: "units_step k k' \<Longrightarrow> accounted k0 key k \<Longrightarrow> accounted k0 key k'"
  unfolding accounted_def
  by (auto simp: units_step_command dest: was_sent_mono) (auto simp: units_step_def intro: was_sent_mono)

lemma options_queue:
  "set (k_pending_unit_pushes k) \<subseteq> set (k_pending_unit_pushes (handle_unit_options_change options k))"
  "k_world (handle_unit_options_change options k) = k_world k"
  by (auto simp: handle_unit_options_change_def request_def Let_def)

lemma options_field_queued:
  "k_weight_unit (handle_unit_options_change options k) \<noteq> k_weight_unit k \<Longrightarrow>
     CONF_WEIGHT_UNIT \<in> set (k_pending_unit_pushes (handle_unit_options_change options k))"
  "k_temp_unit (handle_unit_options_change options k) \<noteq> k_temp_unit k \<Longrightarrow>
     CONF_TEMP_UNIT \<in> set (k_pending_unit_pushes (handle_unit_options_change options k))"
  "k_water_source (handle_unit_options_change options k) \<noteq> k_water_source k \<Longrightarrow>
     CONF_WATER_SOURCE \<in> set (k_pending_unit_pushes (handle_unit_options_change options k))"
  unfolding handle_unit_options_change_def Let_def by (simp_all add: request_def split: if_splits)

lemma options_changed_queued:
  assumes "key \<in> set UNIT_PUSH_ORDER" "unit_push_command key (handle_unit_options_change options k) \<noteq> unit_push_command key k"
  shows "key \<in> set (k_pending_unit_pushes (handle_unit_options_change options k))"
proof -
  consider "key = CONF_WEIGHT_UNIT" | "key = CONF_TEMP_UNIT" | "key = CONF_WATER_SOURCE"
    using assms(1) by (auto simp: UNIT_PUSH_ORDER_def)
  then show ?thesis
  proof cases
    case 1
    then have "k_weight_unit (handle_unit_options_change options k) \<noteq> k_weight_unit k"
      using assms(2) by (auto simp: unit_push_command_def)
    then show ?thesis using 1 options_field_queued(1) by simp
  next
    case 2
    then have "k_temp_unit (handle_unit_options_change options k) \<noteq> k_temp_unit k"
      using assms(2) by (auto simp: unit_push_command_def CONF_TEMP_UNIT_def CONF_WEIGHT_UNIT_def)
    then show ?thesis using 2 options_field_queued(2) by simp
  next
    case 3
    then have "k_water_source (handle_unit_options_change options k) \<noteq> k_water_source k"
      using assms(2) by (auto simp: unit_push_command_def CONF_TEMP_UNIT_def CONF_WEIGHT_UNIT_def CONF_WATER_SOURCE_def)
    then show ?thesis using 3 options_field_queued(3) by simp
  qed
qed

lemma options_accounted:
  assumes "key \<in> set UNIT_PUSH_ORDER" "accounted k0 key k"
  shows "accounted k0 key (handle_unit_options_change options k)"
proof (cases "unit_push_command key (handle_unit_options_change options k) = unit_push_command key k")
  case True
  then show ?thesis using assms(2) options_queue(1) [of k options] options_queue(2) [of options k] by (auto simp: accounted_def)
next
  case False
  then show ?thesis using options_changed_queued [OF assms(1)] by (simp add: accounted_def)
qed

definition changes_meanwhile :: "(string \<Rightarrow> unit_options list) \<Rightarrow> string \<Rightarrow> coord \<Rightarrow> coord" where
  "changes_meanwhile changes key = fold handle_unit_options_change (changes key)"

lemma changes_accounted:
  "key \<in> set UNIT_PUSH_ORDER \<Longrightarrow> accounted k0 key k \<Longrightarrow> accounted k0 key (changes_meanwhile changes q k)"
proof -
  have "accounted k0 key k \<Longrightarrow> accounted k0 key (fold handle_unit_options_change os k)"
    if "key \<in> set UNIT_PUSH_ORDER" for os
    using that by (induction os arbitrary: k) (auto intro: options_accounted)
  then show "key \<in> set UNIT_PUSH_ORDER \<Longrightarrow> accounted k0 key k \<Longrightarrow> ?thesis"
    by (simp add: changes_meanwhile_def)
qed

lemma changes_world: "k_world (changes_meanwhile changes q k) = k_world k"
proof -
  have "k_world (fold handle_unit_options_change os k) = k_world k" for os
    by (induction os arbitrary: k) (simp_all add: options_queue)
  then show ?thesis by (simp add: changes_meanwhile_def)
qed

lemma unit_push_command_queue [simp]:
  "unit_push_command key (k\<lparr>k_pending_unit_pushes := p\<rparr>) = unit_push_command key k"
  by (simp add: unit_push_command_def)

lemma command_id: "fst (unit_push_command key k) = fst (unit_push_command key k')"
  by (simp add: unit_push_command_def)

lemma push_accounted:
  assumes "key \<in> set UNIT_PUSH_ORDER" "set keys \<subseteq> set UNIT_PUSH_ORDER" "accounted k0 key k"
  shows "accounted k0 key (snd (push_units present (changes_meanwhile changes) keys sent k))"
  using assms(2,3)
proof (induction keys arbitrary: sent k)
  case (Cons q keys)
  show ?case
  proof (cases "q \<in> set (k_pending_unit_pushes k)")
    case False
    then show ?thesis using Cons by simp
  next
    case True
    obtain command payload where cp: "unit_push_command q k = (command, payload)" by fastforce
    obtain r k1 where run: "(if present then async_send_unit_command command payload k else (Inl AttributeError, k)) = (r, k1)"
      by fastforce
    let ?k2 = "changes_meanwhile changes q k1"
    have step: "units_step k k1"
      using run async_send_step us.R_refl by (cases present) auto
    have acc2: "accounted k0 key ?k2"
      by (rule changes_accounted [OF assms(1)]) (rule accounted_step [OF step Cons.prems(2)])
    let ?k3 = "if snd (unit_push_command q ?k2) = payload
      then ?k2\<lparr>k_pending_unit_pushes := removeAll q (k_pending_unit_pushes ?k2)\<rparr> else ?k2"
    have acc3: "accounted k0 key ?k3" if ok: "r = Inr () \<or> r = Inl AckTimeout"
    proof (cases "q = key \<and> snd (unit_push_command q ?k2) = payload")
      case True
      have "was_sent command payload (k_world k1)"
        using run ok async_send_sent by (cases present) auto
      moreover have "fst (unit_push_command q ?k2) = command" using command_id [of q ?k2 k] cp by simp
      ultimately have "was_sent (fst (unit_push_command key ?k2)) (snd (unit_push_command key ?k2)) (k_world ?k2)"
        using True by (auto simp: changes_world)
      then show ?thesis using True by (auto simp: accounted_def)
    next
      case False
      then show ?thesis using acc2 by (auto simp: accounted_def)
    qed
    show ?thesis
    proof (cases "r = Inr () \<or> r = Inl AckTimeout")
      case ok: True
      have "snd (push_units present (changes_meanwhile changes) (q # keys) sent k)
          = snd (push_units present (changes_meanwhile changes) keys True ?k3)"
        using True ok by (auto simp: cp run Let_def)
      then show ?thesis using Cons.IH [of ?k3 True] acc3 [OF ok] Cons.prems(1) by simp
    next
      case False
      then have "snd (push_units present (changes_meanwhile changes) (q # keys) sent k) = ?k2"
        using True by (simp add: cp run Let_def)
      then show ?thesis using acc2 by simp
    qed
  qed
qed simp

lemma keeps_return_home: "keeps units_step async_return_machine_home"
  unfolding async_return_machine_home_def
  by (intro us.keeps_then us.keeps_catch us.keeps_return keeps_unit_sleep keeps_unit_send)

text \<open>
  C5. No setting the user changes is lost, even when it is changed again while a push of settings is
  under way: afterwards every setting is still queued for the next push, or never differed from what
  the machine had, or the machine was sent exactly the value the coordinator now holds.
\<close>

theorem no_setting_is_lost:
  assumes "key \<in> set UNIT_PUSH_ORDER" "apply_unit_preferences present (changes_meanwhile changes) k = (r, k')"
  shows "accounted k key k'"
proof -
  obtain r1 k1 where push: "push_units present (changes_meanwhile changes) UNIT_PUSH_ORDER False k = (r1, k1)"
    by fastforce
  have "accounted k key k" by (auto simp: accounted_def)
  then have acc: "accounted k key k1"
    using push_accounted [OF assms(1) order_refl, of k k] push by (metis snd_conv)
  have "k' = k1 \<or> k' = snd (async_return_machine_home k1)"
    using assms(2) push by (auto simp: apply_unit_preferences_def bind_co_def split: sum.splits if_splits)
  then show ?thesis
    using acc accounted_step keeps_return_home by (metis keeps_def)
qed

theorem no_setting_is_lost_witness:
  "\<exists>k'. apply_unit_preferences False (changes_meanwhile (\<lambda>_. []))
      (demo_coord\<lparr>k_pending_unit_pushes := [''weight_unit'']\<rparr>) = (Inr (), k') \<and>
    accounted (demo_coord\<lparr>k_pending_unit_pushes := [''weight_unit'']\<rparr>) ''weight_unit'' k'"
proof -
  let ?k = "demo_coord\<lparr>k_pending_unit_pushes := [''weight_unit'']\<rparr>"
  have run: "apply_unit_preferences False (changes_meanwhile (\<lambda>_. [])) ?k = (Inr (), ?k)"
    by (simp add: apply_unit_preferences_def bind_co_def UNIT_PUSH_ORDER_def CONF_WEIGHT_UNIT_def
        changes_meanwhile_def split_beta)
  have "''weight_unit'' \<in> set UNIT_PUSH_ORDER" by (simp add: UNIT_PUSH_ORDER_def CONF_WEIGHT_UNIT_def)
  from no_setting_is_lost [OF this run] run show ?thesis by blast
qed

lemma disconnect_fields:
  "\<not> k_client (snd (async_disconnect B k))" "k_manual_disconnect (snd (async_disconnect B k))"
  "k_idle_disconnected (snd (async_disconnect B k)) = k_idle_disconnected k"
  by (simp_all add: async_disconnect_def request_def Let_def)

text \<open>
  C28. Idle standby keeps the link down until someone acts: after it the client is gone, a poll
  changes nothing and asks for no reconnect, and the next user action starts a connect.  A disconnect
  the user asks for holds the link down against polls in the same way, and the next action is refused
  without a connect, unless the link was already down for idle standby: then the action reconnects,
  because switching off does not clear the mark of idle standby.
\<close>

theorem idle_standby_holds:
  "(let k' = snd (async_enter_idle_standby B k) in
      \<not> k_client k' \<and> \<not> k_idle_standby_pending k' \<and>
      (\<forall>connecting. async_update_data connecting k' = (DEFAULT_STATE, k')) \<and>
      async_ensure_connected B meanwhile k' = async_connect B meanwhile (note_activity k'))
   \<and> (let k' = snd (async_disconnect B k) in
      \<not> k_client k' \<and> (\<forall>connecting. async_update_data connecting k' = (DEFAULT_STATE, k')) \<and>
      async_ensure_connected B meanwhile k' =
        (if k_idle_disconnected k then async_connect B meanwhile (note_activity k') else (Inr False, note_activity k')))"
proof -
  have dis: "fst (async_disconnect B q) = Inr ()" for q by (simp add: async_disconnect_def Let_def)
  obtain d where d: "async_disconnect B (k\<lparr>k_idle_disconnected := True\<rparr>) = (Inr (), d)"
    by (metis dis prod.collapse)
  have f: "\<not> k_client d" "k_manual_disconnect d" "k_idle_disconnected d"
    using disconnect_fields [of B "k\<lparr>k_idle_disconnected := True\<rparr>"] by (simp_all add: d)
  have "snd (async_enter_idle_standby B k) = d\<lparr>k_idle_standby_pending := False\<rparr>"
    by (simp add: async_enter_idle_standby_def then_co_def bind_co_def modify_def d)
  then show ?thesis
    using f disconnect_fields [of B k]
    by (simp add: async_update_data_def maybe_schedule_reconnect_def async_ensure_connected_def
        note_activity_def check_connected_def Let_def)
qed

text \<open>
  C21. With an awake machine the retry around a user action is no retry: an action that leaves the
  machine awake runs exactly once, with its own result or its own exception, so nothing is ever
  started twice.
\<close>

theorem retry_awake_is_single_shot:
  assumes "\<not> k_asleep k" "\<not> k_asleep (snd (action k))"
  shows "async_retry_while_sleeping B meanwhile action k = action k"
  using assms
  by (cases "action k")
    (auto simp: async_retry_while_sleeping_def WAKE_RETRY_MAX_ATTEMPTS_def then_co_def bind_co_def
      numeral_2_eq_2 split: sum.splits)

theorem retry_awake_is_single_shot_witness:
  "async_retry_while_sleeping offline_stack (\<lambda>_ k. k) (on_client (sleep 1)) demo_coord
     = on_client (sleep 1) demo_coord"
proof (rule retry_awake_is_single_shot)
  show "\<not> k_asleep demo_coord" by (simp add: k_asleep_def init_client_def init_status_def)
  show "\<not> k_asleep (snd (on_client (sleep 1) demo_coord))"
    by (simp add: k_asleep_def on_client_def sleep_def next_tick_def deliver_def quiet_def
        init_client_def init_status_def)
qed

end
