(* ===== verification/Operations.thy ===== *)
theory Operations
  imports Supervisor
begin

text \<open>
  The user's actions (\<^verbatim>\<open>coordinator/operations.py\<close> and \<^verbatim>\<open>coordinator/advanced_settings.py\<close>): manual
  pour and grind in one call or as arm and confirm, pause and resume, cancel with its verified
  stop, the scale, the live adjustment of an open page, calibration and the advanced settings.
\<close>

section \<open>Helpers\<close>

definition finally_co :: "'a ko \<Rightarrow> (coord \<Rightarrow> coord) \<Rightarrow> 'a ko" where
  "finally_co m f k = (fst (m k), f (snd (m k)))"

text \<open>\<^verbatim>\<open>if not await self._async_ensure_connected(): return x\<close>.\<close>

definition when_up :: "ble_stack \<Rightarrow> (string \<Rightarrow> coord \<Rightarrow> coord) \<Rightarrow> 'a \<Rightarrow> 'a ko \<Rightarrow> 'a ko" where
  "when_up B meanwhile x body =
     bind_co (async_ensure_connected B meanwhile) (\<lambda>ok. if ok then body else return_co x)"

text \<open>\<^verbatim>\<open>try: m; return x  except Exception: return y\<close>.\<close>

definition attempt :: "'b ko \<Rightarrow> 'a \<Rightarrow> 'a \<Rightarrow> 'a ko" where
  "attempt m x y = catch_co (then_co m (return_co x)) (\<lambda>_. return_co y)"

definition ARMED_QUIT_COMMANDS :: "(string \<times> int) list" where
  "ARMED_QUIT_COMMANDS =
     [(''grind'', CMD_GRINDER_QUIT), (''pour'', CMD_BREWER_QUIT), (''recipe'', CMD_RECIPE_START_QUIT)]"

definition STOP_VERIFY_ATTEMPTS :: nat where "STOP_VERIFY_ATTEMPTS = 10"
definition STOP_VERIFY_INTERVAL_S :: rat where "STOP_VERIFY_INTERVAL_S = 1 / 4"
definition STOP_TO_QUIT_SETTLE_S :: rat where "STOP_TO_QUIT_SETTLE_S = 1"
definition POUR_ARM_SETTLE_S :: rat where "POUR_ARM_SETTLE_S = 2"
definition POUR_ARM_PUSH_GAP_S :: rat where "POUR_ARM_PUSH_GAP_S = 1 / 2"

definition wire_temperature :: "coord \<Rightarrow> pyfloat res" where
  "wire_temperature k =
     bind_res (float_of_int (k_temperature k)) (\<lambda>t.
       if fle t (Fin 39) then Inr (Fin 20) else if fle (Fin 96) t then Inr (Fin 98) else Inr t)"

definition with_client :: "'a ko \<Rightarrow> 'a ko" where
  "with_client m k = (if k_client k then m k else (Inl AttributeError, k))"

section \<open>Manual pour\<close>

definition send_brewer_start :: "bool ko" where
  "send_brewer_start = with_client (\<lambda>k.
     bind_co (lift_res (float_of_int (k_volume k))) (\<lambda>v.
     bind_co (lift_res (wire_temperature k)) (\<lambda>t.
       on_client (brewer_start v t (k_flow_rate k) (k_pour_pattern k) (k_water_source k)))) k)"

definition send_wire_temperature :: "bool ko" where
  "send_wire_temperature = with_client (\<lambda>k.
     bind_co (lift_res (wire_temperature k)) (\<lambda>t. on_client (brewer_set_temperature t)) k)"

definition async_pour :: "ble_stack \<Rightarrow> (string \<Rightarrow> coord \<Rightarrow> coord) \<Rightarrow> unit ko" where
  "async_pour B meanwhile = when_up B meanwhile ()
     (then_co (modify (\<lambda>k. k\<lparr>k_active_operation := Some ''manual_pour''\<rparr>))
       (attempt (async_retry_while_sleeping B meanwhile send_brewer_start) () ()))"

definition async_arm_pour :: "ble_stack \<Rightarrow> (string \<Rightarrow> coord \<Rightarrow> coord) \<Rightarrow> bool ko" where
  "async_arm_pour B meanwhile = when_up B meanwhile False
     (bind_co (attempt
         (then_co (async_retry_while_sleeping B meanwhile (on_client brewer_enter_mode))
           (modify (\<lambda>k. k\<lparr>k_armed_operation := Some ''pour''\<rparr>))) True False)
       (\<lambda>armed. if \<not> armed then return_co False
         else then_co (on_world (sleep POUR_ARM_SETTLE_S))
             (then_co (attempt
                 (then_co send_wire_temperature
                 (then_co (on_world (sleep POUR_ARM_PUSH_GAP_S))
                   (\<lambda>k. on_client (brewer_set_pattern (k_pour_pattern k)) k))) () ())
               (return_co True))))"

definition async_confirm_pour :: "ble_stack \<Rightarrow> (string \<Rightarrow> coord \<Rightarrow> coord) \<Rightarrow> bool ko" where
  "async_confirm_pour B meanwhile = when_up B meanwhile False
     (finally_co
       (then_co (modify (\<lambda>k. k\<lparr>k_active_operation := Some ''manual_pour''\<rparr>))
         (attempt (async_retry_while_sleeping B meanwhile send_brewer_start) True False))
       (\<lambda>k. k\<lparr>k_armed_operation := None\<rparr>))"

section \<open>Manual grind\<close>

definition async_grind :: "ble_stack \<Rightarrow> (string \<Rightarrow> coord \<Rightarrow> coord) \<Rightarrow> unit ko" where
  "async_grind B meanwhile = when_up B meanwhile ()
     (then_co (modify (\<lambda>k. k\<lparr>k_active_operation := Some ''manual_grind''\<rparr>))
       (attempt (async_retry_while_sleeping B meanwhile
         (\<lambda>k. on_client (grinder_start (Some (k_grind_size k)) (Some (k_rpm k))) k)) () ()))"

definition async_arm_grind :: "ble_stack \<Rightarrow> (string \<Rightarrow> coord \<Rightarrow> coord) \<Rightarrow> bool ko" where
  "async_arm_grind B meanwhile = when_up B meanwhile False
     (attempt
       (then_co (async_retry_while_sleeping B meanwhile
           (\<lambda>k. on_client (grinder_enter_mode (Some (k_grind_size k)) (Some (k_rpm k))) k))
         (modify (\<lambda>k. k\<lparr>k_armed_operation := Some ''grind''\<rparr>))) True False)"

definition async_confirm_grind :: "ble_stack \<Rightarrow> (string \<Rightarrow> coord \<Rightarrow> coord) \<Rightarrow> bool ko" where
  "async_confirm_grind B meanwhile = when_up B meanwhile False
     (finally_co
       (then_co (modify (\<lambda>k. k\<lparr>k_active_operation := Some ''manual_grind''\<rparr>))
         (attempt (async_retry_while_sleeping B meanwhile
           (\<lambda>k. on_client (grinder_confirm_start (Some (k_grind_size k)) (Some (k_rpm k))) k)) True False))
       (\<lambda>k. k\<lparr>k_armed_operation := None\<rparr>))"

section \<open>Pause and resume\<close>

definition pause_manual :: "string \<Rightarrow> string \<Rightarrow> unit ko" where
  "pause_manual op state_str =
     (if state_str = ''paused''
      then then_co (on_client (if op = ''manual_grind'' then grinder_restart else brewer_restart))
             (modify (\<lambda>k. k\<lparr>k_manual_pause_seen := True\<rparr>))
      else then_co (on_client (if op = ''manual_grind'' then grinder_pause else brewer_pause))
             (modify (\<lambda>k. k\<lparr>k_manual_paused := True, k_manual_pause_seen := False\<rparr>)))"

definition async_pause_resume :: "ble_stack \<Rightarrow> (string \<Rightarrow> coord \<Rightarrow> coord) \<Rightarrow> unit ko" where
  "async_pause_resume B meanwhile = when_up B meanwhile () (\<lambda>k.
     if k_armed_operation k \<noteq> None then (Inr (), k)
     else let state_str = d_state (k_data k) in
       attempt
         (if k_active_operation k \<in> {Some ''manual_grind'', Some ''manual_pour''}
          then pause_manual (the (k_active_operation k)) state_str
          else if state_str = ''paused''
          then then_co (on_client (send_command CMD_RECIPE_RESTART [] 1)) (return_co ())
          else if state_str \<in> {''starting'', ''brewing'', ''grinding''}
          then then_co (on_client (send_command CMD_RECIPE_PAUSE [] 1)) (return_co ())
          else return_co ()) () () k)"

section \<open>Cancel\<close>

definition comp_running :: "string \<Rightarrow> coord \<Rightarrow> bool" where
  "comp_running component k =
     (if component = ''grinder'' then g_is_running (grinder (k_status k)) else b_is_running (brewer (k_status k)))"

definition stop_component :: "string \<Rightarrow> bool ko" where
  "stop_component component = on_client (if component = ''grinder'' then grinder_stop else brewer_stop)"

text \<open>\<open>n\<close> looks are left; without a stop seen in any of them the stop is sent once more.\<close>

primrec watch_stop :: "nat \<Rightarrow> string \<Rightarrow> unit ko" where
  "watch_stop 0 component = then_co (stop_component component) (return_co ())"
| "watch_stop (Suc n) component = (\<lambda>k.
     if \<not> comp_running component k then (Inr (), k)
     else then_co (on_world (sleep STOP_VERIFY_INTERVAL_S)) (watch_stop n component) k)"

definition async_verify_component_stop :: "string \<Rightarrow> unit ko" where
  "async_verify_component_stop component k =
     (if \<not> k_client k then (Inr (), k) else watch_stop STOP_VERIFY_ATTEMPTS component k)"

definition clear_bookkeeping :: "coord \<Rightarrow> coord" where
  "clear_bookkeeping k =
     k\<lparr>k_executing_recipe := False, k_active_recipe_pours := None, k_current_pour_index := None,
       k_active_operation := None, k_manual_paused := False, k_manual_run_seen := False,
       k_manual_pause_seen := False, k_armed_operation := None, k_armed_recipe_is_tea := False,
       k_armed_recipe_tea_payload := None, k_pod_prompt_active := False\<rparr>"

primrec send_all :: "int list \<Rightarrow> unit ko" where
  "send_all [] = return_co ()"
| "send_all (command # commands) =
     then_co (on_client (send_command command [] 1)) (send_all commands)"

definition stop_and_quit :: "string \<Rightarrow> string \<Rightarrow> unit ko" where
  "stop_and_quit component page =
     then_co (stop_component component)
    (then_co (async_verify_component_stop component)
    (then_co (on_world (sleep STOP_TO_QUIT_SETTLE_S))
    (then_co (on_client (send_command (the (map_of ARMED_QUIT_COMMANDS page)) [] 1))
      (return_co ()))))"

text \<open>The screens to dismiss; an armed operation outside the table raises \<^verbatim>\<open>KeyError\<close>.\<close>

definition quit_commands :: "string option \<Rightarrow> bool \<Rightarrow> int list res" where
  "quit_commands armed pod_prompt =
     bind_res (case armed of
         None \<Rightarrow> Inr []
       | Some op \<Rightarrow> (case map_of ARMED_QUIT_COMMANDS op of None \<Rightarrow> Inl KeyError | Some c \<Rightarrow> Inr [c])) (\<lambda>qs.
       Inr (if pod_prompt \<and> CMD_RECIPE_START_QUIT \<notin> set qs then qs @ [CMD_RECIPE_START_QUIT] else qs))"

definition async_cancel :: "ble_stack \<Rightarrow> (string \<Rightarrow> coord \<Rightarrow> coord) \<Rightarrow> unit ko" where
  "async_cancel B meanwhile k =
     bind_co (async_ensure_connected B meanwhile) (\<lambda>ok.
       if \<not> ok then modify (request UpdateListeners)
       else bind_co (lift_res (quit_commands (k_armed_operation k) (k_pod_prompt_active k))) (\<lambda>qs.
         attempt
           (if qs \<noteq> [] then send_all qs
            else if k_active_operation k = Some ''manual_grind'' then stop_and_quit ''grinder'' ''grind''
            else if k_active_operation k = Some ''manual_pour'' then stop_and_quit ''brewer'' ''pour''
            else then_co (on_client stop_recipe) (return_co ())) () ()))
     (clear_bookkeeping k)"

section \<open>Scale and live adjustment\<close>

definition async_tare_scale :: "ble_stack \<Rightarrow> (string \<Rightarrow> coord \<Rightarrow> coord) \<Rightarrow> unit ko" where
  "async_tare_scale B meanwhile = when_up B meanwhile ()
     (attempt (async_retry_while_sleeping B meanwhile (on_client async_tare)) () ())"

definition async_enter_scale_mode :: "ble_stack \<Rightarrow> (string \<Rightarrow> coord \<Rightarrow> coord) \<Rightarrow> unit ko" where
  "async_enter_scale_mode B meanwhile = when_up B meanwhile ()
     (attempt (async_retry_while_sleeping B meanwhile (on_client async_enter_scale)) () ())"

definition async_exit_scale_mode :: "ble_stack \<Rightarrow> (string \<Rightarrow> coord \<Rightarrow> coord) \<Rightarrow> unit ko" where
  "async_exit_scale_mode B meanwhile = when_up B meanwhile ()
     (attempt (async_retry_while_sleeping B meanwhile (on_client async_exit_scale)) () ())"

definition grind_page_open :: "coord \<Rightarrow> bool" where
  "grind_page_open k \<longleftrightarrow> k_client k \<and> screen (k_status k) = Some ''grind'' \<and> \<not> g_is_running (grinder (k_status k))"

definition pour_page_open :: "coord \<Rightarrow> bool" where
  "pour_page_open k \<longleftrightarrow> k_client k \<and> screen (k_status k) = Some ''pour'' \<and> \<not> b_is_running (brewer (k_status k))"

definition async_sync_armed_grinder_settings :: "ble_stack \<Rightarrow> (string \<Rightarrow> coord \<Rightarrow> coord) \<Rightarrow> unit ko" where
  "async_sync_armed_grinder_settings B meanwhile k =
     (if k_armed_operation k \<noteq> Some ''grind'' \<and> \<not> grind_page_open k then (Inr (), k)
      else when_up B meanwhile ()
        (attempt (\<lambda>k. on_client (grinder_enter_mode (Some (k_grind_size k)) (Some (k_rpm k))) k) () ()) k)"

definition async_sync_armed_brewer_temperature :: "ble_stack \<Rightarrow> (string \<Rightarrow> coord \<Rightarrow> coord) \<Rightarrow> unit ko" where
  "async_sync_armed_brewer_temperature B meanwhile k =
     (if k_armed_operation k \<noteq> Some ''pour'' \<and> \<not> pour_page_open k then (Inr (), k)
      else when_up B meanwhile () (attempt send_wire_temperature () ()) k)"

definition async_sync_armed_brewer_pattern :: "ble_stack \<Rightarrow> (string \<Rightarrow> coord \<Rightarrow> coord) \<Rightarrow> unit ko" where
  "async_sync_armed_brewer_pattern B meanwhile k =
     (if k_armed_operation k \<noteq> Some ''pour'' \<and> \<not> pour_page_open k then (Inr (), k)
      else when_up B meanwhile ()
        (attempt (\<lambda>k. on_client (brewer_set_pattern (k_pour_pattern k)) k) () ()) k)"

section \<open>Calibration and advanced settings\<close>

definition fire_on_client :: "string \<Rightarrow> string \<Rightarrow> unit ko" where
  "fire_on_client category event_type =
     on_client (upd_client (fire_event category event_type []))"

definition set_calibrating :: "bool \<Rightarrow> unit ko" where
  "set_calibrating q = on_client (upd_client (upd_status (\<lambda>s. s\<lparr>is_calibrating_grinder := q\<rparr>)))"

definition async_calibrate_grinder :: "ble_stack \<Rightarrow> (string \<Rightarrow> coord \<Rightarrow> coord) \<Rightarrow> unit ko" where
  "async_calibrate_grinder B meanwhile = when_up B meanwhile ()
     (attempt
       (then_co (async_retry_while_sleeping B meanwhile (on_client client_calibrate_grinder))
       (then_co (set_calibrating True)
       (then_co (fire_on_client ''notification'' ''grinder_calibration_started'')
       (then_co (modify (request AsyncRefresh))
         (modify (request CalibrationTimeoutFallback)))))) () ())"

definition async_calibration_timeout_fallback :: "unit ko" where
  "async_calibration_timeout_fallback =
     then_co (on_world (sleep 180)) (with_client (\<lambda>k.
       if is_calibrating_grinder (k_status k)
       then then_co (set_calibrating False)
           (then_co (fire_on_client ''notification'' ''grinder_calibration_complete'')
             (modify (request AsyncRefresh))) k
       else (Inr (), k)))"

definition async_refresh_advanced_settings :: "bool \<Rightarrow> unit ko" where
  "async_refresh_advanced_settings present k =
     (if \<not> present then (Inr (), k)
      else attempt
        (then_co (on_world async_get_pour_radius)
        (then_co (on_world (sleep (4 / 5))) (on_world async_get_vibration_amplitude))) () () k)"

datatype settings_result = SettingsOk | SettingsError string

definition level_error :: "int option \<Rightarrow> int \<Rightarrow> int \<Rightarrow> bool" where
  "level_error level lo hi = (case level of None \<Rightarrow> False | Some n \<Rightarrow> \<not> (lo \<le> n \<and> n \<le> hi))"

text \<open>
  The pour-radius part.  \<open>published\<close> is what the published data holds for the radius once the
  machine had half a second to answer, \<open>center\<close> what the cloud answers for the factory centre.
\<close>

definition set_radius :: "(coord \<Rightarrow> int option) \<Rightarrow> (string \<Rightarrow> int \<Rightarrow> int option) \<Rightarrow> int \<Rightarrow> settings_result option ko" where
  "set_radius published center level =
     bind_co (\<lambda>k. case d_pour_radius (k_data k) of
         Some c \<Rightarrow> (Inr (Some c), k)
       | None \<Rightarrow> then_co (on_client async_get_pour_radius)
                 (then_co (on_world (sleep (1 / 2))) (\<lambda>k. (Inr (published k), k))) k)
      (\<lambda>current k.
        case current of
          None \<Rightarrow> (Inr (Some (SettingsError ''pour_radius_unknown'')), k)
        | Some c \<Rightarrow>
            if d_serial_number (k_data k) = [] then (Inr (Some (SettingsError ''serial_unknown'')), k)
            else case center (d_serial_number (k_data k)) c of
              None \<Rightarrow> (Inr (Some (SettingsError ''cloud_center_unavailable'')), k)
            | Some mid \<Rightarrow>
                then_co (on_client (async_set_pour_radius (pour_radius_level_to_raw level mid)))
               (then_co (on_world (sleep (4 / 5))) (return_co None)) k)"

definition write_settings :: "(coord \<Rightarrow> int option) \<Rightarrow> (string \<Rightarrow> int \<Rightarrow> int option) \<Rightarrow>
    int option \<Rightarrow> int option \<Rightarrow> int option \<Rightarrow> settings_result option ko" where
  "write_settings published center radius vib brightness =
     bind_co (case radius of None \<Rightarrow> return_co None | Some level \<Rightarrow> set_radius published center level) (\<lambda>early.
       if early \<noteq> None then return_co early
       else then_co (case vib of None \<Rightarrow> return_co ()
           | Some level \<Rightarrow> then_co (on_client (async_set_vibration_amplitude (vibration_level_to_raw level)))
               (on_world (sleep (4 / 5))))
          (then_co (case brightness of None \<Rightarrow> return_co ()
           | Some level \<Rightarrow> then_co (on_client (async_set_display_brightness level)) async_return_machine_home)
            (return_co None)))"

definition async_set_advanced_settings :: "ble_stack \<Rightarrow> (string \<Rightarrow> coord \<Rightarrow> coord) \<Rightarrow>
    (coord \<Rightarrow> int option) \<Rightarrow> (string \<Rightarrow> int \<Rightarrow> int option) \<Rightarrow> bool \<Rightarrow>
    int option \<Rightarrow> int option \<Rightarrow> int option \<Rightarrow> settings_result ko" where
  "async_set_advanced_settings B meanwhile published center logged_in radius vib brightness =
     (if radius = None \<and> vib = None \<and> brightness = None then return_co (SettingsError ''no_action'')
      else if level_error radius 0 4 \<or> level_error vib 0 5 \<or> level_error brightness 1 3
      then return_co (SettingsError ''invalid_level'')
      else if radius \<noteq> None \<and> \<not> logged_in then return_co (SettingsError ''cloud_login_required'')
      else when_up B meanwhile (SettingsError ''not_connected'')
        (bind_co (catch_co (write_settings published center radius vib brightness)
                   (\<lambda>_. return_co (Some (SettingsError ''write_failed''))))
          (\<lambda>early. case early of
             Some e \<Rightarrow> return_co e
           | None \<Rightarrow> then_co (modify (request AsyncRefresh)) (return_co SettingsOk))))"

section \<open>The commands an action sends\<close>

text \<open>
  \<open>emits L m\<close>: an action that returns has sent the commands of a list in \<open>L\<close>, in order; one
  that raises has sent an initial part of such a list.
\<close>

definition emits :: "int list set \<Rightarrow> 'a ko \<Rightarrow> bool" where
  "emits L m \<longleftrightarrow> (\<forall>k. \<exists>es. w_sent (k_world (snd (m k))) = w_sent (k_world k) @ es \<and>
     (if is_ok (fst (m k)) then map s_command es \<in> L else \<exists>l\<in>L. prefix (map s_command es) l))"

definition concs :: "int list set \<Rightarrow> int list set \<Rightarrow> int list set" where
  "concs L M = {l @ l' | l l'. l \<in> L \<and> l' \<in> M}"

lemma concs_simps [simp]: "concs {[]} M = M" "concs L {[]} = L"
  "concs {[a]} {[b]} = {[a, b]}"
  by (auto simp: concs_def)

lemma emitsI:
  assumes "\<And>k r k'. m k = (r, k') \<Longrightarrow> \<exists>es. w_sent (k_world k') = w_sent (k_world k) @ es \<and>
     (if is_ok r then map s_command es \<in> L else \<exists>l\<in>L. prefix (map s_command es) l)"
  shows "emits L m"
  unfolding emits_def using assms by (metis prod.collapse)

lemma emitsE:
  assumes "emits L m" "m k = (r, k')"
  obtains es where "w_sent (k_world k') = w_sent (k_world k) @ es"
    "if is_ok r then map s_command es \<in> L else \<exists>l\<in>L. prefix (map s_command es) l"
  using assms unfolding emits_def by (metis fst_conv snd_conv)

lemma emits_return [simp]: "emits {[]} (return_co x)"
  by (auto simp: emits_def)

lemma emits_mono: "emits L m \<Longrightarrow> L \<subseteq> M \<Longrightarrow> emits M m"
  unfolding emits_def by (meson subsetD)

lemma emits_bind:
  assumes "emits L m" "\<And>x. emits M (f x)" "M \<noteq> {}"
  shows "emits (concs L M) (bind_co m f)"
proof (rule emitsI)
  fix k r k' assume run: "bind_co m f k = (r, k')"
  obtain q k1 where mk: "m k = (q, k1)" by (cases "m k")
  from emitsE [OF assms(1) mk] obtain es where
    es: "w_sent (k_world k1) = w_sent (k_world k) @ es" and
    L: "if is_ok q then map s_command es \<in> L else \<exists>l\<in>L. prefix (map s_command es) l" .
  show "\<exists>es. w_sent (k_world k') = w_sent (k_world k) @ es \<and>
     (if is_ok r then map s_command es \<in> concs L M else \<exists>l\<in>concs L M. prefix (map s_command es) l)"
  proof (cases q)
    case (Inl e)
    then have rk: "r = Inl e" "k' = k1" using run mk by (auto simp: bind_co_def)
    obtain l l' where l: "l \<in> L" "prefix (map s_command es) l" and l': "l' \<in> M"
      using L Inl assms(3) by auto
    have c: "l @ l' \<in> concs L M" using l(1) l' by (auto simp: concs_def)
    have "\<exists>x\<in>concs L M. prefix (map s_command es) x" using prefix_prefix [OF l(2)] c by (rule bexI)
    then show ?thesis using es rk by simp
  next
    case (Inr x)
    then have fx: "f x k1 = (r, k')" using run mk by (simp add: bind_co_def)
    from emitsE [OF assms(2) fx] obtain es' where
      es': "w_sent (k_world k') = w_sent (k_world k1) @ es'" and
      M: "if is_ok r then map s_command es' \<in> M else \<exists>l\<in>M. prefix (map s_command es') l" .
    have l: "map s_command es \<in> L" using L Inr by simp
    show ?thesis
    proof (cases "is_ok r")
      case True
      then show ?thesis using es es' M l by (intro exI [of _ "es @ es'"]) (auto simp: concs_def)
    next
      case False
      then obtain l' where l': "l' \<in> M" "prefix (map s_command es') l'" using M by auto
      have "map s_command es @ l' \<in> concs L M" using l l'(1) by (auto simp: concs_def)
      moreover have "prefix (map s_command (es @ es')) (map s_command es @ l')" using l'(2) by simp
      ultimately have "\<exists>x\<in>concs L M. prefix (map s_command (es @ es')) x" by (rule bexI [rotated])
      then show ?thesis using es es' False by (intro exI [of _ "es @ es'"]) simp
    qed
  qed
qed

lemma emits_then: "emits L m \<Longrightarrow> emits M n \<Longrightarrow> M \<noteq> {} \<Longrightarrow> emits (concs L M) (then_co m n)"
  unfolding then_co_def by (rule emits_bind)

lemma emits_if: "emits L m \<Longrightarrow> emits L n \<Longrightarrow> emits L (\<lambda>k. if P k then m k else n k)"
  by (simp add: emits_def)

text \<open>A caught exception leaves an initial part.\<close>

definition prefixes_of :: "int list set \<Rightarrow> int list set" where
  "prefixes_of L = {p. \<exists>l\<in>L. prefix p l}"

lemma emits_attempt: "emits L m \<Longrightarrow> emits (prefixes_of L) (attempt m x y)"
proof (rule emitsI)
  fix k r k' assume e: "emits L m" and run: "attempt m x y k = (r, k')"
  obtain q k1 where mk: "m k = (q, k1)" by (cases "m k")
  from emitsE [OF e mk] obtain es where
    "w_sent (k_world k1) = w_sent (k_world k) @ es"
    "if is_ok q then map s_command es \<in> L else \<exists>l\<in>L. prefix (map s_command es) l" .
  moreover have "k' = k1 \<and> is_ok r"
    using run mk by (cases q) (auto simp: attempt_def catch_co_def then_co_def bind_co_def)
  ultimately show "\<exists>es. w_sent (k_world k') = w_sent (k_world k) @ es \<and>
     (if is_ok r then map s_command es \<in> prefixes_of L else \<exists>l\<in>prefixes_of L. prefix (map s_command es) l)"
    by (intro exI [of _ es]) (auto simp: prefixes_of_def split: if_splits)
qed

lemma emits_sleep: "emits {[]} (on_world (sleep d))"
  by (auto simp: emits_def sleep_sent)

lemma send_command_sent:
  assumes "send_command command d ty w = (r, w')"
  shows "\<exists>es. w_sent w' = w_sent w @ es \<and> (if is_ok r then map s_command es = [command] else es = [])"
proof (cases r)
  case (Inl e)
  then show ?thesis using send_payload_err [of command "Data d" ty w e w'] assms by simp
next
  case (Inr b)
  then show ?thesis using send_payload_ok [of command "Data d" ty w b w'] assms by auto
qed

lemma on_client_cases:
  "on_client m k = (r, k') \<Longrightarrow> (k' = k \<and> r = Inl AttributeError) \<or> m (k_world k) = (r, k_world k')"
  unfolding on_client_def using on_world_run [of m k] by (cases "k_client k") (auto simp: prod_eq_iff)

lemma emits_send: "emits {[command]} (on_client (send_command command d ty))"
proof (rule emitsI)
  fix k r k' assume "on_client (send_command command d ty) k = (r, k')"
  from on_client_cases [OF this]
  show "\<exists>es. w_sent (k_world k') = w_sent (k_world k) @ es \<and>
    (if is_ok r then map s_command es \<in> {[command]} else \<exists>l\<in>{[command]}. prefix (map s_command es) l)"
    using send_command_sent by (fastforce split: if_splits)
qed

lemma emits_modify [simp]: "(\<And>k. k_world (f k) = k_world k) \<Longrightarrow> emits {[]} (modify f)"
  by (auto simp: emits_def modify_def)

section \<open>What cancel and pause send\<close>

lemma emits_stop_component:
  "emits {[if component = ''grinder'' then CMD_GRINDER_STOP else CMD_BREWER_STOP]} (stop_component component)"
  by (simp add: stop_component_def grinder_stop_def brewer_stop_def emits_send)

lemma emits_watch_stop:
  "emits {[], [if component = ''grinder'' then CMD_GRINDER_STOP else CMD_BREWER_STOP]} (watch_stop n component)"
    (is "emits {[], [?c]} _")
proof (induction n)
  case 0
  have "emits (concs {[?c]} {[]}) (watch_stop 0 component)"
    unfolding watch_stop.simps by (rule emits_then [OF emits_stop_component]) simp_all
  then show ?case by (rule emits_mono) simp
next
  case (Suc n)
  have m: "emits {[], [?c]} (then_co (on_world (sleep STOP_VERIFY_INTERVAL_S)) (watch_stop n component))"
    using emits_then [OF emits_sleep Suc] by simp
  have r: "emits {[], [?c]} (\<lambda>k. (Inr (), k))"
    using emits_mono [OF emits_return [of "()"]] by (simp add: return_co_def [abs_def])
  show ?case unfolding watch_stop.simps by (rule emits_if [OF r m])
qed

lemma emits_verify:
  "emits {[], [if component = ''grinder'' then CMD_GRINDER_STOP else CMD_BREWER_STOP]} (async_verify_component_stop component)"
proof -
  have r: "emits {[], [c]} (\<lambda>k. (Inr (), k))" for c
    using emits_mono [OF emits_return [of "()"]] by (simp add: return_co_def [abs_def])
  show ?thesis
    unfolding async_verify_component_stop_def [abs_def] by (rule emits_if [OF r emits_watch_stop])
qed

lemma emits_send_all: "emits {cs} (send_all cs)"
proof (induction cs)
  case (Cons c cs)
  have "emits (concs {[c]} {cs}) (send_all (c # cs))"
    unfolding send_all.simps by (rule emits_then [OF emits_send Cons]) simp
  then show ?case by (simp add: concs_def)
qed (simp only: send_all.simps emits_return)

definition stop_quit_scripts :: "int \<Rightarrow> int \<Rightarrow> int list set" where
  "stop_quit_scripts stop quit = {[stop, quit], [stop, stop, quit]}"

lemma emits_stop_and_quit:
  "emits (stop_quit_scripts (if component = ''grinder'' then CMD_GRINDER_STOP else CMD_BREWER_STOP)
      (the (map_of ARMED_QUIT_COMMANDS page))) (stop_and_quit component page)"
    (is "emits (stop_quit_scripts ?s ?q) _")
proof -
  have "emits (concs {[?s]} (concs {[], [?s]} (concs {[]} (concs {[?q]} {[]})))) (stop_and_quit component page)"
    unfolding stop_and_quit_def
    by (intro emits_then emits_stop_component emits_verify emits_sleep emits_send emits_return)
      (auto simp: concs_def)
  then show ?thesis by (rule emits_mono) (auto simp: concs_def stop_quit_scripts_def)
qed

text \<open>What a cancel may send: one of these lists, or an initial part of one.\<close>

definition quit_script :: "coord \<Rightarrow> int list" where
  "quit_script k =
     (if k_armed_operation k = Some ''grind'' then [CMD_GRINDER_QUIT]
      else if k_armed_operation k = Some ''pour'' then [CMD_BREWER_QUIT]
      else if k_armed_operation k = Some ''recipe'' then [CMD_RECIPE_START_QUIT] else [])
     @ (if k_pod_prompt_active k \<and> k_armed_operation k \<noteq> Some ''recipe'' then [CMD_RECIPE_START_QUIT] else [])"

definition cancel_scripts :: "coord \<Rightarrow> int list set" where
  "cancel_scripts k =
     (if quit_script k \<noteq> [] then {quit_script k}
      else if k_active_operation k = Some ''manual_grind'' then stop_quit_scripts CMD_GRINDER_STOP CMD_GRINDER_QUIT
      else if k_active_operation k = Some ''manual_pour'' then stop_quit_scripts CMD_BREWER_STOP CMD_BREWER_QUIT
      else {[CMD_RECIPE_STOP]})"

lemma quit_commands_script:
  assumes "k_armed_operation k \<in> {None, Some ''grind'', Some ''pour'', Some ''recipe''}"
  shows "quit_commands (k_armed_operation k) (k_pod_prompt_active k) = Inr (quit_script k)"
  using assms by (auto simp: quit_commands_def quit_script_def ARMED_QUIT_COMMANDS_def CMD_GRINDER_QUIT_def
      CMD_BREWER_QUIT_def CMD_RECIPE_START_QUIT_def)

lemma ensure_connected_up:
  "k_connected k \<Longrightarrow> async_ensure_connected B meanwhile k = (Inr True, note_activity k)"
  by (simp add: async_ensure_connected_def note_activity_def Let_def)

lemma quit_command_of:
  "the (map_of ARMED_QUIT_COMMANDS ''grind'') = CMD_GRINDER_QUIT"
  "the (map_of ARMED_QUIT_COMMANDS ''pour'') = CMD_BREWER_QUIT"
  by (simp_all add: ARMED_QUIT_COMMANDS_def)

definition cancel_action :: "coord \<Rightarrow> int list \<Rightarrow> unit ko" where
  "cancel_action k qs =
     (if qs \<noteq> [] then send_all qs
      else if k_active_operation k = Some ''manual_grind'' then stop_and_quit ''grinder'' ''grind''
      else if k_active_operation k = Some ''manual_pour'' then stop_and_quit ''brewer'' ''pour''
      else then_co (on_client stop_recipe) (return_co ()))"

lemma emits_cancel_action: "emits (cancel_scripts k) (cancel_action k (quit_script k))"
proof -
  have "emits {[CMD_RECIPE_STOP]} (then_co (on_client stop_recipe) (return_co ()))"
    using emits_then [OF emits_send emits_return] by (simp add: stop_recipe_def)
  then show ?thesis
    using emits_stop_and_quit [of "''grinder''" "''grind''"] emits_stop_and_quit [of "''brewer''" "''pour''"]
      emits_send_all [of "quit_script k"]
    by (simp add: cancel_action_def cancel_scripts_def quit_command_of)
qed

section \<open>Operations on a sound link\<close>

definition healthy :: "coord \<Rightarrow> bool" where
  "healthy k \<longleftrightarrow> k_client k \<and> sound_link (k_world k)"

lemma smooth_world: "smooth sound_link m \<Longrightarrow> smooth healthy (on_world m)"
proof (rule smoothI)
  fix k assume m: "smooth sound_link m" and h: "healthy k"
  then obtain x w' where run: "m (k_world k) = (Inr x, w')" "sound_link w'"
    by (auto simp: healthy_def elim: smoothE)
  let ?k = "dispatch_events (drop (length (events (w_client (k_world k)))) (events (w_client w'))) (k\<lparr>k_world := w'\<rparr>)"
  have "sup_view ?k = sup_view (k\<lparr>k_world := w'\<rparr>)" by simp
  then have "k_client ?k = k_client k" "k_world ?k = w'" by (simp_all add: sup_view_def)
  then show "is_ok (fst (on_world m k)) \<and> healthy (snd (on_world m k))"
    using run h by (simp add: on_world_def Let_def healthy_def sound_link_def)
qed

lemma smooth_client: "smooth sound_link m \<Longrightarrow> smooth healthy (on_client m)"
  using smooth_world [of m] by (simp add: smooth_def on_client_def healthy_def)

lemma smooth_modify: "(\<And>k. healthy (f k) = healthy k) \<Longrightarrow> smooth healthy (modify f)"
  by (simp add: smooth_def modify_def)

lemma smooth_send: "0 \<le> c \<Longrightarrow> c < 65536 \<Longrightarrow> smooth healthy (on_client (send_command c [] 1))"
  by (intro smooth_client smooth_send_bare) simp_all

lemma smooth_stop_component: "smooth healthy (stop_component component)"
  by (simp add: stop_component_def grinder_stop_def brewer_stop_def CMD_GRINDER_STOP_def CMD_BREWER_STOP_def smooth_send)

lemma smooth_send_all:
  "list_all (\<lambda>c. 0 \<le> c \<and> c < 65536) cs \<Longrightarrow> smooth healthy (send_all cs)"
  by (induction cs) (simp_all only: send_all.simps smooth_return smooth_then smooth_send list.pred_inject)

lemma smooth_watch: "smooth healthy (watch_stop n component)"
proof (induction n)
  case 0
  show ?case unfolding watch_stop.simps by (intro smooth_then smooth_stop_component smooth_return)
next
  case (Suc n)
  show ?case unfolding watch_stop.simps
    by (intro smooth_if smooth_pure smooth_then smooth_world smooth_sleep Suc)
qed

lemma smooth_stop_and_quit:
  assumes "page \<in> {''grind'', ''pour''}"
  shows "smooth healthy (stop_and_quit component page)"
proof -
  have "smooth healthy (on_client (send_command (the (map_of ARMED_QUIT_COMMANDS page)) [] 1))"
    using assms by (auto simp: ARMED_QUIT_COMMANDS_def CMD_GRINDER_QUIT_def CMD_BREWER_QUIT_def intro!: smooth_send)
  moreover have "smooth healthy (async_verify_component_stop component)"
    unfolding async_verify_component_stop_def [abs_def] by (intro smooth_if smooth_pure smooth_watch)
  ultimately show ?thesis
    unfolding stop_and_quit_def by (intro smooth_then smooth_stop_component smooth_world smooth_sleep smooth_return)
qed

lemma smooth_cancel_action: "smooth healthy (cancel_action k (quit_script k))"
proof -
  have "list_all (\<lambda>c. 0 \<le> c \<and> c < 65536) (quit_script k)"
    by (simp add: quit_script_def CMD_GRINDER_QUIT_def CMD_BREWER_QUIT_def CMD_RECIPE_START_QUIT_def)
  then show ?thesis
    unfolding cancel_action_def
    by (intro smooth_if_const smooth_send_all smooth_stop_and_quit smooth_then smooth_return)
      (simp_all add: stop_recipe_def CMD_RECIPE_STOP_def smooth_send)
qed

text \<open>A caught action that succeeds emits a whole script.\<close>

lemma attempt_emits:
  assumes "emits L m" "attempt m x y k = (r, k')"
  shows "is_ok r \<and> (\<exists>es. w_sent (k_world k') = w_sent (k_world k) @ es \<and> (\<exists>l\<in>L. prefix (map s_command es) l) \<and>
    (smooth healthy m \<longrightarrow> healthy k \<longrightarrow> map s_command es \<in> L))"
proof -
  obtain q k1 where mk: "m k = (q, k1)" by (cases "m k")
  have k: "k' = k1 \<and> is_ok r"
    using assms(2) mk by (cases q) (auto simp: attempt_def catch_co_def then_co_def bind_co_def)
  from emitsE [OF assms(1) mk] obtain es where
    "w_sent (k_world k1) = w_sent (k_world k) @ es"
    "if is_ok q then map s_command es \<in> L else \<exists>l\<in>L. prefix (map s_command es) l" .
  moreover have "smooth healthy m \<Longrightarrow> healthy k \<Longrightarrow> is_ok q" using mk by (auto simp: smooth_def)
  ultimately show ?thesis using k by (intro conjI exI [of _ es]) (auto split: if_splits)
qed

text \<open>
  C10. Cancel on a live link sends only what the cancelled thing calls for: for an armed operation or
  an open pod prompt the matching quit commands, each once and never a stop; for a manual grind or pour its own
  stop, at most one repetition of it, then the page's quit; otherwise the bare recipe stop.  On a
  link that neither drops nor faults it sends all of that; if something fails on the way it has sent
  an initial part, and it never raises.
\<close>

theorem cancel_sends_matching_commands:
  assumes "k_connected k" "k_armed_operation k \<in> {None, Some ''grind'', Some ''pour'', Some ''recipe''}"
    "async_cancel B meanwhile k = (r, k')"
  shows "r = Inr () \<and> (\<exists>es. w_sent (k_world k') = w_sent (k_world k) @ es \<and>
    (\<exists>script\<in>cancel_scripts k. prefix (map s_command es) script) \<and>
    (sound_link (k_world k) \<longrightarrow> map s_command es \<in> cancel_scripts k))"
proof -
  let ?k = "note_activity (clear_bookkeeping k)"
  have up: "k_connected (clear_bookkeeping k)" using assms(1) by (simp add: clear_bookkeeping_def)
  have run: "attempt (cancel_action k (quit_script k)) () () ?k = (r, k')"
    using assms(3) unfolding async_cancel_def cancel_action_def
    by (simp add: bind_co_def ensure_connected_up [OF up] quit_commands_script [OF assms(2)])
  have "w_sent (k_world ?k) = w_sent (k_world k)" by (simp add: clear_bookkeeping_def note_activity_def)
  moreover have "sound_link (k_world k) \<Longrightarrow> healthy ?k"
    using assms(1) by (simp add: healthy_def clear_bookkeeping_def note_activity_def)
  moreover note attempt_emits [OF emits_cancel_action run] smooth_cancel_action
  ultimately show ?thesis by (cases r) auto
qed

theorem cancel_sends_matching_commands_witness:
  "map s_command (w_sent (k_world (snd (async_cancel offline_stack (\<lambda>_ k. k) (demo_coord\<lparr>k_armed_operation := Some ''pour''\<rparr>)))))
     = [CMD_BREWER_QUIT]"
proof -
  let ?k = "demo_coord\<lparr>k_armed_operation := Some ''pour''\<rparr>"
  have "cancel_scripts ?k = {[CMD_BREWER_QUIT]}"
    by (simp add: cancel_scripts_def quit_script_def)
  moreover obtain r k' where run: "async_cancel offline_stack (\<lambda>_ k. k) ?k = (r, k')" by fastforce
  moreover have "sound_link (k_world ?k)" by (simp add: sound_link_def)
  ultimately show ?thesis
    using cancel_sends_matching_commands [OF _ _ run] by auto
qed

section \<open>What every action of the coordinator keeps\<close>

text \<open>The tasks that do not hand an event to the listeners.\<close>

fun chore :: "task \<Rightarrow> bool" where
  "chore (DoDispatch _ _ _) = False"
| "chore (EnrichAndDispatch _ _) = False"
| "chore _ = True"

text \<open>
  A contract on the coordinator's state before and after, over a contract \<open>W\<close> on the link: what the
  dispatch of events, the disconnect hook, requests to the event loop and the updates of the
  connection's own bookkeeping respect, connecting, disconnecting, waking, switching the mode and
  every client action that respects \<open>W\<close> respect.
\<close>

locale link_law = act_law R for R :: "coord \<Rightarrow> coord \<Rightarrow> bool" +
  fixes W :: "world \<Rightarrow> world \<Rightarrow> bool"
  assumes R_events: "W (k_world k) w \<Longrightarrow> set evs \<subseteq> set (events (w_client w)) \<Longrightarrow>
      R k (dispatch_events evs (k\<lparr>k_world := w\<rparr>))"
    and R_chore: "chore t \<Longrightarrow> R k (request t k)"
    and R_client: "R k (k\<lparr>k_client := c\<rparr>)"
    and R_link: "W (k_world k) w \<Longrightarrow> R k (k\<lparr>k_world := w\<rparr>)"
    and R_manual: "R k (k\<lparr>k_manual_disconnect := c\<rparr>)"
    and R_idle: "R k (k\<lparr>k_idle_disconnected := c\<rparr>)"
    and R_info: "R k (k\<lparr>k_machine_info_task := c\<rparr>)"
    and R_activity: "R k (k\<lparr>k_last_activity_monotonic := x\<rparr>)"
    and R_failures: "R k (k\<lparr>k_reconnect_failures := n\<rparr>)"
    and R_blocked: "R k (k\<lparr>k_reconnect_blocked_until := x\<rparr>)"
    and R_queue: "R k (k\<lparr>k_pending_unit_pushes := ks\<rparr>)"
    and W_fresh: "W w (w\<lparr>w_client := (init_client t0)\<lparr>cleanup_on_disconnect := False\<rparr>,
        w_link := False, w_expect_disconnect := False\<rparr>)"
    and W_sleep: "keeps W (sleep d)"
    and W_connect: "keeps W (stack_connect B)"
    and W_disconnect: "keeps W (stack_disconnect B)"
    and W_handshake: "keeps W async_send_handshake"
    and W_upkeep: "command \<in> {8005, 8010, CMD_SWITCH_WATER_FEED, BACK_TO_HOME} \<Longrightarrow>
      keeps W (send_and_wait command (Data payload) ACK_TIMEOUT_S 1)"
    and W_mode: "keeps W (send_command_raw CMD_EASYMODE raw 2)"
begin

lemma R_request:
  "R k (request AsyncRefresh k)" "R k (request UpdateListeners k)" "R k (request (SyncUnits a) k)"
  "R k (request MachineInfoRetryLoop k)" "R k (request RefreshAdvancedSettings k)"
  "R k (request PersistOptions k)" "R k (request CalibrationTimeoutFallback k)"
  by (simp_all add: R_chore)

lemma R_hook: "R k (handle_unexpected_disconnect k)"
  using R_trans [OF R_info R_client] by (simp add: handle_unexpected_disconnect_def R_refl)

lemma keeps_on_world:
  assumes "keeps W m"
  shows "keeps R (on_world m)"
proof -
  have "W (k_world k) (snd (m (k_world k)))" for k using assms by (simp add: keeps_def)
  then have "R k (dispatch_events (drop n (events (w_client (snd (m (k_world k)))))) (k\<lparr>k_world := snd (m (k_world k))\<rparr>))" for k n
    using R_events [OF _ set_drop_subset] by blast
  then show ?thesis
    unfolding keeps_def on_world_def Let_def split_beta by (auto intro: R_trans [OF _ R_hook])
qed

lemma keeps_on_client: "keeps W m \<Longrightarrow> keeps R (on_client m)"
  using keeps_on_world [of m] by (simp add: keeps_def on_client_def R_refl)

lemmas keeps_pause = keeps_on_world [OF W_sleep]

lemma keeps_modify: "(\<And>k. R k (f k)) \<Longrightarrow> keeps R (modify f)"
  by (simp add: keeps_def modify_def)

lemma keeps_pure: "keeps R (\<lambda>k. (f k, k))"
  by (simp add: keeps_def R_refl)

lemma keeps_if: "keeps R m \<Longrightarrow> keeps R n \<Longrightarrow> keeps R (\<lambda>k. if P k then m k else n k)"
  by (simp add: keeps_def)

lemma keeps_if_const: "keeps R m \<Longrightarrow> keeps R n \<Longrightarrow> keeps R (if b then m else n)"
  by simp

lemma keeps_attempt: "keeps R m \<Longrightarrow> keeps R (attempt m x y)"
  unfolding attempt_def by (intro keeps_catch keeps_then keeps_return)

lemma keeps_unit_attempts:
  assumes "command \<in> {8005, 8010, CMD_SWITCH_WATER_FEED, BACK_TO_HOME}"
  shows "keeps R (unit_send_attempts n asleep command payload)"
proof (induction n)
  case (Suc n)
  have "R k (snd (unit_send_attempts (Suc n) asleep command payload k))" for k
  proof (cases "on_world (send_and_wait command (Data payload) ACK_TIMEOUT_S 1) k")
    case (Pair r k1)
    have 1: "R k k1" using keepsD [OF keeps_on_world [OF W_upkeep [OF assms]] Pair] .
    let ?m = "then_co (if asleep then on_world (sleep WAKE_RETRY_DELAY_S) else return_co ())
      (unit_send_attempts n asleep command payload)"
    have "keeps R ?m" by (intro keeps_then keeps_if_const keeps_pause keeps_return Suc)
    then have "R k (snd (?m k1))" using R_trans [OF 1] by (simp add: keeps_def)
    then show ?thesis using 1 by (cases asleep) (simp_all add: Pair split: sum.split)
  qed
  then show ?case by (simp add: keeps_def)
next
  case 0
  show ?case unfolding unit_send_attempts.simps by (intro keeps_then keeps_return keeps_on_world W_upkeep assms)
qed

lemma unit_push_upkeep:
  "unit_push_command key k = (command, payload) \<Longrightarrow> command \<in> {8005, 8010, CMD_SWITCH_WATER_FEED, BACK_TO_HOME}"
  by (auto simp: unit_push_command_def split: if_splits)

lemma keeps_push:
  assumes "\<And>key k. R k (meanwhile key k)"
  shows "keeps R (push_units present meanwhile keys sent)"
proof (induction keys arbitrary: sent)
  case Nil
  then show ?case by (simp only: push_units.simps keeps_return)
next
  case (Cons key keys)
  have "R k (snd (push_units present meanwhile (key # keys) sent k))" for k
  proof -
    obtain command payload where cp: "unit_push_command key k = (command, payload)" by fastforce
    obtain r k1 where run: "(if present then async_send_unit_command command payload k else (Inl AttributeError, k)) = (r, k1)"
      by fastforce
    have "R k k1"
      using run keepsD [OF keeps_unit_attempts [OF unit_push_upkeep [OF cp]]] R_refl
      by (cases present) (auto simp only: async_send_unit_command_def Let_def if_True if_False prod.inject)
    then have 2: "R k (meanwhile key k1)" using assms R_trans by blast
    then have 3: "R k ((meanwhile key k1)\<lparr>k_pending_unit_pushes := ks\<rparr>)" for ks using R_queue R_trans by blast
    have "R k (snd (push_units present meanwhile keys True k'))" if "R k k'" for k'
      using R_trans [OF that] Cons by (simp add: keeps_def)
    then show ?thesis
      using 2 3 Cons by (simp add: cp run Let_def keeps_def)
  qed
  then show ?case by (simp add: keeps_def)
qed

lemma keeps_apply_units: "(\<And>key k. R k (meanwhile key k)) \<Longrightarrow> keeps R (apply_unit_preferences present meanwhile)"
  unfolding apply_unit_preferences_def async_return_machine_home_def
  by (intro keeps_bind keeps_push keeps_if_const keeps_then keeps_catch keeps_return keeps_pause
      keeps_on_world [OF W_upkeep]) simp_all

lemma keeps_connect_failed: "keeps R connect_failed"
proof -
  have "keeps R note_connect_failure"
    using R_failures R_trans [OF R_failures R_blocked]
    by (auto simp: keeps_def note_connect_failure_def Let_def split: sum.split)
  then show ?thesis
    unfolding connect_failed_def log_connect_failure_def
    by (intro keeps_then keeps_return keeps_modify R_client)
qed

lemma keeps_after_connected:
  assumes "\<And>key k. R k (meanwhile key k)"
  shows "keeps R (after_connected meanwhile)"
proof -
  have success: "R k (note_connect_success k)" for k
    using R_trans [OF R_failures R_blocked] by (simp add: note_connect_success_def)
  have schedule: "R k (schedule_machine_info_retry k)" for k
    using R_trans [OF R_info R_request(4)] by (simp add: schedule_machine_info_retry_def R_refl)
  have pending: "keeps R (\<lambda>k. if k_pending_unit_pushes k \<noteq> [] then apply_unit_preferences True meanwhile k else (Inr (), k))"
    by (rule keeps_if [OF keeps_apply_units [OF assms] keeps_pure])
  show ?thesis
    unfolding after_connected_def
    by (intro keeps_then keeps_return keeps_modify success schedule pending R_request R_client)
      (simp_all add: R_request R_refl)
qed

lemma keeps_connect:
  assumes "\<And>key k. R k (meanwhile key k)"
  shows "keeps R (async_connect B meanwhile)"
proof -
  have start: "R k (connect_start k)" for k
    unfolding connect_start_def new_client_def note_activity_def
    by (intro R_trans [OF _ R_link] R_trans [OF _ R_client] R_trans [OF _ R_activity]
        R_trans [OF _ R_idle] R_manual) (simp add: W_fresh)
  have "keeps R (catch_co (bind_co (on_world (stack_connect B)) (\<lambda>ok.
      if ok then after_connected meanwhile else connect_failed)) (\<lambda>_. connect_failed))"
    by (intro keeps_catch keeps_bind keeps_on_world W_connect keeps_if_const keeps_after_connected assms keeps_connect_failed)
  then have "R k (snd (async_connect B meanwhile k))" if "\<not> k_connected k" for k
    using R_trans [OF start] unfolding async_connect_unfold [OF that] by (simp add: keeps_def)
  moreover have "R k (snd (async_connect B meanwhile k))" if "k_connected k" for k
    using that R_refl by (simp add: async_connect_def)
  ultimately show ?thesis unfolding keeps_def by blast
qed

lemma keeps_ensure:
  assumes "\<And>key k. R k (meanwhile key k)"
  shows "keeps R (async_ensure_connected B meanwhile)"
proof -
  have n: "R k (note_activity k)" for k by (simp add: note_activity_def R_activity)
  have "R k (snd (async_connect B meanwhile (note_activity k)))" for k
    using R_trans [OF n] keeps_connect [OF assms]
    by (simp add: keeps_def)
  then show ?thesis using n by (simp add: keeps_def async_ensure_connected_def Let_def)
qed

text \<open>What a successful retry returns is what some run of the action returned, last.\<close>


lemma retry_attempts_last:
  "keeps R action \<Longrightarrow> retry_attempts n asleep action k = (Inr x, k') \<Longrightarrow>
     \<exists>k0. R k k0 \<and> action k0 = (Inr x, k')"
proof (induction n arbitrary: k)
  case 0
  then show ?case using R_refl by auto
next
  case (Suc n)
  obtain r k1 where a: "action k = (r, k1)" by fastforce
  have k1: "R k k1" using keepsD [OF Suc.prems(1) a] .
  show ?case
  proof (cases "retry_attempts (Suc n) asleep action k = (r, k1)")
    case True
    then show ?thesis using Suc.prems(2) a R_refl by auto
  next
    case False
    then have "then_co (on_world (sleep WAKE_RETRY_DELAY_S)) (retry_attempts n asleep action) k1 = (Inr x, k')"
      using Suc.prems(2) a by (auto split: sum.splits if_splits)
    then obtain u k2 where s: "on_world (sleep WAKE_RETRY_DELAY_S) k1 = (Inr u, k2)"
      and "retry_attempts n asleep action k2 = (Inr x, k')"
      by (auto simp: then_co_def bind_co_Inr)
    then obtain k0 where "R k2 k0" "action k0 = (Inr x, k')" using Suc.IH [OF Suc.prems(1)] by blast
    moreover have "R k1 k2" using keepsD [OF keeps_pause s] .
    ultimately show ?thesis using k1 R_trans by blast
  qed
qed

lemma keeps_disconnect: "keeps R (async_disconnect B)"
  unfolding keeps_def
proof
  fix k :: coord
  define k1 where "k1 = k\<lparr>k_manual_disconnect := True, k_machine_info_task := False\<rparr>"
  define k2 where "k2 = (if k_client k1 then (snd (on_world (stack_disconnect B) k1))\<lparr>k_client := False\<rparr> else k1)"
  have "R k k1" unfolding k1_def by (rule R_trans [OF R_manual R_info])
  moreover have "R k1 (snd (on_world (stack_disconnect B) k1))"
    using keeps_on_world [OF W_disconnect] by (simp add: keeps_def)
  then have "R k1 k2" unfolding k2_def using R_trans [OF _ R_client] R_refl by simp
  ultimately have "R k (request AsyncRefresh k2)" by (intro R_trans [OF _ R_request(1)]) (rule R_trans)
  then show "R k (snd (async_disconnect B k))"
    unfolding async_disconnect_def Let_def snd_conv k1_def [symmetric] k2_def [symmetric] .
qed

lemma keeps_wake:
  assumes "\<And>key k. R k (meanwhile key k)"
  shows "keeps R (async_wake_machine B meanwhile)"
proof -
  have await: "keeps R (wait_awake n)" for n
  proof (induction n)
    case 0
    show ?case unfolding wait_awake.simps by (rule keeps_pure)
  next
    case (Suc n)
    show ?case unfolding wait_awake.simps by (intro keeps_if keeps_pure keeps_then keeps_pause Suc)
  qed
  have reconnect: "keeps R (reconnect_to_wake B meanwhile)"
    unfolding reconnect_to_wake_def
    by (intro keeps_then keeps_disconnect keeps_modify R_manual keeps_connect assms keeps_return)
  show ?thesis
    unfolding async_wake_machine_def async_wait_awake_def
    by (intro keeps_bind keeps_if keeps_then keeps_on_client W_handshake await keeps_pure reconnect)
qed

lemma retry_last:
  assumes "\<And>key k. R k (meanwhile key k)" "keeps R action"
    "async_retry_while_sleeping B meanwhile action k = (Inr x, k')"
  shows "\<exists>k0. R k k0 \<and> action k0 = (Inr x, k')"
proof -
  obtain u k1 where w: "(if k_asleep k then async_wake_machine B meanwhile else return_co ()) k = (Inr u, k1)"
    and r: "retry_attempts (WAKE_RETRY_MAX_ATTEMPTS - 1) (k_asleep k) action k1 = (Inr x, k')"
    using assms(3) by (auto simp: async_retry_while_sleeping_def Let_def then_co_def bind_co_Inr)
  have "keeps R (if k_asleep k then async_wake_machine B meanwhile else return_co ())"
    by (intro keeps_if_const keeps_wake assms(1) keeps_return)
  from keepsD [OF this w] have "R k k1" .
  then show ?thesis using retry_attempts_last [OF assms(2) r] R_trans by blast
qed



lemma keeps_switch: "keeps R (async_switch_mode_with_retry md)"
proof -
  have await: "keeps R (await_mode_ack n target)" for n target
  proof (induction n)
    case (Suc n)
    show ?case unfolding await_mode_ack.simps
      by (intro keeps_then keeps_pause keeps_if keeps_pure Suc)
  qed (simp only: await_mode_ack.simps keeps_return)
  have "keeps R (mode_attempts n target)" for n target
  proof (induction n)
    case (Suc n)
    have "keeps R (\<lambda>k. if ok then (Inr True, k)
       else if \<not> k_client k then (Inl AttributeError, k)
       else if \<not> is_sleeping (k_status k) then (Inr False, k)
       else mode_attempts n target k)" for ok
      by (intro keeps_if keeps_pure Suc)
    then show ?case unfolding mode_attempts.simps
      by (intro keeps_then keeps_bind keeps_on_client W_mode await)
  qed (simp only: mode_attempts.simps keeps_return)
  then show ?thesis
    unfolding async_switch_mode_with_retry_def by (cases "map_of MODE_SWITCH_HEX md") (simp_all add: keeps_raise)
qed

lemma keeps_attempts: "keeps R action \<Longrightarrow> keeps R (retry_attempts n asleep action)"
proof (induction n)
  case (Suc n)
  have "R k (snd (retry_attempts (Suc n) asleep action k))" for k
  proof -
    obtain r k1 where a: "action k = (r, k1)" by fastforce
    have 1: "R k k1" using keepsD [OF Suc.prems a] .
    have "keeps R (then_co (on_world (sleep WAKE_RETRY_DELAY_S)) (retry_attempts n asleep action))"
      by (intro keeps_then keeps_pause Suc.IH Suc.prems)
    then have "R k (snd (then_co (on_world (sleep WAKE_RETRY_DELAY_S)) (retry_attempts n asleep action) k1))"
      using R_trans [OF 1] by (simp add: keeps_def)
    then show ?thesis using 1 by (auto simp: a split: sum.split)
  qed
  then show ?case by (simp add: keeps_def)
qed simp

lemma keeps_retry:
  assumes "\<And>key k. R k (meanwhile key k)" "keeps R action"
  shows "keeps R (async_retry_while_sleeping B meanwhile action)"
proof -
  have "keeps R (then_co (if b then async_wake_machine B meanwhile else return_co ())
      (retry_attempts (WAKE_RETRY_MAX_ATTEMPTS - 1) b action))" for b
    by (intro keeps_then keeps_if_const keeps_wake keeps_return keeps_attempts assms)
  then show ?thesis by (simp add: keeps_def async_retry_while_sleeping_def Let_def)
qed

end

text \<open>
  The contract of what is kept whatever happens on the link: every client action respects it.
\<close>

locale coord_law = act_law R for R :: "coord \<Rightarrow> coord \<Rightarrow> bool" +
  assumes any_events: "R k (dispatch_events evs (k\<lparr>k_world := w\<rparr>))"
    and any_request: "R k (request t k)"
    and any_client: "R k (k\<lparr>k_client := c\<rparr>)"
    and any_world: "R k (k\<lparr>k_world := w\<rparr>)"
    and any_manual: "R k (k\<lparr>k_manual_disconnect := c\<rparr>)"
    and any_idle: "R k (k\<lparr>k_idle_disconnected := c\<rparr>)"
    and any_info: "R k (k\<lparr>k_machine_info_task := c\<rparr>)"
    and any_activity: "R k (k\<lparr>k_last_activity_monotonic := x\<rparr>)"
    and any_failures: "R k (k\<lparr>k_reconnect_failures := n\<rparr>)"
    and any_blocked: "R k (k\<lparr>k_reconnect_blocked_until := x\<rparr>)"
    and any_queue: "R k (k\<lparr>k_pending_unit_pushes := ks\<rparr>)"

sublocale coord_law \<subseteq> link_law R "\<lambda>_ _. True"
  by unfold_locales (simp_all add: keeps_def any_events any_request any_client any_world any_manual any_idle any_info
      any_activity any_failures any_blocked any_queue)

context coord_law
begin

lemma keeps_world: "keeps R (on_world m)"
  by (rule keeps_on_world) (simp add: keeps_def)

lemma keeps_client: "keeps R (on_client m)"
  by (rule keeps_on_client) (simp add: keeps_def)

end

section \<open>Nothing armed, nothing running\<close>

definition calm :: "coord \<Rightarrow> bool" where
  "calm k \<longleftrightarrow> k_armed_operation k = None \<and> \<not> k_executing_recipe k \<and> k_active_recipe_pours k = None \<and>
     k_current_pour_index k = None \<and> \<not> k_armed_recipe_is_tea k \<and> k_armed_recipe_tea_payload k = None \<and>
     \<not> k_manual_paused k \<and> \<not> k_manual_run_seen k \<and> \<not> k_manual_pause_seen k"

definition calm_step :: "coord \<Rightarrow> coord \<Rightarrow> bool" where
  "calm_step k k' \<longleftrightarrow> (calm k \<longrightarrow> calm k')"

lemma calm_upd [simp]:
  "calm (k\<lparr>k_grind_size := x1\<rparr>) = calm k" "calm (k\<lparr>k_rpm := x1\<rparr>) = calm k"
  "calm (k\<lparr>k_temperature := x1\<rparr>) = calm k" "calm (k\<lparr>k_pour_pattern := x1\<rparr>) = calm k"
  "calm (k\<lparr>k_volume := x1\<rparr>) = calm k" "calm (k\<lparr>k_tasks := x2\<rparr>) = calm k"
  "calm (k\<lparr>k_water_shortage := x3\<rparr>) = calm k" "calm (k\<lparr>k_pod_prompt_active := x3\<rparr>) = calm k"
  "calm (k\<lparr>k_active_operation := x4\<rparr>) = calm k"
  "calm (k\<lparr>k_world := w\<rparr>) = calm k" "calm (k\<lparr>k_client := x3\<rparr>) = calm k"
  "calm (k\<lparr>k_weight_unit := x5, k_temp_unit := x6, k_water_source := x1, k_pending_unit_pushes := x7\<rparr>) = calm k"
  "calm (request t k) = calm k"
  by (simp_all add: calm_def request_def)

lemma calm_knobs [simp]:
  "calm (apply_grinder_knob st a k) = calm k" "calm (apply_brewer_knob st a k) = calm k"
  "calm (apply_brewer_page_entry st a k) = calm k"
  by (auto simp: knob_parts Let_def split: option.splits pyfloat.splits)

lemma calm_parts:
  "calm (snd (water_latch cat ty k)) = calm k" "calm (track_pod_prompt cat ty k) = calm k"
  "calm k \<Longrightarrow> calm (armed_to_active cat ty k)"
  "calm k \<Longrightarrow> calm (snd (track_run cat ty a k))"
proof -
  show "calm (snd (water_latch cat ty k)) = calm k" "calm (track_pod_prompt cat ty k) = calm k"
    by (simp_all add: water_latch_def track_pod_prompt_def)
  assume c: "calm k"
  then show "calm (armed_to_active cat ty k)"
    by (simp add: armed_to_active_def start_recipe_run_def calm_def)
  have "calm (finish_run k)" using c by (simp add: finish_run_def clear_manual_run_def calm_def)
  moreover have "\<not> k_executing_recipe k" using c by (simp add: calm_def)
  ultimately show "calm (snd (track_run cat ty a k))" using c by (simp add: track_run_def)
qed

lemma calm_dispatch: "calm k \<Longrightarrow> calm (dispatch_event st (cat, ty, a) k)"
  by (simp add: dispatch_event_def Let_def split_beta calm_parts)

lemma calm_dispatches: "calm k \<Longrightarrow> calm (dispatch_events evs k)"
  by (induction evs arbitrary: k) (auto simp: dispatch_events_def calm_dispatch)

interpretation ca: coord_law calm_step
proof
  fix k evs w show "calm_step k (dispatch_events evs (k\<lparr>k_world := w\<rparr>))"
    by (simp add: calm_step_def calm_dispatches)
qed (auto simp: calm_step_def, (simp add: calm_def)+)

lemma calm_changes: "calm_step k (changes_meanwhile changes key k)"
proof -
  have "calm (handle_unit_options_change options k) = calm k" for options k
    by (simp add: handle_unit_options_change_def Let_def)
  then have "calm (fold handle_unit_options_change os k) = calm k" for os
    by (induction os arbitrary: k) simp_all
  then show ?thesis by (simp add: calm_step_def changes_meanwhile_def)
qed

lemma calm_cancel_action: "keeps calm_step (cancel_action k qs)"
proof -
  have watch: "keeps calm_step (watch_stop n component)" for n component
  proof (induction n)
    case 0
    show ?case unfolding watch_stop.simps stop_component_def
      by (intro ca.keeps_then ca.keeps_client ca.keeps_return)
  next
    case (Suc n)
    show ?case unfolding watch_stop.simps
      by (intro ca.keeps_if ca.keeps_pure ca.keeps_then ca.keeps_world Suc)
  qed
  have verify: "keeps calm_step (async_verify_component_stop component)" for component
    unfolding async_verify_component_stop_def [abs_def] by (intro ca.keeps_if ca.keeps_pure watch)
  have all: "keeps calm_step (send_all cs)" for cs
    by (induction cs) (simp_all only: send_all.simps ca.keeps_return ca.keeps_then ca.keeps_client)
  show ?thesis
    unfolding cancel_action_def stop_and_quit_def stop_component_def
    by (intro ca.keeps_if_const ca.keeps_then ca.keeps_client ca.keeps_world ca.keeps_return all verify)
qed

text \<open>
  C9. After a cancel nothing is armed and no run is recorded, whatever the link did, whatever the
  machine reported meanwhile and whether or not any command reached it: the next press of the same
  button arms, it never starts.
\<close>

theorem cancel_leaves_nothing_armed: "calm (snd (async_cancel B (changes_meanwhile changes) k))"
proof -
  have c: "calm (clear_bookkeeping k)" by (simp add: clear_bookkeeping_def calm_def)
  let ?m = "bind_co (async_ensure_connected B (changes_meanwhile changes)) (\<lambda>ok.
    if \<not> ok then modify (request UpdateListeners)
    else bind_co (lift_res (quit_commands (k_armed_operation k) (k_pod_prompt_active k))) (\<lambda>qs.
      attempt (cancel_action k qs) () ()))"
  have "keeps calm_step ?m"
    by (intro ca.keeps_bind ca.keeps_ensure ca.keeps_if_const ca.keeps_modify ca.R_request ca.keeps_lift
        ca.keeps_attempt calm_cancel_action calm_changes)
  then have "calm_step (clear_bookkeeping k) (snd (?m (clear_bookkeeping k)))" by (simp add: keeps_def)
  then show ?thesis using c unfolding async_cancel_def cancel_action_def calm_step_def by blast
qed

section \<open>Pause, stop verification and the temperature slider\<close>

definition pause_command :: "coord \<Rightarrow> int option" where
  "pause_command k =
     (if k_armed_operation k \<noteq> None then None
      else let paused = (d_state (k_data k) = ''paused'') in
        if k_active_operation k = Some ''manual_grind''
        then Some (if paused then CMD_GRINDER_RESTART else CMD_GRINDER_PAUSE)
        else if k_active_operation k = Some ''manual_pour''
        then Some (if paused then CMD_BREWER_RESTART else CMD_BREWER_PAUSE)
        else if paused then Some CMD_RECIPE_RESTART
        else if d_state (k_data k) \<in> {''starting'', ''brewing'', ''grinding''} then Some CMD_RECIPE_PAUSE
        else None)"

lemma emits_pause_manual:
  "emits {[if op = ''manual_grind'' then (if st = ''paused'' then CMD_GRINDER_RESTART else CMD_GRINDER_PAUSE)
           else (if st = ''paused'' then CMD_BREWER_RESTART else CMD_BREWER_PAUSE)]} (pause_manual op st)"
proof -
  have "emits (concs {[c]} {[]}) (then_co (on_client (send_command c [] 1)) (modify f))"
    if "\<And>k. k_world (f k) = k_world k" for c f
    by (intro emits_then emits_send emits_modify that) simp
  then show ?thesis
    by (simp add: pause_manual_def grinder_restart_def grinder_pause_def brewer_restart_def brewer_pause_def)
qed

lemma smooth_pause_manual: "smooth healthy (pause_manual op st)"
proof -
  have "smooth healthy (then_co (on_client (send_command c [] 1)) (modify f))"
    if "0 \<le> c" "c < 65536" "\<And>k. healthy (f k) = healthy k" for c f
    by (intro smooth_then smooth_send smooth_modify that)
  then show ?thesis
    by (simp add: pause_manual_def grinder_restart_def grinder_pause_def brewer_restart_def brewer_pause_def
        CMD_GRINDER_RESTART_def CMD_GRINDER_PAUSE_def CMD_BREWER_RESTART_def CMD_BREWER_PAUSE_def healthy_def)
qed

lemma emits_plain_send: "emits {[c]} (then_co (on_client (send_command c [] 1)) (return_co ()))"
  using emits_then [OF emits_send emits_return] by simp

text \<open>
  C26. The pause button never guesses: it sends at most one command, and only the one that pauses or
  resumes what is known to run (the grinder's, the brewer's or the recipe's own); with something
  armed, or nothing pausable, it sends nothing, and it never raises.  On a link that neither drops nor
  faults the command is sent.
\<close>

theorem pause_targets_the_running_operation:
  assumes "k_connected k" "async_pause_resume B meanwhile k = (r, k')"
  shows "r = Inr () \<and> (\<exists>es. w_sent (k_world k') = w_sent (k_world k) @ es \<and>
    prefix (map s_command es) (case pause_command k of None \<Rightarrow> [] | Some c \<Rightarrow> [c]) \<and>
    (sound_link (k_world k) \<longrightarrow> map s_command es = (case pause_command k of None \<Rightarrow> [] | Some c \<Rightarrow> [c])))"
proof (cases "k_armed_operation k")
  case (Some op)
  then show ?thesis
    using assms by (auto simp: async_pause_resume_def when_up_def bind_co_def ensure_connected_up
        note_activity_def pause_command_def)
next
  case None
  let ?k = "note_activity k" and ?st = "d_state (k_data k)"
  let ?m = "if k_active_operation k \<in> {Some ''manual_grind'', Some ''manual_pour''}
      then pause_manual (the (k_active_operation k)) ?st
      else if ?st = ''paused'' then then_co (on_client (send_command CMD_RECIPE_RESTART [] 1)) (return_co ())
      else if ?st \<in> {''starting'', ''brewing'', ''grinding''}
      then then_co (on_client (send_command CMD_RECIPE_PAUSE [] 1)) (return_co ())
      else return_co ()"
  have fields: "k_armed_operation ?k = None" "k_data ?k = k_data k" "k_active_operation ?k = k_active_operation k"
    using None by (simp_all add: note_activity_def)
  have "async_pause_resume B meanwhile k = attempt ?m () () ?k"
    unfolding async_pause_resume_def when_up_def
      bind_co_run [where m = "async_ensure_connected B meanwhile", OF ensure_connected_up [OF assms(1)]]
    by (simp only: if_True if_False fields Let_def simp_thms)
  then have run: "attempt ?m () () ?k = (r, k')" using assms(2) by (simp only:)
  have e: "emits {case pause_command k of None \<Rightarrow> [] | Some c \<Rightarrow> [c]} ?m"
    using None emits_pause_manual [of "the (k_active_operation k)" ?st] emits_plain_send emits_return [of "()"]
    by (auto simp: pause_command_def Let_def simp del: emits_return)
  have sm: "smooth healthy ?m"
    by (intro smooth_if_const smooth_pause_manual smooth_then smooth_send smooth_return)
      (simp_all add: CMD_RECIPE_PAUSE_def CMD_RECIPE_RESTART_def)
  have "sound_link (k_world k) \<Longrightarrow> healthy ?k" "w_sent (k_world ?k) = w_sent (k_world k)"
    using assms(1) by (simp_all add: healthy_def note_activity_def)
  moreover note attempt_emits [OF e run] sm
  ultimately show ?thesis by (cases r) auto
qed

theorem pause_targets_the_running_operation_witness:
  "map s_command (w_sent (k_world (snd (async_pause_resume offline_stack (\<lambda>_ k. k)
     (demo_coord\<lparr>k_active_operation := Some ''manual_pour''\<rparr>))))) = [CMD_BREWER_PAUSE]"
proof -
  let ?k = "demo_coord\<lparr>k_active_operation := Some ''manual_pour''\<rparr>"
  obtain r k' where run: "async_pause_resume offline_stack (\<lambda>_ k. k) ?k = (r, k')" by fastforce
  have "pause_command ?k = Some CMD_BREWER_PAUSE" "sound_link (k_world ?k)"
    by (simp_all add: pause_command_def sound_link_def demo_coord_def init_coord_def DEFAULT_STATE_def)
  then show ?thesis using pause_targets_the_running_operation [OF _ run] run by auto
qed

lemma on_client_sent_time:
  assumes "on_client (send_command command d ty) k = (r, k')"
  shows "\<exists>es. w_sent (k_world k') = w_sent (k_world k) @ es \<and>
    (\<forall>e\<in>set es. s_command e = command \<and> s_time e = k_now k) \<and> length es \<le> 1"
proof -
  have "\<exists>es. w_sent w' = w_sent (k_world k) @ es \<and>
      (\<forall>e\<in>set es. s_command e = command \<and> s_time e = k_now k) \<and> length es \<le> 1"
    if "send_command command d ty (k_world k) = (r, w')" for w'
  proof (cases r)
    case (Inl e)
    then show ?thesis using send_payload_err [of command "Data d" ty "k_world k" e w'] that by simp
  next
    case (Inr b)
    then show ?thesis using send_payload_ok [of command "Data d" ty "k_world k" b w'] that by auto
  qed
  then show ?thesis using on_client_cases [OF assms] by auto
qed

lemma watch_stop_spec:
  "watch_stop n component k = (r, k') \<Longrightarrow>
     (w_sent (k_world k') = w_sent (k_world k) \<and> (r = Inr () \<longrightarrow> \<not> comp_running component k')) \<or>
     (\<exists>es. w_sent (k_world k') = w_sent (k_world k) @ es \<and> length es \<le> 1 \<and>
        (\<forall>e\<in>set es. s_command e = (if component = ''grinder'' then CMD_GRINDER_STOP else CMD_BREWER_STOP) \<and>
           k_now k + of_nat n * STOP_VERIFY_INTERVAL_S \<le> s_time e))"
proof (induction n arbitrary: k)
  case 0
  let ?c = "if component = ''grinder'' then CMD_GRINDER_STOP else CMD_BREWER_STOP"
  obtain q k1 where "on_client (send_command ?c [] 1) k = (q, k1)" by fastforce
  moreover from this have "k' = k1"
    using 0 by (auto simp: stop_component_def grinder_stop_def brewer_stop_def then_co_def bind_co_def
        split: sum.splits if_splits)
  ultimately show ?case using on_client_sent_time by fastforce
next
  case (Suc n)
  show ?case
  proof (cases "comp_running component k")
    case False
    then show ?thesis using Suc.prems by simp
  next
    case True
    obtain u k1 where s: "on_world (sleep STOP_VERIFY_INTERVAL_S) k = (u, k1)" by fastforce
    have "u = Inr ()" "w_sent (k_world k1) = w_sent (k_world k)"
      "k_now k + STOP_VERIFY_INTERVAL_S \<le> k_now k1"
      using on_world_run [of "sleep STOP_VERIFY_INTERVAL_S" k] sleep_now [of "k_world k" STOP_VERIFY_INTERVAL_S]
        sleep_sent [of STOP_VERIFY_INTERVAL_S "k_world k"] s
      by (auto simp: sleep_def Let_def split_beta)
    moreover from this have "watch_stop n component k1 = (r, k')"
      using Suc.prems True s by (simp add: then_co_def bind_co_def)
    note Suc.IH [OF this]
    ultimately show ?thesis by (fastforce simp: algebra_simps)
  qed
qed

text \<open>
  Watching a component stop ends after at most ten looks: either it was seen stopped and nothing
  more was sent, or at most one further stop was sent, and not before it had been watched running for the
  whole two and a half seconds.
\<close>

theorem stop_is_resent_at_most_once:
  assumes "async_verify_component_stop component k = (r, k')" "k_client k"
  shows "(w_sent (k_world k') = w_sent (k_world k) \<and> (r = Inr () \<longrightarrow> \<not> comp_running component k')) \<or>
     (\<exists>es. w_sent (k_world k') = w_sent (k_world k) @ es \<and> length es \<le> 1 \<and>
        (\<forall>e\<in>set es. s_command e = (if component = ''grinder'' then CMD_GRINDER_STOP else CMD_BREWER_STOP) \<and>
           k_now k + 5 / 2 \<le> s_time e))"
  using watch_stop_spec [of STOP_VERIFY_ATTEMPTS component k r k'] assms
  by (simp add: async_verify_component_stop_def STOP_VERIFY_ATTEMPTS_def STOP_VERIFY_INTERVAL_S_def)

theorem stop_is_resent_at_most_once_witness:
  "\<exists>k'. async_verify_component_stop ''grinder'' demo_coord = (Inr (), k') \<and> length (w_sent (k_world k')) \<le> 1"
proof -
  have run: "async_verify_component_stop ''grinder'' demo_coord = (Inr (), demo_coord)"
    by (simp add: async_verify_component_stop_def STOP_VERIFY_ATTEMPTS_def eval_nat_numeral comp_running_def
        init_client_def init_status_def init_grinder_def)
  have "length (w_sent (k_world demo_coord)) \<le> 1"
    using stop_is_resent_at_most_once [OF run] by auto
  with run show ?thesis by blast
qed

text \<open>
  The temperature slider survives the wire: every position from 39 to 96 is sent as a value
  that the mirror of the machine's knob maps back to the same position, and any knob reading it
  accepts lands between 39 and 96.
\<close>

theorem slider_roundtrip:
  assumes "39 \<le> k_temperature k" "k_temperature k \<le> 96" "15 \<le> reading" "reading \<le> 100"
  shows "(\<exists>t. wire_temperature k = Inr (Fin t) \<and> slider_position t = k_temperature k)
    \<and> 39 \<le> slider_position reading \<and> slider_position reading \<le> 96"
proof -
  have f: "float_of_int (k_temperature k) = Inr (Fin (of_int (k_temperature k)))"
    using to_double_int [of "k_temperature k"] assms(1,2) by (simp add: float_of_int_def)
  have "\<exists>t. wire_temperature k = Inr (Fin t) \<and> slider_position t = k_temperature k"
  proof -
    consider "k_temperature k = 39" | "k_temperature k = 96" | "40 \<le> k_temperature k" "k_temperature k \<le> 95"
      using assms(1,2) by linarith
    then show ?thesis
    proof cases
      case 1
      then have "wire_temperature k = Inr (Fin 20)" using f by (simp add: wire_temperature_def fle_def)
      then show ?thesis using 1 by (simp add: slider_position_def)
    next
      case 2
      then have "wire_temperature k = Inr (Fin 98)" using f by (simp add: wire_temperature_def fle_def)
      then show ?thesis using 2 by (simp add: slider_position_def)
    next
      case 3
      then have "\<not> fle (Fin (of_int (k_temperature k))) (Fin 39)" "\<not> fle (Fin 96) (Fin (of_int (k_temperature k)))"
        by (auto simp: fle_def)
      then show ?thesis using 3 by (simp add: wire_temperature_def f slider_position_def)
    qed
  qed
  moreover have "39 \<le> slider_position reading \<and> slider_position reading \<le> 96"
  proof (cases "reading < 40 \<or> 95 < reading")
    case False
    then have "round_half_even (of_int 40) \<le> round_half_even reading" "round_half_even reading \<le> round_half_even (of_int 95)"
      by (auto intro!: round_half_even_mono)
    then show ?thesis using False by (simp only: slider_position_def round_half_even_of_int) auto
  qed (auto simp: slider_position_def)
  ultimately show ?thesis by blast
qed

theorem slider_roundtrip_witness:
  "\<exists>t. wire_temperature demo_coord = Inr (Fin t) \<and> slider_position t = 93"
  using slider_roundtrip [of demo_coord 20] by simp

end
