(* ===== verification/RecipeRun.thy ===== *)
theory RecipeRun
  imports Operations
begin

text \<open>
  Running the selected recipe (\<^verbatim>\<open>coordinator/recipes.py\<close>, first half): selecting a recipe, the gates
  and overrides before a brew, the single-shot execution, and its two-stage form as arm and
  confirm.
\<close>

section \<open>Selecting\<close>

definition select_recipe :: "string option \<Rightarrow> coord \<Rightarrow> coord" where
  "select_recipe nm k =
     (let k1 = k\<lparr>k_selected_recipe := nm\<rparr> in
      case (case nm of None \<Rightarrow> None | Some n \<Rightarrow> if n = [] then None else map_of (k_recipes k) n) of
        None \<Rightarrow> k1
      | Some raw \<Rightarrow>
          let is_tea = (py_lower (py_strip (rd_cup_type raw)) = ''tea''); grind = rd_grind_size raw
          in if is_tea \<or> grind \<le> 0 then k1
             else request UpdateListeners
               (k1\<lparr>k_grind_size := grind, k_rpm := (if rd_rpm raw = 0 then k_rpm k else rd_rpm raw)\<rparr>))"

section \<open>Preparing a brew\<close>

text \<open>The per-brew overrides; a field is the value of its key when the key is present.\<close>

record recipe_overrides =
  ro_dose_g :: "pyfloat option"
  ro_ratio :: "pyfloat option"
  ro_cup_type :: "string option"
  ro_temperature_c :: "int option"

definition no_overrides :: recipe_overrides where
  "no_overrides = \<lparr>ro_dose_g = None, ro_ratio = None, ro_cup_type = None, ro_temperature_c = None\<rparr>"

definition effective_bypass :: "pyfloat option \<Rightarrow> recipe_dict \<Rightarrow> pyfloat" where
  "effective_bypass bypass_volume raw =
     (case bypass_volume of
        Some v \<Rightarrow> v
      | None \<Rightarrow> if ftruthy (rd_bypass_volume raw) then rd_bypass_volume raw else Fin 0)"

definition effective_bypass_temperature :: "pyfloat option \<Rightarrow> recipe_dict \<Rightarrow> pyfloat" where
  "effective_bypass_temperature bypass_temperature raw =
     (case bypass_temperature of
        Some v \<Rightarrow> v
      | None \<Rightarrow> if ftruthy (rd_bypass_temperature raw) then rd_bypass_temperature raw else Fin 0)"

definition apply_overrides :: "recipe_overrides \<Rightarrow> pyfloat option \<Rightarrow> recipe_dict \<Rightarrow> recipe_dict res" where
  "apply_overrides ov bypass_volume raw =
     (let r1 = (case ro_dose_g ov of None \<Rightarrow> raw | Some d \<Rightarrow> raw\<lparr>dose_g := d\<rparr>);
          r2 = (case ro_ratio ov of None \<Rightarrow> r1 | Some q \<Rightarrow> r1\<lparr>ratio := Some q\<rparr>);
          r3 = (case ro_cup_type ov of None \<Rightarrow> r2 | Some c \<Rightarrow> r2\<lparr>rd_cup_type := c\<rparr>)
      in if ro_dose_g ov = None \<and> ro_ratio ov = None then Inr r3
         else case ratio r3 of
           None \<Rightarrow> Inr r3
         | Some q \<Rightarrow>
             if flt (Fin 0) (dose_g r3) \<and> ftruthy q
             then bind_res (scale_pours_to_total (rd_pours r3)
                      (fsub (fmul (dose_g r3) q) (effective_bypass bypass_volume r3)))
                    (\<lambda>ps. Inr (r3\<lparr>rd_pours := ps\<rparr>))
             else Inr r3)"

type_synonym prepared = "xbloom_recipe \<times> bool \<times> pyfloat \<times> pyfloat"

definition build_prepared :: "coord \<Rightarrow> recipe_overrides \<Rightarrow> pour_override list \<Rightarrow> pyfloat option \<Rightarrow>
    pyfloat option \<Rightarrow> recipe_dict \<Rightarrow> prepared res" where
  "build_prepared k ov pour_ovs bypass_volume bypass_temperature stored =
     bind_res (apply_overrides ov bypass_volume stored) (\<lambda>raw.
     bind_res (build_recipe_from_yaml raw) (\<lambda>built.
       let r1 = (case ro_temperature_c ov of None \<Rightarrow> built
             | Some t \<Rightarrow> built\<lparr>pours := map (\<lambda>p. p\<lparr>temperature := t\<rparr>) (pours built)\<rparr>);
           is_tea = is_tea_recipe r1;
           r2 = (if \<not> is_tea \<and> 0 < grind_size r1
                 then r1\<lparr>grind_size := k_grind_size k, rpm := k_rpm k\<rparr> else r1)
       in bind_res (apply_pour_overrides r2 pour_ovs) (\<lambda>r3.
            Inr (r3, is_tea,
                 if is_tea then Fin 0 else effective_bypass bypass_volume raw,
                 if is_tea then Fin 0 else effective_bypass_temperature bypass_temperature raw))))"

definition prepare_recipe_execution :: "coord \<Rightarrow> recipe_overrides \<Rightarrow> pour_override list \<Rightarrow> pyfloat option \<Rightarrow>
    pyfloat option \<Rightarrow> prepared option res" where
  "prepare_recipe_execution k ov pour_ovs bypass_volume bypass_temperature =
     (if k_water_source k = WATER_SOURCE_TANK \<and> \<not> d_water_level_ok (k_data k) then Inl HomeAssistantError
      else case get (k_recipes k) (k_selected_recipe k) of
        None \<Rightarrow> Inr None
      | Some stored \<Rightarrow>
          if k_selected_recipe k = Some [] then Inr None
          else let raw_cup_type = (case ro_cup_type ov of None \<Rightarrow> rd_cup_type stored | Some c \<Rightarrow> c)
            in if py_lower raw_cup_type = ''tea'' \<and> \<not> firmware_at_least (d_version (k_data k)) MIN_FIRMWARE_TEA
               then Inl HomeAssistantError
               else bind_res (build_prepared k ov pour_ovs bypass_volume bypass_temperature stored)
                      (\<lambda>p. Inr (Some p)))"

section \<open>Executing, arming, confirming\<close>

definition coord_execute_recipe :: "ble_stack \<Rightarrow> (string \<Rightarrow> coord \<Rightarrow> coord) \<Rightarrow> recipe_overrides \<Rightarrow>
    pour_override list \<Rightarrow> pyfloat option \<Rightarrow> pyfloat option \<Rightarrow> unit ko" where
  "coord_execute_recipe B meanwhile ov pour_ovs bypass_volume bypass_temperature =
     when_up B meanwhile () (\<lambda>k.
       case prepare_recipe_execution k ov pour_ovs bypass_volume bypass_temperature of
         Inl e \<Rightarrow> (Inl e, k)
       | Inr None \<Rightarrow> (Inr (), k)
       | Inr (Some (recipe, is_tea, bypass_vol, bypass_temp)) \<Rightarrow>
           catch_co
             (then_co (modify (\<lambda>k. k\<lparr>k_active_recipe_pours := Some (pours recipe), k_executing_recipe := True,
                 k_active_operation := Some ''recipe'', k_current_pour_index := None\<rparr>))
             (then_co (async_retry_while_sleeping B meanwhile
                 (on_client (async_execute_recipe recipe bypass_vol bypass_temp)))
               (return_co ())))
             (\<lambda>_. modify (\<lambda>k. k\<lparr>k_executing_recipe := False, k_active_recipe_pours := None,
                 k_active_operation := None\<rparr>)) k)"

definition coord_arm_recipe :: "ble_stack \<Rightarrow> (string \<Rightarrow> coord \<Rightarrow> coord) \<Rightarrow> recipe_overrides \<Rightarrow>
    pour_override list \<Rightarrow> pyfloat option \<Rightarrow> pyfloat option \<Rightarrow> unit ko" where
  "coord_arm_recipe B meanwhile ov pour_ovs bypass_volume bypass_temperature =
     when_up B meanwhile () (\<lambda>k.
       case prepare_recipe_execution k ov pour_ovs bypass_volume bypass_temperature of
         Inl e \<Rightarrow> (Inl e, k)
       | Inr None \<Rightarrow> (Inr (), k)
       | Inr (Some (recipe, is_tea, bypass_vol, bypass_temp)) \<Rightarrow>
           catch_co
             (bind_co (async_retry_while_sleeping B meanwhile
                 (on_client (async_arm_recipe recipe bypass_vol bypass_temp))) (\<lambda>tea_payload.
               modify (\<lambda>k. k\<lparr>k_armed_operation := Some ''recipe'', k_armed_recipe_is_tea := is_tea,
                 k_armed_recipe_tea_payload := tea_payload,
                 k_active_recipe_pours := Some (pours recipe)\<rparr>)))
             (\<lambda>_. modify (\<lambda>k. k\<lparr>k_active_recipe_pours := None\<rparr>)) k)"

definition coord_confirm_recipe :: "ble_stack \<Rightarrow> (string \<Rightarrow> coord \<Rightarrow> coord) \<Rightarrow> bool ko" where
  "coord_confirm_recipe B meanwhile =
     when_up B meanwhile False
       (finally_co
         (catch_co
           (then_co (modify (\<lambda>k. k\<lparr>k_executing_recipe := True, k_active_operation := Some ''recipe'',
               k_current_pour_index := None\<rparr>))
           (then_co (async_retry_while_sleeping B meanwhile
               (\<lambda>k. on_client (async_confirm_recipe (k_armed_recipe_is_tea k) (k_armed_recipe_tea_payload k)) k))
             (return_co True)))
           (\<lambda>_. then_co (modify (\<lambda>k. k\<lparr>k_executing_recipe := False, k_active_recipe_pours := None,
               k_active_operation := None\<rparr>)) (return_co False)))
         (\<lambda>k. k\<lparr>k_armed_operation := None, k_armed_recipe_is_tea := False,
                k_armed_recipe_tea_payload := None\<rparr>))"

section \<open>What a confirm keeps\<close>

definition not_tea_step :: "coord \<Rightarrow> coord \<Rightarrow> bool" where
  "not_tea_step k k' \<longleftrightarrow> (\<not> k_armed_recipe_is_tea k \<longrightarrow> \<not> k_armed_recipe_is_tea k')"

lemma tea_flag_upd [simp]:
  "k_armed_recipe_is_tea (request t k) = k_armed_recipe_is_tea k"
  "k_armed_recipe_is_tea (snd (water_latch cat ty k)) = k_armed_recipe_is_tea k"
  "k_armed_recipe_is_tea (track_pod_prompt cat ty k) = k_armed_recipe_is_tea k"
  "k_armed_recipe_is_tea (finish_run k) = k_armed_recipe_is_tea k"
  "k_armed_recipe_is_tea (apply_grinder_knob st a k) = k_armed_recipe_is_tea k"
  "k_armed_recipe_is_tea (apply_brewer_knob st a k) = k_armed_recipe_is_tea k"
  "k_armed_recipe_is_tea (apply_brewer_page_entry st a k) = k_armed_recipe_is_tea k"
  by (simp_all add: request_def water_latch_def track_pod_prompt_def finish_run_def clear_manual_run_def)
    (auto simp: knob_parts request_def Let_def split: option.splits pyfloat.splits)

lemma tea_flag_track [simp]: "k_armed_recipe_is_tea (snd (track_run cat ty a k)) = k_armed_recipe_is_tea k"
  by (simp add: track_run_def Let_def split: option.split)

lemma tea_flag_armed: "\<not> k_armed_recipe_is_tea k \<Longrightarrow> \<not> k_armed_recipe_is_tea (armed_to_active cat ty k)"
  by (simp add: armed_to_active_def start_recipe_run_def)

lemma tea_flag_dispatch:
  "\<not> k_armed_recipe_is_tea k \<Longrightarrow> \<not> k_armed_recipe_is_tea (dispatch_event st (cat, ty, a) k)"
  by (simp add: dispatch_event_def Let_def split_beta tea_flag_armed)

lemma tea_flag_dispatches:
  "\<not> k_armed_recipe_is_tea k \<Longrightarrow> \<not> k_armed_recipe_is_tea (dispatch_events evs k)"
proof (induction evs arbitrary: k)
  case (Cons e evs)
  obtain cat ty a s where "e = ((cat, ty, a), s)" by (cases e) auto
  then have "dispatch_events (e # evs) k = dispatch_events evs (dispatch_event (Some s) (cat, ty, a) k)"
    by (simp add: dispatch_events_def)
  then show ?case using Cons.IH [OF tea_flag_dispatch [OF Cons.prems]] by simp
qed (simp add: dispatch_events_def)

interpretation nt: coord_law not_tea_step
proof
  fix k evs w show "not_tea_step k (dispatch_events evs (k\<lparr>k_world := w\<rparr>))"
    by (simp add: not_tea_step_def tea_flag_dispatches)
qed (simp_all add: not_tea_step_def)

lemma tea_flag_changes: "not_tea_step k (changes_meanwhile changes key k)"
proof -
  have "k_armed_recipe_is_tea (handle_unit_options_change options k) = k_armed_recipe_is_tea k" for options k
    by (simp add: handle_unit_options_change_def Let_def)
  then have "k_armed_recipe_is_tea (fold handle_unit_options_change os k) = k_armed_recipe_is_tea k" for os
    by (induction os arbitrary: k) simp_all
  then show ?thesis by (simp add: not_tea_step_def changes_meanwhile_def)
qed

section \<open>What an arm leaves\<close>

text \<open>The machine is armed with a recipe: its pours, and for tea the payload the confirmation will send.\<close>

definition armed_with :: "xbloom_recipe \<Rightarrow> coord \<Rightarrow> bool" where
  "armed_with p k \<longleftrightarrow> k_armed_operation k = Some ''recipe'' \<and> k_active_recipe_pours k = Some (pours p) \<and>
     k_armed_recipe_is_tea k = is_tea_recipe p \<and>
     (if is_tea_recipe p then \<exists>payload. build_tea_payload p = Inr payload \<and> k_armed_recipe_tea_payload k = Some payload
      else k_armed_recipe_tea_payload k = None)"

lemma same_cup_tea: "cup_type r' = cup_type r \<Longrightarrow> is_tea_recipe r' = is_tea_recipe r"
  by (simp add: is_tea_recipe_def)

lemma pour_overrides_cup: "apply_pour_overrides r ovs = Inr r' \<Longrightarrow> cup_type r' = cup_type r"
  by (induction ovs arbitrary: r) (auto simp: bind_res_Inr_iff apply_pour_override_def Let_def split: if_splits)

lemma prepared_tea:
  assumes "prepare_recipe_execution k ov pour_ovs bv bt = Inr (Some (p, tea, v, t))"
  shows "tea = is_tea_recipe p"
proof -
  obtain stored where "build_prepared k ov pour_ovs bv bt stored = Inr (p, tea, v, t)"
    using assms by (auto simp: prepare_recipe_execution_def bind_res_Inr_iff Let_def split: if_splits option.splits)
  then obtain built where built: "apply_pour_overrides
      (let r = (case ro_temperature_c ov of None \<Rightarrow> built | Some t \<Rightarrow> built\<lparr>pours := map (\<lambda>p. p\<lparr>temperature := t\<rparr>) (pours built)\<rparr>)
       in if \<not> is_tea_recipe r \<and> 0 < grind_size r then r\<lparr>grind_size := k_grind_size k, rpm := k_rpm k\<rparr> else r) pour_ovs = Inr p"
    and tea: "tea = is_tea_recipe (case ro_temperature_c ov of None \<Rightarrow> built
      | Some t \<Rightarrow> built\<lparr>pours := map (\<lambda>p. p\<lparr>temperature := t\<rparr>) (pours built)\<rparr>)"
    by (auto simp: build_prepared_def bind_res_Inr_iff Let_def)
  have "cup_type p = cup_type built" using pour_overrides_cup [OF built] by (simp add: Let_def split: option.splits if_splits)
  then show ?thesis unfolding tea by (intro same_cup_tea) (simp split: option.splits)
qed

lemma arm_payload:
  assumes "async_arm_recipe p v t w = (Inr payload, w')"
  shows "if is_tea_recipe p then \<exists>bs. build_tea_payload p = Inr bs \<and> payload = Some bs else payload = None"
  using assms by (auto simp: async_arm_recipe_def async_arm_tea_def then_co_def bind_co_Inr return_co_def lift_res_def
      split: if_splits)

lemma arm_arms:
  assumes "coord_arm_recipe B (changes_meanwhile ch) ov pour_ovs bv bt k = (Inr (), k')" "k_connected k"
    and "prepare_recipe_execution (note_activity k) ov pour_ovs bv bt = Inr (Some (p, tea, v, t))"
    and "k_active_recipe_pours k' \<noteq> None"
  shows "armed_with p k'"
proof -
  have tea: "tea = is_tea_recipe p" by (rule prepared_tea [OF assms(3)])
  let ?act = "on_client (async_arm_recipe p v t)"
  let ?retry = "async_retry_while_sleeping B (changes_meanwhile ch) ?act"
  obtain payload k1 where r: "?retry (note_activity k) = (Inr payload, k1)"
    and k': "k' = k1\<lparr>k_armed_operation := Some ''recipe'', k_armed_recipe_is_tea := tea,
                 k_armed_recipe_tea_payload := payload, k_active_recipe_pours := Some (pours p)\<rparr>"
    using assms(1,3,4) unfolding coord_arm_recipe_def when_up_def
      bind_co_run [where m = "async_ensure_connected B (changes_meanwhile ch)", OF ensure_connected_up [OF assms(2)]]
    by (auto simp: catch_co_def bind_co_def modify_def split: prod.splits sum.splits)
  have "keeps not_tea_step ?act" by (rule nt.keeps_client)
  then obtain k0 where "?act k0 = (Inr payload, k1)" using nt.retry_last [OF tea_flag_changes _ r] by blast
  then have "async_arm_recipe p v t (k_world k0) = (Inr payload, k_world k1)" using on_client_cases by fastforce
  from arm_payload [OF this] show ?thesis by (simp add: armed_with_def k' tea)
qed

section \<open>Theorems\<close>

lemma prepare_gated:
  assumes "(k_water_source k = WATER_SOURCE_TANK \<and> \<not> d_water_level_ok (k_data k)) \<or>
    (\<exists>nm stored n. k_selected_recipe k = Some nm \<and> nm \<noteq> [] \<and> map_of (k_recipes k) nm = Some stored \<and>
       py_lower (case ro_cup_type ov of None \<Rightarrow> rd_cup_type stored | Some c \<Rightarrow> c) = ''tea'' \<and>
       firmware_build (d_version (k_data k)) = Some n \<and> n < 300)"
  shows "prepare_recipe_execution k ov pour_ovs bv bt = Inl HomeAssistantError"
proof -
  have "firmware_build MIN_FIRMWARE_TEA = Some 300"
    by (simp add: firmware_build_def MIN_FIRMWARE_TEA_def FIRMWARE_PREFIX_def py_strip_def py_space_def
        digits_value_def)
  then have "firmware_build v = Some n \<Longrightarrow> n < 300 \<Longrightarrow> \<not> firmware_at_least v MIN_FIRMWARE_TEA" for v n
    by (simp add: firmware_at_least_def)
  then show ?thesis using assms by (auto simp: prepare_recipe_execution_def get_def)
qed

text \<open>
  C22. No brew passes its gates once the link is up: with too little water in the tank and the tank as
  the source, or with a selected recipe whose cup type, taken from the override or from the recipe, is
  \<open>tea\<close> in any letter case but with no blanks around it, on a machine whose firmware is known and older
  than build 300, both the single-shot brew and arming raise the user-facing error, and all they did
  is what making sure of the link did: on a connected machine only the activity stamp, with nothing
  sent.
\<close>

theorem brew_is_gated:
  assumes "async_ensure_connected B meanwhile k = (Inr True, k1)"
    and "(k_water_source k1 = WATER_SOURCE_TANK \<and> \<not> d_water_level_ok (k_data k1)) \<or>
    (\<exists>nm stored n. k_selected_recipe k1 = Some nm \<and> nm \<noteq> [] \<and> map_of (k_recipes k1) nm = Some stored \<and>
       py_lower (case ro_cup_type ov of None \<Rightarrow> rd_cup_type stored | Some c \<Rightarrow> c) = ''tea'' \<and>
       firmware_build (d_version (k_data k1)) = Some n \<and> n < 300)"
  shows "coord_execute_recipe B meanwhile ov pour_ovs bv bt k = (Inl HomeAssistantError, k1) \<and>
    coord_arm_recipe B meanwhile ov pour_ovs bv bt k = (Inl HomeAssistantError, k1) \<and>
    (k_connected k \<longrightarrow> k1 = note_activity k)"
proof -
  have "prepare_recipe_execution k1 ov pour_ovs bv bt = Inl HomeAssistantError"
    by (rule prepare_gated) (rule assms(2))
  then show ?thesis
    using assms(1) ensure_connected_up [of k B meanwhile]
    unfolding coord_execute_recipe_def coord_arm_recipe_def when_up_def
      bind_co_run [where m = "async_ensure_connected B meanwhile", OF assms(1)]
    by auto
qed

theorem brew_is_gated_witness:
  "coord_execute_recipe offline_stack (\<lambda>_ k. k) no_overrides [] None None
     (demo_coord\<lparr>k_data := (k_data demo_coord)\<lparr>d_water_level_ok := False\<rparr>\<rparr>)
   = (Inl HomeAssistantError, note_activity (demo_coord\<lparr>k_data := (k_data demo_coord)\<lparr>d_water_level_ok := False\<rparr>\<rparr>))"
proof -
  let ?k = "demo_coord\<lparr>k_data := (k_data demo_coord)\<lparr>d_water_level_ok := False\<rparr>\<rparr>"
  have up: "k_connected ?k" by (simp add: demo_coord_def init_coord_def demo_world_def)
  have "k_water_source (note_activity ?k) = WATER_SOURCE_TANK \<and> \<not> d_water_level_ok (k_data (note_activity ?k))"
    by (simp add: demo_coord_def init_coord_def WATER_SOURCE_TANK_def note_activity_def)
  then show ?thesis using brew_is_gated [OF ensure_connected_up [OF up, of offline_stack "\<lambda>_ k. k"], of no_overrides "[]" None None] by simp
qed

lemma confirm_action_started:
  assumes "\<not> k_armed_recipe_is_tea k0"
    "on_client (async_confirm_recipe (k_armed_recipe_is_tea k0) (k_armed_recipe_tea_payload k0)) k0 = (Inr (), k1)"
  shows "raw_state_label (k_status k1) \<in> {Some ''starting'', Some ''brewing''}"
proof -
  have "async_confirm_recipe False (k_armed_recipe_tea_payload k0) (k_world k0) = (Inr (), k_world k1)"
    using on_client_cases [OF assms(2)] assms(1) by simp
  then obtain s v where "async_verify_brew_started BREW_START_TIMEOUT_S v = (Inr s, k_world k1)"
    by (auto simp: async_confirm_recipe_def then_co_def bind_co_Inr)
  from verify_spec(3) [OF this refl] show ?thesis by (auto simp: BREW_STARTED_LABELS_def)
qed

lemma confirm_awake:
  assumes "k_connected k" "\<not> k_asleep k" "\<not> is_sleeping (status (w_client w))"
    and "async_confirm_recipe (k_armed_recipe_is_tea k) (k_armed_recipe_tea_payload k) (k_world k) = (Inr (), w)"
  shows "\<exists>k'. coord_confirm_recipe B meanwhile k = (Inr True, k') \<and> k_world k' = w"
proof -
  let ?k = "(note_activity k)\<lparr>k_executing_recipe := True, k_active_operation := Some ''recipe'', k_current_pour_index := None\<rparr>"
  let ?m = "async_confirm_recipe (k_armed_recipe_is_tea ?k) (k_armed_recipe_tea_payload ?k)"
  have same: "k_world ?k = k_world k" "k_client ?k" "\<not> k_asleep ?k" "k_armed_recipe_is_tea ?k = k_armed_recipe_is_tea k"
    "k_armed_recipe_tea_payload ?k = k_armed_recipe_tea_payload k"
    using assms(1,2) by (simp_all add: note_activity_def k_asleep_def)
  have "fst (on_client ?m ?k) = Inr ()" "k_world (snd (on_client ?m ?k)) = w"
    using assms(4) same by (simp_all add: on_client_def)
  then obtain k3 where k3: "on_client ?m ?k = (Inr (), k3)" "k_world k3 = w" by (metis prod.collapse)
  have awake: "\<not> k_asleep k3" using k3(2) assms(3) by (simp add: k_asleep_def)
  show ?thesis
    using k3 awake same(3) unfolding coord_confirm_recipe_def when_up_def
      bind_co_run [where m = "async_ensure_connected B meanwhile", OF ensure_connected_up [OF assms(1)]]
    by (simp add: finally_co_def catch_co_def then_co_def bind_co_def modify_def return_co_def
        async_retry_while_sleeping_def WAKE_RETRY_MAX_ATTEMPTS_def eval_nat_numeral Let_def)
qed

lemma brewing_confirms:
  "\<exists>v. async_confirm_recipe False tp brewing_world = (Inr (), v) \<and> w_client v = w_client brewing_world"
proof -
  obtain v where v: "execute_coffee_recipe brewing_world = (Inr (), v)"
    "w_client v = w_client brewing_world" "w_now v = w_now brewing_world"
    using quiet_execute [of brewing_world] by (auto simp: brewing_world_def)
  have "async_verify_brew_started BREW_START_TIMEOUT_S v = (Inr ''brewing'', v)"
    by (simp add: async_verify_brew_started_def verify_loop.simps v(2,3) brewing_world_def
        BREW_START_TIMEOUT_S_def BREW_STARTED_LABELS_def)
  then show ?thesis using v by (simp add: async_confirm_recipe_def then_co_def bind_co_def return_co_def)
qed

text \<open>
  C4. Confirming an armed coffee at the coordinator answers True only when the machine itself
  reported that it is starting or brewing, however often the wake-up retry repeated the command
  and whatever settings the user changed meanwhile; in either case nothing is left armed.
\<close>

theorem confirm_true_means_started:
  assumes "\<not> k_armed_recipe_is_tea k"
    and "coord_confirm_recipe B (changes_meanwhile changes) k = (Inr True, k')"
  shows "raw_state_label (k_status k') \<in> {Some ''starting'', Some ''brewing''} \<and>
    k_armed_operation k' = None \<and> k_armed_recipe_tea_payload k' = None"
proof -
  let ?act = "\<lambda>k. on_client (async_confirm_recipe (k_armed_recipe_is_tea k) (k_armed_recipe_tea_payload k)) k"
  let ?retry = "async_retry_while_sleeping B (changes_meanwhile changes) ?act"
  obtain ok k1 where en: "async_ensure_connected B (changes_meanwhile changes) k = (Inr ok, k1)" and ok: "ok"
    using assms(2) by (auto simp: coord_confirm_recipe_def when_up_def bind_co_Inr return_co_def split: if_splits)
  have nt1: "\<not> k_armed_recipe_is_tea k1"
    using keepsD [OF nt.keeps_ensure en, OF tea_flag_changes] assms(1) by (simp add: not_tea_step_def)
  let ?k2 = "k1\<lparr>k_executing_recipe := True, k_active_operation := Some ''recipe'', k_current_pour_index := None\<rparr>"
  let ?m = "catch_co
       (then_co (modify (\<lambda>k. k\<lparr>k_executing_recipe := True, k_active_operation := Some ''recipe'',
           k_current_pour_index := None\<rparr>)) (then_co ?retry (return_co True)))
       (\<lambda>_. then_co (modify (\<lambda>k. k\<lparr>k_executing_recipe := False, k_active_recipe_pours := None,
           k_active_operation := None\<rparr>)) (return_co False))"
  have fin: "finally_co ?m (\<lambda>k. k\<lparr>k_armed_operation := None, k_armed_recipe_is_tea := False,
                k_armed_recipe_tea_payload := None\<rparr>) k1 = (Inr True, k')"
    using assms(2) ok unfolding coord_confirm_recipe_def when_up_def bind_co_run [where m = "async_ensure_connected B (changes_meanwhile changes)", OF en]
    by simp
  have "fst (?m k1) = Inr True" using fin by (simp add: finally_co_def)
  then obtain k3 where r: "?retry ?k2 = (Inr (), k3)" "snd (?m k1) = k3"
    by (auto simp: catch_co_def then_co_def bind_co_def modify_def return_co_def split: prod.splits sum.splits)
  have k3: "k' = k3\<lparr>k_armed_operation := None, k_armed_recipe_is_tea := False, k_armed_recipe_tea_payload := None\<rparr>"
    using fin r(2) by (simp add: finally_co_def)
  have keeps: "keeps not_tea_step ?act"
    unfolding keeps_def by (intro allI, rule nt.keeps_client [unfolded keeps_def, rule_format])
  obtain k0 where "not_tea_step ?k2 k0" "?act k0 = (Inr (), k3)"
    using nt.retry_last [OF tea_flag_changes keeps r(1)] by blast
  then have "raw_state_label (k_status k3) \<in> {Some ''starting'', Some ''brewing''}"
    using nt1 confirm_action_started [of k0 k3] by (simp add: not_tea_step_def)
  then show ?thesis using k3 by simp
qed

theorem confirm_true_means_started_witness:
  "\<exists>k'. coord_confirm_recipe offline_stack (changes_meanwhile (\<lambda>_. [])) (demo_coord\<lparr>k_world := brewing_world\<rparr>) = (Inr True, k') \<and>
     raw_state_label (k_status k') \<in> {Some ''starting'', Some ''brewing''}"
proof -
  let ?k = "demo_coord\<lparr>k_world := brewing_world\<rparr>" and ?ch = "changes_meanwhile (\<lambda>_. [])"
  obtain v where v: "async_confirm_recipe False (k_armed_recipe_tea_payload ?k) brewing_world = (Inr (), v)"
    "w_client v = w_client brewing_world" using brewing_confirms by blast
  have k: "k_connected ?k" "\<not> k_asleep ?k" "\<not> is_sleeping (status (w_client v))" "\<not> k_armed_recipe_is_tea ?k"
    by (simp_all add: v(2) demo_coord_def init_coord_def k_asleep_def brewing_world_def demo_world_def init_client_def init_status_def)
  then obtain k' where "coord_confirm_recipe offline_stack ?ch ?k = (Inr True, k')"
    using confirm_awake [OF k(1-3)] v(1) by fastforce
  with confirm_true_means_started [OF k(4) this] show ?thesis by blast
qed

lemma built_cup_type:
  "build_recipe_from_yaml raw = Inr r \<Longrightarrow>
     cup_type r = lookup_or 0 YAML_CUP_TYPE_MAP (py_lower (py_strip (rd_cup_type raw)))"
  by (auto simp: build_recipe_from_yaml_def Let_def bind_res_Inr_iff recipe_post_init_def split: if_splits)

text \<open>
  The firmware gate and the recipe builder read the cup type differently: the gate lower-cases
  it, the builder trims it first. A stored cup type that is tea only once trimmed is prepared as a
  tea brew on every firmware, too old ones included.
\<close>

theorem padded_tea_skips_firmware_gate:
  assumes "k_water_source k = WATER_SOURCE_DIRECT" "k_selected_recipe k = Some nm" "nm \<noteq> []"
    "map_of (k_recipes k) nm = Some stored" "build_recipe_from_yaml stored = Inr r"
    "py_lower (rd_cup_type stored) \<noteq> ''tea''" "py_lower (py_strip (rd_cup_type stored)) = ''tea''"
  shows "prepare_recipe_execution k no_overrides [] None None = Inr (Some (r, True, Fin 0, Fin 0))"
proof -
  have "cup_type r = CUP_TEA"
    using built_cup_type [OF assms(5)] assms(7)
    by (simp add: lookup_or_def YAML_CUP_TYPE_MAP_def CUP_TEA_def)
  then show ?thesis
    using assms by (simp add: prepare_recipe_execution_def build_prepared_def apply_overrides_def no_overrides_def
        get_def is_tea_recipe_def WATER_SOURCE_DIRECT_def WATER_SOURCE_TANK_def)
qed

definition padded_tea :: recipe_dict where
  "padded_tea = (demo_dict [sip 2])\<lparr>rd_cup_type := '' tea''\<rparr>"

definition old_machine :: coord where
  "old_machine = demo_coord\<lparr>k_water_source := WATER_SOURCE_DIRECT, k_selected_recipe := Some ''T'',
     k_recipes := [(''T'', padded_tea)], k_data := DEFAULT_STATE\<lparr>d_version := ''V12.0D.210''\<rparr>\<rparr>"

theorem padded_tea_skips_firmware_gate_witness:
  "\<not> firmware_at_least (d_version (k_data old_machine)) MIN_FIRMWARE_TEA \<and>
   (\<exists>r. prepare_recipe_execution old_machine no_overrides [] None None = Inr (Some (r, True, Fin 0, Fin 0)))"
proof -
  have "build_pour (sip 2) = Inr \<lparr>volume = 2, temperature = 92, flow_rate = Fin 3, pausing = 0, pattern = SPIRAL, vibration = VNone\<rparr>"
    by (simp add: build_pour_def sip_def pour_pattern_of_def pour_post_init_def lookup_or_def YAML_VIBRATION_MAP_def
        py_strip_def py_lower_def py_space_def lower_char_def)
  moreover have "float_volumes [sip 2] = Inr (Fin 2)"
    by (simp add: float_volumes_def sip_def float_of_int_def small_doubles)
  ultimately obtain r where r: "build_recipe_from_yaml padded_tea = Inr r"
    by (simp add: build_recipe_from_yaml_def padded_tea_def demo_dict_def compute_total_water_ml_def
        recipe_post_init_def VALID_RPMS_def)
  have "py_lower (rd_cup_type padded_tea) \<noteq> ''tea''" "py_lower (py_strip (rd_cup_type padded_tea)) = ''tea''"
    by (simp_all add: padded_tea_def py_strip_def py_lower_def py_space_def lower_char_def)
  from padded_tea_skips_firmware_gate [OF _ _ _ _ r this, of old_machine "''T''"]
  have "prepare_recipe_execution old_machine no_overrides [] None None = Inr (Some (r, True, Fin 0, Fin 0))"
    by (simp add: old_machine_def)
  moreover have "\<not> firmware_at_least (d_version (k_data old_machine)) MIN_FIRMWARE_TEA"
    by (simp add: old_machine_def firmware_at_least_def firmware_build_def MIN_FIRMWARE_TEA_def
        FIRMWARE_PREFIX_def py_strip_def py_space_def digits_value_def)
  ultimately show ?thesis by blast
qed

end
