(* ===== verification/Identity.thy ===== *)
theory Identity
  imports Schema "HOL-Library.Sublist"
begin

text \<open>
  How a recipe is identified (\<^verbatim>\<open>schema.py\<close>): the recipe schema itself, share links and ids, and
  the lookup across uid, cloud id, share link and name.  Text is the byte sequence of its UTF-8
  encoding; percent-escapes that do not form UTF-8 are kept as bytes where Python substitutes a
  replacement character, and a host in square brackets is outside the model.
\<close>

section \<open>Text of the standard library\<close>

text \<open>\<^verbatim>\<open>needle in s\<close>.\<close>

definition contains :: "string \<Rightarrow> string \<Rightarrow> bool" where
  "contains needle s \<longleftrightarrow> sublist needle s"

lemma contains_code [code]: "contains needle s \<longleftrightarrow> list_ex (\<lambda>n. prefix needle (drop n s)) [0..<Suc (length s)]"
proof
  assume "contains needle s"
  then obtain ps ss where s: "s = ps @ needle @ ss" by (auto simp: contains_def sublist_def)
  then have "prefix needle (drop (length ps) s)" by simp
  then show "list_ex (\<lambda>n. prefix needle (drop n s)) [0..<Suc (length s)]"
    using s by (auto simp: list_ex_iff intro!: bexI [of _ "length ps"])
next
  assume "list_ex (\<lambda>n. prefix needle (drop n s)) [0..<Suc (length s)]"
  then obtain n where "prefix needle (drop n s)" by (auto simp: list_ex_iff)
  then obtain ss where "drop n s = needle @ ss" by (auto simp: prefix_def)
  then have "s = take n s @ needle @ ss" by (metis append_take_drop_id)
  then show "contains needle s" unfolding contains_def sublist_def by metis
qed

text \<open>What is before the first \<open>c\<close>, and what is after it (nothing when there is none).\<close>

definition before_char :: "char \<Rightarrow> string \<Rightarrow> string" where
  "before_char c s = takeWhile (\<lambda>x. x \<noteq> c) s"

definition after_char :: "char \<Rightarrow> string \<Rightarrow> string" where
  "after_char c s = drop 1 (dropWhile (\<lambda>x. x \<noteq> c) s)"

fun split_char :: "char \<Rightarrow> string \<Rightarrow> string list" where
  "split_char c [] = [[]]"
| "split_char c (x # xs) =
     (if x = c then [] # split_char c xs
      else case split_char c xs of [] \<Rightarrow> [[x]] | s # ss \<Rightarrow> (x # s) # ss)"

definition hex_value :: "char \<Rightarrow> nat option" where
  "hex_value c = (let n = (of_char c :: nat) in
     if 48 \<le> n \<and> n \<le> 57 then Some (n - 48)
     else if 97 \<le> n \<and> n \<le> 102 then Some (n - 87)
     else if 65 \<le> n \<and> n \<le> 70 then Some (n - 55) else None)"

text \<open>\<^verbatim>\<open>urllib.parse.unquote\<close>.\<close>

fun unquote :: "string \<Rightarrow> string" where
  "unquote (c # a # b # s) =
     (if c = CHR ''%'' then
        case (hex_value a, hex_value b) of
          (Some x, Some y) \<Rightarrow> char_of (16 * x + y) # unquote s
        | _ \<Rightarrow> c # unquote (a # b # s)
      else c # unquote (a # b # s))"
| "unquote (c # s) = c # unquote s"
| "unquote [] = []"

text \<open>\<^verbatim>\<open>urlparse(url).query\<close>: tabs and line breaks are removed, a fragment is cut off first.\<close>

definition url_query :: "string \<Rightarrow> string" where
  "url_query url =
     after_char CHR ''?'' (before_char CHR ''#''
       (filter (\<lambda>c. (of_char c :: nat) \<notin> {9, 10, 13}) url))"

definition plus_to_space :: "string \<Rightarrow> string" where
  "plus_to_space = map (\<lambda>c. if c = CHR ''+'' then CHR '' '' else c)"

text \<open>
  \<^verbatim>\<open>parse_qs(query).get(key)\<close>, its first value: pairs without \<open>=\<close> or with an empty value are
  dropped, and in names and values a plus sign stands for a blank.
\<close>

definition query_pairs :: "string \<Rightarrow> (string \<times> string) list" where
  "query_pairs query =
     map (\<lambda>nv. (unquote (plus_to_space (before_char CHR ''='' nv)),
                unquote (plus_to_space (after_char CHR ''='' nv))))
       (filter (\<lambda>nv. CHR ''='' \<in> set nv \<and> after_char CHR ''='' nv \<noteq> []) (split_char CHR ''&'' query))"

definition query_value :: "string \<Rightarrow> string \<Rightarrow> string option" where
  "query_value key query = map_of (query_pairs query) key"

definition is_digit :: "char \<Rightarrow> bool" where
  "is_digit c \<longleftrightarrow> 48 \<le> (of_char c :: nat) \<and> (of_char c :: nat) \<le> 57"

text \<open>\<^verbatim>\<open>int(s)\<close> of text: blanks around, a sign, digits with single underscores between them.\<close>

fun digit_groups :: "string \<Rightarrow> bool" where
  "digit_groups [] = False"
| "digit_groups [c] = is_digit c"
| "digit_groups (c # d # s) = (is_digit c \<and> (if d = CHR ''_'' then digit_groups s else digit_groups (d # s)))"

definition natural_value :: "string \<Rightarrow> int" where
  "natural_value s = foldl (\<lambda>n c. 10 * n + (int (of_char c) - 48)) 0 (filter is_digit s)"

definition int_of_text :: "string \<Rightarrow> int option" where
  "int_of_text s =
     (case py_strip s of
        [] \<Rightarrow> None
      | c # ds \<Rightarrow>
          if c = CHR ''-'' then (if digit_groups ds then Some (- natural_value ds) else None)
          else if c = CHR ''+'' then (if digit_groups ds then Some (natural_value ds) else None)
          else if digit_groups (c # ds) then Some (natural_value (c # ds)) else None)"

section \<open>The recipe schema\<close>

text \<open>
  A dictionary before validation: every field but the pours already has its type (a missing
  optional field its default), and the pours carry the two fields with coercions of their own.
\<close>

record raw_pour =
  raw_volume_ml :: int
  raw_temperature_c :: pyval
  raw_flow_rate :: pyfloat
  raw_pause_seconds :: int
  raw_pattern :: pyval
  raw_vibration :: string

record recipe_raw =
  raw_fields :: recipe_dict
  raw_pours :: "raw_pour list"

definition VIBRATION_NAMES :: "string list" where
  "VIBRATION_NAMES = [''none'', ''before'', ''after'', ''both'']"

definition POUR_SCHEMA :: "raw_pour \<Rightarrow> pour_dict res" where
  "POUR_SCHEMA p =
     (if raw_volume_ml p < 0 then Inl VolInvalid
      else bind_res (coerce_temperature_c (raw_temperature_c p)) (\<lambda>t.
           bind_res (coerce_pour_pattern (raw_pattern p)) (\<lambda>q.
             if raw_vibration p \<in> set VIBRATION_NAMES
             then Inr \<lparr>volume_ml = raw_volume_ml p, temperature_c = t, pour_flow_rate = raw_flow_rate p,
               pause_seconds = raw_pause_seconds p, pattern_code = q, vibration_name = raw_vibration p\<rparr>
             else Inl VolInvalid)))"

definition RECIPE_SCHEMA :: "recipe_raw \<Rightarrow> recipe_dict res" where
  "RECIPE_SCHEMA r =
     bind_res (map_res POUR_SCHEMA (raw_pours r)) (\<lambda>ps. Inr ((raw_fields r)\<lparr>rd_pours := ps\<rparr>))"

text \<open>A validated dictionary as input of another validation.\<close>

definition raw_pour_of :: "pour_dict \<Rightarrow> raw_pour" where
  "raw_pour_of p =
     \<lparr>raw_volume_ml = volume_ml p, raw_temperature_c = PInt (temperature_c p), raw_flow_rate = pour_flow_rate p,
      raw_pause_seconds = pause_seconds p, raw_pattern = PInt (pattern_code p), raw_vibration = vibration_name p\<rparr>"

definition raw_of :: "recipe_dict \<Rightarrow> recipe_raw" where
  "raw_of r = \<lparr>raw_fields = r, raw_pours = map raw_pour_of (rd_pours r)\<rparr>"

definition strip_protected :: "recipe_dict \<Rightarrow> recipe_dict" where
  "strip_protected r = r\<lparr>rd_uid := None, rd_cloud_table_id := None, rd_share_url := None, rd_source := None\<rparr>"

lemma POUR_SCHEMA_idem: "POUR_SCHEMA p = Inr q \<Longrightarrow> POUR_SCHEMA (raw_pour_of q) = Inr q"
proof -
  assume p: "POUR_SCHEMA p = Inr q"
  have t: "0 < t" if "coerce_temperature_c v = Inr t" for v t
    using that by (cases v rule: coerce_temperature_c.cases)
      (auto simp: TEMPERATURE_NAME_TO_C_def split: option.splits if_splits)
  have c: "n \<in> {0, 1, 2}" if "coerce_pour_pattern v = Inr n" for v n
    using that by (cases v rule: coerce_pour_pattern.cases)
      (auto simp: PATTERN_NAME_TO_INT_def split: option.splits if_splits)
  show ?thesis
    using p by (auto simp: POUR_SCHEMA_def raw_pour_of_def bind_res_Inr_iff split: if_splits dest!: t c)
qed

lemma RECIPE_SCHEMA_idem: "RECIPE_SCHEMA r = Inr v \<Longrightarrow> RECIPE_SCHEMA (raw_of v) = Inr v"
proof -
  assume "RECIPE_SCHEMA r = Inr v"
  then obtain ps where ps: "map_res POUR_SCHEMA (raw_pours r) = Inr ps" and v: "v = (raw_fields r)\<lparr>rd_pours := ps\<rparr>"
    by (auto simp: RECIPE_SCHEMA_def bind_res_Inr_iff)
  have "list_all2 (\<lambda>p q. POUR_SCHEMA p = Inr q) (raw_pours r) ps" by (rule map_res_Inr_all [OF ps])
  then have "map_res POUR_SCHEMA (map raw_pour_of ps) = Inr ps"
    by (induction rule: list_all2_induct) (simp_all add: POUR_SCHEMA_idem)
  then show ?thesis by (simp add: RECIPE_SCHEMA_def raw_of_def v)
qed

section \<open>Identifiers\<close>

definition share_id_of :: "string \<Rightarrow> string option" where
  "share_id_of url_or_id =
     (let s = py_strip url_or_id in
      if contains ''://'' s then query_value ''id'' (url_query s)
      else (case unquote s of [] \<Rightarrow> None | i \<Rightarrow> Some i))"

fun first_where :: "((string \<times> recipe_dict) \<Rightarrow> bool) \<Rightarrow> (string \<times> recipe_dict) list \<Rightarrow> (string \<times> recipe_dict) option" where
  "first_where P [] = None"
| "first_where P (x # xs) = (if P x then Some x else first_where P xs)"

definition has_share_id :: "string \<Rightarrow> recipe_dict \<Rightarrow> bool" where
  "has_share_id i r = (case rd_share_url r of
     Some stored \<Rightarrow> stored \<noteq> [] \<and> share_id_of stored = Some i | None \<Rightarrow> False)"

definition find_recipe :: "(string \<times> recipe_dict) list \<Rightarrow> string \<Rightarrow> (string \<times> recipe_dict) option" where
  "find_recipe recipes identifier =
     (let i = py_strip identifier in
      if i = [] \<or> recipes = [] then None
      else case first_where (\<lambda>(_, r). rd_uid r = Some i) recipes of
        Some x \<Rightarrow> Some x
      | None \<Rightarrow>
        (case (case int_of_text i of None \<Rightarrow> None
               | Some t \<Rightarrow> first_where (\<lambda>(_, r). rd_cloud_table_id r = Some t) recipes) of
          Some x \<Rightarrow> Some x
        | None \<Rightarrow>
          (case (case share_id_of i of None \<Rightarrow> None
                 | Some q \<Rightarrow> if q = [] then None else first_where (\<lambda>(_, r). has_share_id q r) recipes) of
            Some x \<Rightarrow> Some x
          | None \<Rightarrow> (case map_of recipes i of None \<Rightarrow> None | Some r \<Rightarrow> Some (i, r)))))"

definition looks_like_share_ref :: "string \<Rightarrow> bool" where
  "looks_like_share_ref identifier =
     (let s = py_strip identifier in
      contains ''://'' s \<or> list_ex (\<lambda>c. c \<in> set ''%=+/'') s \<or> (s \<noteq> [] \<and> list_all is_digit s))"

section \<open>What a lookup returns\<close>

lemma first_where_Some: "first_where P xs = Some x \<Longrightarrow> x \<in> set xs \<and> P x"
  by (induction xs) (auto split: if_splits)

lemma first_where_None: "first_where P xs = None \<longleftrightarrow> (\<forall>x\<in>set xs. \<not> P x)"
  by (induction xs) auto

lemma find_recipe_in: "find_recipe recipes i = Some (n, r) \<Longrightarrow> (n, r) \<in> set recipes"
  by (auto simp: find_recipe_def Let_def map_of_SomeD
      split: if_splits option.splits dest!: first_where_Some)

lemma find_recipe_uid:
  assumes "(n, r) \<in> set recipes" "rd_uid r = Some i" "py_strip i = i" "i \<noteq> []"
    "\<And>m q. (m, q) \<in> set recipes \<Longrightarrow> rd_uid q = Some i \<Longrightarrow> (m, q) = (n, r)"
  shows "find_recipe recipes i = Some (n, r)"
proof (cases "first_where (\<lambda>(_, r). rd_uid r = Some i) recipes")
  case None
  then show ?thesis using assms(1,2) by (auto simp: first_where_None)
next
  case (Some x)
  then have "x = (n, r)" using first_where_Some [OF Some] assms(5) by (cases x) auto
  then show ?thesis using Some assms(1,3,4) by (auto simp: find_recipe_def)
qed

end
