(* ===== verification/CloudRecipe.thy ===== *)
theory CloudRecipe
  imports Identity
begin

text \<open>
  The recipe conversions of the cloud client (\<^verbatim>\<open>_cloud_client.py\<close>): from the cloud's shape of a
  recipe to the local one and back, the consistency check before an upload, share ids, and the
  resolution of search facets.  A missing or null field is \<open>None\<close>; numbers the code passes to
  \<^verbatim>\<open>int\<close> are integers.
\<close>

section \<open>From the cloud\<close>

record cloud_pour =
  cp_name :: string
  cp_volume :: "int option"
  cp_temperature :: "int option"
  cp_flow_rate :: "pyfloat option"
  cp_pausing :: "int option"
  cp_pattern :: "int option"
  cp_vibration_before :: "int option"
  cp_vibration_after :: "int option"

record cloud_recipe =
  cr_name :: "string option"
  cr_dose :: "pyfloat option"
  cr_grand_water :: "pyfloat option"
  cr_grinder_size :: "int option"
  cr_rpm :: "int option"
  cr_cup_type :: "int option"
  cr_bypass_temp :: "pyfloat option"
  cr_bypass_volume :: "pyfloat option"
  cr_is_set_grinder_size :: "int option"
  cr_is_enable_bypass_water :: "int option"
  cr_pours :: "cloud_pour list"

definition CLOUD_PATTERN_TO_LOCAL :: "(int \<times> string) list" where
  "CLOUD_PATTERN_TO_LOCAL = [(1, ''center''), (2, ''spiral''), (3, ''circular'')]"

definition CLOUD_CUP_TYPE_TO_LOCAL :: "(int \<times> string) list" where
  "CLOUD_CUP_TYPE_TO_LOCAL = [(1, ''x_pod''), (2, ''omni_dripper''), (3, ''other''), (4, ''tea'')]"

text \<open>\<^verbatim>\<open>d.get(key, missing) or falsy\<close> for integers and for floats.\<close>

definition int_or :: "int option \<Rightarrow> int \<Rightarrow> int \<Rightarrow> int" where
  "int_or v missing falsy = (let n = (case v of None \<Rightarrow> missing | Some n \<Rightarrow> n) in if n = 0 then falsy else n)"

definition float_or :: "pyfloat option \<Rightarrow> rat \<Rightarrow> rat \<Rightarrow> pyfloat" where
  "float_or v missing falsy =
     (let x = (case v of None \<Rightarrow> Fin missing | Some x \<Rightarrow> x) in if ftruthy x then x else Fin falsy)"

definition cloud_vibration_to_local :: "int option \<Rightarrow> int option \<Rightarrow> string" where
  "cloud_vibration_to_local before after =
     (if before = Some 1 \<and> after = Some 1 then ''both''
      else if before = Some 1 then ''before''
      else if after = Some 1 then ''after'' else ''none'')"

definition cloud_pour_to_local :: "cloud_pour \<Rightarrow> raw_pour" where
  "cloud_pour_to_local p =
     \<lparr>raw_volume_ml = int_or (cp_volume p) 30 30, raw_temperature_c = PInt (int_or (cp_temperature p) 93 93),
      raw_flow_rate = float_or (cp_flow_rate p) 3 3, raw_pause_seconds = int_or (cp_pausing p) 0 0,
      raw_pattern = PStr (case map_of CLOUD_PATTERN_TO_LOCAL (int_or (cp_pattern p) 2 2) of
                           None \<Rightarrow> ''spiral'' | Some s \<Rightarrow> s),
      raw_vibration = cloud_vibration_to_local (cp_vibration_before p) (cp_vibration_after p)\<rparr>"

definition cloud_recipe_to_local :: "cloud_recipe \<Rightarrow> recipe_raw" where
  "cloud_recipe_to_local cloud =
     (let d = float_or (cr_dose cloud) 0 0;
          q = (case cr_grand_water cloud of
                 Some x \<Rightarrow> if flt (Fin 0) d \<and> ftruthy x then Some x else None | None \<Rightarrow> None);
          cup = (case map_of CLOUD_CUP_TYPE_TO_LOCAL (int_or (cr_cup_type cloud) 2 2) of
                   None \<Rightarrow> ''other'' | Some c \<Rightarrow> c);
          bypass_on = (cr_is_enable_bypass_water cloud \<in> {None, Some 1})
      in \<lparr>raw_fields =
            \<lparr>rd_uid = None, rd_cloud_table_id = None, rd_share_url = None, rd_source = None,
             rd_name = (case cr_name cloud of
                Some n \<Rightarrow> if n = [] then ''Imported Recipe'' else n | None \<Rightarrow> ''Imported Recipe''),
             rd_grind_size = int_or (cr_grinder_size cloud) 50 0, rd_rpm = int_or (cr_rpm cloud) 80 0,
             dose_g = d, ratio = q, rd_cup_type = cup,
             rd_bypass_volume = (if bypass_on then float_or (cr_bypass_volume cloud) 0 0 else Fin 0),
             rd_bypass_temperature = (if bypass_on then float_or (cr_bypass_temp cloud) 0 0 else Fin 0),
             rd_pours = []\<rparr>,
          raw_pours = map cloud_pour_to_local (cr_pours cloud)\<rparr>)"

section \<open>To the cloud\<close>

definition LOCAL_PATTERN_TO_CLOUD :: "(int \<times> int) list" where
  "LOCAL_PATTERN_TO_CLOUD = [(0, 1), (1, 3), (2, 2)]"

definition LOCAL_CUP_TYPE_TO_CLOUD :: "(string \<times> int) list" where
  "LOCAL_CUP_TYPE_TO_CLOUD = map (\<lambda>(k, v). (v, k)) CLOUD_CUP_TYPE_TO_LOCAL"

definition local_vibration_to_cloud :: "string \<Rightarrow> int \<times> int" where
  "local_vibration_to_cloud v =
     (if v \<in> {''before'', ''both''} then 1 else 2, if v \<in> {''after'', ''both''} then 1 else 2)"

definition local_pour_to_cloud :: "pour_dict \<Rightarrow> nat \<Rightarrow> cloud_pour" where
  "local_pour_to_cloud p index =
     (let (before, after) = local_vibration_to_cloud (vibration_name p) in
      \<lparr>cp_name = (if index = 0 then ''Bloom'' else ''Pour '' @ dec_digits (index + 1)),
       cp_volume = Some (volume_ml p), cp_temperature = Some (temperature_c p),
       cp_flow_rate = Some (pour_flow_rate p), cp_pausing = Some (pause_seconds p),
       cp_pattern = Some (case map_of LOCAL_PATTERN_TO_CLOUD (pattern_code p) of None \<Rightarrow> 2 | Some c \<Rightarrow> c),
       cp_vibration_before = Some before, cp_vibration_after = Some after\<rparr>)"

definition local_recipe_to_cloud :: "recipe_dict \<Rightarrow> cloud_recipe" where
  "local_recipe_to_cloud r =
     (let bypass_volume = float_or (Some (rd_bypass_volume r)) 0 0;
          bypass_temperature = float_or (Some (rd_bypass_temperature r)) 0 0
      in \<lparr>cr_name = Some (rd_name r), cr_dose = Some (float_or (Some (dose_g r)) 0 0), cr_grand_water = ratio r,
          cr_grinder_size = Some (rd_grind_size r), cr_rpm = Some (rd_rpm r),
          cr_cup_type = Some (case map_of LOCAL_CUP_TYPE_TO_CLOUD (rd_cup_type r) of None \<Rightarrow> 2 | Some c \<Rightarrow> c),
          cr_bypass_temp = Some bypass_temperature, cr_bypass_volume = Some bypass_volume,
          cr_is_set_grinder_size = Some (if 0 < rd_grind_size r then 1 else 2),
          cr_is_enable_bypass_water =
            Some (if flt (Fin 0) bypass_volume \<or> flt (Fin 0) bypass_temperature then 1 else 2),
          cr_pours = map (\<lambda>(i, p). local_pour_to_cloud p i) (enumerate 0 (rd_pours r))\<rparr>)"

definition POUR_VOLUME_TOLERANCE_ML :: pyfloat where "POUR_VOLUME_TOLERANCE_ML = Fin 1"

text \<open>The mismatch (combined water and declared water), if there is one.\<close>

definition validate_pour_volume_consistency :: "recipe_dict \<Rightarrow> (pyfloat \<times> pyfloat) option res" where
  "validate_pour_volume_consistency r =
     (case ratio r of
        None \<Rightarrow> Inr None
      | Some q \<Rightarrow>
          if fle (dose_g r) (Fin 0) \<or> \<not> ftruthy q then Inr None
          else bind_res (float_volumes (rd_pours r)) (\<lambda>pour_sum.
            let total = fmul (dose_g r) q; combined = fadd pour_sum (float_or (Some (rd_bypass_volume r)) 0 0)
            in Inr (if flt POUR_VOLUME_TOLERANCE_ML (fabs (fsub combined total))
                    then Some (combined, total) else None)))"

definition parse_share_id :: "string \<Rightarrow> string" where
  "parse_share_id share_url_or_id =
     (let value = py_strip share_url_or_id in
      if contains ''share-h5.xbloom.com'' value
      then (case query_value ''id'' (url_query value) of None \<Rightarrow> [] | Some i \<Rightarrow> i)
      else value)"

section \<open>Search facets\<close>

text \<open>Codes first, then display names; later entries of a facet list win.\<close>

definition resolve_one :: "(string \<times> string) list \<Rightarrow> string \<Rightarrow> string option" where
  "resolve_one facets nm =
     (let key = py_lower (py_strip nm) in
      case map_of (rev (map (\<lambda>(_, v). (py_lower v, v)) facets)) key of
        Some code \<Rightarrow> Some code
      | None \<Rightarrow> map_of (rev (map (\<lambda>(n, v). (py_lower (py_strip n), v)) facets)) key)"

fun resolve_criteria_values :: "string list \<Rightarrow> (string \<times> string) list \<Rightarrow> string list \<times> string list" where
  "resolve_criteria_values [] facets = ([], [])"
| "resolve_criteria_values (nm # nms) facets =
     (let (resolved, unmatched) = resolve_criteria_values nms facets in
      case resolve_one facets nm of
        Some v \<Rightarrow> (v # resolved, unmatched)
      | None \<Rightarrow> (resolved, nm # unmatched))"

section \<open>Theorems\<close>

lemma uploaded_pour:
  assumes "POUR_SCHEMA rp = Inr p" "0 < volume_ml p" "ftruthy (pour_flow_rate p)"
  shows "POUR_SCHEMA (cloud_pour_to_local (local_pour_to_cloud p i)) = Inr p"
proof -
  have idem: "POUR_SCHEMA (raw_pour_of p) = Inr p" by (rule POUR_SCHEMA_idem [OF assms(1)])
  then have facts: "0 < temperature_c p" "pattern_code p \<in> {0, 1, 2}" "vibration_name p \<in> set VIBRATION_NAMES"
    by (auto simp: POUR_SCHEMA_def raw_pour_of_def bind_res_Inr_iff split: if_splits)
  have pat: "coerce_pour_pattern (PStr (case map_of CLOUD_PATTERN_TO_LOCAL
      (int_or (Some (case map_of LOCAL_PATTERN_TO_CLOUD (pattern_code p) of None \<Rightarrow> 2 | Some c \<Rightarrow> c)) 2 2) of
        None \<Rightarrow> ''spiral'' | Some s \<Rightarrow> s)) = Inr (pattern_code p)"
    using facts(2) by (auto simp: LOCAL_PATTERN_TO_CLOUD_def CLOUD_PATTERN_TO_LOCAL_def int_or_def
        PATTERN_NAME_TO_INT_def py_strip_def py_lower_def py_space_def lower_char_def)
  have vib: "(case local_vibration_to_cloud (vibration_name p) of
      (b, a) \<Rightarrow> cloud_vibration_to_local (Some b) (Some a)) = vibration_name p"
    using facts(3) by (auto simp: VIBRATION_NAMES_def local_vibration_to_cloud_def cloud_vibration_to_local_def)
  show ?thesis
    using assms(2,3) facts pat vib
    by (simp add: POUR_SCHEMA_def cloud_pour_to_local_def local_pour_to_cloud_def split_beta int_or_def
        float_or_def Let_def)
qed

lemma float_or_same [simp]: "float_or (Some x) a 0 = x"
  by (cases x) (simp_all add: float_or_def ftruthy_def)

lemma uploaded_pours:
  "list_all2 (\<lambda>rp p. POUR_SCHEMA rp = Inr p) rps ps \<Longrightarrow>
     \<forall>p\<in>set ps. 0 < volume_ml p \<and> ftruthy (pour_flow_rate p) \<Longrightarrow>
     map_res POUR_SCHEMA (map cloud_pour_to_local (map (\<lambda>(i, p). local_pour_to_cloud p i) (enumerate n ps))) = Inr ps"
  by (induction arbitrary: n rule: list_all2_induct) (simp_all add: uploaded_pour)

text \<open>
  Uploading a recipe and fetching it back gives the recipe that was uploaded, less its local
  identity: every brew field and every pour survives, provided the cup type is one of the cloud's
  four, no pour is empty or has a zero flow rate, the name is not empty, the ratio is only set with a dose, and the
  bypass is either in use or zero.
\<close>

lemma upload_roundtrip:
  assumes "RECIPE_SCHEMA raw = Inr r"
    and "\<forall>p\<in>set (rd_pours r). 0 < volume_ml p \<and> ftruthy (pour_flow_rate p)"
    and "rd_cup_type r \<in> {''x_pod'', ''omni_dripper'', ''other'', ''tea''}" "rd_name r \<noteq> []"
    and "\<forall>q. ratio r = Some q \<longrightarrow> flt (Fin 0) (dose_g r) \<and> ftruthy q"
    and "flt (Fin 0) (rd_bypass_volume r) \<or> flt (Fin 0) (rd_bypass_temperature r) \<or>
      (rd_bypass_volume r = Fin 0 \<and> rd_bypass_temperature r = Fin 0)"
  shows "RECIPE_SCHEMA (cloud_recipe_to_local (local_recipe_to_cloud r)) = Inr (strip_protected r)"
proof -
  obtain ps where "map_res POUR_SCHEMA (raw_pours raw) = Inr ps" and r: "rd_pours r = ps"
    using assms(1) by (auto simp: RECIPE_SCHEMA_def bind_res_Inr_iff)
  from uploaded_pours [OF map_res_Inr_all [OF this(1)]] assms(2) r
  have pours: "map_res POUR_SCHEMA (raw_pours (cloud_recipe_to_local (local_recipe_to_cloud r))) = Inr (rd_pours r)"
    by (simp add: cloud_recipe_to_local_def local_recipe_to_cloud_def Let_def)
  have cup: "(case map_of CLOUD_CUP_TYPE_TO_LOCAL
      (int_or (Some (case map_of LOCAL_CUP_TYPE_TO_CLOUD (rd_cup_type r) of None \<Rightarrow> 2 | Some c \<Rightarrow> c)) 2 2) of
        None \<Rightarrow> ''other'' | Some c \<Rightarrow> c) = rd_cup_type r"
    using assms(3) by (auto simp: LOCAL_CUP_TYPE_TO_CLOUD_def CLOUD_CUP_TYPE_TO_LOCAL_def int_or_def)
  have "(raw_fields (cloud_recipe_to_local (local_recipe_to_cloud r)))\<lparr>rd_pours := rd_pours r\<rparr> = strip_protected r"
    using assms(4-6) cup
    by (cases "ratio r") (auto simp: cloud_recipe_to_local_def local_recipe_to_cloud_def Let_def strip_protected_def int_or_def)
  then show ?thesis using pours by (simp add: RECIPE_SCHEMA_def)
qed

text \<open>
  A cup type the builder reads as tea but that is not spelled exactly \<open>tea\<close> brews as tea on the
  machine and is uploaded as an Omni dripper coffee.
\<close>

theorem cased_tea_uploaded_as_coffee:
  assumes "build_recipe_from_yaml r = Inr m" "py_lower (py_strip (rd_cup_type r)) = ''tea''" "rd_cup_type r \<noteq> ''tea''"
  shows "cup_type m = CUP_TEA \<and> cr_cup_type (local_recipe_to_cloud r) = Some 2 \<and>
    rd_cup_type (raw_fields (cloud_recipe_to_local (local_recipe_to_cloud r))) = ''omni_dripper''"
proof -
  have "cup_type m = lookup_or 0 YAML_CUP_TYPE_MAP (py_lower (py_strip (rd_cup_type r)))"
    using assms(1) by (auto simp: build_recipe_from_yaml_def Let_def bind_res_Inr_iff recipe_post_init_def split: if_splits)
  then have tea: "cup_type m = CUP_TEA"
    using assms(2) by (simp add: lookup_or_def YAML_CUP_TYPE_MAP_def CUP_TEA_def)
  have "py_lower (py_strip c) \<noteq> ''tea''" if "c \<in> {''x_pod'', ''omni_dripper'', ''other''}" for c
    using that by (auto simp: py_strip_def py_lower_def py_space_def lower_char_def)
  then have "rd_cup_type r \<notin> {''x_pod'', ''omni_dripper'', ''other''}" using assms(2) by blast
  then have "map_of LOCAL_CUP_TYPE_TO_CLOUD (rd_cup_type r) = None"
    using assms(3) by (simp add: LOCAL_CUP_TYPE_TO_CLOUD_def CLOUD_CUP_TYPE_TO_LOCAL_def)
  then show ?thesis
    using tea by (simp add: local_recipe_to_cloud_def cloud_recipe_to_local_def Let_def int_or_def CLOUD_CUP_TYPE_TO_LOCAL_def)
qed

theorem cased_tea_uploaded_as_coffee_witness:
  "cr_cup_type (local_recipe_to_cloud ((demo_dict [sip 2])\<lparr>rd_cup_type := ''Tea''\<rparr>)) = Some 2"
proof -
  let ?r = "(demo_dict [sip 2])\<lparr>rd_cup_type := ''Tea''\<rparr>"
  have "build_pour (sip 2) = Inr \<lparr>volume = 2, temperature = 92, flow_rate = Fin 3, pausing = 0, pattern = SPIRAL, vibration = VNone\<rparr>"
    by (simp add: build_pour_def sip_def pour_pattern_of_def pour_post_init_def lookup_or_def YAML_VIBRATION_MAP_def
        py_strip_def py_lower_def py_space_def lower_char_def)
  moreover have "float_volumes [sip 2] = Inr (Fin 2)"
    by (simp add: float_volumes_def sip_def float_of_int_def small_doubles)
  ultimately obtain m where "build_recipe_from_yaml ?r = Inr m"
    by (simp add: build_recipe_from_yaml_def demo_dict_def compute_total_water_ml_def recipe_post_init_def VALID_RPMS_def)
  moreover have "py_lower (py_strip (rd_cup_type ?r)) = ''tea''" "rd_cup_type ?r \<noteq> ''tea''"
    by (simp_all add: py_strip_def py_lower_def py_space_def lower_char_def char_of_def bit_0)
  ultimately show ?thesis using cased_tea_uploaded_as_coffee by blast
qed

text \<open>Every facet value is resolved or reported back, in the order asked for.\<close>

lemma resolve_criteria_complete:
  "resolve_criteria_values nms facets =
     (map (\<lambda>n. the (resolve_one facets n)) (filter (\<lambda>n. resolve_one facets n \<noteq> None) nms),
      filter (\<lambda>n. resolve_one facets n = None) nms)"
  by (induction nms) (auto split: option.split)

end
