(* ===== verification/CloudClient.thy ===== *)
theory CloudClient
  imports CloudRecipe
begin

text \<open>
  The session of the cloud client (\<^verbatim>\<open>XBloomCloudClient\<close> of \<^verbatim>\<open>_cloud_client.py\<close>): login, the recipe
  calls of the account, shared and official recipes, the community search, pods, the machine's
  picture and its radius centre.  The server is a parameter: its answer to a request given all
  requests so far, \<open>None\<close> when the call fails on the way.  Answers are typed; the encryption of
  authenticated bodies is transport and left out.
\<close>

section \<open>Requests and answers\<close>

text \<open>A search of the community hub as the caller words it, and as it is sent.\<close>

record search_filters =
  sf_keyword :: "string option"
  sf_category :: "string option"
  sf_src :: "string option"
  sf_machine :: "string list"
  sf_cup_type :: "string list"
  sf_origin :: "string list"
  sf_varietal :: "string list"
  sf_process :: "string list"
  sf_roast :: "string list"
  sf_flavor :: "string list"
  sf_sort :: string
  sf_sort_direction :: string
  sf_page :: int
  sf_page_size :: int

record search_query =
  sq_page :: int
  sq_page_size :: int
  sq_keyword :: "string option"
  sq_category :: "int option"
  sq_src :: "int option"
  sq_sort :: int
  sq_direction :: int
  sq_facets :: "(string \<times> string list option) list"

datatype body =
    LoginBody string string
  | ListBody int int
  | AddBody cloud_recipe
  | UpdateBody int cloud_recipe
  | DeleteBody int
  | ShareBody string
  | DetailBody int
  | CriteriaBody
  | SearchBody search_query
  | RadiusBody string int
  | CoverBody string
  | PodBody string

record request =
  rq_endpoint :: string
  rq_auth :: "(int \<times> string) option"
  rq_body :: body

record cloud_entry =
  ce_table_id :: "int option"
  ce_share_link :: "string option"
  ce_default :: bool
  ce_recipe :: cloud_recipe

text \<open>\<open>as_success\<close> is the \<^verbatim>\<open>"result": "success"\<close> (or \<^verbatim>\<open>"code": 200\<close>) of an answer.\<close>

record answer =
  as_success :: bool
  as_member :: "int option"
  as_token :: string
  as_list :: "cloud_entry list"
  as_table_id :: "int option"
  as_recipe :: cloud_recipe
  as_share_link :: "string option"
  as_facets :: "(string \<times> (string \<times> string) list) list"
  as_center :: "int option"
  as_product :: string
  as_sku :: string
  as_image :: string
  as_version :: "int option"
  as_pod :: "(string \<times> string) list"

type_synonym server = "request list \<Rightarrow> answer option"

record cloud =
  cc_member :: "int option"
  cc_token :: "string option"
  cc_facets :: "(string \<times> (string \<times> string) list) list option"
  cc_log :: "request list"

type_synonym 'a cc = "(cloud, 'a) act"

definition new_cloud :: cloud where
  "new_cloud = \<lparr>cc_member = None, cc_token = None, cc_facets = None, cc_log = []\<rparr>"

definition logged_in :: "cloud \<Rightarrow> bool" where
  "logged_in c \<longleftrightarrow> cc_member c \<noteq> None \<and> cc_token c \<noteq> None"

text \<open>One request, with the answer only when it reports success.\<close>

definition post :: "server \<Rightarrow> string \<Rightarrow> (int \<times> string) option \<Rightarrow> body \<Rightarrow> answer option cc" where
  "post srv endpoint auth bdy c =
     (let reqs = cc_log c @ [\<lparr>rq_endpoint = endpoint, rq_auth = auth, rq_body = bdy\<rparr>];
          ans = (case srv reqs of Some a \<Rightarrow> if as_success a then Some a else None | None \<Rightarrow> None)
      in (Inr ans, c\<lparr>cc_log := reqs\<rparr>))"

text \<open>An authenticated call: without a login it answers \<open>x\<close> and sends nothing.\<close>

definition post_encrypted :: "server \<Rightarrow> string \<Rightarrow> body \<Rightarrow> 'a \<Rightarrow> (answer option \<Rightarrow> 'a cc) \<Rightarrow> 'a cc" where
  "post_encrypted srv endpoint bdy x f c =
     (if \<not> logged_in c then (Inr x, c)
      else bind_co (post srv endpoint (Some (the (cc_member c), the (cc_token c))) bdy) f c)"

section \<open>The account\<close>

definition login :: "server \<Rightarrow> string \<Rightarrow> string \<Rightarrow> bool cc" where
  "login srv email password =
     bind_co (post srv ''tMemberLogin.thtml'' None (LoginBody email password)) (\<lambda>resp c.
       case resp of
         None \<Rightarrow> (Inr False, c)
       | Some a \<Rightarrow>
           (case as_member a of
              None \<Rightarrow> (Inr False, c)
            | Some m \<Rightarrow> if as_token a = [] then (Inr False, c)
                else (Inr True, c\<lparr>cc_member := Some m, cc_token := Some (as_token a)\<rparr>)))"

definition list_recipes :: "server \<Rightarrow> cloud_entry list option cc" where
  "list_recipes srv =
     post_encrypted srv ''tuMyTeaRecipeCreated.tuhtml'' (ListBody 1 100) None (\<lambda>resp.
       return_co (case resp of None \<Rightarrow> None | Some a \<Rightarrow> Some (as_list a)))"

definition get_recipe :: "server \<Rightarrow> int \<Rightarrow> cloud_entry option cc" where
  "get_recipe srv table_id =
     bind_co (list_recipes srv) (\<lambda>rs.
       return_co (case rs of None \<Rightarrow> None | Some es \<Rightarrow> find (\<lambda>e. ce_table_id e = Some table_id) es))"

definition create_recipe :: "server \<Rightarrow> recipe_dict \<Rightarrow> (int \<times> string) option cc" where
  "create_recipe srv local_recipe =
     post_encrypted srv ''tuRecipeAdd.tuhtml'' (AddBody (local_recipe_to_cloud local_recipe)) None (\<lambda>resp.
       case resp of
         None \<Rightarrow> return_co None
       | Some a \<Rightarrow>
           (case as_table_id a of
              None \<Rightarrow> return_co None
            | Some t \<Rightarrow> bind_co (get_recipe srv t) (\<lambda>created.
                return_co (Some (t, case created of None \<Rightarrow> []
                  | Some e \<Rightarrow> (case ce_share_link e of None \<Rightarrow> [] | Some l \<Rightarrow> l))))))"

definition update_recipe :: "server \<Rightarrow> int \<Rightarrow> cloud_recipe \<Rightarrow> bool cc" where
  "update_recipe srv table_id cloud_fields =
     post_encrypted srv ''tuRecipeUpdate.tuhtml'' (UpdateBody table_id cloud_fields) False (\<lambda>resp.
       return_co (resp \<noteq> None))"

definition delete_recipe :: "server \<Rightarrow> int \<Rightarrow> bool cc" where
  "delete_recipe srv table_id =
     post_encrypted srv ''tuRecipeDelete.tuhtml'' (DeleteBody table_id) False (\<lambda>resp.
       return_co (resp \<noteq> None))"

definition get_pour_radius_init_center :: "server \<Rightarrow> string \<Rightarrow> int \<Rightarrow> int option cc" where
  "get_pour_radius_init_center srv serial pouring_radius =
     post_encrypted srv ''machine/tuGetInitPouringRadius.tuhtml'' (RadiusBody serial pouring_radius) None (\<lambda>resp.
       return_co (case resp of None \<Rightarrow> None | Some a \<Rightarrow> as_center a))"

text \<open>The picture's address and version, when the answer is for a Studio of this serial's colour.\<close>

definition get_machine_cover :: "server \<Rightarrow> string \<Rightarrow> (string \<times> int option) option cc" where
  "get_machine_cover srv serial =
     post_encrypted srv ''tuMachineCover.tuhtml'' (CoverBody serial) None (\<lambda>resp.
       return_co (case resp of
         None \<Rightarrow> None
       | Some a \<Rightarrow>
           let product = py_strip (as_product a); sku = py_strip (as_sku a); url = py_strip (as_image a)
           in if product \<notin> {[], ''J15''} \<or> sku \<notin> {[], slice 4 6 serial} then None
              else if \<not> prefix ''https://'' url then None else Some (url, as_version a)))"

section \<open>Shared recipes, the community hub and pods\<close>

text \<open>\<^verbatim>\<open>re.search(r"collective\.xbloom\.com/recipe/(\d+)", s).group(1)\<close>.\<close>

fun collective_id :: "string \<Rightarrow> string option" where
  "collective_id s =
     (let pat = ''collective.xbloom.com/recipe/''; ds = takeWhile is_digit (drop (length pat) s) in
      if prefix pat s \<and> ds \<noteq> [] then Some ds
      else case s of [] \<Rightarrow> None | _ # t \<Rightarrow> collective_id t)"

declare collective_id.simps [simp del]

definition resolve_collective_link :: "server \<Rightarrow> string \<Rightarrow> string option cc" where
  "resolve_collective_link srv community_recipe_id =
     bind_co (post srv ''communityRecipe/recipe/detail'' None (DetailBody (natural_value community_recipe_id)))
       (\<lambda>resp. return_co (case resp of None \<Rightarrow> None | Some a \<Rightarrow> as_share_link a))"

definition fetch_share_id :: "server \<Rightarrow> string \<Rightarrow> recipe_raw option cc" where
  "fetch_share_id srv value =
     (let share_id = parse_share_id value in
      if share_id = [] then return_co None
      else bind_co (post srv ''RecipeDetail.html'' None (ShareBody share_id)) (\<lambda>resp.
        return_co (case resp of None \<Rightarrow> None | Some a \<Rightarrow> Some (cloud_recipe_to_local (as_recipe a)))))"

definition fetch_shared_recipe :: "server \<Rightarrow> string \<Rightarrow> recipe_raw option cc" where
  "fetch_shared_recipe srv share_url_or_id =
     (let value = py_strip share_url_or_id;
          community = (case collective_id value of
            Some i \<Rightarrow> Some i
          | None \<Rightarrow> if value \<noteq> [] \<and> list_all is_digit value then Some value else None)
      in case community of
           None \<Rightarrow> fetch_share_id srv value
         | Some i \<Rightarrow> bind_co (resolve_collective_link srv i) (\<lambda>resolved.
             case resolved of
               None \<Rightarrow> return_co None
             | Some link \<Rightarrow> if link = [] then return_co None else fetch_share_id srv link))"

definition COLLECTIVE_CATEGORY :: "(string \<times> int) list" where "COLLECTIVE_CATEGORY = [(''coffee'', 1), (''tea'', 2)]"
definition COLLECTIVE_SRC :: "(string \<times> int) list" where "COLLECTIVE_SRC = [(''official'', 1), (''user'', 2)]"
definition COLLECTIVE_SORT_FIELD :: "(string \<times> int) list" where
  "COLLECTIVE_SORT_FIELD = [(''date'', 1), (''likes'', 2), (''downloads'', 3)]"
definition COLLECTIVE_SORT_DIRECTION :: "(string \<times> int) list" where
  "COLLECTIVE_SORT_DIRECTION = [(''asc'', 1), (''desc'', 2)]"

definition fetch_collective_criteria :: "server \<Rightarrow> (string \<times> (string \<times> string) list) list option cc" where
  "fetch_collective_criteria srv c =
     (case cc_facets c of
        Some fs \<Rightarrow> (Inr (Some fs), c)
      | None \<Rightarrow> bind_co (post srv ''communityRecipe/recipe/criteria'' None CriteriaBody) (\<lambda>resp c.
          case resp of
            None \<Rightarrow> (Inr None, c)
          | Some a \<Rightarrow> (Inr (Some (as_facets a)), c\<lparr>cc_facets := Some (as_facets a)\<rparr>)) c)"

text \<open>The facets of a search: the field sent, the criteria list it is resolved in, the names asked for.\<close>

definition search_facets :: "search_filters \<Rightarrow> (string \<times> string \<times> string list) list" where
  "search_facets f =
     [(''originIds'', ''originList'', sf_origin f), (''varietalIds'', ''varietalList'', sf_varietal f),
      (''processIds'', ''processingList'', sf_process f), (''roastList'', ''roastList'', sf_roast f),
      (''flavorIds'', ''flavorList'', sf_flavor f), (''machineList'', ''machineList'', sf_machine f),
      (''cupTypeList'', ''cupTypeList'', sf_cup_type f)]"

definition resolve_facet :: "(string \<times> (string \<times> string) list) list \<Rightarrow> string \<Rightarrow> string list \<Rightarrow> string list \<times> string list" where
  "resolve_facet criteria facet_key names =
     resolve_criteria_values names (case map_of criteria facet_key of None \<Rightarrow> [] | Some l \<Rightarrow> l)"

definition text_or :: "string \<Rightarrow> string \<Rightarrow> string" where
  "text_or s t = (if s = [] then t else s)"

definition search_payload :: "(string \<times> (string \<times> string) list) list \<Rightarrow> search_filters \<Rightarrow> search_query" where
  "search_payload criteria f =
     \<lparr>sq_page = sf_page f, sq_page_size = sf_page_size f,
      sq_keyword = (if sf_keyword f = Some [] then None else sf_keyword f),
      sq_category = map_of COLLECTIVE_CATEGORY (py_lower (case sf_category f of None \<Rightarrow> [] | Some c \<Rightarrow> c)),
      sq_src = map_of COLLECTIVE_SRC (py_lower (case sf_src f of None \<Rightarrow> [] | Some c \<Rightarrow> c)),
      sq_sort = lookup_or 2 COLLECTIVE_SORT_FIELD (py_lower (text_or (sf_sort f) ''likes'')),
      sq_direction = lookup_or 2 COLLECTIVE_SORT_DIRECTION (py_lower (text_or (sf_sort_direction f) ''desc'')),
      sq_facets = map (\<lambda>(field, key, names).
        let values = fst (resolve_facet criteria key names) in (field, if values = [] then None else Some values))
        (search_facets f)\<rparr>"

definition unmatched_names :: "(string \<times> (string \<times> string) list) list \<Rightarrow> search_filters \<Rightarrow> (string \<times> string list) list" where
  "unmatched_names criteria f =
     filter (\<lambda>(_, bad). bad \<noteq> [])
       (map (\<lambda>(_, key, names). (key, snd (resolve_facet criteria key names))) (search_facets f))"

text \<open>The rows found and the filter names that match nothing, by facet.\<close>

definition search_collective :: "server \<Rightarrow> search_filters \<Rightarrow> (cloud_entry list \<times> (string \<times> string list) list) option cc" where
  "search_collective srv f =
     bind_co (fetch_collective_criteria srv) (\<lambda>criteria.
       case criteria of
         None \<Rightarrow> return_co None
       | Some fs \<Rightarrow>
           bind_co (post srv ''communityRecipe/index/page'' None (SearchBody (search_payload fs f))) (\<lambda>resp.
             return_co (case resp of None \<Rightarrow> None | Some a \<Rightarrow> Some (as_list a, unmatched_names fs f))))"

definition no_filters :: search_filters where
  "no_filters = \<lparr>sf_keyword = None, sf_category = None, sf_src = None, sf_machine = [], sf_cup_type = [],
     sf_origin = [], sf_varietal = [], sf_process = [], sf_roast = [], sf_flavor = [], sf_sort = ''likes'',
     sf_sort_direction = ''desc'', sf_page = 1, sf_page_size = 10\<rparr>"

fun fetch_details :: "server \<Rightarrow> cloud_entry list \<Rightarrow> recipe_raw list cc" where
  "fetch_details srv [] = return_co []"
| "fetch_details srv (e # es) =
     (case ce_share_link e of
        None \<Rightarrow> fetch_details srv es
      | Some l \<Rightarrow>
          if l = [] then fetch_details srv es
          else bind_co (fetch_shared_recipe srv l) (\<lambda>detail.
               bind_co (fetch_details srv es) (\<lambda>rs.
                 return_co (case detail of None \<Rightarrow> rs | Some d \<Rightarrow> d # rs))))"

definition fetch_official_recipes :: "server \<Rightarrow> nat \<Rightarrow> string list \<Rightarrow> recipe_raw list option cc" where
  "fetch_official_recipes srv limit cups =
     bind_co (search_collective srv (no_filters\<lparr>sf_src := Some ''official'', sf_cup_type := cups,
         sf_page_size := max 1 (int limit)\<rparr>)) (\<lambda>found.
       case found of
         None \<Rightarrow> return_co None
       | Some (rows, _) \<Rightarrow> bind_co (fetch_details srv (take limit rows)) (\<lambda>rs. return_co (Some rs)))"

definition POD_FIELDS :: "(string \<times> string) list" where
  "POD_FIELDS = [(''name'', ''theName''), (''roaster'', ''subtitle''), (''origin'', ''origin''),
     (''process'', ''process''), (''varietal'', ''varietal''), (''flavor'', ''flavor''),
     (''introduce'', ''introduce''), (''type'', ''type''), (''color'', ''theColor'')]"

definition pod_fields :: "(string \<times> string) list \<Rightarrow> (string \<times> string) list" where
  "pod_fields pod =
     filter (\<lambda>(_, v). v \<noteq> [] \<and> py_lower v \<noteq> ''n/a'')
       (map (\<lambda>(key, field). (key, py_strip (lookup_or [] pod field))) POD_FIELDS)"

definition pod_recipe :: "cloud_entry \<Rightarrow> recipe_raw" where
  "pod_recipe e =
     (let r = cloud_recipe_to_local (ce_recipe e) in
      r\<lparr>raw_fields := (raw_fields r)\<lparr>rd_share_url := Some (case ce_share_link e of None \<Rightarrow> [] | Some l \<Rightarrow> l)\<rparr>\<rparr>)"

record pod_detail =
  pd_fields :: "(string \<times> string) list"
  pd_default_recipe :: string
  pd_recipes :: "recipe_raw list"

definition fetch_pod_detail :: "server \<Rightarrow> string \<Rightarrow> pod_detail option cc" where
  "fetch_pod_detail srv xid =
     bind_co (post srv ''tRecipeDetailOfPods.thtml'' None (PodBody xid)) (\<lambda>resp.
       return_co (case resp of
         None \<Rightarrow> None
       | Some a \<Rightarrow>
           if as_list a = [] then None
           else let preselected = (case find ce_default (as_list a) of None \<Rightarrow> hd (as_list a) | Some e \<Rightarrow> e)
             in Some \<lparr>pd_fields = pod_fields (as_pod a),
                  pd_default_recipe = rd_name (raw_fields (pod_recipe preselected)),
                  pd_recipes = map pod_recipe (as_list a)\<rparr>))"

section \<open>Credentials\<close>

text \<open>
  The server issued a member id and token by the time of \<open>reqs\<close>: some request so far was a login,
  and it was answered with them.
\<close>

definition issued :: "server \<Rightarrow> request list \<Rightarrow> int \<Rightarrow> string \<Rightarrow> bool" where
  "issued srv reqs m t \<longleftrightarrow> (\<exists>i<length reqs. rq_endpoint (reqs ! i) = ''tMemberLogin.thtml'' \<and>
     (\<exists>a. srv (take (Suc i) reqs) = Some a \<and> as_success a \<and> as_member a = Some m \<and> as_token a = t))"

text \<open>Every request that carries credentials carries ones the server had issued before it.\<close>

definition honest_log :: "server \<Rightarrow> request list \<Rightarrow> bool" where
  "honest_log srv reqs \<longleftrightarrow> (\<forall>i<length reqs. \<forall>m t. rq_auth (reqs ! i) = Some (m, t) \<longrightarrow>
     issued srv (take i reqs) m t)"

definition session_ok :: "server \<Rightarrow> cloud \<Rightarrow> bool" where
  "session_ok srv c \<longleftrightarrow> honest_log srv (cc_log c) \<and>
     (\<forall>m t. cc_member c = Some m \<longrightarrow> cc_token c = Some t \<longrightarrow> issued srv (cc_log c) m t)"

lemma issued_snoc:
  "issued srv (reqs @ [rq]) m t \<longleftrightarrow> issued srv reqs m t \<or> (rq_endpoint rq = ''tMemberLogin.thtml'' \<and>
     (\<exists>a. srv (reqs @ [rq]) = Some a \<and> as_success a \<and> as_member a = Some m \<and> as_token a = t))"
proof -
  have "(\<exists>i<Suc n. P i) \<longleftrightarrow> (\<exists>i<n. P i) \<or> P n" for n and P :: "nat \<Rightarrow> bool" by (auto simp: less_Suc_eq)
  then show ?thesis by (simp add: issued_def nth_append Suc_le_eq cong: conj_cong)
qed

lemma honest_snoc:
  "honest_log srv (reqs @ [rq]) \<longleftrightarrow> honest_log srv reqs \<and> (\<forall>m t. rq_auth rq = Some (m, t) \<longrightarrow> issued srv reqs m t)"
proof -
  have "(\<forall>i<Suc n. P i) \<longleftrightarrow> (\<forall>i<n. P i) \<and> P n" for n and P :: "nat \<Rightarrow> bool" by (auto simp: less_Suc_eq)
  then show ?thesis by (simp add: honest_log_def nth_append)
qed

lemma session_post:
  assumes "session_ok srv c" "\<And>m t. auth = Some (m, t) \<Longrightarrow> issued srv (cc_log c) m t"
    "post srv endpoint auth bdy c = (r, c')"
  shows "is_ok r \<and> session_ok srv c'"
  using assms by (auto simp: post_def Let_def session_ok_def honest_snoc issued_snoc)

lemma smooth_post: "smooth (session_ok srv) (post srv endpoint None bdy)"
  by (rule smoothI) (metis option.distinct(1) prod.collapse session_post)

lemma smooth_encrypted:
  assumes "\<And>a. smooth (session_ok srv) (f a)"
  shows "smooth (session_ok srv) (post_encrypted srv endpoint bdy x f)"
proof (rule smoothI)
  fix c assume c: "session_ok srv c"
  show "is_ok (fst (post_encrypted srv endpoint bdy x f c)) \<and> session_ok srv (snd (post_encrypted srv endpoint bdy x f c))"
  proof (cases "logged_in c")
    case True
    then obtain m t where mt: "cc_member c = Some m" "cc_token c = Some t" by (auto simp: logged_in_def)
    obtain r c1 where p: "post srv endpoint (Some (m, t)) bdy c = (r, c1)" by fastforce
    have "is_ok r \<and> session_ok srv c1"
      using session_post [OF c _ p] c mt by (auto simp: session_ok_def)
    then show ?thesis
      using True mt p assms by (auto simp: post_encrypted_def bind_co_def smooth_def elim: is_okE)
  qed (simp add: c post_encrypted_def)
qed

lemma smooth_login: "smooth (session_ok srv) (login srv email password)"
proof (rule smoothI)
  fix c assume c: "session_ok srv c"
  let ?rq = "\<lparr>rq_endpoint = ''tMemberLogin.thtml'', rq_auth = None, rq_body = LoginBody email password\<rparr>"
  have ok: "session_ok srv (c\<lparr>cc_log := cc_log c @ [?rq]\<rparr>)"
    using c by (auto simp: session_ok_def honest_snoc issued_snoc)
  have "issued srv (cc_log c @ [?rq]) m t"
    if "srv (cc_log c @ [?rq]) = Some a" "as_success a" "as_member a = Some m" "as_token a = t" for a m t
    using that by (auto simp: issued_snoc)
  then show "is_ok (fst (login srv email password c)) \<and> session_ok srv (snd (login srv email password c))"
    using ok by (auto simp: login_def post_def bind_co_def Let_def session_ok_def split: option.split)
qed

lemma smooth_option:
  "smooth I m \<Longrightarrow> (\<And>x. smooth I (n x)) \<Longrightarrow> smooth I (case v of None \<Rightarrow> m | Some x \<Rightarrow> n x)"
  by (cases v) simp_all

lemmas smooth_cloud = smooth_post smooth_encrypted smooth_login smooth_bind smooth_return smooth_option smooth_if_const

lemma smooth_list_recipes: "smooth (session_ok srv) (list_recipes srv)"
  unfolding list_recipes_def by (intro smooth_cloud)

lemma smooth_get_recipe: "smooth (session_ok srv) (get_recipe srv t)"
  unfolding get_recipe_def by (intro smooth_cloud smooth_list_recipes)

lemma smooth_create_recipe: "smooth (session_ok srv) (create_recipe srv r)"
  unfolding create_recipe_def by (intro smooth_cloud smooth_get_recipe)

lemma smooth_fetch_share_id: "smooth (session_ok srv) (fetch_share_id srv v)"
  unfolding fetch_share_id_def Let_def by (intro smooth_cloud)

lemma smooth_fetch_shared: "smooth (session_ok srv) (fetch_shared_recipe srv v)"
  unfolding fetch_shared_recipe_def resolve_collective_link_def Let_def
  by (intro smooth_cloud smooth_fetch_share_id)

lemma smooth_criteria: "smooth (session_ok srv) (fetch_collective_criteria srv)"
proof -
  have "smooth (session_ok srv) (bind_co (post srv ''communityRecipe/recipe/criteria'' None CriteriaBody) (\<lambda>resp c.
      case resp of None \<Rightarrow> (Inr None, c) | Some a \<Rightarrow> (Inr (Some (as_facets a)), c\<lparr>cc_facets := Some (as_facets a)\<rparr>)))"
    by (intro smooth_bind smooth_post) (simp add: smooth_def session_ok_def split: option.split)
  then show ?thesis
    unfolding fetch_collective_criteria_def [abs_def] by (simp add: smooth_def split: option.split)
qed

lemma smooth_search: "smooth (session_ok srv) (search_collective srv f)"
  unfolding search_collective_def by (intro smooth_cloud smooth_criteria)

lemma smooth_fetch_details: "smooth (session_ok srv) (fetch_details srv es)"
proof (induction es)
  case (Cons e es)
  then show ?case unfolding fetch_details.simps by (intro smooth_cloud smooth_fetch_shared)
qed (simp only: fetch_details.simps smooth_return)

lemma smooth_official: "smooth (session_ok srv) (fetch_official_recipes srv n cups)"
  unfolding fetch_official_recipes_def by (intro smooth_cloud smooth_search) (auto intro!: smooth_cloud smooth_fetch_details)

section \<open>Theorems\<close>

datatype cloud_call =
    CallLogin string string
  | CallList
  | CallGet int
  | CallCreate recipe_dict
  | CallUpdate int cloud_recipe
  | CallDelete int
  | CallRadius string int
  | CallCover string
  | CallShared string
  | CallSearch search_filters
  | CallOfficial nat "string list"
  | CallPod string

definition run_call :: "server \<Rightarrow> cloud_call \<Rightarrow> unit cc" where
  "run_call srv call =
     (case call of
        CallLogin e p \<Rightarrow> then_co (login srv e p) (return_co ())
      | CallList \<Rightarrow> then_co (list_recipes srv) (return_co ())
      | CallGet t \<Rightarrow> then_co (get_recipe srv t) (return_co ())
      | CallCreate r \<Rightarrow> then_co (create_recipe srv r) (return_co ())
      | CallUpdate t r \<Rightarrow> then_co (update_recipe srv t r) (return_co ())
      | CallDelete t \<Rightarrow> then_co (delete_recipe srv t) (return_co ())
      | CallRadius s n \<Rightarrow> then_co (get_pour_radius_init_center srv s n) (return_co ())
      | CallCover s \<Rightarrow> then_co (get_machine_cover srv s) (return_co ())
      | CallShared v \<Rightarrow> then_co (fetch_shared_recipe srv v) (return_co ())
      | CallSearch f \<Rightarrow> then_co (search_collective srv f) (return_co ())
      | CallOfficial n cs \<Rightarrow> then_co (fetch_official_recipes srv n cs) (return_co ())
      | CallPod x \<Rightarrow> then_co (fetch_pod_detail srv x) (return_co ()))"

fun run_calls :: "server \<Rightarrow> cloud_call list \<Rightarrow> unit cc" where
  "run_calls srv [] = return_co ()"
| "run_calls srv (call # calls) = then_co (run_call srv call) (run_calls srv calls)"

lemma smooth_run_call: "smooth (session_ok srv) (run_call srv call)"
  unfolding run_call_def update_recipe_def delete_recipe_def get_pour_radius_init_center_def
    get_machine_cover_def fetch_pod_detail_def
  by (cases call) (simp_all add: smooth_then smooth_cloud smooth_list_recipes smooth_get_recipe
      smooth_create_recipe smooth_fetch_shared smooth_search smooth_official del: then_co_def)

lemma smooth_run_calls: "smooth (session_ok srv) (run_calls srv calls)"
  by (induction calls) (simp_all only: run_calls.simps smooth_return smooth_then smooth_run_call)

text \<open>
  C14. Whatever calls are made in whatever order, and whatever the server answers or fails to
  answer, no call raises, and a request carries account credentials only after a successful login
  that issued exactly those credentials.
\<close>

theorem credentials_only_when_issued:
  "is_ok (fst (run_calls srv calls new_cloud)) \<and> honest_log srv (cc_log (snd (run_calls srv calls new_cloud)))"
proof -
  have "session_ok srv new_cloud" by (simp add: session_ok_def new_cloud_def honest_log_def)
  then show ?thesis using smooth_run_calls [of srv calls] by (auto simp: smooth_def session_ok_def)
qed

end
