(* ===== verification/Store.thy ===== *)
theory Store
  imports RecipeRun CloudClient "HOL-Library.AList"
begin

text \<open>
  The recipe store of the coordinator (\<^verbatim>\<open>coordinator/recipes.py\<close>, second part): the merged view of
  the YAML layer and the stored layer with its tombstones, creating, editing, deleting, importing,
  exporting and seeding recipes, and writing Easy Mode slots.  A freshly minted uid is an
  argument; the service descriptions Home Assistant shows are not part of the state.
\<close>

section \<open>Two layers\<close>

text \<open>
  \<open>put n r\<close> stores a recipe under a name; \<open>hide n\<close> makes the name vanish, with a tombstone when
  the YAML layer has it.
\<close>

type_synonym layer = "(string \<times> recipe_dict option) list"

definition merge_layers :: "(string \<times> recipe_dict) list \<Rightarrow> layer \<Rightarrow> (string \<times> recipe_dict) list" where
  "merge_layers yaml opts =
     fold (\<lambda>(nm, r) merged. case r of None \<Rightarrow> AList.delete nm merged | Some x \<Rightarrow> AList.update nm x merged) opts yaml"

definition put_recipe :: "string \<Rightarrow> recipe_dict \<Rightarrow> layer \<Rightarrow> layer" where
  "put_recipe nm r opts = AList.update nm (Some r) opts"

definition hide_recipe :: "(string \<times> recipe_dict) list \<Rightarrow> string \<Rightarrow> layer \<Rightarrow> layer" where
  "hide_recipe yaml nm opts =
     (let popped = AList.delete nm opts
      in if nm \<in> fst ` set yaml then AList.update nm None popped else popped)"

text \<open>What is visible under a name: the stored layer decides, and else the YAML layer.\<close>

definition visible :: "(string \<times> recipe_dict) list \<Rightarrow> layer \<Rightarrow> string \<Rightarrow> recipe_dict option" where
  "visible yaml opts nm = (case map_of opts nm of Some r \<Rightarrow> r | None \<Rightarrow> map_of yaml nm)"

lemma merge_map_of:
  "distinct (map fst opts) \<Longrightarrow> map_of (merge_layers yaml opts) = visible yaml opts"
proof -
  have "distinct (map fst opts) \<Longrightarrow> map_of (fold (\<lambda>(nm, r) merged. case r of None \<Rightarrow> AList.delete nm merged
      | Some x \<Rightarrow> AList.update nm x merged) opts base) nm
    = (case map_of opts nm of Some r \<Rightarrow> r | None \<Rightarrow> map_of base nm)" for base nm
  proof (induction opts arbitrary: base)
    case (Cons x opts)
    obtain n r where x: "x = (n, r)" by fastforce
    have n: "map_of opts n = None" using Cons.prems x by (simp add: map_of_eq_None_iff)
    show ?case
      using Cons x n by (cases r) (auto simp: AList.update_conv' AList.delete_conv' split: option.split)
  qed simp
  then show "distinct (map fst opts) \<Longrightarrow> ?thesis" by (auto simp: merge_layers_def visible_def)
qed

lemma distinct_merge: "distinct (map fst yaml) \<Longrightarrow> distinct (map fst (merge_layers yaml opts))"
proof -
  have "distinct (map fst base) \<Longrightarrow> distinct (map fst (fold (\<lambda>(nm, r) merged. case r of None \<Rightarrow> AList.delete nm merged
      | Some x \<Rightarrow> AList.update nm x merged) opts base))" for base
    by (induction opts arbitrary: base) (auto simp: AList.distinct_update AList.distinct_delete split: option.split)
  then show "distinct (map fst yaml) \<Longrightarrow> ?thesis" by (simp add: merge_layers_def)
qed

lemma distinct_put: "distinct (map fst opts) \<Longrightarrow> distinct (map fst (put_recipe nm r opts))"
  by (simp add: put_recipe_def AList.distinct_update)

lemma distinct_hide: "distinct (map fst opts) \<Longrightarrow> distinct (map fst (hide_recipe yaml nm opts))"
  by (simp add: hide_recipe_def Let_def AList.distinct_update AList.distinct_delete)

text \<open>The contract of a layered store: its view, and what storing and hiding do to the view.\<close>

locale layered_store =
  fixes view :: "'o \<Rightarrow> 'n \<Rightarrow> 'r option"
    and put :: "'n \<Rightarrow> 'r \<Rightarrow> 'o \<Rightarrow> 'o"
    and hide :: "'n \<Rightarrow> 'o \<Rightarrow> 'o"
  assumes view_put: "view (put n r s) = (view s)(n \<mapsto> r)"
    and view_hide: "view (hide n s) = (view s)(n := None)"
begin

text \<open>A key that tells the visible entries apart keeps doing so.\<close>

definition keyed :: "('r \<Rightarrow> 'k option) \<Rightarrow> 'o \<Rightarrow> bool" where
  "keyed key s \<longleftrightarrow> (\<forall>n m r q k. view s n = Some r \<longrightarrow> view s m = Some q \<longrightarrow>
     key r = Some k \<longrightarrow> key q = Some k \<longrightarrow> n = m)"

lemma keyed_hide: "keyed key s \<Longrightarrow> keyed key (hide n s)"
  unfolding keyed_def view_hide by (metis fun_upd_apply option.distinct(1))

lemma keyed_put_fresh:
  "keyed key s \<Longrightarrow> (\<And>m q k. view s m = Some q \<Longrightarrow> key r = Some k \<Longrightarrow> key q \<noteq> Some k) \<Longrightarrow> keyed key (put n r s)"
  unfolding keyed_def view_put by (metis fun_upd_apply option.inject)

lemma keyed_put_same:
  "keyed key s \<Longrightarrow> view s n = Some q \<Longrightarrow> key r = key q \<Longrightarrow> keyed key (put n r s)"
  unfolding keyed_def view_put by (metis fun_upd_apply option.inject)

text \<open>Renaming an entry moves it, with its key.\<close>

lemma rename_view: "view (put new r (hide old s)) = (view s)(old := None, new \<mapsto> r)"
  by (simp add: view_put view_hide)

lemma keyed_rename:
  assumes "keyed key s" "view s old = Some q" "key r = key q"
  shows "keyed key (put new r (hide old s))"
proof (rule keyed_put_fresh [OF keyed_hide [OF assms(1)]])
  fix m p k assume m: "view (hide old s) m = Some p" and k: "key r = Some k"
  then have "m \<noteq> old" "view s m = Some p" by (auto simp: view_hide split: if_splits)
  then show "key p \<noteq> Some k" using assms k unfolding keyed_def by metis
qed

end

interpretation layers: layered_store "visible yaml" put_recipe "hide_recipe yaml" for yaml
proof
  show "visible yaml (put_recipe n r opts) = (visible yaml opts)(n \<mapsto> r)" for n r opts
    by (auto simp: visible_def put_recipe_def AList.update_conv' fun_eq_iff)
  show "visible yaml (hide_recipe yaml n opts) = (visible yaml opts)(n := None)" for n opts
    by (auto simp: visible_def hide_recipe_def Let_def AList.update_conv' AList.delete_conv' fun_eq_iff
        map_of_eq_None_iff split: option.splits)
qed

section \<open>The store\<close>

record store =
  st_coord :: coord
  st_yaml :: "(string \<times> recipe_dict) list"
  st_entry :: bool
  st_options :: layer
  st_slots :: "(string \<times> string option \<times> string) list"
  st_seeded :: bool
  st_account_seeded :: bool
  st_account :: "(string \<times> string) option"
  st_cloud :: cloud

type_synonym 'a so = "(store, 'a) act"

abbreviation st_recipes :: "store \<Rightarrow> (string \<times> recipe_dict) list" where
  "st_recipes s \<equiv> k_recipes (st_coord s)"

abbreviation st_selected :: "store \<Rightarrow> string option" where
  "st_selected s \<equiv> k_selected_recipe (st_coord s)"

definition on_coord :: "'a ko \<Rightarrow> 'a so" where
  "on_coord m s = (let (r, k) = m (st_coord s) in (r, s\<lparr>st_coord := k\<rparr>))"

definition on_cloud :: "'a cc \<Rightarrow> 'a so" where
  "on_cloud m s = (let (r, c) = m (st_cloud s) in (r, s\<lparr>st_cloud := c\<rparr>))"

datatype reply = Refused string | Saved "string option" string

definition options_recipes :: "store \<Rightarrow> layer" where
  "options_recipes s = (if st_entry s then st_options s else [])"

definition yaml_names :: "store \<Rightarrow> string list" where "yaml_names s = map fst (st_yaml s)"

definition rebuild_recipes :: "store \<Rightarrow> store" where
  "rebuild_recipes s =
     s\<lparr>st_coord := (st_coord s)\<lparr>k_recipes := merge_layers (st_yaml s) (options_recipes s)\<rparr>\<rparr>"

definition update_listeners :: "store \<Rightarrow> store" where
  "update_listeners s = s\<lparr>st_coord := request UpdateListeners (st_coord s)\<rparr>"

definition write_options_recipes :: "layer \<Rightarrow> store \<Rightarrow> store" where
  "write_options_recipes opts s =
     (if \<not> st_entry s then s else update_listeners (rebuild_recipes (s\<lparr>st_options := opts\<rparr>)))"

definition set_selected :: "string option \<Rightarrow> store \<Rightarrow> store" where
  "set_selected nm s = s\<lparr>st_coord := (st_coord s)\<lparr>k_selected_recipe := nm\<rparr>\<rparr>"

definition recipe_names :: "store \<Rightarrow> string list" where
  "recipe_names s = (if st_recipes s = [] then [''no_recipes_configured''] else map fst (st_recipes s))"

text \<open>The listing, filtered by a part of the name.\<close>

definition list_local_recipes :: "string option \<Rightarrow> store \<Rightarrow> (string \<times> recipe_dict) list" where
  "list_local_recipes query s =
     (case query of
        None \<Rightarrow> st_recipes s
      | Some q \<Rightarrow> if q = [] then st_recipes s
          else filter (\<lambda>(nm, _). contains (py_lower (py_strip q)) (py_lower nm)) (st_recipes s))"

section \<open>Creating, editing, deleting\<close>

definition strip_raw :: "recipe_raw \<Rightarrow> recipe_raw" where
  "strip_raw r = r\<lparr>raw_fields := strip_protected (raw_fields r)\<rparr>"

definition create_local_recipe :: "string \<Rightarrow> recipe_raw \<Rightarrow> store \<Rightarrow> reply \<times> store" where
  "create_local_recipe uid raw s =
     (case RECIPE_SCHEMA (strip_raw raw) of
        Inl _ \<Rightarrow> (Refused ''invalid_recipe'', s)
      | Inr v \<Rightarrow>
          let nm = dedupe_name (rd_name v) (map fst (st_recipes s));
              r = v\<lparr>rd_name := nm, rd_uid := Some uid, rd_source := Some ''manual''\<rparr>
          in (Saved (Some uid) nm, write_options_recipes (put_recipe nm r (options_recipes s)) s))"

definition async_import_cloud_recipe :: "server \<Rightarrow> string \<Rightarrow> string \<Rightarrow> reply so" where
  "async_import_cloud_recipe srv uid share_url_or_id =
     bind_co (on_cloud (fetch_shared_recipe srv share_url_or_id)) (\<lambda>fetched s.
       case fetched of
         None \<Rightarrow> (Inr (Refused ''fetch_failed''), s)
       | Some raw \<Rightarrow>
           (case RECIPE_SCHEMA raw of
              Inl _ \<Rightarrow> (Inr (Refused ''invalid_recipe''), s)
            | Inr v \<Rightarrow>
                if \<not> st_entry s then (Inr (Refused ''entry_not_found''), s)
                else let nm = dedupe_name (rd_name v) (map fst (st_recipes s));
                    link = (if contains ''://'' share_url_or_id then py_strip share_url_or_id
                            else ''https://share-h5.xbloom.com/?id='' @ py_strip share_url_or_id);
                    r = v\<lparr>rd_name := nm, rd_uid := Some uid, rd_source := Some ''import'',
                          rd_share_url := (if rd_share_url v = None then Some link else rd_share_url v)\<rparr>
                  in (Inr (Saved (Some uid) nm), write_options_recipes (put_recipe nm r (options_recipes s)) s)))"

text \<open>A recipe by any identifier; a share reference that is not known yet is imported first.\<close>

definition resolve_or_import :: "server \<Rightarrow> string \<Rightarrow> string \<Rightarrow> (string + string \<times> recipe_dict) so" where
  "resolve_or_import srv uid identifier s =
     (case find_recipe (st_recipes s) identifier of
        Some x \<Rightarrow> (Inr (Inr x), s)
      | None \<Rightarrow>
          if \<not> looks_like_share_ref identifier then (Inr (Inl ''recipe_not_found''), s)
          else bind_co (async_import_cloud_recipe srv uid identifier) (\<lambda>imported s1.
            case imported of
              Refused e \<Rightarrow> (Inr (Inl e), s1)
            | Saved u _ \<Rightarrow>
                (case find_recipe (st_recipes s1) uid of
                   Some x \<Rightarrow> (Inr (Inr x), s1)
                 | None \<Rightarrow> (Inr (Inl ''recipe_not_found''), s1))) s)"

text \<open>Changes to a recipe: the fields present in the user's input.\<close>

record recipe_changes =
  ch_uid :: "string option"
  ch_cloud_table_id :: "int option"
  ch_share_url :: "string option"
  ch_source :: "string option"
  ch_name :: "string option"
  ch_grind_size :: "int option"
  ch_rpm :: "int option"
  ch_dose_g :: "pyfloat option"
  ch_ratio :: "pyfloat option option"
  ch_cup_type :: "string option"
  ch_bypass_volume :: "pyfloat option"
  ch_bypass_temperature :: "pyfloat option"
  ch_pours :: "raw_pour list option"

definition strip_changes :: "recipe_changes \<Rightarrow> recipe_changes" where
  "strip_changes ch = ch\<lparr>ch_uid := None, ch_cloud_table_id := None, ch_share_url := None, ch_source := None\<rparr>"

definition override :: "'a \<Rightarrow> 'a option \<Rightarrow> 'a" where
  "override x y = (case y of None \<Rightarrow> x | Some z \<Rightarrow> z)"

definition override_option :: "'a option \<Rightarrow> 'a option \<Rightarrow> 'a option" where
  "override_option x y = (case y of None \<Rightarrow> x | Some z \<Rightarrow> Some z)"

text \<open>\<^verbatim>\<open>{**current, **changes}\<close>.\<close>

definition merge_changes :: "recipe_dict \<Rightarrow> recipe_changes \<Rightarrow> recipe_raw" where
  "merge_changes r ch =
     \<lparr>raw_fields = r\<lparr>
        rd_uid := override_option (rd_uid r) (ch_uid ch),
        rd_cloud_table_id := override_option (rd_cloud_table_id r) (ch_cloud_table_id ch),
        rd_share_url := override_option (rd_share_url r) (ch_share_url ch),
        rd_source := override_option (rd_source r) (ch_source ch),
        rd_name := override (rd_name r) (ch_name ch),
        rd_grind_size := override (rd_grind_size r) (ch_grind_size ch),
        rd_rpm := override (rd_rpm r) (ch_rpm ch),
        dose_g := override (dose_g r) (ch_dose_g ch),
        ratio := override (ratio r) (ch_ratio ch),
        rd_cup_type := override (rd_cup_type r) (ch_cup_type ch),
        rd_bypass_volume := override (rd_bypass_volume r) (ch_bypass_volume ch),
        rd_bypass_temperature := override (rd_bypass_temperature r) (ch_bypass_temperature ch)\<rparr>,
      raw_pours = override (raw_pours (raw_of r)) (ch_pours ch)\<rparr>"

definition apply_edit :: "string \<Rightarrow> recipe_dict \<Rightarrow> recipe_changes \<Rightarrow> store \<Rightarrow> reply \<times> store" where
  "apply_edit old_name current ch s =
     (case RECIPE_SCHEMA (merge_changes current (strip_changes ch)) of
        Inl _ \<Rightarrow> (Refused ''invalid_recipe'', s)
      | Inr v \<Rightarrow>
          let new_name = rd_name v in
          if new_name \<noteq> old_name \<and> new_name \<in> fst ` set (st_recipes s) then (Refused ''name_taken'', s)
          else let opts = (if new_name \<noteq> old_name then hide_recipe (st_yaml s) old_name (options_recipes s)
                           else options_recipes s);
                   s1 = (if st_selected s = Some old_name then set_selected (Some new_name) s else s)
            in (Saved (rd_uid v) new_name, write_options_recipes (put_recipe new_name v opts) s1))"

definition async_edit_local_recipe :: "server \<Rightarrow> string \<Rightarrow> string \<Rightarrow> recipe_changes \<Rightarrow> reply so" where
  "async_edit_local_recipe srv uid identifier ch =
     bind_co (resolve_or_import srv uid identifier) (\<lambda>resolved s.
       case resolved of
         Inl e \<Rightarrow> (Inr (Refused e), s)
       | Inr (old_name, current) \<Rightarrow> (case apply_edit old_name current ch s of (r, s1) \<Rightarrow> (Inr r, s1)))"

definition delete_local_recipe :: "string \<Rightarrow> store \<Rightarrow> reply \<times> store" where
  "delete_local_recipe identifier s =
     (case find_recipe (st_recipes s) identifier of
        None \<Rightarrow> (Refused ''recipe_not_found'', s)
      | Some (nm, r) \<Rightarrow>
          let s1 = (if st_selected s = Some nm then set_selected None s else s)
          in (Saved (rd_uid r) nm, write_options_recipes (hide_recipe (st_yaml s) nm (options_recipes s)) s1))"

section \<open>Pods and seeds\<close>

text \<open>One scanned recipe, with the uid minted for it: options, visible recipes, names added.\<close>

definition save_pod_recipe :: "recipe_raw \<times> string \<Rightarrow> layer \<times> (string \<times> recipe_dict) list \<times> string list \<Rightarrow>
    layer \<times> (string \<times> recipe_dict) list \<times> string list" where
  "save_pod_recipe = (\<lambda>(raw, uid) (opts, seen, added).
     let share_url = (case rd_share_url (raw_fields raw) of None \<Rightarrow> [] | Some l \<Rightarrow> l) in
     if share_url \<noteq> [] \<and> find_recipe seen share_url \<noteq> None then (opts, seen, added)
     else if share_url = [] \<and> list_ex (\<lambda>(nm, r). rd_source r = Some ''pod'' \<and> nm = rd_name (raw_fields raw)) seen
     then (opts, seen, added)
     else let candidate = (if share_url = [] then raw\<lparr>raw_fields := (raw_fields raw)\<lparr>rd_share_url := None\<rparr>\<rparr> else raw)
       in case RECIPE_SCHEMA candidate of
            Inl _ \<Rightarrow> (opts, seen, added)
          | Inr v \<Rightarrow>
              let nm = dedupe_name (rd_name v) (map fst seen);
                  r = v\<lparr>rd_name := nm, rd_uid := Some uid, rd_source := Some ''pod''\<rparr>
              in (put_recipe nm r opts, AList.update nm r seen, added @ [nm]))"

definition save_pod_recipes :: "(recipe_raw \<times> string) list \<Rightarrow> store \<Rightarrow> string list \<times> store" where
  "save_pod_recipes raws s =
     (case fold save_pod_recipe raws (options_recipes s, st_recipes s, []) of
        (opts, _, added) \<Rightarrow> (added, if added = [] then s else write_options_recipes opts s))"

text \<open>The bundled recipes with the uids minted for them.\<close>

definition seed_bundled_recipes :: "((string \<times> recipe_dict) \<times> string) list \<Rightarrow> store \<Rightarrow> store" where
  "seed_bundled_recipes defaults s =
     (if \<not> st_entry s \<or> st_options s \<noteq> [] \<or> st_seeded s \<or> defaults = [] then s
      else s\<lparr>st_options := fold (\<lambda>((nm, r), uid).
                put_recipe nm (r\<lparr>rd_uid := Some uid, rd_source := Some ''seed_bundled''\<rparr>)) defaults []\<rparr>)"

definition cloud_login_configured :: "store \<Rightarrow> bool" where
  "cloud_login_configured s = (case st_account s of None \<Rightarrow> False | Some (e, p) \<Rightarrow> e \<noteq> [] \<and> p \<noteq> [])"

definition async_ensure_cloud_login :: "server \<Rightarrow> bool so" where
  "async_ensure_cloud_login srv s =
     (if \<not> cloud_login_configured s then (Inr False, s)
      else if logged_in (st_cloud s) then (Inr True, s)
      else on_cloud (login srv (fst (the (st_account s))) (snd (the (st_account s)))) s)"

text \<open>An entry of the account's list as a local recipe that remembers its cloud identity.\<close>

definition account_recipe :: "cloud_entry \<Rightarrow> recipe_raw" where
  "account_recipe e =
     (let r = cloud_recipe_to_local (ce_recipe e) in
      r\<lparr>raw_fields := (raw_fields r)\<lparr>rd_cloud_table_id := ce_table_id e,
          rd_share_url := (case ce_share_link e of None \<Rightarrow> None | Some l \<Rightarrow> if l = [] then None else Some l)\<rparr>\<rparr>)"

definition fetch_account_recipes :: "server \<Rightarrow> recipe_raw list option so" where
  "fetch_account_recipes srv =
     bind_co (async_ensure_cloud_login srv) (\<lambda>ok.
       if \<not> ok then return_co None
       else bind_co (on_cloud (list_recipes srv)) (\<lambda>es.
         return_co (case es of None \<Rightarrow> None | Some es \<Rightarrow> Some (map account_recipe es))))"

definition OFFICIAL_RECIPE_SYNC_LIMIT :: nat where "OFFICIAL_RECIPE_SYNC_LIMIT = 20"

definition seed_recipe :: "string \<Rightarrow> string list \<Rightarrow> recipe_raw \<times> string \<Rightarrow> layer \<Rightarrow> layer" where
  "seed_recipe source yaml = (\<lambda>(raw, uid) opts.
     case RECIPE_SCHEMA raw of
       Inl _ \<Rightarrow> opts
     | Inr v \<Rightarrow>
         if rd_name v \<in> fst ` set opts \<or> rd_name v \<in> set yaml then opts
         else put_recipe (rd_name v) (v\<lparr>rd_uid := Some uid, rd_source := Some source\<rparr>) opts)"

text \<open>\<open>uids\<close> are the ones minted for the fetched recipes, in order.\<close>

definition async_seed_recipes :: "server \<Rightarrow> string list \<Rightarrow> unit so" where
  "async_seed_recipes srv uids s =
     (let account = cloud_login_configured s in
      if \<not> st_entry s \<or> (if account then st_account_seeded s else st_seeded s) then (Inr (), s)
      else bind_co (if account then fetch_account_recipes srv
                    else on_cloud (fetch_official_recipes srv OFFICIAL_RECIPE_SYNC_LIMIT [''Omni''])) (\<lambda>fetched s.
        case fetched of
          None \<Rightarrow> (Inr (), s)
        | Some raws \<Rightarrow>
            let opts = fold (seed_recipe (if account then ''seed_cloud'' else ''seed_official'') (yaml_names s))
                  (zip raws uids) (st_options s)
            in (Inr (), update_listeners (rebuild_recipes
                 (s\<lparr>st_options := opts, st_seeded := True, st_account_seeded := st_account_seeded s \<or> account\<rparr>)))) s)"

section \<open>Export\<close>

datatype export_reply =
    ExportRefused string
  | ExportLocal recipe_dict bool
  | Exported int string recipe_dict bool

definition share_link :: "recipe_dict \<Rightarrow> string" where
  "share_link r = (case rd_share_url r of None \<Rightarrow> [] | Some l \<Rightarrow> l)"

text \<open>
  The cloud half: the table id and the link of the recipe on the account, \<open>None\<close> when the account
  refused it.  The keys an update preserves from the current cloud copy are not recipe fields.
\<close>

definition push_to_account :: "server \<Rightarrow> recipe_dict \<Rightarrow> recipe_dict \<Rightarrow> (int \<times> string) option cc" where
  "push_to_account srv raw v =
     (case rd_cloud_table_id raw of
        None \<Rightarrow> create_recipe srv v
      | Some t \<Rightarrow>
          if t = 0 then create_recipe srv v
          else bind_co (get_recipe srv t) (\<lambda>current.
            case current of
              None \<Rightarrow> create_recipe srv v
            | Some e \<Rightarrow> bind_co (update_recipe srv t (local_recipe_to_cloud v)) (\<lambda>ok.
                return_co (if ok then Some (t, if share_link raw \<noteq> [] then share_link raw
                    else (case ce_share_link e of None \<Rightarrow> [] | Some l \<Rightarrow> l)) else None))))"

definition record_export :: "string \<Rightarrow> recipe_dict \<Rightarrow> int \<Rightarrow> string \<Rightarrow> store \<Rightarrow> recipe_dict \<times> store" where
  "record_export nm raw t link s =
     (let base = (case map_of (options_recipes s) nm of Some (Some r) \<Rightarrow> r | _ \<Rightarrow> raw);
          stored = base\<lparr>rd_cloud_table_id := Some t,
            rd_share_url := (if link = [] then rd_share_url base else Some link)\<rparr>
      in (stored, write_options_recipes (put_recipe nm stored (options_recipes s)) s))"

definition export_to_account :: "server \<Rightarrow> string \<Rightarrow> recipe_dict \<Rightarrow> recipe_dict \<Rightarrow> bool \<Rightarrow> export_reply so" where
  "export_to_account srv nm raw v warning =
     bind_co (async_ensure_cloud_login srv) (\<lambda>ok.
       if \<not> ok then return_co (ExportRefused ''login_failed'')
       else bind_co (on_cloud (push_to_account srv raw v)) (\<lambda>pushed s.
         case pushed of
           None \<Rightarrow> (Inr (ExportRefused ''export_failed''), s)
         | Some (t, link) \<Rightarrow>
             (case record_export nm raw t link s of
                (stored, s1) \<Rightarrow> (Inr (Exported t link stored warning), s1))))"

definition async_export_recipe :: "server \<Rightarrow> string \<Rightarrow> export_reply so" where
  "async_export_recipe srv identifier s =
     (case find_recipe (st_recipes s) identifier of
        None \<Rightarrow> (Inr (ExportRefused ''recipe_not_found''), s)
      | Some (nm, raw) \<Rightarrow>
          let warning = flt (Fin 0) (float_or (Some (rd_bypass_volume raw)) 0 0) in
          if \<not> cloud_login_configured s then (Inr (ExportLocal raw warning), s)
          else case RECIPE_SCHEMA (raw_of raw) of
            Inl _ \<Rightarrow> (Inr (ExportRefused ''invalid_recipe''), s)
          | Inr v \<Rightarrow>
              bind_co (lift_res (if warning then Inr None else validate_pour_volume_consistency v)) (\<lambda>mismatch.
                if mismatch \<noteq> None then return_co (ExportRefused ''pour_volume_mismatch'')
                else export_to_account srv nm raw v warning) s)"

section \<open>Easy Mode slots\<close>

definition upper_char :: "char \<Rightarrow> char" where
  "upper_char c = (let n = (of_char c :: nat) in if 97 \<le> n \<and> n \<le> 122 then char_of (n - 32) else c)"

definition py_upper :: "string \<Rightarrow> string" where "py_upper s = map upper_char s"

definition easy_slot_contents :: "string \<Rightarrow> store \<Rightarrow> (string option \<times> string) option" where
  "easy_slot_contents letter s = (if st_entry s then map_of (st_slots s) (py_upper letter) else None)"

text \<open>The recipe of a slot: the target's own, or what was last written there, or the target's.\<close>

definition slot_choice :: "store \<Rightarrow> string \<Rightarrow> string \<times> recipe_dict \<Rightarrow> string \<Rightarrow> string \<times> recipe_dict" where
  "slot_choice s target x letter =
     (if letter = target then x
      else case easy_slot_contents letter s of
        Some (Some u, _) \<Rightarrow>
          if u = [] then x
          else (case find_recipe (st_recipes s) u of Some y \<Rightarrow> y | None \<Rightarrow> x)
      | _ \<Rightarrow> x)"

definition slot_source :: "server \<Rightarrow> string \<Rightarrow> string option \<Rightarrow> (string + string \<times> recipe_dict) so" where
  "slot_source srv uid identifier s =
     (if identifier \<noteq> None \<and> identifier \<noteq> Some [] then resolve_or_import srv uid (the identifier) s
      else case get (st_recipes s) (st_selected s) of
        None \<Rightarrow> (Inr (Inl ''no_recipe_selected''), s)
      | Some raw \<Rightarrow>
          if st_selected s = Some [] then (Inr (Inl ''no_recipe_selected''), s)
          else (Inr (Inr (the (st_selected s), raw)), s))"

text \<open>
  The BLE half: into Pro Mode if the machine is in Easy Mode, all three slots, and back whatever
  happened.  The answer is whether the slots were written.
\<close>

definition write_in_pro_mode :: "ble_stack \<Rightarrow> (string \<Rightarrow> coord \<Rightarrow> coord) \<Rightarrow> (string \<rightharpoonup> xbloom_recipe) \<Rightarrow> bool ko" where
  "write_in_pro_mode B meanwhile slot_recipes k =
     bind_co
       (if d_mode (k_data k) = ''easy''
        then catch_co (then_co (async_switch_mode_with_retry ''pro'') (return_co (Some True))) (\<lambda>_. return_co None)
        else return_co (Some False)) (\<lambda>switched.
       case switched of
         None \<Rightarrow> return_co False
       | Some to_pro \<Rightarrow>
           bind_co (attempt (async_retry_while_sleeping B meanwhile
               (on_client (async_write_easy_slots slot_recipes True))) True False) (\<lambda>written.
             then_co (if to_pro then attempt (then_co (async_switch_mode_with_retry ''easy'')
                        (modify (request AsyncRefresh))) () () else return_co ())
               (return_co written))) k"

definition record_slot :: "string \<Rightarrow> string \<times> recipe_dict \<Rightarrow> store \<Rightarrow> store" where
  "record_slot target x s =
     update_listeners (if st_entry s then s\<lparr>st_slots := AList.update target (rd_uid (snd x), fst x) (st_slots s)\<rparr> else s)"

definition slot_recipes :: "store \<Rightarrow> string \<Rightarrow> string \<times> recipe_dict \<Rightarrow> (string \<rightharpoonup> xbloom_recipe) res" where
  "slot_recipes s target x =
     bind_res (map_res (\<lambda>letter. build_recipe_from_yaml (snd (slot_choice s target x letter))) [''A'', ''B'', ''C''])
       (\<lambda>rs. Inr (map_of (zip [''A'', ''B'', ''C''] rs)))"

definition write_three_slots :: "ble_stack \<Rightarrow> (string \<Rightarrow> coord \<Rightarrow> coord) \<Rightarrow> string \<Rightarrow> string \<times> recipe_dict \<Rightarrow> reply so" where
  "write_three_slots B meanwhile target x s =
     (case slot_recipes s target x of
        Inl _ \<Rightarrow> (Inr (Refused ''write_failed''), s)
      | Inr slots \<Rightarrow>
          bind_co (on_coord (write_in_pro_mode B meanwhile slots)) (\<lambda>written s1.
            if \<not> written then (Inr (Refused ''write_failed''), s1)
            else (Inr (Saved (rd_uid (snd x)) (fst x)), record_slot target x s1)) s)"

definition write_slot_recipe :: "ble_stack \<Rightarrow> (string \<Rightarrow> coord \<Rightarrow> coord) \<Rightarrow> string \<Rightarrow> string \<times> recipe_dict \<Rightarrow> reply so" where
  "write_slot_recipe B meanwhile slot_letter x =
     (if py_lower (py_strip (rd_cup_type (snd x))) = ''tea''
      then return_co (Refused ''tea_not_supported_in_easy_slot'')
      else bind_co (on_coord (async_ensure_connected B meanwhile)) (\<lambda>ok s.
        let target = py_upper (py_strip slot_letter) in
        if \<not> ok then (Inr (Refused ''not_connected''), s)
        else if \<not> firmware_at_least (d_version (k_data (st_coord s))) MIN_FIRMWARE_EASY_MODE
        then (Inr (Refused ''firmware_too_old''), s)
        else if target \<notin> {''A'', ''B'', ''C''} then (Inr (Refused ''invalid_slot''), s)
        else write_three_slots B meanwhile target x s))"

definition coord_write_easy_slot :: "server \<Rightarrow> string \<Rightarrow> ble_stack \<Rightarrow> (string \<Rightarrow> coord \<Rightarrow> coord) \<Rightarrow>
    string \<Rightarrow> string option \<Rightarrow> reply so" where
  "coord_write_easy_slot srv uid B meanwhile slot_letter identifier =
     bind_co (slot_source srv uid identifier) (\<lambda>src.
       case src of
         Inl e \<Rightarrow> return_co (Refused e)
       | Inr x \<Rightarrow> write_slot_recipe B meanwhile slot_letter x)"

end
