(* ===== verification/StoreSpec.thy ===== *)
theory StoreSpec
  imports Store
begin

text \<open>
  What the recipe store promises: an abstract store, the recipe visible under each name and the
  selected name, the effect that each operation of \<^verbatim>\<open>coordinator/recipes.py\<close> has on it with the answer it
  gives, the invariant these effects keep, and the refinement: every operation has its effect.
\<close>

section \<open>The abstract store\<close>

type_synonym recipe_view = "(string \<Rightarrow> recipe_dict option) \<times> string option"

definition identity :: "recipe_dict \<Rightarrow> string option \<times> int option \<times> string option \<times> string option" where
  "identity r = (rd_uid r, rd_cloud_table_id r, rd_share_url r, rd_source r)"

text \<open>
  How well a recipe answers to an identifier: by its uid, its table id on the account, its share id
  or its name, in this order.  An identifier is for a recipe that no other answers better.
\<close>

definition match_rank :: "string \<Rightarrow> string \<Rightarrow> recipe_dict \<Rightarrow> nat option" where
  "match_rank identifier n r =
     (let i = py_strip identifier in
      if i = [] then None
      else if rd_uid r = Some i then Some 0
      else if int_of_text i \<noteq> None \<and> rd_cloud_table_id r = int_of_text i then Some 1
      else if share_id_of i \<notin> {None, Some []} \<and> has_share_id (the (share_id_of i)) r then Some 2
      else if n = i then Some 3 else None)"

definition best_match :: "(string \<Rightarrow> recipe_dict option) \<Rightarrow> string \<Rightarrow> string \<Rightarrow> recipe_dict \<Rightarrow> bool" where
  "best_match m i n r \<longleftrightarrow> m n = Some r \<and>
     (\<exists>k. match_rank i n r = Some k \<and> (\<forall>p q l. m p = Some q \<longrightarrow> match_rank i p q = Some l \<longrightarrow> k \<le> l))"

definition unmatched :: "(string \<Rightarrow> recipe_dict option) \<Rightarrow> string \<Rightarrow> bool" where
  "unmatched m i \<longleftrightarrow> (\<forall>n r. m n = Some r \<longrightarrow> match_rank i n r = None)"

text \<open>One recipe appears under a free name; several do, from one source and with uids of their own.\<close>

definition appears :: "string \<Rightarrow> recipe_dict \<Rightarrow> recipe_view \<Rightarrow> recipe_view \<Rightarrow> bool" where
  "appears n r v v' \<longleftrightarrow> fst v n = None \<and> rd_name r = n \<and> v' = ((fst v)(n \<mapsto> r), snd v)"

definition fresh_in :: "string set \<Rightarrow> string set \<Rightarrow> recipe_view \<Rightarrow> recipe_view \<Rightarrow> string \<Rightarrow> bool" where
  "fresh_in sources us v v' n \<longleftrightarrow> fst v n = None \<and>
     (\<exists>r u s. fst v' n = Some r \<and> rd_name r = n \<and> rd_uid r = Some u \<and> u \<in> us \<and> rd_source r = Some s \<and> s \<in> sources)"

definition adds :: "string set \<Rightarrow> string set \<Rightarrow> recipe_view \<Rightarrow> recipe_view \<Rightarrow> bool" where
  "adds sources us v v' \<longleftrightarrow> snd v' = snd v \<and> (\<forall>n. fst v' n = fst v n \<or> fresh_in sources us v v' n) \<and>
     (\<forall>n p. fst v n = None \<longrightarrow> fst v p = None \<longrightarrow> map_option rd_uid (fst v' n) = map_option rd_uid (fst v' p) \<longrightarrow>
        fst v' n \<noteq> None \<longrightarrow> n = p)"

section \<open>The effects of the operations\<close>

datatype store_op =
    CreateOp string recipe_raw
  | ImportOp string string
  | EditOp string string recipe_changes
  | DeleteOp string
  | PodsOp "(recipe_raw \<times> string) list"
  | SeedOp "string list"
  | ExportOp string
  | SlotOp string string "string option"

datatype store_reply = Replied reply | Added "string list" | Seeded | ExportReplied export_reply

text \<open>The uids minted for an operation.\<close>

fun op_uids :: "store_op \<Rightarrow> string list" where
  "op_uids (CreateOp u _) = [u]"
| "op_uids (ImportOp u _) = [u]"
| "op_uids (EditOp u _ _) = [u]"
| "op_uids (PodsOp raws) = map snd raws"
| "op_uids (SeedOp us) = us"
| "op_uids (SlotOp u _ _) = [u]"
| "op_uids _ = []"

definition created :: "string \<Rightarrow> recipe_raw \<Rightarrow> string \<Rightarrow> recipe_view \<Rightarrow> recipe_view \<Rightarrow> bool" where
  "created u raw n v v' \<longleftrightarrow> (\<exists>w. RECIPE_SCHEMA (strip_raw raw) = Inr w \<and>
     appears n (w\<lparr>rd_name := n, rd_uid := Some u, rd_source := Some ''manual''\<rparr>) v v')"

definition imported_as :: "string \<Rightarrow> string \<Rightarrow> recipe_view \<Rightarrow> recipe_view \<Rightarrow> bool" where
  "imported_as u n v v' \<longleftrightarrow> (\<exists>r. appears n r v v' \<and> rd_uid r = Some u \<and> rd_source r = Some ''import'' \<and>
     rd_share_url r \<noteq> None)"

text \<open>A recipe that is not known is imported when the identifier may be a share reference.\<close>

definition resolves :: "string \<Rightarrow> string \<Rightarrow> recipe_view \<Rightarrow> recipe_view \<Rightarrow> string \<Rightarrow> recipe_dict \<Rightarrow> bool" where
  "resolves u i v v1 n r \<longleftrightarrow>
     v1 = v \<and> best_match (fst v) i n r \<or>
     unmatched (fst v) i \<and> looks_like_share_ref i \<and> (\<exists>p. imported_as u p v v1) \<and> best_match (fst v1) u n r"

definition unresolved :: "string \<Rightarrow> string \<Rightarrow> recipe_view \<Rightarrow> recipe_view \<Rightarrow> bool" where
  "unresolved u i v v1 \<longleftrightarrow> unmatched (fst v) i \<and> (v1 = v \<or> (\<exists>p. imported_as u p v v1))"

definition edited :: "recipe_changes \<Rightarrow> string \<Rightarrow> recipe_dict \<Rightarrow> string option \<Rightarrow> string \<Rightarrow> recipe_view \<Rightarrow> recipe_view \<Rightarrow> bool" where
  "edited ch n r u n' v v' \<longleftrightarrow> (\<exists>r'. RECIPE_SCHEMA (merge_changes r (strip_changes ch)) = Inr r' \<and> rd_name r' = n' \<and>
     identity r' = identity r \<and> u = rd_uid r' \<and> (n' = n \<or> fst v n' = None) \<and>
     v' = ((fst v)(n := None, n' \<mapsto> r'), if snd v = Some n then Some n' else snd v))"

definition removed :: "string \<Rightarrow> string option \<Rightarrow> string \<Rightarrow> recipe_view \<Rightarrow> recipe_view \<Rightarrow> bool" where
  "removed i u n v v' \<longleftrightarrow> (\<exists>r. best_match (fst v) i n r \<and> u = rd_uid r \<and>
     v' = ((fst v)(n := None), if snd v = Some n then None else snd v))"

definition linked :: "string \<Rightarrow> int \<Rightarrow> string \<Rightarrow> recipe_dict \<Rightarrow> recipe_view \<Rightarrow> recipe_view \<Rightarrow> bool" where
  "linked i t l r v v' \<longleftrightarrow> (\<exists>n q. best_match (fst v) i n q \<and>
     r = q\<lparr>rd_cloud_table_id := Some t, rd_share_url := (if l = [] then rd_share_url q else Some l)\<rparr> \<and>
     v' = ((fst v)(n \<mapsto> r), snd v))"

text \<open>What an operation does when it gives an answer; a refusal changes nothing, but a recipe may have been imported for it.\<close>

fun effect :: "store_op \<Rightarrow> store_reply \<Rightarrow> recipe_view \<Rightarrow> recipe_view \<Rightarrow> bool" where
  "effect (CreateOp u raw) (Replied (Refused _)) v v' = (v' = v)"
| "effect (CreateOp u raw) (Replied (Saved u' n)) v v' = (u' = Some u \<and> created u raw n v v')"
| "effect (ImportOp u i) (Replied (Refused _)) v v' = (v' = v)"
| "effect (ImportOp u i) (Replied (Saved u' n)) v v' = (u' = Some u \<and> imported_as u n v v')"
| "effect (EditOp u i ch) (Replied (Refused _)) v v' = (v' = v \<or> unresolved u i v v')"
| "effect (EditOp u i ch) (Replied (Saved u' n')) v v' =
     (\<exists>v1 n r. resolves u i v v1 n r \<and> edited ch n r u' n' v1 v')"
| "effect (DeleteOp i) (Replied (Refused _)) v v' = (unmatched (fst v) i \<and> v' = v)"
| "effect (DeleteOp i) (Replied (Saved u n)) v v' = removed i u n v v'"
| "effect (PodsOp raws) (Added ns) v v' =
     (adds {''pod''} (snd ` set raws) v v' \<and> set ns = {n. fst v' n \<noteq> fst v n})"
| "effect (SeedOp us) Seeded v v' = adds {''seed_cloud'', ''seed_official''} (set us) v v'"
| "effect (ExportOp i) (ExportReplied (Exported t l r w)) v v' = linked i t l r v v'"
| "effect (ExportOp i) (ExportReplied _) v v' = (v' = v)"
| "effect (SlotOp u letter i) (Replied _) v v' = (v' = v \<or> (i \<noteq> None \<and> unresolved u (the i) v v'))"
| "effect _ _ v v' = False"

section \<open>The invariant\<close>

text \<open>Every recipe under its own name, no uid twice, and the selection exists.\<close>

interpretation views: layered_store "\<lambda>m :: string \<Rightarrow> recipe_dict option. m" "\<lambda>n r m. m(n \<mapsto> r)" "\<lambda>n m. m(n := None)"
  by unfold_locales simp_all

definition consistent :: "recipe_view \<Rightarrow> bool" where
  "consistent v \<longleftrightarrow> (\<forall>n r. fst v n = Some r \<longrightarrow> rd_name r = n) \<and> views.keyed rd_uid (fst v) \<and>
     (\<forall>n. snd v = Some n \<longrightarrow> fst v n \<noteq> None)"

definition fresh_uid :: "(string \<Rightarrow> recipe_dict option) \<Rightarrow> string \<Rightarrow> bool" where
  "fresh_uid m u \<longleftrightarrow> (\<forall>p q. m p = Some q \<longrightarrow> rd_uid q \<noteq> Some u)"

lemma consistent_appears:
  assumes "consistent v" "appears n r v v'" "rd_uid r = Some u" "fresh_uid (fst v) u"
  shows "consistent v'"
proof -
  have "views.keyed rd_uid ((fst v)(n \<mapsto> r))"
    by (rule views.keyed_put_fresh) (use assms in \<open>auto simp: consistent_def fresh_uid_def\<close>)
  then show ?thesis using assms by (auto simp: consistent_def appears_def)
qed

lemma consistent_edited:
  assumes "consistent v" "fst v n = Some r" "edited ch n r u n' v v'"
  shows "consistent v'"
proof -
  obtain r' where r': "rd_name r' = n'" "identity r' = identity r"
    "v' = ((fst v)(n := None, n' \<mapsto> r'), if snd v = Some n then Some n' else snd v)"
    using assms(3) by (auto simp: edited_def)
  have "views.keyed rd_uid ((fst v)(n := None, n' \<mapsto> r'))"
    by (rule views.keyed_rename [where old = n]) (use assms(1,2) r'(2) in \<open>auto simp: consistent_def identity_def\<close>)
  then show ?thesis using assms(1) r'(1) by (auto simp: consistent_def r'(3))
qed

lemma consistent_removed:
  assumes "consistent v" "removed i u n v v'"
  shows "consistent v'"
proof -
  have "views.keyed rd_uid ((fst v)(n := None))"
    by (rule views.keyed_hide) (use assms(1) in \<open>simp add: consistent_def\<close>)
  then show ?thesis using assms by (auto simp: consistent_def removed_def split: if_splits)
qed

lemma consistent_linked:
  assumes "consistent v" "linked i t l r v v'"
  shows "consistent v'"
proof -
  obtain n q where q: "fst v n = Some q" "rd_uid r = rd_uid q" "rd_name r = rd_name q" "v' = ((fst v)(n \<mapsto> r), snd v)"
    using assms(2) by (auto simp: linked_def best_match_def)
  have "views.keyed rd_uid ((fst v)(n \<mapsto> r))"
    by (rule views.keyed_put_same) (use assms(1) q in \<open>auto simp: consistent_def\<close>)
  then show ?thesis using assms(1) q by (auto simp: consistent_def)
qed

lemma consistent_adds:
  assumes "consistent v" "adds src us v v'" "\<And>u. u \<in> us \<Longrightarrow> fresh_uid (fst v) u"
  shows "consistent v'"
proof -
  have new: "fst v' n = fst v n \<or> (fst v n = None \<and> rd_name (the (fst v' n)) = n \<and>
      (\<exists>u. rd_uid (the (fst v' n)) = Some u \<and> u \<in> us))" for n
    using assms(2) unfolding adds_def fresh_in_def by (metis option.sel)
  have apart: "fst v n \<noteq> None \<or> fst v p \<noteq> None \<or> rd_uid r \<noteq> rd_uid q \<or> n = p" if "fst v' n = Some r" "fst v' p = Some q" for n p r q
    using assms(2) that unfolding adds_def by (metis option.map(2) option.distinct(1))
  have "n = p" if *: "fst v' n = Some r" "fst v' p = Some q" "rd_uid r = Some k" "rd_uid q = Some k" for n p r q k
  proof (cases "fst v n = None \<longleftrightarrow> fst v p = None")
    case True
    then show ?thesis
    proof (cases "fst v n")
      case None
      then show ?thesis using True apart [OF *(1,2)] *(3,4) by simp
    next
      case (Some r0)
      then have "fst v n = Some r" "fst v p = Some q" using True new [of n] new [of p] * by (metis option.distinct(1))+
      then show ?thesis using assms(1) *(3,4) unfolding consistent_def views.keyed_def by blast
    qed
  next
    case False
    have clash: False if "fst v a = None" "fst v b \<noteq> None" "fst v' a = Some x" "fst v' b = Some y" "rd_uid x = Some k" "rd_uid y = Some k"
      for a b x y
    proof -
      have "k \<in> us" using new [of a] that by auto
      moreover have "fst v b = Some y" using new [of b] that by auto
      ultimately show False using assms(3) [of k] that(6) by (auto simp: fresh_uid_def)
    qed
    show ?thesis using False clash [of n p] clash [of p n] * by blast
  qed
  then have "views.keyed rd_uid (fst v')" unfolding views.keyed_def by blast
  moreover have "rd_name r = n" if "fst v' n = Some r" for n r
    using new [of n] that assms(1) unfolding consistent_def by (metis option.sel)
  moreover have "fst v' n \<noteq> None" if "snd v' = Some n" for n
    using new [of n] that assms(1,2) unfolding consistent_def adds_def fresh_in_def by (metis option.distinct(1))
  ultimately show ?thesis by (simp add: consistent_def)
qed

lemma consistent_imported:
  "consistent v \<Longrightarrow> imported_as u n v v' \<Longrightarrow> fresh_uid (fst v) u \<Longrightarrow> consistent v'"
  by (auto simp: imported_as_def intro: consistent_appears)

lemma consistent_resolves:
  "consistent v \<Longrightarrow> resolves u i v v1 n r \<Longrightarrow> fresh_uid (fst v) u \<Longrightarrow> consistent v1 \<and> fst v1 n = Some r"
  by (auto simp: resolves_def best_match_def intro: consistent_imported)

lemma consistent_effect:
  assumes "effect op rep v v'" "consistent v" "\<And>u. u \<in> set (op_uids op) \<Longrightarrow> fresh_uid (fst v) u"
  shows "consistent v'"
  using assms
proof (induction op rep v v' rule: effect.induct)
  case (2 u raw u' n v v')
  then obtain w where "appears n (w\<lparr>rd_name := n, rd_uid := Some u, rd_source := Some ''manual''\<rparr>) v v'" "fresh_uid (fst v) u"
    by (auto simp: created_def)
  from consistent_appears [OF "2.prems"(2) this(1) _ this(2)] show ?case by simp
next
  case (4 u i u' n v v')
  then show ?case using consistent_imported [of v u n v'] by simp
next
  case (5 u i ch e v v')
  then show ?case using consistent_imported [of v u _ v'] by (auto simp: unresolved_def)
next
  case (6 u i ch u' n' v v')
  then obtain v1 n r where "resolves u i v v1 n r" "edited ch n r u' n' v1 v'" "fresh_uid (fst v) u" by auto
  with "6.prems"(2) show ?case using consistent_resolves consistent_edited by blast
next
  case (8 i u n v v')
  then show ?case using consistent_removed by simp
next
  case (9 raws ns v v')
  then show ?case using consistent_adds [of v "{''pod''}" "snd ` set raws" v'] by auto
next
  case (10 us v v')
  then show ?case using consistent_adds [of v _ "set us" v'] by auto
next
  case (11 i t l r w v v')
  then show ?case using consistent_linked by simp
next
  case (13 u letter i r v v')
  then show ?case using consistent_imported [of v u _ v'] by (auto simp: unresolved_def)
qed simp_all

section \<open>The abstraction\<close>

text \<open>
  The abstraction of a store, and what the store keeps between its layers while its config entry
  exists.
\<close>

definition st_view :: "store \<Rightarrow> string \<Rightarrow> recipe_dict option" where
  "st_view s = visible (st_yaml s) (options_recipes s)"

definition abs_store :: "store \<Rightarrow> recipe_view" where "abs_store s = (st_view s, st_selected s)"

definition well_layered :: "store \<Rightarrow> bool" where
  "well_layered s \<longleftrightarrow> st_entry s \<and> distinct (map fst (st_yaml s)) \<and> distinct (map fst (st_options s)) \<and>
     st_recipes s = merge_layers (st_yaml s) (options_recipes s)"

lemma distinct_options: "well_layered s \<Longrightarrow> distinct (map fst (options_recipes s))"
  by (simp add: well_layered_def options_recipes_def)

lemma recipes_view: "well_layered s \<Longrightarrow> map_of (st_recipes s) = st_view s"
  using merge_map_of [OF distinct_options] by (simp add: well_layered_def st_view_def)

lemma recipe_names_view: "well_layered s \<Longrightarrow> n \<in> fst ` set (st_recipes s) \<longleftrightarrow> st_view s n \<noteq> None"
  using recipes_view [of s] map_of_eq_None_iff [of "st_recipes s" n] by simp

lemma found_view: "well_layered s \<Longrightarrow> find_recipe (st_recipes s) i = Some (n, r) \<Longrightarrow> st_view s n = Some r"
proof -
  assume w: "well_layered s" and "find_recipe (st_recipes s) i = Some (n, r)"
  from find_recipe_in [OF this(2)] have "(n, r) \<in> set (st_recipes s)" .
  moreover have "distinct (map fst (st_recipes s))"
    using w distinct_merge by (simp add: well_layered_def)
  ultimately have "map_of (st_recipes s) n = Some r" by (rule map_of_is_SomeI [rotated])
  then show ?thesis using recipes_view [OF w] by simp
qed

lemma write_options:
  assumes "well_layered s" "distinct (map fst opts)"
  shows "well_layered (write_options_recipes opts s)" "st_view (write_options_recipes opts s) = visible (st_yaml s) opts"
    "st_selected (write_options_recipes opts s) = st_selected s"
  using assms by (simp_all add: write_options_recipes_def update_listeners_def rebuild_recipes_def request_def
      well_layered_def st_view_def options_recipes_def)

lemma set_selected_frame [simp]:
  "st_view (set_selected n s) = st_view s" "well_layered (set_selected n s) = well_layered s"
  "st_entry (set_selected n s) = st_entry s" "st_yaml (set_selected n s) = st_yaml s"
  "st_selected (set_selected n s) = n" "options_recipes (set_selected n s) = options_recipes s"
  by (simp_all add: set_selected_def st_view_def options_recipes_def well_layered_def)

lemma cloud_frame [simp]:
  "st_view (s\<lparr>st_cloud := c\<rparr>) = st_view s" "well_layered (s\<lparr>st_cloud := c\<rparr>) = well_layered s"
  "options_recipes (s\<lparr>st_cloud := c\<rparr>) = options_recipes s"
  by (simp_all add: st_view_def options_recipes_def well_layered_def)

text \<open>Storing under a free name, and the two layers as the view sees them.\<close>

lemma put_view: "well_layered s \<Longrightarrow>
    well_layered (write_options_recipes (put_recipe n r (options_recipes s)) s) \<and>
    abs_store (write_options_recipes (put_recipe n r (options_recipes s)) s) = ((st_view s)(n \<mapsto> r), st_selected s)"
  using write_options [OF _ distinct_put [OF distinct_options]] layers.view_put
  by (simp add: abs_store_def st_view_def)

lemma dedupe_free: "dedupe_name nm existing \<notin> set existing"
  using dedupe_from_spec [of 2 nm existing] by (auto simp: dedupe_name_def)

lemma cloud_abs: "abs_store (snd (on_cloud m s)) = abs_store s" "well_layered (snd (on_cloud m s)) = well_layered s"
  by (simp_all add: on_cloud_def split_beta Let_def abs_store_def)

lemma abs_parts [simp]: "fst (abs_store s) = st_view s" "snd (abs_store s) = st_selected s"
  by (simp_all add: abs_store_def)

text \<open>The lookup finds the best match.\<close>

lemma recipes_in_view: "well_layered s \<Longrightarrow> (n, r) \<in> set (st_recipes s) \<longleftrightarrow> st_view s n = Some r"
proof -
  assume w: "well_layered s"
  have "distinct (map fst (st_recipes s))" using w by (simp add: well_layered_def distinct_merge)
  then show ?thesis using map_of_eq_Some_iff [of "st_recipes s" n r] recipes_view [OF w] by simp
qed

lemma found_rank:
  assumes "find_recipe recipes i = Some (n, r)" "distinct (map fst recipes)"
  shows "\<exists>k. match_rank i n r = Some k \<and> (\<forall>(p, q)\<in>set recipes. \<forall>l. match_rank i p q = Some l \<longrightarrow> k \<le> l)"
proof -
  let ?i = "py_strip i"
  let ?uid = "first_where (\<lambda>(_, r). rd_uid r = Some ?i) recipes"
  let ?tid = "case int_of_text ?i of None \<Rightarrow> None | Some t \<Rightarrow> first_where (\<lambda>(_, r). rd_cloud_table_id r = Some t) recipes"
  let ?sid = "case share_id_of ?i of None \<Rightarrow> None | Some q \<Rightarrow> if q = [] then None else first_where (\<lambda>(_, r). has_share_id q r) recipes"
  have i: "?i \<noteq> []" using assms(1) by (auto simp: find_recipe_def Let_def)
  have uid: "rd_uid q \<noteq> Some ?i" if "?uid = None" "(p, q) \<in> set recipes" for p q
    using that by (auto simp: first_where_None)
  have tid: "\<not> (int_of_text ?i \<noteq> None \<and> rd_cloud_table_id q = int_of_text ?i)" if "?tid = None" "(p, q) \<in> set recipes" for p q
    using that by (auto simp: first_where_None split: option.splits)
  have sid: "\<not> (share_id_of ?i \<notin> {None, Some []} \<and> has_share_id (the (share_id_of ?i)) q)" if "?sid = None" "(p, q) \<in> set recipes" for p q
    using that by (auto simp: first_where_None split: option.splits if_splits)
  have ge: "m \<le> l" if "match_rank i p q = Some l" "(p, q) \<in> set recipes"
    "m = 0 \<or> ?uid = None \<and> (m = 1 \<or> ?tid = None \<and> (m = 2 \<or> ?sid = None \<and> m = 3))" for p q l m
    using that uid [of p q] tid [of p q] sid [of p q] by (auto simp: match_rank_def Let_def split: if_splits)
  consider (1) "?uid = Some (n, r)" | (2) "?uid = None" "?tid = Some (n, r)" | (3) "?uid = None" "?tid = None" "?sid = Some (n, r)"
    | (4) "?uid = None" "?tid = None" "?sid = None" "n = ?i" "map_of recipes ?i = Some r"
    using assms(1) by (auto simp: find_recipe_def Let_def split: option.splits if_splits)
  then show ?thesis
  proof cases
    case 1
    then have "match_rank i n r = Some 0" using i first_where_Some [OF 1] by (simp add: match_rank_def)
    then show ?thesis by auto
  next
    case 2
    then have r: "(n, r) \<in> set recipes" "int_of_text ?i \<noteq> None \<and> rd_cloud_table_id r = int_of_text ?i"
      by (auto split: option.splits dest!: first_where_Some)
    then have "match_rank i n r = Some 1" using i uid [OF 2(1) r(1)] by (simp add: match_rank_def)
    then show ?thesis using ge [of _ _ _ 1] 2 by auto
  next
    case 3
    then have r: "(n, r) \<in> set recipes" "share_id_of ?i \<notin> {None, Some []} \<and> has_share_id (the (share_id_of ?i)) r"
      by (auto split: option.splits if_splits dest!: first_where_Some)
    then have "match_rank i n r = Some 2" using i uid [OF 3(1) r(1)] tid [OF 3(2) r(1)] by (auto simp: match_rank_def Let_def)
    then show ?thesis using ge [of _ _ _ 2] 3 by auto
  next
    case 4
    then have r: "(n, r) \<in> set recipes" by (simp add: map_of_SomeD)
    then have "match_rank i n r = Some 3"
      using i uid [OF 4(1) r] tid [OF 4(2) r] sid [OF 4(3) r] 4(4) by (auto simp: match_rank_def Let_def)
    then show ?thesis using ge [of _ _ _ 3] 4 by auto
  qed
qed

lemma found_best:
  assumes "well_layered s" "find_recipe (st_recipes s) i = Some (n, r)"
  shows "best_match (st_view s) i n r"
proof -
  have "distinct (map fst (st_recipes s))" using assms(1) by (simp add: well_layered_def distinct_merge)
  from found_rank [OF assms(2) this] obtain k where k: "match_rank i n r = Some k"
    "\<forall>(p, q)\<in>set (st_recipes s). \<forall>l. match_rank i p q = Some l \<longrightarrow> k \<le> l" by blast
  have "k \<le> l" if "st_view s p = Some q" "match_rank i p q = Some l" for p q l
    using k(2) that recipes_in_view [OF assms(1), of p q] by blast
  then show ?thesis using found_view [OF assms] k(1) by (auto simp: best_match_def)
qed

lemma not_found_unmatched:
  assumes "well_layered s" "find_recipe (st_recipes s) i = None"
  shows "unmatched (st_view s) i"
  unfolding unmatched_def
proof (intro allI impI)
  fix n r assume "st_view s n = Some r"
  then have r: "(n, r) \<in> set (st_recipes s)" using recipes_in_view [OF assms(1)] by simp
  then have "map_of (st_recipes s) n \<noteq> None" by (auto simp: map_of_eq_None_iff rev_image_eqI)
  with r show "match_rank i n r = None"
    using assms(2) by (fastforce simp: find_recipe_def match_rank_def Let_def first_where_None split: option.splits if_splits)
qed

section \<open>The effect of each operation\<close>

lemma appears_put:
  assumes "well_layered s" "rd_name r = n" "n \<notin> set (map fst (st_recipes s))"
  shows "well_layered (write_options_recipes (put_recipe n r (options_recipes s)) s) \<and>
    appears n r (abs_store s) (abs_store (write_options_recipes (put_recipe n r (options_recipes s)) s))"
proof -
  have "st_view s n = None" using assms(3) recipe_names_view [OF assms(1)] by auto
  then show ?thesis using put_view [OF assms(1), of n r] assms(2) by (simp add: appears_def abs_store_def)
qed

lemma create_effect:
  assumes "well_layered s" "create_local_recipe u raw s = (rep, s')"
  shows "well_layered s' \<and> effect (CreateOp u raw) (Replied rep) (abs_store s) (abs_store s')"
proof (cases "RECIPE_SCHEMA (strip_raw raw)")
  case (Inr w)
  let ?n = "dedupe_name (rd_name w) (map fst (st_recipes s))"
  let ?r = "w\<lparr>rd_name := ?n, rd_uid := Some u, rd_source := Some ''manual''\<rparr>"
  have "rep = Saved (Some u) ?n" "s' = write_options_recipes (put_recipe ?n ?r (options_recipes s)) s"
    using assms(2) by (auto simp: create_local_recipe_def Inr Let_def)
  moreover have "rd_name ?r = ?n" by simp
  ultimately show ?thesis using appears_put [OF assms(1) _ dedupe_free, of ?r "rd_name w"] Inr by (auto simp: created_def)
qed (use assms in \<open>auto simp: create_local_recipe_def\<close>)

lemma import_effect:
  assumes "well_layered s" "async_import_cloud_recipe srv u ref s = (Inr rep, s')"
  shows "well_layered s' \<and> effect (ImportOp u ref) (Replied rep) (abs_store s) (abs_store s')"
proof -
  obtain f s1 where f: "on_cloud (fetch_shared_recipe srv ref) s = (Inr f, s1)"
    and run: "(case f of None \<Rightarrow> (Inr (Refused ''fetch_failed''), s1) | Some raw \<Rightarrow>
       (case RECIPE_SCHEMA raw of Inl _ \<Rightarrow> (Inr (Refused ''invalid_recipe''), s1)
        | Inr v \<Rightarrow> if \<not> st_entry s1 then (Inr (Refused ''entry_not_found''), s1)
            else let nm = dedupe_name (rd_name v) (map fst (st_recipes s1));
                    link = (if contains ''://'' ref then py_strip ref
                            else ''https://share-h5.xbloom.com/?id='' @ py_strip ref);
                    r = v\<lparr>rd_name := nm, rd_uid := Some u, rd_source := Some ''import'',
                          rd_share_url := (if rd_share_url v = None then Some link else rd_share_url v)\<rparr>
                  in (Inr (Saved (Some u) nm), write_options_recipes (put_recipe nm r (options_recipes s1)) s1)))
      = ((Inr rep :: reply res), s')"
    using assms(2) by (auto simp: async_import_cloud_recipe_def bind_co_Inr)
  have s1: "abs_store s1 = abs_store s" "well_layered s1"
    using cloud_abs [of "fetch_shared_recipe srv ref" s] assms(1) f by simp_all
  show ?thesis
  proof (cases "\<exists>raw v. f = Some raw \<and> RECIPE_SCHEMA raw = Inr v")
    case True
    then obtain raw v where f: "f = Some raw" "RECIPE_SCHEMA raw = Inr v" by blast
    let ?n = "dedupe_name (rd_name v) (map fst (st_recipes s1))"
    let ?link = "if contains ''://'' ref then py_strip ref else ''https://share-h5.xbloom.com/?id='' @ py_strip ref"
    let ?r = "v\<lparr>rd_name := ?n, rd_uid := Some u, rd_source := Some ''import'',
                          rd_share_url := (if rd_share_url v = None then Some ?link else rd_share_url v)\<rparr>"
    have "st_entry s1" using s1(2) by (simp add: well_layered_def)
    then have "rep = Saved (Some u) ?n" "s' = write_options_recipes (put_recipe ?n ?r (options_recipes s1)) s1"
      using run f by (auto simp: Let_def)
    moreover have "rd_name ?r = ?n" by simp
    ultimately have "well_layered s'" "appears ?n ?r (abs_store s) (abs_store s')"
      using appears_put [OF s1(2) _ dedupe_free, of ?r "rd_name v"] s1(1) by simp_all
    moreover from this(2) have "imported_as u ?n (abs_store s) (abs_store s')"
      unfolding imported_as_def by (intro exI [of _ ?r]) simp
    ultimately show ?thesis using \<open>rep = Saved (Some u) ?n\<close> by simp
  next
    case False
    then have "(\<exists>e. rep = Refused e) \<and> s' = s1" using run by (auto split: option.splits sum.splits)
    then show ?thesis using s1 by auto
  qed
qed

lemma resolve_effect:
  assumes "well_layered s" "resolve_or_import srv u i s = (Inr x, s')"
  shows "well_layered s' \<and> (case x of
      Inl _ \<Rightarrow> unresolved u i (abs_store s) (abs_store s')
    | Inr (n, r) \<Rightarrow> resolves u i (abs_store s) (abs_store s') n r \<and> find_recipe (st_recipes s') (if s' = s then i else u) = Some (n, r))"
proof (cases "find_recipe (st_recipes s) i")
  case (Some y)
  then show ?thesis
    using assms found_best [OF assms(1), of i "fst y" "snd y"] by (auto simp: resolve_or_import_def resolves_def)
next
  case None
  note un = not_found_unmatched [OF assms(1) None]
  show ?thesis
  proof (cases "looks_like_share_ref i")
    case True
    then obtain imp s1 where imp: "async_import_cloud_recipe srv u i s = (Inr imp, s1)"
      and rest: "(case imp of Refused e \<Rightarrow> (Inr (Inl e), s1) | Saved v _ \<Rightarrow>
         (case find_recipe (st_recipes s1) u of Some x \<Rightarrow> (Inr (Inr x), s1)
          | None \<Rightarrow> (Inr (Inl ''recipe_not_found''), s1))) = ((Inr x :: (string + string \<times> recipe_dict) res), s')"
      using assms(2) None by (auto simp: resolve_or_import_def bind_co_Inr)
    have s': "s' = s1" using rest by (auto split: reply.splits option.splits)
    note eff = import_effect [OF assms(1) imp]
    show ?thesis
    proof (cases imp)
      case (Refused e)
      then show ?thesis using rest eff un by (auto simp: unresolved_def)
    next
      case (Saved v p)
      then have imported: "well_layered s1" "imported_as u p (abs_store s) (abs_store s1)" using eff by simp_all
      show ?thesis
      proof (cases "find_recipe (st_recipes s1) u")
        case None
        then show ?thesis using rest Saved imported un by (auto simp: unresolved_def)
      next
        case (Some y)
        obtain n r where y: "y = (n, r)" by fastforce
        obtain q where "st_view s p = None" "abs_store s1 = ((st_view s)(p \<mapsto> q), st_selected s)"
          using imported(2) by (auto simp: imported_as_def appears_def)
        then have "st_view s1 p \<noteq> st_view s p" by (simp add: abs_store_def)
        then have "s1 \<noteq> s" by metis
        then show ?thesis
          using rest Saved Some y imported un True found_best [OF imported(1), of u n r] by (auto simp: resolves_def)
      qed
    qed
  qed (use assms None un in \<open>auto simp: resolve_or_import_def unresolved_def\<close>)
qed

lemma validated_identity:
  "RECIPE_SCHEMA (merge_changes r (strip_changes ch)) = Inr v \<Longrightarrow> identity v = identity r"
  by (auto simp: RECIPE_SCHEMA_def bind_res_Inr_iff merge_changes_def strip_changes_def identity_def override_option_def)

lemma apply_edit_effect:
  assumes "well_layered s" "st_view s old = Some cur" "apply_edit old cur ch s = (rep, s')"
  shows "well_layered s' \<and> (case rep of Refused _ \<Rightarrow> s' = s
    | Saved u n' \<Rightarrow> edited ch old cur u n' (abs_store s) (abs_store s'))"
proof (cases "RECIPE_SCHEMA (merge_changes cur (strip_changes ch))")
  case (Inr v)
  let ?new = "rd_name v"
  let ?opts = "if ?new \<noteq> old then hide_recipe (st_yaml s) old (options_recipes s) else options_recipes s"
  let ?s1 = "if st_selected s = Some old then set_selected (Some ?new) s else s"
  let ?s2 = "write_options_recipes (put_recipe ?new v ?opts) ?s1"
  show ?thesis
  proof (cases "?new \<noteq> old \<and> ?new \<in> fst ` set (st_recipes s)")
    case False
    have d: "distinct (map fst (put_recipe ?new v ?opts))"
      by (simp add: distinct_put distinct_hide distinct_options assms(1))
    have sel: "st_selected ?s1 = (if st_selected s = Some old then Some ?new else st_selected s)"
      and frame: "well_layered ?s1" "st_entry ?s1 = st_entry s" "st_yaml ?s1 = st_yaml s"
      using assms(1) by simp_all
    have res: "rep = Saved (rd_uid v) ?new" "s' = ?s2"
      using assms(3) False by (auto simp: apply_edit_def Inr Let_def)
    have view: "st_view ?s2 = (st_view s)(old := None, ?new \<mapsto> v)"
      using write_options(2) [OF frame(1) d] frame layers.rename_view layers.view_put
      by (auto simp: st_view_def fun_eq_iff)
    have "?new = old \<or> st_view s ?new = None" using False recipe_names_view [OF assms(1), of ?new] by auto
    then show ?thesis
      using write_options(1,3) [OF frame(1) d] view sel validated_identity [OF Inr] Inr
      by (auto simp: res edited_def abs_store_def)
  qed (use Inr assms(1,3) in \<open>auto simp: apply_edit_def\<close>)
qed (use assms(1,3) in \<open>auto simp: apply_edit_def\<close>)

lemma edit_effect:
  assumes "well_layered s" "async_edit_local_recipe srv u i ch s = (Inr rep, s')"
  shows "well_layered s' \<and> effect (EditOp u i ch) (Replied rep) (abs_store s) (abs_store s')"
proof -
  obtain x s1 where x: "resolve_or_import srv u i s = (Inr x, s1)"
    and rest: "(case x of Inl e \<Rightarrow> (Inr (Refused e), s1)
       | Inr (old, cur) \<Rightarrow> (case apply_edit old cur ch s1 of (r, s2) \<Rightarrow> (Inr r, s2))) = ((Inr rep :: reply res), s')"
    using assms(2) unfolding async_edit_local_recipe_def bind_co_Inr by blast
  note r = resolve_effect [OF assms(1) x]
  show ?thesis
  proof (cases x)
    case (Inr y)
    obtain n c where y: "y = (n, c)" by fastforce
    have res: "well_layered s1" "resolves u i (abs_store s) (abs_store s1) n c" using r Inr y by simp_all
    have "fst (abs_store s1) n = Some c" using res(2) by (auto simp: resolves_def best_match_def simp del: abs_parts)
    then have n: "st_view s1 n = Some c" by simp
    have edit: "apply_edit n c ch s1 = (rep, s')" using rest Inr y by (auto split: prod.splits)
    show ?thesis
    proof (cases rep)
      case (Refused e)
      have "abs_store s1 = abs_store s \<or> unresolved u i (abs_store s) (abs_store s1)"
        using res(2) by (auto simp: resolves_def unresolved_def)
      then show ?thesis using apply_edit_effect [OF res(1) n edit] Refused by auto
    next
      case (Saved u' n')
      then have "well_layered s'" "edited ch n c u' n' (abs_store s1) (abs_store s')"
        using apply_edit_effect [OF res(1) n edit] by simp_all
      then show ?thesis unfolding Saved effect.simps using res(2) by blast
    qed
  qed (use r rest in auto)
qed

lemma delete_effect:
  assumes "well_layered s" "delete_local_recipe i s = (rep, s')"
  shows "well_layered s' \<and> effect (DeleteOp i) (Replied rep) (abs_store s) (abs_store s')"
proof (cases "find_recipe (st_recipes s) i")
  case (Some x)
  obtain n r where x: "x = (n, r)" by fastforce
  let ?s1 = "if st_selected s = Some n then set_selected None s else s"
  let ?s2 = "write_options_recipes (hide_recipe (st_yaml s) n (options_recipes s)) ?s1"
  have res: "rep = Saved (rd_uid r) n" "s' = ?s2" using assms(2) by (auto simp: delete_local_recipe_def Some x Let_def)
  have frame: "well_layered ?s1" "st_yaml ?s1 = st_yaml s"
    "st_selected ?s1 = (if st_selected s = Some n then None else st_selected s)"
    using assms(1) by simp_all
  have d: "distinct (map fst (hide_recipe (st_yaml s) n (options_recipes s)))"
    by (simp add: distinct_hide distinct_options assms(1))
  have "st_view ?s2 = (st_view s)(n := None)"
    using write_options(2) [OF frame(1) d] frame(2) layers.view_hide by (auto simp: st_view_def fun_eq_iff)
  then show ?thesis
    using write_options(1,3) [OF frame(1) d] frame(3) found_best [OF assms(1)] Some x
    by (auto simp: res removed_def abs_store_def)
next
  case None
  then show ?thesis using not_found_unmatched [OF assms(1) None] assms by (simp add: delete_local_recipe_def) auto
qed

text \<open>Several additions in a row, each with a uid of its own.\<close>

lemma adds_refl: "adds src {} v v" by (auto simp: adds_def)

lemma adds_mono: "adds src us v v' \<Longrightarrow> us \<subseteq> us' \<Longrightarrow> adds src us' v v'"
  unfolding adds_def fresh_in_def by blast

lemma adds_put:
  assumes "adds src us v v1" "fst v1 n = None" "rd_name r = n" "rd_uid r = Some u" "u \<notin> us" "rd_source r = Some s" "s \<in> src"
  shows "adds src (insert u us) v ((fst v1)(n \<mapsto> r), snd v1)"
proof -
  have old: "fst v n = None" using assms(1,2) unfolding adds_def fresh_in_def by (metis option.distinct(1))
  have uids: "\<exists>w. map_option rd_uid (fst v1 p) = Some (Some w) \<and> w \<in> us" if "fst v p = None" "fst v1 p \<noteq> None" for p
    using assms(1) that unfolding adds_def fresh_in_def by (metis option.map(2))
  then have apart: "map_option rd_uid (fst v1 p) \<noteq> Some (Some u)" if "fst v p = None" for p
    using that assms(5) by (metis option.sel option.map_disc_iff option.distinct(1))
  show ?thesis
    unfolding adds_def
  proof (intro conjI allI impI)
    show "snd ((fst v1)(n \<mapsto> r), snd v1) = snd v" using assms(1) by (simp add: adds_def)
    show "fst ((fst v1)(n \<mapsto> r), snd v1) p = fst v p \<or> fresh_in src (insert u us) v ((fst v1)(n \<mapsto> r), snd v1) p" for p
      using assms old unfolding adds_def fresh_in_def by (cases "p = n") auto
    fix p q
    let ?m = "fst ((fst v1)(n \<mapsto> r), snd v1)"
    assume *: "fst v p = None" "fst v q = None" "map_option rd_uid (?m p) = map_option rd_uid (?m q)" "?m p \<noteq> None"
    consider "p = n" | "q = n" | "p \<noteq> n" "q \<noteq> n" by blast
    then show "p = q"
    proof cases
      case 1
      then show ?thesis using * assms(4) apart [OF *(2)] by (cases "q = n") auto
    next
      case 2
      then show ?thesis using * assms(4) apart [OF *(1)] by (cases "p = n") auto
    next
      case 3
      then show ?thesis using * assms(1) unfolding adds_def by simp
    qed
  qed
qed

lemma save_pods_adds:
  "distinct (map snd raws) \<Longrightarrow> us \<inter> snd ` set raws = {} \<Longrightarrow> distinct (map fst opts) \<Longrightarrow> map_of seen = visible yaml opts \<Longrightarrow>
     adds {''pod''} us v (visible yaml opts, sel) \<Longrightarrow> set added = {n. visible yaml opts n \<noteq> fst v n} \<Longrightarrow>
     fold save_pod_recipe raws (opts, seen, added) = (opts', seen', added') \<Longrightarrow>
     distinct (map fst opts') \<and> adds {''pod''} (us \<union> snd ` set raws) v (visible yaml opts', sel) \<and>
     set added' = {n. visible yaml opts' n \<noteq> fst v n}"
proof (induction raws arbitrary: us opts seen added)
  case (Cons x raws)
  obtain raw u where x: "x = (raw, u)" by fastforce
  show ?case
  proof (cases "save_pod_recipe x (opts, seen, added) = (opts, seen, added)")
    case True
    have "distinct (map fst opts') \<and> adds {''pod''} (us \<union> snd ` set raws) v (visible yaml opts', sel) \<and>
       set added' = {n. visible yaml opts' n \<noteq> fst v n}"
      by (rule Cons.IH [of us opts seen added]) (use Cons.prems True in auto)
    then show ?thesis by (auto elim: adds_mono)
  next
    case False
    then obtain w where nm: "save_pod_recipe x (opts, seen, added)
        = (let nm = dedupe_name (rd_name w) (map fst seen);
               r = w\<lparr>rd_name := nm, rd_uid := Some u, rd_source := Some ''pod''\<rparr>
           in (put_recipe nm r opts, AList.update nm r seen, added @ [nm]))"
      by (auto simp: save_pod_recipe_def x Let_def split: sum.splits if_splits)
    let ?n = "dedupe_name (rd_name w) (map fst seen)"
    let ?r = "w\<lparr>rd_name := ?n, rd_uid := Some u, rd_source := Some ''pod''\<rparr>"
    let ?opts = "put_recipe ?n ?r opts"
    have free: "visible yaml opts ?n = None"
      using dedupe_free [of "rd_name w" "map fst seen"] map_of_eq_None_iff [of seen ?n] Cons.prems(4) by simp
    have put: "adds {''pod''} (insert u us) v (visible yaml ?opts, sel)"
      using adds_put [OF Cons.prems(5), of ?n ?r u "''pod''"] free Cons.prems(2) x by (simp add: layers.view_put)
    have old: "fst v ?n = None" using Cons.prems(5) free unfolding adds_def fresh_in_def by (metis fst_conv option.distinct(1))
    have "distinct (map fst opts') \<and> adds {''pod''} (insert u us \<union> snd ` set raws) v (visible yaml opts', sel) \<and>
        set added' = {n. visible yaml opts' n \<noteq> fst v n}"
    proof (rule Cons.IH [of "insert u us" ?opts "AList.update ?n ?r seen" "added @ [?n]"])
      show "map_of (AList.update ?n ?r seen) = visible yaml ?opts"
        using Cons.prems(4) by (simp add: AList.update_conv' layers.view_put)
      show "set (added @ [?n]) = {n. visible yaml ?opts n \<noteq> fst v n}"
        using Cons.prems(6) old free by (auto simp: layers.view_put)
    qed (use Cons.prems nm put x in \<open>auto simp: distinct_put Let_def\<close>)
    then show ?thesis using x by simp
  qed
qed simp

lemma pods_effect:
  assumes "well_layered s" "distinct (map snd raws)" "save_pod_recipes raws s = (ns, s')"
  shows "well_layered s' \<and> effect (PodsOp raws) (Added ns) (abs_store s) (abs_store s')"
proof -
  obtain opts seen where f: "fold save_pod_recipe raws (options_recipes s, st_recipes s, []) = (opts, seen, ns)"
    and s': "s' = (if ns = [] then s else write_options_recipes opts s)"
    using assms(3) by (auto simp: save_pod_recipes_def split: prod.splits)
  have "distinct (map fst opts) \<and> adds {''pod''} ({} \<union> snd ` set raws) (abs_store s) (visible (st_yaml s) opts, st_selected s) \<and>
      set ns = {n. visible (st_yaml s) opts n \<noteq> fst (abs_store s) n}"
    by (rule save_pods_adds [OF assms(2) _ distinct_options [OF assms(1)] _ _ _ f])
      (use recipes_view [OF assms(1)] adds_refl [of _ "abs_store s"] in \<open>simp_all add: abs_store_def st_view_def\<close>)
  then have all: "distinct (map fst opts)" "adds {''pod''} (snd ` set raws) (abs_store s) (visible (st_yaml s) opts, st_selected s)"
    "set ns = {n. visible (st_yaml s) opts n \<noteq> st_view s n}"
    by simp_all
  show ?thesis
  proof (cases "ns = []")
    case True
    then have "visible (st_yaml s) opts = st_view s" using all(3) by auto
    then show ?thesis using all(2) True assms(1) by (simp add: s' abs_store_def)
  next
    case False
    then show ?thesis using write_options [OF assms(1) all(1)] all(2,3) by (simp add: s' abs_store_def)
  qed
qed

lemma seed_adds:
  "distinct (map snd raws) \<Longrightarrow> us \<inter> snd ` set raws = {} \<Longrightarrow> distinct (map fst opts) \<Longrightarrow> source \<in> src \<Longrightarrow>
     adds src us v (visible yaml opts, sel) \<Longrightarrow> fold (seed_recipe source (map fst yaml)) raws opts = opts' \<Longrightarrow>
     distinct (map fst opts') \<and> adds src (us \<union> snd ` set raws) v (visible yaml opts', sel)"
proof (induction raws arbitrary: us opts)
  case (Cons x raws)
  obtain raw u where x: "x = (raw, u)" by fastforce
  show ?case
  proof (cases "seed_recipe source (map fst yaml) x opts = opts")
    case True
    have "distinct (map fst opts') \<and> adds src (us \<union> snd ` set raws) v (visible yaml opts', sel)"
      by (rule Cons.IH [of us opts]) (use Cons.prems True in auto)
    then show ?thesis by (auto elim: adds_mono)
  next
    case False
    then obtain w where w: "seed_recipe source (map fst yaml) x opts
        = put_recipe (rd_name w) (w\<lparr>rd_uid := Some u, rd_source := Some source\<rparr>) opts"
      "rd_name w \<notin> fst ` set opts" "rd_name w \<notin> fst ` set yaml"
      by (auto simp: seed_recipe_def x split: sum.splits if_splits)
    let ?r = "w\<lparr>rd_uid := Some u, rd_source := Some source\<rparr>"
    have free: "visible yaml opts (rd_name w) = None"
      using w(2,3) by (simp add: visible_def map_of_eq_None_iff split: option.split) (metis map_of_eq_None_iff option.distinct(1))
    have put: "adds src (insert u us) v (visible yaml (put_recipe (rd_name w) ?r opts), sel)"
      using adds_put [OF Cons.prems(5), of "rd_name w" ?r u source] free Cons.prems(2,4) x by (simp add: layers.view_put)
    have "distinct (map fst opts') \<and> adds src (insert u us \<union> snd ` set raws) v (visible yaml opts', sel)"
      by (rule Cons.IH [of "insert u us" "put_recipe (rd_name w) ?r opts"])
        (use Cons.prems w(1) put x in \<open>auto simp: distinct_put\<close>)
    then show ?thesis using x by simp
  qed
qed simp

lemma export_record_effect:
  assumes "well_layered s" "best_match (st_view s) i n raw" "record_export n raw t l s = (stored, s')"
  shows "well_layered s' \<and> effect (ExportOp i) (ExportReplied (Exported t l stored w)) (abs_store s) (abs_store s')"
proof -
  have n: "st_view s n = Some raw" using assms(2) by (simp add: best_match_def)
  have base: "(case map_of (options_recipes s) n of Some (Some r) \<Rightarrow> r | _ \<Rightarrow> raw) = raw"
    using n by (simp add: st_view_def visible_def split: option.splits)
  let ?r = "raw\<lparr>rd_cloud_table_id := Some t, rd_share_url := (if l = [] then rd_share_url raw else Some l)\<rparr>"
  have "stored = ?r" "s' = write_options_recipes (put_recipe n ?r (options_recipes s)) s"
    using assms(3) by (auto simp: record_export_def base Let_def)
  then show ?thesis
    using put_view [OF assms(1), of n ?r] assms(2) by (auto simp: linked_def abs_store_def)
qed

text \<open>What only talks to the cloud.\<close>

definition cloud_only :: "store \<Rightarrow> store \<Rightarrow> bool" where "cloud_only s s' \<longleftrightarrow> (\<exists>c. s' = s\<lparr>st_cloud := c\<rparr>)"

interpretation co: act_law cloud_only
proof
  show "cloud_only s s" for s by (auto simp: cloud_only_def intro: exI [of _ "st_cloud s"])
qed (auto simp: cloud_only_def)

lemma keeps_on_cloud: "keeps cloud_only (on_cloud m)"
  by (auto simp: keeps_def on_cloud_def split_beta Let_def cloud_only_def)

lemma keeps_ensure_login: "keeps cloud_only (async_ensure_cloud_login srv)"
  using keeps_on_cloud [of "login srv e p" for e p] co.R_refl
  by (auto simp: keeps_def async_ensure_cloud_login_def)

lemma keeps_account_recipes: "keeps cloud_only (fetch_account_recipes srv)"
proof -
  have "keeps cloud_only (if \<not> ok then return_co None else bind_co (on_cloud (list_recipes srv)) (\<lambda>es.
      return_co (case es of None \<Rightarrow> None | Some es \<Rightarrow> Some (map account_recipe es))))" for ok
    by (cases ok) (simp_all add: co.keeps_bind co.keeps_return keeps_on_cloud)
  then show ?thesis
    unfolding fetch_account_recipes_def by (intro co.keeps_bind keeps_ensure_login)
qed

lemma cloud_only_frame:
  "cloud_only s s' \<Longrightarrow> abs_store s' = abs_store s \<and> well_layered s' = well_layered s \<and> st_view s' = st_view s \<and>
     st_yaml s' = st_yaml s \<and> st_options s' = st_options s \<and> st_entry s' = st_entry s \<and>
     st_selected s' = st_selected s \<and> st_recipes s' = st_recipes s"
  by (auto simp: cloud_only_def abs_store_def)

lemma seed_effect:
  assumes "well_layered s" "distinct uids" "async_seed_recipes srv uids s = (Inr (), s')"
  shows "well_layered s' \<and> effect (SeedOp uids) Seeded (abs_store s) (abs_store s')"
proof (cases "(if cloud_login_configured s then st_account_seeded s else st_seeded s)")
  case True
  then have "(\<not> st_entry s \<or> (if cloud_login_configured s then st_account_seeded s else st_seeded s)) = True" by simp
  then have "s' = s" using assms(3) unfolding async_seed_recipes_def Let_def by (simp only: if_True prod.inject)
  then show ?thesis using assms(1) adds_mono [OF adds_refl] by simp
next
  case False
  let ?account = "cloud_login_configured s"
  let ?fetch = "if ?account then fetch_account_recipes srv
      else on_cloud (fetch_official_recipes srv OFFICIAL_RECIPE_SYNC_LIMIT [''Omni''])"
  let ?rest = "\<lambda>fetched s. case fetched of None \<Rightarrow> (Inr () :: unit res, s) | Some raws \<Rightarrow>
      let opts = fold (seed_recipe (if ?account then ''seed_cloud'' else ''seed_official'') (yaml_names s))
            (zip raws uids) (st_options s)
      in (Inr (), update_listeners (rebuild_recipes
           (s\<lparr>st_options := opts, st_seeded := True, st_account_seeded := st_account_seeded s \<or> ?account\<rparr>)))"
  have "st_entry s" using assms(1) by (simp add: well_layered_def)
  then have "bind_co ?fetch ?rest s = (Inr (), s')"
    using assms(3) False unfolding async_seed_recipes_def Let_def by simp
  then obtain f s1 where f: "?fetch s = (Inr f, s1)" and rest: "?rest f s1 = (Inr (), s')"
    unfolding bind_co_Inr by blast
  have "keeps cloud_only ?fetch" by (cases ?account) (simp_all add: keeps_account_recipes keeps_on_cloud)
  then have only: "cloud_only s s1" using f by (metis keepsD)
  note frame = cloud_only_frame [OF only]
  show ?thesis
  proof (cases f)
    case None
    then have "s' = s1" using rest by simp
    then show ?thesis using frame assms(1) adds_mono [OF adds_refl] by simp
  next
    case (Some raws)
    let ?src = "if ?account then ''seed_cloud'' else ''seed_official''"
    let ?opts = "fold (seed_recipe ?src (map fst (st_yaml s))) (zip raws uids) (st_options s)"
    have yn: "yaml_names s1 = map fst (st_yaml s)" using frame by (simp add: yaml_names_def)
    have s': "s' = update_listeners (rebuild_recipes
        (s1\<lparr>st_options := ?opts, st_seeded := True, st_account_seeded := st_account_seeded s1 \<or> ?account\<rparr>))"
      using rest Some frame by (simp add: Let_def yn)
    have view: "abs_store s = (visible (st_yaml s) (st_options s), st_selected s)"
      using assms(1) by (simp add: abs_store_def st_view_def options_recipes_def well_layered_def)
    have "distinct (map snd (zip raws uids))"
      using assms(2) by (simp add: map_snd_zip_take distinct_take)
    then have "distinct (map fst ?opts) \<and> adds {''seed_cloud'', ''seed_official''} ({} \<union> snd ` set (zip raws uids))
        (abs_store s) (visible (st_yaml s) ?opts, st_selected s)"
      by (rule seed_adds) (use assms(1) adds_refl [of _ "abs_store s"] view in \<open>auto simp: well_layered_def\<close>)
    moreover have "{} \<union> snd ` set (zip raws uids) \<subseteq> set uids" by (auto dest: set_zip_rightD)
    ultimately have "distinct (map fst ?opts)"
      "adds {''seed_cloud'', ''seed_official''} (set uids) (abs_store s) (visible (st_yaml s) ?opts, st_selected s)"
      using adds_mono by blast+
    moreover have "st_yaml s1 = st_yaml s" "st_entry s1" "st_selected s1 = st_selected s" "distinct (map fst (st_yaml s))"
      using frame assms(1) by (simp_all add: well_layered_def)
    ultimately show ?thesis
      unfolding s' by (simp add: update_listeners_def rebuild_recipes_def request_def well_layered_def abs_store_def
          st_view_def options_recipes_def)
  qed
qed

lemma export_effect:
  assumes "well_layered s" "async_export_recipe srv i s = (Inr x, s')"
  shows "well_layered s' \<and> effect (ExportOp i) (ExportReplied x) (abs_store s) (abs_store s')"
proof -
  have same: "well_layered s1 \<and> effect (ExportOp i) (ExportReplied y) (abs_store s) (abs_store s1)"
    if "cloud_only s s1" "y = ExportRefused e \<or> y = ExportLocal r b" for s1 y e r b
    using that cloud_only_frame [OF that(1)] assms(1) by auto
  show ?thesis
  proof (cases "find_recipe (st_recipes s) i")
    case None
    then show ?thesis using assms same co.R_refl by (auto simp: async_export_recipe_def)
  next
    case (Some y)
    obtain n raw where y: "y = (n, raw)" by fastforce
    have raw: "best_match (st_view s) i n raw" using found_best [OF assms(1)] Some y by simp
    consider e r b where "s' = s" "x = ExportRefused e \<or> x = ExportLocal r b"
      | v w where "export_to_account srv n raw v w s = (Inr x, s')"
      using assms(2) by (auto simp: async_export_recipe_def Some y Let_def bind_co_Inr return_co_def lift_res_def
          split: sum.splits if_splits)
    then show ?thesis
    proof cases
      case (1 e r b)
      then show ?thesis using same co.R_refl by blast
    next
      case (2 v w)
      then obtain ok s1 where l: "async_ensure_cloud_login srv s = (Inr ok, s1)" and rest: "(if \<not> ok then return_co (ExportRefused ''login_failed'')
          else bind_co (on_cloud (push_to_account srv raw v)) (\<lambda>pushed s.
            case pushed of
              None \<Rightarrow> (Inr (ExportRefused ''export_failed''), s)
            | Some (t, link) \<Rightarrow>
                (case record_export n raw t link s of (stored, s1) \<Rightarrow> (Inr (Exported t link stored w), s1)))) s1
          = ((Inr x :: export_reply res), s')"
        unfolding export_to_account_def bind_co_Inr by blast
      have only: "cloud_only s s1" using keepsD [OF keeps_ensure_login l] .
      show ?thesis
      proof (cases ok)
        case False
        then show ?thesis using rest same [OF only] by (auto simp: return_co_def)
      next
        case True
        then obtain p s2 where p: "on_cloud (push_to_account srv raw v) s1 = (Inr p, s2)"
          and rest2: "(case p of None \<Rightarrow> (Inr (ExportRefused ''export_failed''), s2)
            | Some (t, link) \<Rightarrow> (case record_export n raw t link s2 of
                (stored, s1) \<Rightarrow> (Inr (Exported t link stored w), s1))) = ((Inr x :: export_reply res), s')"
          using rest by (auto simp: bind_co_Inr)
        have only2: "cloud_only s s2" using co.R_trans [OF only keepsD [OF keeps_on_cloud p]] .
        then have s2: "well_layered s2" "best_match (st_view s2) i n raw" "abs_store s2 = abs_store s"
          using cloud_only_frame [OF only2] assms(1) raw by simp_all
        show ?thesis
        proof (cases p)
          case None
          then show ?thesis using rest2 same [OF only2] by auto
        next
          case (Some tl)
          obtain t l stored where "tl = (t, l)" "record_export n raw t l s2 = (stored, s')" "x = Exported t l stored w"
            using rest2 Some by (auto split: prod.splits)
          then show ?thesis using export_record_effect [OF s2(1,2)] s2(3) by metis
        qed
      qed
    qed
  qed
qed

section \<open>Slots leave the recipes alone\<close>

definition recipes_kept :: "coord \<Rightarrow> coord \<Rightarrow> bool" where
  "recipes_kept k k' \<longleftrightarrow> k_recipes k' = k_recipes k \<and> k_selected_recipe k' = k_selected_recipe k"

definition recipes_part :: "coord \<Rightarrow> (string \<times> recipe_dict) list \<times> string option" where
  "recipes_part k = (k_recipes k, k_selected_recipe k)"

lemma recipes_kept_part: "recipes_kept k k' \<longleftrightarrow> recipes_part k' = recipes_part k"
  by (simp add: recipes_kept_def recipes_part_def)

lemma recipes_part_upd [simp]:
  "recipes_part (request t k) = recipes_part k"
  "recipes_part (snd (water_latch cat ty k)) = recipes_part k"
  "recipes_part (track_pod_prompt cat ty k) = recipes_part k"
  "recipes_part (finish_run k) = recipes_part k"
  "recipes_part (apply_grinder_knob st a k) = recipes_part k"
  "recipes_part (apply_brewer_knob st a k) = recipes_part k"
  "recipes_part (apply_brewer_page_entry st a k) = recipes_part k"
  by (simp_all add: recipes_part_def request_def water_latch_def track_pod_prompt_def finish_run_def clear_manual_run_def)
    (auto simp: knob_parts request_def Let_def split: option.splits pyfloat.splits)

lemma recipes_part_track [simp]: "recipes_part (snd (track_run cat ty a k)) = recipes_part k"
  by (simp add: track_run_def Let_def recipes_part_def finish_run_def clear_manual_run_def request_def split: option.split)

lemma recipes_part_armed [simp]: "recipes_part (armed_to_active cat ty k) = recipes_part k"
  by (simp add: armed_to_active_def start_recipe_run_def recipes_part_def)

lemma recipes_part_dispatch: "recipes_part (dispatch_event st (cat, ty, a) k) = recipes_part k"
  by (simp add: dispatch_event_def Let_def split_beta)

interpretation rk: coord_law recipes_kept
proof
  fix k evs w show "recipes_kept k (dispatch_events evs (k\<lparr>k_world := w\<rparr>))"
    unfolding recipes_kept_part
    by (subst dispatch_events_frame [where f = recipes_part, OF recipes_part_dispatch]) (simp add: recipes_part_def)
qed (simp_all add: recipes_kept_def request_def)

lemma changes_recipes: "recipes_kept k (changes_meanwhile changes key k)"
proof -
  have "recipes_part (handle_unit_options_change options k) = recipes_part k" for options k
    by (simp add: handle_unit_options_change_def Let_def recipes_part_def request_def)
  then have "recipes_part (fold handle_unit_options_change os k) = recipes_part k" for os
    by (induction os arbitrary: k) simp_all
  then show ?thesis by (simp add: recipes_kept_part changes_meanwhile_def)
qed

context link_law
begin

lemma keeps_slot_batch:
  assumes "\<And>key k. R k (meanwhile key k)" "keeps W (async_write_easy_slots slots True)"
  shows "keeps R (write_in_pro_mode B meanwhile slots)"
proof -
  have switched: "keeps R (case sw of None \<Rightarrow> return_co False
     | Some to_pro \<Rightarrow> bind_co (attempt (async_retry_while_sleeping B meanwhile
         (on_client (async_write_easy_slots slots True))) True False) (\<lambda>written.
       then_co (if to_pro then attempt (then_co (async_switch_mode_with_retry ''easy'')
          (modify (request AsyncRefresh))) () () else return_co ()) (return_co written)))" for sw
    by (cases sw) (simp_all add: keeps_return keeps_bind keeps_attempt keeps_retry keeps_on_client keeps_then keeps_switch
        keeps_modify R_request assms keeps_if_const del: then_co_def)
  have "keeps R (bind_co (if easy
      then catch_co (then_co (async_switch_mode_with_retry ''pro'') (return_co (Some True))) (\<lambda>_. return_co None)
      else return_co (Some False)) f)" if "\<And>x. keeps R (f x)" for easy f
    by (intro keeps_bind keeps_if_const keeps_catch keeps_then keeps_switch keeps_return that)
  from this [OF switched] show ?thesis by (simp add: keeps_def write_in_pro_mode_def [abs_def])
qed

end

context coord_law
begin

lemma keeps_slots: "(\<And>key k. R k (meanwhile key k)) \<Longrightarrow> keeps R (write_in_pro_mode B meanwhile slots)"
  by (rule keeps_slot_batch) (simp_all add: keeps_def)

end

definition rf :: "store \<Rightarrow> store \<Rightarrow> bool" where
  "rf s s' \<longleftrightarrow> abs_store s' = abs_store s \<and> st_entry s' = st_entry s \<and>
     (well_layered s \<longrightarrow> well_layered s')"

interpretation rf: act_law rf
  by unfold_locales (auto simp: rf_def)

lemma rf_coord:
  assumes "keeps recipes_kept m"
  shows "keeps rf (on_coord m)"
proof -
  have "rf s (s\<lparr>st_coord := k\<rparr>)" if "recipes_kept (st_coord s) k" for s k
    using that by (simp add: rf_def recipes_kept_def abs_store_def st_view_def options_recipes_def well_layered_def)
  then show ?thesis using assms by (simp add: keeps_def on_coord_def split_beta Let_def)
qed

lemma rf_record_slot: "rf s (record_slot target x s)"
  by (simp add: rf_def record_slot_def update_listeners_def request_def abs_store_def st_view_def
      options_recipes_def well_layered_def)

lemma rf_write_slot: "keeps rf (write_slot_recipe B (changes_meanwhile ch) slot x)"
proof -
  have up: "keeps rf (on_coord (async_ensure_connected B (changes_meanwhile ch)))"
    by (rule rf_coord [OF rk.keeps_ensure [OF changes_recipes]])
  have pro: "keeps rf (on_coord (write_in_pro_mode B (changes_meanwhile ch) slots))" for slots
    by (rule rf_coord [OF rk.keeps_slots [OF changes_recipes]])
  have "keeps rf (\<lambda>s1. if \<not> written then (Inr (Refused ''write_failed''), s1)
      else (Inr (Saved (rd_uid (snd x)) (fst x)), record_slot target x s1))" for written target
    by (simp add: keeps_def rf.R_refl rf_record_slot)
  from rf.keeps_bind [OF pro this]
  have three: "keeps rf (write_three_slots B (changes_meanwhile ch) target x)" for target
    by (simp add: keeps_def write_three_slots_def rf.R_refl split: sum.split)
  have "keeps rf (\<lambda>s. let target = py_upper (py_strip slot) in
        if \<not> ok then (Inr (Refused ''not_connected''), s)
        else if \<not> firmware_at_least (d_version (k_data (st_coord s))) MIN_FIRMWARE_EASY_MODE
        then (Inr (Refused ''firmware_too_old''), s)
        else if target \<notin> {''A'', ''B'', ''C''} then (Inr (Refused ''invalid_slot''), s)
        else write_three_slots B (changes_meanwhile ch) target x s)" for ok
    using three by (simp add: keeps_def rf.R_refl Let_def)
  then show ?thesis
    by (cases "py_lower (py_strip (rd_cup_type (snd x))) = ''tea''")
      (simp_all add: write_slot_recipe_def rf.keeps_return rf.keeps_bind up)
qed

lemma slot_effect:
  assumes "well_layered s" "coord_write_easy_slot srv u B (changes_meanwhile ch) slot i s = (Inr rep, s')"
  shows "well_layered s' \<and> effect (SlotOp u slot i) (Replied rep) (abs_store s) (abs_store s')"
proof -
  obtain src s1 where src: "slot_source srv u i s = (Inr src, s1)"
    and rest: "(case src of Inl e \<Rightarrow> return_co (Refused e)
       | Inr x \<Rightarrow> write_slot_recipe B (changes_meanwhile ch) slot x) s1 = (Inr rep, s')"
    using assms(2) unfolding coord_write_easy_slot_def bind_co_Inr by blast
  have r: "well_layered s1 \<and> (abs_store s1 = abs_store s \<or> i \<noteq> None \<and> unresolved u (the i) (abs_store s) (abs_store s1))"
  proof (cases "i \<noteq> None \<and> i \<noteq> Some []")
    case True
    then have "resolve_or_import srv u (the i) s = (Inr src, s1)" using src by (simp add: slot_source_def)
    from resolve_effect [OF assms(1) this] show ?thesis
      using True by (auto simp: resolves_def unresolved_def split: sum.splits)
  qed (use src assms(1) in \<open>auto simp: slot_source_def split: option.splits if_splits\<close>)
  have "rf s1 s'"
  proof (cases src)
    case (Inl e)
    then show ?thesis using rest rf.R_refl by (simp add: return_co_def)
  next
    case (Inr y)
    then show ?thesis using keepsD [OF rf_write_slot] rest by simp
  qed
  then show ?thesis using r by (auto simp: rf_def)
qed

section \<open>What the operations leave alone\<close>

text \<open>A part of the store that only a slot write or a reload of the options changes.\<close>

locale store_frame =
  fixes part :: "store \<Rightarrow> 'a"
  assumes part_coord: "part (s\<lparr>st_coord := k\<rparr>) = part s"
    and part_cloud: "part (s\<lparr>st_cloud := c\<rparr>) = part s"
    and part_options: "part (s\<lparr>st_options := opts\<rparr>) = part s"
    and part_seeded: "part (s\<lparr>st_seeded := b\<rparr>) = part s"
    and part_account_seeded: "part (s\<lparr>st_account_seeded := b\<rparr>) = part s"
begin

definition same :: "store \<Rightarrow> store \<Rightarrow> bool" where "same s s' \<longleftrightarrow> part s' = part s"

end

sublocale store_frame \<subseteq> fr: act_law same
  by unfold_locales (simp_all add: same_def)

context store_frame
begin

lemma part_write: "part (write_options_recipes opts s) = part s"
  by (simp add: write_options_recipes_def update_listeners_def rebuild_recipes_def part_coord part_options)

lemma part_select: "part (set_selected n s) = part s"
  by (simp add: set_selected_def part_coord)

lemma same_cloud: "keeps same (on_cloud m)"
  by (simp add: keeps_def same_def on_cloud_def split_beta Let_def part_cloud)

lemma same_coord: "keeps same (on_coord m)"
  by (simp add: keeps_def same_def on_coord_def split_beta Let_def part_coord)

lemma same_import: "keeps same (async_import_cloud_recipe srv u i)"
proof -
  have "keeps same (\<lambda>s. case fetched of
         None \<Rightarrow> (Inr (Refused ''fetch_failed''), s)
       | Some raw \<Rightarrow>
           (case RECIPE_SCHEMA raw of
              Inl _ \<Rightarrow> (Inr (Refused ''invalid_recipe''), s)
            | Inr v \<Rightarrow>
                if \<not> st_entry s then (Inr (Refused ''entry_not_found''), s)
                else let nm = dedupe_name (rd_name v) (map fst (st_recipes s));
                    link = (if contains ''://'' i then py_strip i
                            else ''https://share-h5.xbloom.com/?id='' @ py_strip i);
                    r = v\<lparr>rd_name := nm, rd_uid := Some u, rd_source := Some ''import'',
                          rd_share_url := (if rd_share_url v = None then Some link else rd_share_url v)\<rparr>
                  in (Inr (Saved (Some u) nm), write_options_recipes (put_recipe nm r (options_recipes s)) s)))" for fetched
    by (simp add: keeps_def same_def part_write Let_def split: option.split sum.split)
  then show ?thesis unfolding async_import_cloud_recipe_def by (intro fr.keeps_bind same_cloud)
qed

lemma same_resolve: "keeps same (resolve_or_import srv u i)"
proof -
  have "keeps same (bind_co (async_import_cloud_recipe srv u i) (\<lambda>imported s1.
            case imported of
              Refused e \<Rightarrow> (Inr (Inl e), s1)
            | Saved v _ \<Rightarrow>
                (case find_recipe (st_recipes s1) u of
                   Some x \<Rightarrow> (Inr (Inr x), s1)
                 | None \<Rightarrow> (Inr (Inl ''recipe_not_found''), s1))))"
    by (rule fr.keeps_bind [OF same_import]) (simp add: keeps_def same_def split: reply.split option.split)
  then show ?thesis by (simp add: keeps_def same_def resolve_or_import_def split: option.split)
qed

lemma same_slot_source: "keeps same (slot_source srv u i)"
  using same_resolve by (simp add: keeps_def same_def slot_source_def split: option.split)

lemma part_edit: "part (snd (apply_edit old cur ch s)) = part s"
  by (simp add: apply_edit_def Let_def part_write part_select split: sum.split)

lemma same_edit: "keeps same (async_edit_local_recipe srv u i ch)"
  unfolding async_edit_local_recipe_def
  by (rule fr.keeps_bind [OF same_resolve])
    (auto simp: keeps_def same_def part_edit split: sum.split prod.split dest: arg_cong [where f = snd] intro: part_edit [THEN subst])

lemma part_create: "part (snd (create_local_recipe u raw s)) = part s"
  by (simp add: create_local_recipe_def Let_def part_write split: sum.split)

lemma part_delete: "part (snd (delete_local_recipe i s)) = part s"
  by (simp add: delete_local_recipe_def Let_def part_write part_select split: option.split prod.split)

lemma part_pods: "part (snd (save_pod_recipes raws s)) = part s"
  by (simp add: save_pod_recipes_def part_write split: prod.split)

lemma same_login: "keeps same (async_ensure_cloud_login srv)"
  using same_cloud [of "login srv e p" for e p] by (simp add: keeps_def same_def async_ensure_cloud_login_def)

lemma same_seed: "keeps same (async_seed_recipes srv us)"
proof -
  have fetch: "keeps same (if account then fetch_account_recipes srv
      else on_cloud (fetch_official_recipes srv OFFICIAL_RECIPE_SYNC_LIMIT [''Omni'']))" for account
    unfolding fetch_account_recipes_def
    by (cases account) (simp_all add: same_cloud fr.keeps_bind fr.keeps_return same_login)
  have "keeps same (bind_co (if account then fetch_account_recipes srv
      else on_cloud (fetch_official_recipes srv OFFICIAL_RECIPE_SYNC_LIMIT [''Omni''])) (\<lambda>fetched s.
        case fetched of
          None \<Rightarrow> (Inr (), s)
        | Some raws \<Rightarrow>
            let opts = fold (seed_recipe (if account then ''seed_cloud'' else ''seed_official'') (yaml_names s))
                  (zip raws us) (st_options s)
            in (Inr (), update_listeners (rebuild_recipes
                 (s\<lparr>st_options := opts, st_seeded := True, st_account_seeded := st_account_seeded s \<or> account\<rparr>)))))" for account
    by (rule fr.keeps_bind [OF fetch])
      (simp add: keeps_def same_def update_listeners_def rebuild_recipes_def part_coord part_options part_seeded part_account_seeded
          Let_def split: option.split)
  then show ?thesis by (simp add: keeps_def same_def async_seed_recipes_def Let_def)
qed

lemma same_export: "keeps same (async_export_recipe srv i)"
proof -
  have rec: "part (snd (record_export n raw t l s)) = part s" for n raw t l s
    by (simp add: record_export_def Let_def part_write)
  have "keeps same (\<lambda>s. case pushed of
         None \<Rightarrow> (Inr (ExportRefused ''export_failed''), s)
       | Some (t, link) \<Rightarrow>
           (case record_export n raw t link s of
              (stored, s1) \<Rightarrow> (Inr (Exported t link stored w), s1)))" for pushed n raw w
    using rec by (auto simp: keeps_def same_def split: option.split prod.split) (metis snd_conv)
  then have "keeps same (if \<not> ok then return_co (ExportRefused ''login_failed'')
       else bind_co (on_cloud (push_to_account srv raw v)) (\<lambda>pushed s.
         case pushed of
           None \<Rightarrow> (Inr (ExportRefused ''export_failed''), s)
         | Some (t, link) \<Rightarrow>
             (case record_export n raw t link s of
                (stored, s1) \<Rightarrow> (Inr (Exported t link stored w), s1))))" for ok n raw v w
    by (cases ok) (simp_all add: fr.keeps_return fr.keeps_bind same_cloud)
  then have "keeps same (export_to_account srv n raw v w)" for n raw v w
    unfolding export_to_account_def by (intro fr.keeps_bind same_login)
  then have "keeps same (bind_co (lift_res (if w then Inr None else validate_pour_volume_consistency v)) (\<lambda>mismatch.
                if mismatch \<noteq> None then return_co (ExportRefused ''pour_volume_mismatch'')
                else export_to_account srv n raw v w))" for n raw v w
    by (intro fr.keeps_bind) (simp_all add: fr.keeps_return, simp add: keeps_def same_def lift_res_def)
  then show ?thesis
    unfolding keeps_def same_def async_export_recipe_def Let_def
    by (simp split: option.split sum.split prod.split del: if_split_asm cong: if_cong)
qed

end

interpretation fy: store_frame st_yaml by unfold_locales simp_all
interpretation fl: store_frame "\<lambda>s. (st_slots s, st_entry s)" by unfold_locales simp_all

lemma yaml_record_slot: "st_yaml (record_slot target x s) = st_yaml s"
  by (simp add: record_slot_def update_listeners_def)

lemma yaml_slot: "keeps fy.same (coord_write_easy_slot srv u B m letter i)"
proof -
  have "keeps fy.same (\<lambda>s1. if \<not> written then (Inr (Refused ''write_failed''), s1)
      else (Inr (Saved (rd_uid (snd x)) (fst x)), record_slot target x s1))" for written x target
    by (simp add: keeps_def fy.same_def yaml_record_slot)
  then have "keeps fy.same (bind_co (on_coord (write_in_pro_mode B m slots)) (\<lambda>written s1.
      if \<not> written then (Inr (Refused ''write_failed''), s1)
      else (Inr (Saved (rd_uid (snd x)) (fst x)), record_slot target x s1)))" for slots x target
    by (rule fy.fr.keeps_bind [OF fy.same_coord])
  then have "keeps fy.same (write_three_slots B m target x)" for target x
    by (simp add: keeps_def fy.same_def write_three_slots_def split: sum.split)
  then have "keeps fy.same (\<lambda>s. let target = py_upper (py_strip letter) in
        if \<not> ok then (Inr (Refused ''not_connected''), s)
        else if \<not> firmware_at_least (d_version (k_data (st_coord s))) MIN_FIRMWARE_EASY_MODE
        then (Inr (Refused ''firmware_too_old''), s)
        else if target \<notin> {''A'', ''B'', ''C''} then (Inr (Refused ''invalid_slot''), s)
        else write_three_slots B m target x s)" for ok x
    by (simp add: keeps_def fy.same_def Let_def)
  then have "keeps fy.same (write_slot_recipe B m letter x)" for x
    unfolding write_slot_recipe_def by (cases "py_lower (py_strip (rd_cup_type (snd x))) = ''tea''")
      (simp_all add: fy.fr.keeps_return fy.fr.keeps_bind fy.same_coord)
  then have "keeps fy.same (case src of Inl e \<Rightarrow> return_co (Refused e) | Inr x \<Rightarrow> write_slot_recipe B m letter x)" for src
    by (cases src) (simp_all add: fy.fr.keeps_return)
  then show ?thesis unfolding coord_write_easy_slot_def by (intro fy.fr.keeps_bind fy.same_slot_source)
qed

section \<open>Theorems\<close>

text \<open>The operation a label stands for, with its answer.\<close>

fun run_op :: "server \<Rightarrow> ble_stack \<Rightarrow> (string \<Rightarrow> coord \<Rightarrow> coord) \<Rightarrow> store_op \<Rightarrow> store_reply so" where
  "run_op srv B m (CreateOp u raw) s = (case create_local_recipe u raw s of (r, s') \<Rightarrow> (Inr (Replied r), s'))"
| "run_op srv B m (ImportOp u i) s = bind_co (async_import_cloud_recipe srv u i) (\<lambda>r. return_co (Replied r)) s"
| "run_op srv B m (EditOp u i ch) s = bind_co (async_edit_local_recipe srv u i ch) (\<lambda>r. return_co (Replied r)) s"
| "run_op srv B m (DeleteOp i) s = (case delete_local_recipe i s of (r, s') \<Rightarrow> (Inr (Replied r), s'))"
| "run_op srv B m (PodsOp raws) s = (case save_pod_recipes raws s of (ns, s') \<Rightarrow> (Inr (Added ns), s'))"
| "run_op srv B m (SeedOp us) s = bind_co (async_seed_recipes srv us) (\<lambda>_. return_co Seeded) s"
| "run_op srv B m (ExportOp i) s = bind_co (async_export_recipe srv i) (\<lambda>r. return_co (ExportReplied r)) s"
| "run_op srv B m (SlotOp u letter i) s = bind_co (coord_write_easy_slot srv u B m letter i) (\<lambda>r. return_co (Replied r)) s"

lemma run_op_effect:
  assumes "well_layered s" "distinct (op_uids op)" "run_op srv B (changes_meanwhile ch) op s = (Inr rep, s')"
  shows "well_layered s' \<and> effect op rep (abs_store s) (abs_store s')"
proof (cases op)
  case (CreateOp u raw)
  then show ?thesis using assms create_effect [OF assms(1)] by (auto split: prod.splits simp del: effect.simps)
next
  case (DeleteOp i)
  then show ?thesis using assms delete_effect [OF assms(1)] by (auto split: prod.splits simp del: effect.simps)
next
  case (PodsOp raws)
  then show ?thesis using assms pods_effect [OF assms(1)] by (auto split: prod.splits simp del: effect.simps)
qed (use assms import_effect [OF assms(1)] edit_effect [OF assms(1)] seed_effect [OF assms(1)] export_effect [OF assms(1)]
    slot_effect [OF assms(1)] in \<open>auto simp: bind_co_Inr return_co_def simp del: effect.simps\<close>)

lemma yaml_reply: "keeps fy.same m \<Longrightarrow> bind_co m (\<lambda>r. return_co (f r)) s = (r, s') \<Longrightarrow> st_yaml s' = st_yaml s"
  using keepsD [OF fy.fr.keeps_bind [of m "\<lambda>r. return_co (f r)"]] by (auto simp: fy.fr.keeps_return fy.same_def)

lemma run_op_yaml: "run_op srv B m op s = (r, s') \<Longrightarrow> st_yaml s' = st_yaml s"
proof (induction op)
  case (CreateOp u raw)
  then show ?case using fy.part_create [of u raw s] by (auto split: prod.splits)
next
  case (DeleteOp i)
  then show ?case using fy.part_delete [of i s] by (auto split: prod.splits)
next
  case (PodsOp raws)
  then show ?case using fy.part_pods [of raws s] by (auto split: prod.splits)
qed (simp_all add: yaml_reply [OF fy.same_import] yaml_reply [OF fy.same_edit] yaml_reply [OF fy.same_seed]
    yaml_reply [OF fy.same_export] yaml_reply [OF yaml_slot])

text \<open>
  C12. Every operation of the recipe store refines its abstract effect on what the user sees, with the
  answer it gives, whatever the YAML layer and the cloud hold: a create adds the validated recipe
  under the free name it reports, with the minted uid; an import adds one with its share link; an edit
  changes or moves exactly the recipe its identifier is for, keeps its identity and lets the selection
  follow; a delete removes exactly that recipe, although the YAML layer still has it, and clears the
  selection; saving pods and seeding only add, under free names and with uids of their own; an export
  records the cloud's id and link on that recipe; a slot write changes no recipe.  A refusal changes
  nothing, except that an edit or a slot write may have imported the recipe it was given a link for.
\<close>

theorem store_refines_view:
  assumes "well_layered s" "distinct (op_uids op)" "run_op srv B (changes_meanwhile ch) op s = (Inr rep, s')"
  shows "well_layered s' \<and> effect op rep (abs_store s) (abs_store s')"
  by (rule run_op_effect [OF assms])

definition demo_store :: store where
  "demo_store = \<lparr>st_coord = demo_coord\<lparr>k_recipes := [(''V60'', (demo_dict [sip 2])\<lparr>rd_uid := Some ''y''\<rparr>)]\<rparr>,
     st_yaml = [(''V60'', (demo_dict [sip 2])\<lparr>rd_uid := Some ''y''\<rparr>)], st_entry = True, st_options = [],
     st_slots = [], st_seeded = True, st_account_seeded = False, st_account = None, st_cloud = new_cloud\<rparr>"

lemma demo_store_ok:
  "well_layered demo_store" "st_view demo_store = [''V60'' \<mapsto> (demo_dict [sip 2])\<lparr>rd_uid := Some ''y''\<rparr>]"
  "abs_store demo_store = ([''V60'' \<mapsto> (demo_dict [sip 2])\<lparr>rd_uid := Some ''y''\<rparr>], None)"
  by (simp_all add: demo_store_def well_layered_def merge_layers_def options_recipes_def st_view_def visible_def
      abs_store_def demo_coord_def init_coord_def fun_eq_iff)

theorem store_refines_view_witness:
  "\<exists>s'. run_op (\<lambda>_. None) offline_stack (changes_meanwhile (\<lambda>_. [])) (DeleteOp ''y'') demo_store
       = (Inr (Replied (Saved (Some ''y'') ''V60'')), s') \<and>
     removed ''y'' (Some ''y'') ''V60'' ([''V60'' \<mapsto> (demo_dict [sip 2])\<lparr>rd_uid := Some ''y''\<rparr>], None) (abs_store s')"
proof -
  have "find_recipe (st_recipes demo_store) ''y'' = Some (''V60'', (demo_dict [sip 2])\<lparr>rd_uid := Some ''y''\<rparr>)"
    by (rule find_recipe_uid) (auto simp: demo_store_def py_strip_def py_space_def)
  then obtain s' where d: "run_op (\<lambda>_. None) offline_stack (changes_meanwhile (\<lambda>_. [])) (DeleteOp ''y'') demo_store
      = (Inr (Replied (Saved (Some ''y'') ''V60'')), s')"
    by (simp add: delete_local_recipe_def)
  from store_refines_view [OF demo_store_ok(1) _ this] d show ?thesis by (auto simp: demo_store_ok(3))
qed

lemma demo_created:
  "\<exists>s'. create_local_recipe ''u1'' (raw_of (demo_dict [sip 2])) demo_store = (Saved (Some ''u1'') ''V60 (2)'', s')"
proof -
  let ?raw = "raw_of (demo_dict [sip 2])"
  have v: "RECIPE_SCHEMA (strip_raw ?raw) = Inr (demo_dict [sip 2])"
    by (simp add: RECIPE_SCHEMA_def raw_of_def strip_raw_def strip_protected_def POUR_SCHEMA_def raw_pour_of_def
        demo_dict_def sip_def VIBRATION_NAMES_def)
  have nm: "rd_name (demo_dict [sip 2]) = ''V60''" by (simp add: demo_dict_def)
  have "dedupe_name ''V60'' [''V60''] = ''V60 (2)''"
    by (simp add: dedupe_name_def dedupe_from.simps numbered_def dec_digits.simps char_of_def bit_0)
  moreover have "map fst (st_recipes demo_store) = [''V60'']" by (simp add: demo_store_def)
  ultimately show ?thesis by (simp add: create_local_recipe_def v Let_def nm)
qed

end
