(* ===== verification/StoreFacts.thy ===== *)
theory StoreFacts
  imports StoreSpec
begin

text \<open>
  What the recipe store's operations do for one another: a created recipe is found again, what a
  slot write records, which recipes it sends, and two places where names and links go astray.
\<close>

section \<open>Lookup after creation\<close>

text \<open>
  A created recipe is found again by its uid: under the name the answer gives, with
  the fields the schema validated and none of the caller's own uid, cloud id or share link.
\<close>

theorem created_recipe_found:
  assumes "well_layered s" "fresh_uid (st_view s) uid" "py_strip uid = uid" "uid \<noteq> []"
    and "create_local_recipe uid raw s = (Saved u nm, s')"
  shows "\<exists>v. RECIPE_SCHEMA (strip_raw raw) = Inr v \<and> u = Some uid \<and>
    find_recipe (st_recipes s') uid =
      Some (nm, v\<lparr>rd_name := nm, rd_uid := Some uid, rd_cloud_table_id := None, rd_share_url := None,
                   rd_source := Some ''manual''\<rparr>)"
proof (cases "RECIPE_SCHEMA (strip_raw raw)")
  case (Inr v)
  let ?r = "v\<lparr>rd_name := nm, rd_uid := Some uid, rd_source := Some ''manual''\<rparr>"
  have res: "nm = dedupe_name (rd_name v) (map fst (st_recipes s))" "u = Some uid"
    "s' = write_options_recipes (put_recipe nm ?r (options_recipes s)) s"
    using assms(5) Inr by (auto simp: create_local_recipe_def Let_def)
  have s': "well_layered s'" "st_view s' = (st_view s)(nm \<mapsto> ?r)"
    using put_view [OF assms(1), of nm ?r] res(3) by (simp_all add: abs_store_def)
  have only: "(m, q) = (nm, ?r)" if "(m, q) \<in> set (st_recipes s')" "rd_uid q = Some uid" for m q
  proof -
    have "distinct (map fst (st_recipes s'))" using s'(1) by (simp add: well_layered_def distinct_merge)
    then have "map_of (st_recipes s') m = Some q" using that(1) by (rule map_of_is_SomeI)
    then have "st_view s' m = Some q" by (simp only: recipes_view [OF s'(1)])
    then show ?thesis using that(2) assms(2) by (auto simp: s'(2) fresh_uid_def split: if_splits)
  qed
  have "map_of (st_recipes s') nm = Some ?r" by (simp only: recipes_view [OF s'(1)] s'(2) fun_upd_same)
  then have "(nm, ?r) \<in> set (st_recipes s')" by (rule map_of_SomeD)
  then have found: "find_recipe (st_recipes s') uid = Some (nm, ?r)"
    by (rule find_recipe_uid [OF _ _ assms(3,4) only]) simp_all
  have "rd_cloud_table_id v = None \<and> rd_share_url v = None"
    using Inr by (auto simp: RECIPE_SCHEMA_def bind_res_Inr_iff strip_raw_def strip_protected_def)
  then have "v\<lparr>rd_name := nm, rd_uid := Some uid, rd_cloud_table_id := None, rd_share_url := None,
      rd_source := Some ''manual''\<rparr> = ?r" by simp
  then show ?thesis using Inr res(2) found by simp
qed (use assms(5) in \<open>simp add: create_local_recipe_def\<close>)

theorem created_recipe_found_witness:
  "\<exists>s' r. create_local_recipe ''u1'' (raw_of (demo_dict [sip 2])) demo_store = (Saved (Some ''u1'') ''V60 (2)'', s') \<and>
     find_recipe (st_recipes s') ''u1'' = Some (''V60 (2)'', r) \<and> rd_source r = Some ''manual''"
proof -
  obtain s' where c: "create_local_recipe ''u1'' (raw_of (demo_dict [sip 2])) demo_store = (Saved (Some ''u1'') ''V60 (2)'', s')"
    using demo_created by blast
  have "fresh_uid (st_view demo_store) ''u1''" by (simp add: fresh_uid_def demo_store_ok(2))
  moreover have "py_strip ''u1'' = ''u1''" by (simp add: py_strip_def py_space_def)
  ultimately show ?thesis using created_recipe_found [OF demo_store_ok(1) _ _ _ c] c by auto
qed

section \<open>Share ids with a plus sign\<close>

text \<open>The characters that stand for themselves in an id, in a link and in an escaped text.\<close>

definition plain_char :: "char \<Rightarrow> bool" where
  "plain_char c \<longleftrightarrow> \<not> py_space c \<and> c \<notin> set ''%&#?:''"

lemma plain_unquote: "CHR ''%'' \<notin> set s \<Longrightarrow> unquote s = s"
  by (induction s rule: unquote.induct) auto

lemma plain_split: "list_all plain_char s \<Longrightarrow> split_char CHR ''&'' s = [s]"
  by (induction s) (auto simp: plain_char_def)

lemma plain_before: "list_all plain_char s \<Longrightarrow> before_char CHR ''#'' s = s"
  by (induction s) (auto simp: plain_char_def before_char_def)

lemma plain_filter: "list_all plain_char s \<Longrightarrow> filter (\<lambda>c. (of_char c :: nat) \<notin> {9, 10, 13}) s = s"
  by (induction s) (auto simp: plain_char_def py_space_def)

lemma strip_plain: "list_all (\<lambda>c. \<not> py_space c) s \<Longrightarrow> py_strip s = s"
proof -
  assume s: "list_all (\<lambda>c. \<not> py_space c) s"
  then have "dropWhile py_space s = s" "dropWhile py_space (rev s) = rev s"
    by (auto simp: dropWhile_eq_self_iff list_all_iff hd_rev)
  then show ?thesis by (simp add: py_strip_def)
qed

lemma plain_not_url: "list_all plain_char s \<Longrightarrow> \<not> contains ''://'' s"
  by (auto simp: contains_def sublist_def plain_char_def)

definition share_url_of_id :: "string \<Rightarrow> string" where
  "share_url_of_id i = ''https://share-h5.xbloom.com/?id='' @ i"

lemma link_share_id:
  assumes "list_all plain_char i" "i \<noteq> []"
  shows "share_id_of (share_url_of_id i) = Some (plus_to_space i)"
proof -
  have sp: "list_all (\<lambda>c. \<not> py_space c) i" using assms(1) by (simp add: list_all_iff plain_char_def)
  have pct: "CHR ''%'' \<notin> set (plus_to_space i)"
    using assms(1) by (auto simp: list_all_iff plain_char_def plus_to_space_def)
  have strip: "py_strip (share_url_of_id i) = share_url_of_id i"
    by (rule strip_plain) (simp add: share_url_of_id_def sp, simp add: py_space_def)
  have "contains ''://'' (share_url_of_id i)"
    unfolding contains_def share_url_of_id_def
    using sublist_appendI [of "''://''" "''https''" "''share-h5.xbloom.com/?id='' @ i"] by simp
  moreover have "url_query (share_url_of_id i) = ''id='' @ i"
    using plain_before [OF assms(1)] plain_filter [OF assms(1)]
    by (simp add: url_query_def share_url_of_id_def after_char_def before_char_def)
  moreover have "query_value ''id'' (''id='' @ i) = Some (plus_to_space i)"
    using assms(2) plain_split [OF assms(1)] plain_unquote [of "plus_to_space i"] pct
    by (simp add: query_value_def query_pairs_def before_char_def after_char_def plus_to_space_def)
  ultimately show ?thesis by (simp add: share_id_of_def strip)
qed

lemma fetched_without_identity:
  assumes "fetch_shared_recipe srv ref c = (Inr (Some raw), c')"
  shows "rd_share_url (raw_fields raw) = None" "rd_cloud_table_id (raw_fields raw) = None"
proof -
  have share: "\<exists>e. raw = cloud_recipe_to_local e" if "fetch_share_id srv v k = (Inr (Some raw), k')" for v k k'
    using that by (auto simp: fetch_share_id_def Let_def bind_co_Inr split: if_splits option.splits)
  have "\<exists>e. raw = cloud_recipe_to_local e"
    using assms
    by (auto simp: fetch_shared_recipe_def Let_def bind_co_Inr split: option.splits if_splits intro: share)
  then show "rd_share_url (raw_fields raw) = None" "rd_cloud_table_id (raw_fields raw) = None"
    by (auto simp: cloud_recipe_to_local_def Let_def)
qed

lemma not_found:
  assumes "\<And>n r. (n, r) \<in> set recipes \<Longrightarrow> n \<noteq> i \<and> rd_uid r \<noteq> Some i \<and> rd_cloud_table_id r = None \<and>
      (\<forall>q. share_id_of i = Some q \<longrightarrow> \<not> has_share_id q r)"
    and "py_strip i = i"
  shows "find_recipe recipes i = None"
proof -
  have none: "first_where (\<lambda>(_, r). P r) recipes = None" if "\<And>n r. (n, r) \<in> set recipes \<Longrightarrow> \<not> P r" for P
    using that by (auto simp: first_where_None)
  have "first_where (\<lambda>(_, r). rd_uid r = Some i) recipes = None" by (rule none) (drule assms(1), blast)
  moreover have "first_where (\<lambda>(_, r). rd_cloud_table_id r = Some t) recipes = None" for t
    by (rule none) (drule assms(1), simp)
  moreover have "first_where (\<lambda>(_, r). has_share_id q r) recipes = None" if "share_id_of i = Some q" for q
    by (rule none) (drule assms(1), use that in blast)
  moreover have "map_of recipes i = None" unfolding map_of_eq_None_iff by (auto dest: assms(1))
  ultimately show ?thesis
    using assms(2) by (simp add: find_recipe_def Let_def split: option.split)
qed

text \<open>
  A bare share id with a plus sign is not recognized once imported: the link that is stored
  puts the id into a query, where the plus means a blank, so the id does not find the recipe it
  was imported as and still looks like a share reference to import.
\<close>

theorem plus_share_id_reimported:
  assumes "list_all plain_char i" "CHR ''+'' \<in> set i" "well_layered s" "st_recipes s = []"
    and "async_import_cloud_recipe srv uid i s = (Inr (Saved u nm), s')" "i \<noteq> uid" "i \<noteq> nm"
  shows "looks_like_share_ref i \<and> find_recipe (st_recipes s') i = None"
proof -
  have "list_all (\<lambda>c. \<not> py_space c) i" using assms(1) by (simp add: list_all_iff plain_char_def)
  then have i: "py_strip i = i" "\<not> contains ''://'' i" "i \<noteq> []"
    using assms(2) plain_not_url [OF assms(1)] by (simp_all only: strip_plain) auto
  obtain raw c v where raw: "fetch_shared_recipe srv i (st_cloud s) = (Inr (Some raw), c)"
    and v: "RECIPE_SCHEMA raw = Inr v"
    and s': "s' = write_options_recipes (put_recipe nm (v\<lparr>rd_name := nm, rd_uid := Some uid, rd_source := Some ''import'',
        rd_share_url := Some (share_url_of_id i)\<rparr>) (options_recipes (s\<lparr>st_cloud := c\<rparr>))) (s\<lparr>st_cloud := c\<rparr>)"
  proof -
    obtain f s1 where f: "on_cloud (fetch_shared_recipe srv i) s = (Inr f, s1)"
      and rest: "(case f of None \<Rightarrow> (Inr (Refused ''fetch_failed''), s1) | Some raw \<Rightarrow>
       (case RECIPE_SCHEMA raw of Inl _ \<Rightarrow> (Inr (Refused ''invalid_recipe''), s1)
        | Inr v \<Rightarrow> if \<not> st_entry s1 then (Inr (Refused ''entry_not_found''), s1)
            else let nm = dedupe_name (rd_name v) (map fst (st_recipes s1));
                    link = (if contains ''://'' i then py_strip i
                            else ''https://share-h5.xbloom.com/?id='' @ py_strip i);
                    r = v\<lparr>rd_name := nm, rd_uid := Some uid, rd_source := Some ''import'',
                          rd_share_url := (if rd_share_url v = None then Some link else rd_share_url v)\<rparr>
                  in (Inr (Saved (Some uid) nm), write_options_recipes (put_recipe nm r (options_recipes s1)) s1)))
        = ((Inr (Saved u nm) :: reply res), s')"
      using assms(5) by (auto simp: async_import_cloud_recipe_def bind_co_Inr)
    obtain c where c: "fetch_shared_recipe srv i (st_cloud s) = (Inr f, c)" "s1 = s\<lparr>st_cloud := c\<rparr>"
      using f by (cases "fetch_shared_recipe srv i (st_cloud s)") (auto simp: on_cloud_def)
    obtain raw v where raw: "f = Some raw" "RECIPE_SCHEMA raw = Inr v" and entry: "st_entry s1"
      using rest by (auto split: option.splits sum.splits if_splits)
    have "rd_share_url v = None"
      using fetched_without_identity(1) c(1) raw by (auto simp: RECIPE_SCHEMA_def bind_res_Inr_iff)
    then have "s' = write_options_recipes (put_recipe nm (v\<lparr>rd_name := nm, rd_uid := Some uid, rd_source := Some ''import'',
        rd_share_url := Some (share_url_of_id i)\<rparr>) (options_recipes s1)) s1"
      using rest raw entry i by (auto simp: Let_def share_url_of_id_def)
    then show ?thesis using c raw by (intro that [of raw c v]) simp_all
  qed
  let ?r = "v\<lparr>rd_name := nm, rd_uid := Some uid, rd_source := Some ''import'', rd_share_url := Some (share_url_of_id i)\<rparr>"
  have w: "well_layered s'" "st_view s' = (st_view s)(nm \<mapsto> ?r)"
    using put_view [of "s\<lparr>st_cloud := c\<rparr>" nm ?r] assms(3) unfolding s' by (simp_all add: abs_store_def)
  have cid: "rd_cloud_table_id v = None"
    using fetched_without_identity(2) [OF raw] v by (auto simp: RECIPE_SCHEMA_def bind_res_Inr_iff)
  have one: "(n, r) = (nm, ?r)" if "(n, r) \<in> set (st_recipes s')" for n r
  proof -
    have "distinct (map fst (st_recipes s'))" using w(1) by (simp add: well_layered_def distinct_merge)
    then have "map_of (st_recipes s') n = Some r" using that by (rule map_of_is_SomeI)
    then have "st_view s' n = Some r" by (simp only: recipes_view [OF w(1)])
    moreover have "st_view s = Map.empty" using recipes_view [OF assms(3)] assms(4) by simp
    ultimately show ?thesis unfolding w(2) by (auto split: if_splits)
  qed
  have "CHR ''+'' \<notin> set (plus_to_space i)" by (auto simp: plus_to_space_def)
  then have "plus_to_space i \<noteq> i" using assms(2) by metis
  moreover have "unquote i = i" using assms(1) by (intro plain_unquote) (auto simp: list_all_iff plain_char_def)
  ultimately have "\<not> has_share_id q ?r" if "share_id_of i = Some q" for q
    using that i link_share_id [OF assms(1) i(3)]
    by (auto simp: has_share_id_def share_id_of_def split: list.splits)
  then have "find_recipe (st_recipes s') i = None"
    using cid assms(6,7) by (intro not_found [OF _ i(1)]) (drule one, simp)
  moreover have "looks_like_share_ref i"
    using assms(2) i(1) by (auto simp: looks_like_share_ref_def list_ex_iff)
  ultimately show ?thesis by simp
qed

definition demo_server :: server where
  "demo_server = (\<lambda>_. Some \<lparr>as_success = True, as_member = None, as_token = [], as_list = [], as_table_id = None,
     as_recipe = \<lparr>cr_name = Some ''Aa'', cr_dose = None, cr_grand_water = None, cr_grinder_size = None, cr_rpm = None,
       cr_cup_type = None, cr_bypass_temp = None, cr_bypass_volume = None, cr_is_set_grinder_size = None,
       cr_is_enable_bypass_water = None, cr_pours = []\<rparr>,
     as_share_link = None, as_facets = [], as_center = None, as_product = [], as_sku = [], as_image = [], as_version = None, as_pod = []\<rparr>)"

definition empty_store :: store where
  "empty_store = demo_store\<lparr>st_yaml := [], st_coord := demo_coord\<lparr>k_recipes := []\<rparr>\<rparr>"

theorem plus_share_id_reimported_witness:
  "\<exists>s'. async_import_cloud_recipe demo_server ''u1'' ''a+b'' empty_store = (Inr (Saved (Some ''u1'') ''Aa''), s') \<and>
     looks_like_share_ref ''a+b'' \<and> find_recipe (st_recipes s') ''a+b'' = None"
proof -
  have strip: "py_strip ''a+b'' = ''a+b''" by (simp add: py_strip_def py_space_def)
  have "collective_id ''a+b'' = None" by (simp add: collective_id.simps Let_def)
  moreover have "\<not> is_digit CHR ''a''" by (simp add: is_digit_def)
  moreover have "parse_share_id ''a+b'' = ''a+b''"
    by (simp add: parse_share_id_def strip contains_code prefix_def upt_rec)
  ultimately have "\<exists>raw c. fetch_shared_recipe demo_server ''a+b'' new_cloud = (Inr (Some raw), c) \<and>
      RECIPE_SCHEMA raw = Inr (raw_fields raw) \<and> rd_name (raw_fields raw) = ''Aa''"
    by (simp add: fetch_shared_recipe_def strip fetch_share_id_def post_def bind_co_def Let_def demo_server_def
        cloud_recipe_to_local_def RECIPE_SCHEMA_def)
  then obtain raw c where f: "fetch_shared_recipe demo_server ''a+b'' (st_cloud empty_store) = (Inr (Some raw), c)"
    "RECIPE_SCHEMA raw = Inr (raw_fields raw)" "rd_name (raw_fields raw) = ''Aa''"
    by (auto simp: empty_store_def demo_store_def)
  then obtain s' where imp: "async_import_cloud_recipe demo_server ''u1'' ''a+b'' empty_store = (Inr (Saved (Some ''u1'') ''Aa''), s')"
    by (simp add: async_import_cloud_recipe_def bind_co_def on_cloud_def Let_def dedupe_name_def empty_store_def demo_store_def)
  have "well_layered empty_store" "st_recipes empty_store = []"
    by (simp_all add: empty_store_def demo_store_def well_layered_def merge_layers_def options_recipes_def)
  then show ?thesis
    using plus_share_id_reimported [OF _ _ _ _ imp] imp by (auto simp: plain_char_def py_space_def)
qed

section \<open>Bundled recipes and the YAML layer\<close>

lemma seed_fold:
  "distinct (map (fst \<circ> fst) defaults) \<Longrightarrow> ((n, r), u) \<in> set defaults \<Longrightarrow>
     map_of (fold (\<lambda>((nm, r), uid). put_recipe nm (r\<lparr>rd_uid := Some uid, rd_source := Some ''seed_bundled''\<rparr>)) defaults opts) n
     = Some (Some (r\<lparr>rd_uid := Some u, rd_source := Some ''seed_bundled''\<rparr>))"
proof (induction defaults arbitrary: opts rule: rev_induct)
  case (snoc x defaults)
  show ?case
  proof (cases "x = ((n, r), u)")
    case True
    then show ?thesis by (simp add: put_recipe_def AList.update_conv')
  next
    case False
    then have in_defaults: "((n, r), u) \<in> set defaults" using snoc.prems by auto
    then have "n \<in> set (map (fst \<circ> fst) defaults)" by force
    then have "fst (fst x) \<noteq> n" using snoc.prems(1) by auto
    then show ?thesis
      using snoc in_defaults by (auto simp: put_recipe_def AList.update_conv' split: prod.split)
  qed
qed simp

text \<open>
  Seeding the bundled recipes on a fresh installation hides every \<^verbatim>\<open>configuration.yaml\<close> recipe of
  the same name: what is visible afterwards is the bundled one.
\<close>

theorem bundled_seed_hides_yaml:
  assumes "st_entry s" "st_options s = []" "\<not> st_seeded s" "distinct (map (fst \<circ> fst) defaults)"
    and "((n, r), u) \<in> set defaults"
  shows "st_view (seed_bundled_recipes defaults s) n = Some (r\<lparr>rd_uid := Some u, rd_source := Some ''seed_bundled''\<rparr>)"
proof -
  have "defaults \<noteq> []" using assms(5) by auto
  then show ?thesis
    using assms seed_fold [OF assms(4,5), of "[]"]
    by (simp add: seed_bundled_recipes_def st_view_def visible_def options_recipes_def)
qed

theorem bundled_seed_hides_yaml_witness:
  "st_view (seed_bundled_recipes [((''V60'', demo_dict []), ''b'')] (demo_store\<lparr>st_seeded := False\<rparr>)) ''V60'' =
     Some ((demo_dict [])\<lparr>rd_uid := Some ''b'', rd_source := Some ''seed_bundled''\<rparr>) \<and>
   st_view demo_store ''V60'' = Some ((demo_dict [sip 2])\<lparr>rd_uid := Some ''y''\<rparr>)"
  using bundled_seed_hides_yaml [of "demo_store\<lparr>st_seeded := False\<rparr>" "[((''V60'', demo_dict []), ''b'')]" "''V60''" "demo_dict []" "''b''"]
  by (simp add: demo_store_ok(2)) (simp add: demo_store_def)

section \<open>What a slot write records and sends\<close>















text \<open>A write to a quiet machine in Pro Mode.\<close>

definition sip_recipe :: xbloom_recipe where
  "sip_recipe = \<lparr>grind_size = 50, total_water = 2, rpm = 80, cup_type = 2, name = ''V60'', bean_weight = Fin 15,
     recipe_id = 0, pours = [\<lparr>volume = 2, temperature = 92, flow_rate = Fin 3, pausing = 0, pattern = SPIRAL, vibration = VNone\<rparr>]\<rparr>"

lemma sip_built:
  "build_recipe_from_yaml (demo_dict [sip 2]) = Inr sip_recipe"
  "build_recipe_from_yaml ((demo_dict [sip 2])\<lparr>rd_uid := Some ''y'', rd_cup_type := ''tea''\<rparr>) = Inr (sip_recipe\<lparr>cup_type := CUP_TEA\<rparr>)"
  "build_recipe_from_yaml ((demo_dict [sip 2])\<lparr>rd_uid := Some ''y''\<rparr>) = Inr sip_recipe"
proof -
  have "build_pour (sip 2) = Inr \<lparr>volume = 2, temperature = 92, flow_rate = Fin 3, pausing = 0, pattern = SPIRAL, vibration = VNone\<rparr>"
    by (simp add: build_pour_def sip_def pour_pattern_of_def pour_post_init_def lookup_or_def YAML_VIBRATION_MAP_def
        py_strip_def py_lower_def py_space_def lower_char_def)
  moreover have "float_volumes [sip 2] = Inr (Fin 2)"
    by (simp add: float_volumes_def sip_def float_of_int_def small_doubles)
  moreover have "lookup_or 0 YAML_CUP_TYPE_MAP (py_lower (py_strip ''Omni_Dripper'')) = 2"
    by (simp add: lookup_or_def YAML_CUP_TYPE_MAP_def py_strip_def py_lower_def py_space_def lower_char_def char_of_def bit_0 CUP_OMNI_DRIPPER_def)
  moreover have "round_half_even 2 = 2" using round_half_even_of_int [of 2] by simp
  moreover have "lookup_or 0 YAML_CUP_TYPE_MAP (py_lower (py_strip ''tea'')) = CUP_TEA"
    by (simp add: lookup_or_def YAML_CUP_TYPE_MAP_def py_strip_def py_lower_def py_space_def lower_char_def CUP_TEA_def)
  ultimately show "build_recipe_from_yaml (demo_dict [sip 2]) = Inr sip_recipe"
    "build_recipe_from_yaml ((demo_dict [sip 2])\<lparr>rd_uid := Some ''y'', rd_cup_type := ''tea''\<rparr>) = Inr (sip_recipe\<lparr>cup_type := CUP_TEA\<rparr>)"
    "build_recipe_from_yaml ((demo_dict [sip 2])\<lparr>rd_uid := Some ''y''\<rparr>) = Inr sip_recipe"
    by (simp_all add: build_recipe_from_yaml_def demo_dict_def compute_total_water_ml_def recipe_post_init_def VALID_RPMS_def
        sip_recipe_def)
qed








text \<open>
  The tea check of a slot write looks at the target's recipe only: a recipe remembered for
  another slot by its uid, and edited to tea since, is built and written to that slot again.
\<close>

theorem tea_written_to_other_slot:
  assumes "st_entry s" "map_of (st_slots s) ''B'' = Some (Some u, n)" "u \<noteq> []"
    and "find_recipe (st_recipes s) u = Some (m, r)" "py_lower (py_strip (rd_cup_type r)) = ''tea''"
    and "build_recipe_from_yaml (snd x) = Inr q" "build_recipe_from_yaml r = Inr t"
    and "slot_choice s ''A'' x ''C'' = x"
  shows "slot_recipes s ''A'' x = Inr [''A'' \<mapsto> q, ''B'' \<mapsto> t, ''C'' \<mapsto> q] \<and> cup_type t = CUP_TEA"
proof -
  have "py_upper ''B'' = ''B''" by (simp add: py_upper_def upper_char_def)
  then have "slot_choice s ''A'' x ''B'' = (m, r)"
    using assms(1-4) by (simp add: slot_choice_def easy_slot_contents_def)
  moreover have "slot_choice s ''A'' x ''A'' = x" by (simp add: slot_choice_def)
  moreover have "cup_type t = CUP_TEA"
    using built_cup_type [OF assms(7)] assms(5) by (simp add: lookup_or_def YAML_CUP_TYPE_MAP_def CUP_TEA_def)
  ultimately show ?thesis using assms(6-8) by (simp add: slot_recipes_def) (simp add: fun_upd_twist)
qed

theorem tea_written_to_other_slot_witness:
  "\<exists>slots t. slot_recipes (demo_store\<lparr>st_slots := [(''B'', Some ''y'', ''V60'')],
       st_coord := demo_coord\<lparr>k_recipes := [(''V60'', (demo_dict [sip 2])\<lparr>rd_uid := Some ''y'', rd_cup_type := ''tea''\<rparr>)]\<rparr>\<rparr>)
     ''A'' (''N'', demo_dict [sip 2]) = Inr slots \<and> slots ''B'' = Some t \<and> cup_type t = CUP_TEA"
proof -
  let ?r = "(demo_dict [sip 2])\<lparr>rd_uid := Some ''y'', rd_cup_type := ''tea''\<rparr>" and ?x = "(''N'', demo_dict [sip 2])"
  let ?s = "demo_store\<lparr>st_slots := [(''B'', Some ''y'', ''V60'')], st_coord := demo_coord\<lparr>k_recipes := [(''V60'', ?r)]\<rparr>\<rparr>"
  have "py_upper ''C'' = ''C''" by (simp add: py_upper_def upper_char_def)
  then have c: "slot_choice ?s ''A'' ?x ''C'' = ?x" by (simp add: slot_choice_def easy_slot_contents_def demo_store_def)
  have f: "find_recipe (st_recipes ?s) ''y'' = Some (''V60'', ?r)"
    by (rule find_recipe_uid) (auto simp: py_strip_def py_space_def)
  have "py_lower (py_strip (rd_cup_type ?r)) = ''tea''"
    by (simp add: py_strip_def py_lower_def py_space_def lower_char_def)
  from tea_written_to_other_slot [OF _ _ _ f this _ sip_built(2) c] show ?thesis
    by (simp add: demo_store_def sip_built(1))
qed

end
