(* ===== verification/Documents.thy ===== *)
theory Documents
  imports Identity "HOL-Library.AList"
begin

text \<open>
  Documents as YAML and JSON give them, and the recipe schema on them (\<^verbatim>\<open>schema.py\<close>): the
  required keys, the defaults, the coercions of every field, and the keys it refuses.  A
  dictionary is its list of items in insertion order.  The text of a float given where the schema
  wants text is an argument (\<open>show_float\<close>); everything else computes.
\<close>

section \<open>Documents\<close>

datatype json =
    JNull
  | JBool bool
  | JInt int
  | JFloat pyfloat
  | JStr string
  | JList "json list"
  | JDict "(string \<times> json) list"

type_synonym doc = "(string \<times> json) list"

definition doc_pop :: "string \<Rightarrow> doc \<Rightarrow> doc" where "doc_pop k d = AList.delete k d"

definition doc_put :: "string \<Rightarrow> json \<Rightarrow> doc \<Rightarrow> doc" where "doc_put k v d = AList.update k v d"

text \<open>\<^verbatim>\<open>if old in d: d[new] = d.pop(old)\<close>.\<close>

definition doc_rename :: "string \<Rightarrow> string \<Rightarrow> doc \<Rightarrow> doc" where
  "doc_rename old new d = (case map_of d old of None \<Rightarrow> d | Some v \<Rightarrow> doc_put new v (doc_pop old d))"

text \<open>\<^verbatim>\<open>d.setdefault(k, v)\<close>.\<close>

definition doc_default :: "string \<Rightarrow> json \<Rightarrow> doc \<Rightarrow> doc" where
  "doc_default k v d = (if k \<in> fst ` set d then d else doc_put k v d)"

lemma doc_lookup [simp]:
  "map_of (doc_put k v d) = (map_of d)(k \<mapsto> v)"
  "map_of (doc_pop k d) = (map_of d)(k := None)"
  "map_of (doc_default k v d) = (if map_of d k = None then (map_of d)(k \<mapsto> v) else map_of d)"
  by (auto simp: doc_put_def doc_pop_def doc_default_def AList.update_conv' AList.delete_conv' map_of_eq_None_iff
      image_iff weak_map_of_SomeI)

lemma doc_rename_lookup:
  "old \<noteq> new \<Longrightarrow> map_of (doc_rename old new d) =
     (case map_of d old of None \<Rightarrow> map_of d | Some v \<Rightarrow> (map_of d)(old := None, new \<mapsto> v))"
  by (auto simp: doc_rename_def split: option.split)

section \<open>Numbers in text\<close>

text \<open>\<^verbatim>\<open>float(s)\<close> of text: blanks around, a sign, a decimal with an exponent, or a special value.\<close>

definition digits_or_empty :: "string \<Rightarrow> bool" where
  "digits_or_empty s \<longleftrightarrow> s = [] \<or> digit_groups s"

definition decimal_value :: "string \<Rightarrow> string \<Rightarrow> int \<Rightarrow> pyfloat" where
  "decimal_value whole fr e =
     to_double (of_int (natural_value (whole @ fr)) * 10 powi (e - int (length (filter is_digit fr))))"

definition unsigned_float_of_text :: "string \<Rightarrow> pyfloat option" where
  "unsigned_float_of_text s =
     (let t = py_lower s; mantissa = before_char CHR ''e'' t; ex = after_char CHR ''e'' t;
          whole = before_char CHR ''.'' mantissa; fr = after_char CHR ''.'' mantissa
      in if t = ''inf'' \<or> t = ''infinity'' then Some PInf
         else if t = ''nan'' then Some NaN
         else if \<not> (digits_or_empty whole \<and> digits_or_empty fr) \<or> whole @ fr = [] then None
         else if CHR ''e'' \<notin> set t then Some (decimal_value whole fr 0)
         else if ex = [] \<or> py_space (hd ex) \<or> py_space (List.last ex) then None
         else (case int_of_text ex of None \<Rightarrow> None | Some e \<Rightarrow> Some (decimal_value whole fr e)))"

fun fneg :: "pyfloat \<Rightarrow> pyfloat" where
  "fneg (Fin x) = Fin (- x)" | "fneg PInf = NInf" | "fneg NInf = PInf" | "fneg NaN = NaN"

definition float_of_text :: "string \<Rightarrow> pyfloat option" where
  "float_of_text s =
     (case py_strip s of
        [] \<Rightarrow> None
      | c # cs \<Rightarrow>
          if c = CHR ''-'' then map_option fneg (unsigned_float_of_text cs)
          else if c = CHR ''+'' then unsigned_float_of_text cs
          else unsigned_float_of_text (c # cs))"

text \<open>Python's \<^verbatim>\<open>int(v)\<close> and \<^verbatim>\<open>float(v)\<close>.\<close>

fun int_of_json :: "json \<Rightarrow> int res" where
  "int_of_json (JBool b) = Inr (if b then 1 else 0)"
| "int_of_json (JInt n) = Inr n"
| "int_of_json (JFloat x) = int_of_float x"
| "int_of_json (JStr s) = (case int_of_text s of None \<Rightarrow> Inl ValueError | Some n \<Rightarrow> Inr n)"
| "int_of_json _ = Inl TypeError"

fun float_of_json :: "json \<Rightarrow> pyfloat res" where
  "float_of_json (JBool b) = Inr (Fin (if b then 1 else 0))"
| "float_of_json (JInt n) = float_of_int n"
| "float_of_json (JFloat x) = Inr x"
| "float_of_json (JStr s) = (case float_of_text s of None \<Rightarrow> Inl ValueError | Some x \<Rightarrow> Inr x)"
| "float_of_json _ = Inl TypeError"

text \<open>\<^verbatim>\<open>vol.Coerce\<close> turns the type and value errors into an invalid value; an overflow passes.\<close>

definition coerced :: "'a res \<Rightarrow> 'a res" where
  "coerced r = (case r of Inl e \<Rightarrow> Inl (if e = TypeError \<or> e = ValueError then VolInvalid else e) | Inr x \<Rightarrow> Inr x)"

definition coerce_int :: "json \<Rightarrow> int res" where "coerce_int v = coerced (int_of_json v)"
definition coerce_float :: "json \<Rightarrow> pyfloat res" where "coerce_float v = coerced (float_of_json v)"

definition positive_int :: "json \<Rightarrow> int res" where
  "positive_int v = bind_res (coerce_int v) (\<lambda>n. if n < 0 then Inl VolInvalid else Inr n)"

definition text_of_int :: "int \<Rightarrow> string" where
  "text_of_int n = (if n < 0 then ''-'' @ dec_digits (nat (- n)) else dec_digits (nat n))"

text \<open>\<^verbatim>\<open>cv.string\<close>.\<close>

fun text_of_json :: "(pyfloat \<Rightarrow> string) \<Rightarrow> json \<Rightarrow> string res" where
  "text_of_json show_float (JBool b) = Inr (if b then ''True'' else ''False'')"
| "text_of_json show_float (JInt n) = Inr (text_of_int n)"
| "text_of_json show_float (JFloat x) = Inr (show_float x)"
| "text_of_json show_float (JStr s) = Inr s"
| "text_of_json show_float _ = Inl VolInvalid"

fun pyval_of :: "json \<Rightarrow> pyval" where
  "pyval_of (JBool b) = PBool b"
| "pyval_of (JInt n) = PInt n"
| "pyval_of (JStr s) = PStr s"
| "pyval_of _ = POther"

section \<open>The schema\<close>

text \<open>
  One field: its coercion where the key is there, else its default, or an error where the key is
  required.  All fields are validated; an overflow in any of them passes out of the schema, and
  otherwise any other problem is an invalid dictionary.
\<close>

definition optional :: "doc \<Rightarrow> string \<Rightarrow> 'a \<Rightarrow> (json \<Rightarrow> 'a res) \<Rightarrow> 'a res" where
  "optional d k x f = (case map_of d k of None \<Rightarrow> Inr x | Some v \<Rightarrow> f v)"

definition required :: "doc \<Rightarrow> string \<Rightarrow> (json \<Rightarrow> 'a res) \<Rightarrow> 'a res" where
  "required d k f = (case map_of d k of None \<Rightarrow> Inl VolInvalid | Some v \<Rightarrow> f v)"

definition some_text :: "(pyfloat \<Rightarrow> string) \<Rightarrow> json \<Rightarrow> string option res" where
  "some_text show_float v = bind_res (text_of_json show_float v) (\<lambda>s. Inr (Some s))"

definition failure :: "'a res \<Rightarrow> py_error list" where
  "failure r = (case r of Inl e \<Rightarrow> [e] | Inr _ \<Rightarrow> [])"

definition settled :: "py_error list \<Rightarrow> bool \<Rightarrow> 'a \<Rightarrow> 'a res" where
  "settled failures extra x =
     (if OverflowError \<in> set failures then Inl OverflowError
      else if failures \<noteq> [] \<or> extra then Inl VolInvalid
      else Inr x)"

definition POUR_KEYS :: "string list" where
  "POUR_KEYS = [''volume_ml'', ''temperature_c'', ''flow_rate'', ''pause_seconds'', ''pattern'', ''vibration'']"

definition vibration_of_json :: "json \<Rightarrow> string res" where
  "vibration_of_json v = (case v of JStr s \<Rightarrow> if s \<in> set VIBRATION_NAMES then Inr s else Inl VolInvalid | _ \<Rightarrow> Inl VolInvalid)"

definition validate_pour :: "doc \<Rightarrow> pour_dict res" where
  "validate_pour d =
     (let vol = required d ''volume_ml'' positive_int;
          temp = required d ''temperature_c'' (\<lambda>v. coerce_temperature_c (pyval_of v));
          flow = optional d ''flow_rate'' (Fin 3) coerce_float;
          pause = optional d ''pause_seconds'' 0 coerce_int;
          pat = optional d ''pattern'' 2 (\<lambda>v. coerce_pour_pattern (pyval_of v));
          vib = optional d ''vibration'' ''none'' vibration_of_json
      in settled (failure vol @ failure temp @ failure flow @ failure pause @ failure pat @ failure vib)
           (\<not> set (map fst d) \<subseteq> set POUR_KEYS)
           \<lparr>volume_ml = projr vol, temperature_c = projr temp, pour_flow_rate = projr flow,
            pause_seconds = projr pause, pattern_code = projr pat, vibration_name = projr vib\<rparr>)"

text \<open>
  The list of pours, in order: an error inside a pour ends it, while an entry that is no
  dictionary is noted and the rest is still looked at.
\<close>

fun validate_pours :: "json list \<Rightarrow> pour_dict list res" where
  "validate_pours [] = Inr []"
| "validate_pours (JDict d # vs) =
     bind_res (validate_pour d) (\<lambda>p. bind_res (validate_pours vs) (\<lambda>ps. Inr (p # ps)))"
| "validate_pours (_ # vs) = bind_res (validate_pours vs) (\<lambda>_. Inl VolInvalid)"

fun pours_of_json :: "json \<Rightarrow> pour_dict list res" where
  "pours_of_json (JList vs) = validate_pours vs"
| "pours_of_json _ = Inl VolInvalid"

definition ratio_of_json :: "json \<Rightarrow> pyfloat option res" where
  "ratio_of_json v = (if v = JNull then Inr None else bind_res (coerce_float v) (\<lambda>x. Inr (Some x)))"

definition RECIPE_KEYS :: "string list" where
  "RECIPE_KEYS = [''uid'', ''cloud_table_id'', ''share_url'', ''source'', ''name'', ''grind_size'', ''rpm'',
     ''dose_g'', ''ratio'', ''cup_type'', ''bypass_volume'', ''bypass_temperature'', ''pours'']"

definition validate_doc :: "(pyfloat \<Rightarrow> string) \<Rightarrow> doc \<Rightarrow> recipe_dict res" where
  "validate_doc show_float d =
     (let uid = optional d ''uid'' None (some_text show_float);
          table = optional d ''cloud_table_id'' None (\<lambda>v. bind_res (coerce_int v) (\<lambda>n. Inr (Some n)));
          link = optional d ''share_url'' None (some_text show_float);
          src = optional d ''source'' None (some_text show_float);
          nm = required d ''name'' (text_of_json show_float);
          grind = optional d ''grind_size'' 50 coerce_int;
          speed = optional d ''rpm'' 80 coerce_int;
          dose = optional d ''dose_g'' (Fin 15) coerce_float;
          rat = optional d ''ratio'' None ratio_of_json;
          cup = optional d ''cup_type'' ''omni_dripper'' (text_of_json show_float);
          byp = optional d ''bypass_volume'' (Fin 0) coerce_float;
          byt = optional d ''bypass_temperature'' (Fin 0) coerce_float;
          ps = required d ''pours'' pours_of_json
      in settled (failure uid @ failure table @ failure link @ failure src @ failure nm @ failure grind @
             failure speed @ failure dose @ failure rat @ failure cup @ failure byp @ failure byt @ failure ps)
           (\<not> set (map fst d) \<subseteq> set RECIPE_KEYS)
           \<lparr>rd_uid = projr uid, rd_cloud_table_id = projr table, rd_share_url = projr link, rd_source = projr src,
            rd_name = projr nm, rd_grind_size = projr grind, rd_rpm = projr speed, dose_g = projr dose,
            ratio = projr rat, rd_cup_type = projr cup, rd_bypass_volume = projr byp,
            rd_bypass_temperature = projr byt, rd_pours = projr ps\<rparr>)"

text \<open>A validated recipe as the document that \<^verbatim>\<open>yaml.safe_dump\<close> writes and a later load reads.\<close>

definition entry_of :: "string \<Rightarrow> ('a \<Rightarrow> json) \<Rightarrow> 'a option \<Rightarrow> doc" where
  "entry_of k f v = (case v of None \<Rightarrow> [] | Some x \<Rightarrow> [(k, f x)])"

definition doc_of_pour :: "pour_dict \<Rightarrow> doc" where
  "doc_of_pour p =
     [(''volume_ml'', JInt (volume_ml p)), (''temperature_c'', JInt (temperature_c p)),
      (''flow_rate'', JFloat (pour_flow_rate p)), (''pause_seconds'', JInt (pause_seconds p)),
      (''pattern'', JInt (pattern_code p)), (''vibration'', JStr (vibration_name p))]"

definition doc_of :: "recipe_dict \<Rightarrow> doc" where
  "doc_of r =
     entry_of ''uid'' JStr (rd_uid r) @ entry_of ''cloud_table_id'' JInt (rd_cloud_table_id r) @
     entry_of ''share_url'' JStr (rd_share_url r) @ entry_of ''source'' JStr (rd_source r) @
     [(''name'', JStr (rd_name r)), (''grind_size'', JInt (rd_grind_size r)), (''rpm'', JInt (rd_rpm r)),
      (''dose_g'', JFloat (dose_g r)), (''ratio'', case ratio r of None \<Rightarrow> JNull | Some x \<Rightarrow> JFloat x),
      (''cup_type'', JStr (rd_cup_type r)), (''bypass_volume'', JFloat (rd_bypass_volume r)),
      (''bypass_temperature'', JFloat (rd_bypass_temperature r)),
      (''pours'', JList (map (\<lambda>p. JDict (doc_of_pour p)) (rd_pours r)))]"

section \<open>Facts\<close>

lemma settled_Inr:
  "settled es extra x = Inr y \<longleftrightarrow> es = [] \<and> \<not> extra \<and> x = y"
  by (auto simp: settled_def)

lemma failure_Nil: "failure r = [] \<longleftrightarrow> (\<exists>x. r = Inr x)"
  by (auto simp: failure_def split: sum.split)

lemma optional_simps [simp]:
  "optional [] k x f = Inr x"
  "optional ((q, v) # d) k x f = (if q = k then f v else optional d k x f)"
  by (simp_all add: optional_def)

lemma required_simps [simp]:
  "required ((q, v) # d) k f = (if q = k then f v else required d k f)"
  by (simp add: required_def)

lemma optional_entry [simp]:
  "optional (entry_of q g v @ d) k x f =
     (if q = k then case v of Some y \<Rightarrow> f (g y) | None \<Rightarrow> optional d k x f else optional d k x f)"
  by (simp add: entry_of_def split: option.split)

lemma required_entry [simp]: "q \<noteq> k \<Longrightarrow> required (entry_of q g v @ d) k f = required d k f"
  by (simp add: entry_of_def split: option.split)

lemma keys_entry: "set (map fst (entry_of k f v)) \<subseteq> {k}"
  by (cases v) (auto simp: entry_of_def)

lemma coerced_simps [simp]: "coerced (Inr x) = Inr x"
  by (simp add: coerced_def)

text \<open>What the schema lets through as a pour is a pour of the typed schema.\<close>

lemma validate_pour_schema: "validate_pour d = Inr p \<Longrightarrow> POUR_SCHEMA (raw_pour_of p) = Inr p"
proof -
  assume "validate_pour d = Inr p"
  then obtain v t q s where v: "required d ''volume_ml'' positive_int = Inr (volume_ml p)"
    and t: "required d ''temperature_c'' (\<lambda>v. coerce_temperature_c (pyval_of v)) = Inr (temperature_c p)"
    and q: "optional d ''pattern'' 2 (\<lambda>v. coerce_pour_pattern (pyval_of v)) = Inr (pattern_code p)"
    and s: "optional d ''vibration'' ''none'' vibration_of_json = Inr (vibration_name p)"
    by (auto simp: validate_pour_def Let_def settled_Inr failure_Nil)
  have "0 \<le> volume_ml p"
    using v by (auto simp: required_def positive_int_def bind_res_Inr_iff split: option.splits if_splits)
  moreover have "0 < temperature_c p"
    using t by (auto simp: required_def TEMPERATURE_NAME_TO_C_def
        elim!: coerce_temperature_c.elims split: option.splits if_splits)
  moreover have "pattern_code p \<in> {0, 1, 2}"
    using q by (auto simp: optional_def PATTERN_NAME_TO_INT_def
        elim!: coerce_pour_pattern.elims split: option.splits if_splits)
  moreover have "vibration_name p \<in> set VIBRATION_NAMES"
    using s by (auto simp: optional_def vibration_of_json_def VIBRATION_NAMES_def split: option.splits if_splits json.splits)
  ultimately show ?thesis by (simp add: POUR_SCHEMA_def raw_pour_of_def)
qed

lemma validate_pours_schema: "validate_pours vs = Inr ps \<Longrightarrow> map_res POUR_SCHEMA (map raw_pour_of ps) = Inr ps"
  by (induction vs arbitrary: ps rule: validate_pours.induct)
    (auto simp: bind_res_Inr_iff dest: validate_pour_schema)

lemma validate_doc_schema: "validate_doc sh d = Inr r \<Longrightarrow> RECIPE_SCHEMA (raw_of r) = Inr r"
proof -
  assume "validate_doc sh d = Inr r"
  then have "required d ''pours'' pours_of_json = Inr (rd_pours r)"
    by (auto simp: validate_doc_def Let_def settled_Inr failure_Nil)
  then obtain vs where "validate_pours vs = Inr (rd_pours r)"
    by (auto simp: required_def elim!: pours_of_json.elims split: option.splits)
  then show ?thesis by (simp add: RECIPE_SCHEMA_def raw_of_def validate_pours_schema)
qed

text \<open>A validated recipe written out and validated again is the same recipe.\<close>

lemma doc_of_pour_valid: "POUR_SCHEMA (raw_pour_of p) = Inr p \<Longrightarrow> validate_pour (doc_of_pour p) = Inr p"
  by (auto simp: POUR_SCHEMA_def raw_pour_of_def validate_pour_def doc_of_pour_def positive_int_def coerce_int_def
      coerce_float_def vibration_of_json_def settled_def failure_def POUR_KEYS_def bind_res_Inr_iff split: if_splits)

lemma doc_of_pours_valid:
  "map_res POUR_SCHEMA (map raw_pour_of ps) = Inr ps \<Longrightarrow> validate_pours (map (\<lambda>p. JDict (doc_of_pour p)) ps) = Inr ps"
  by (induction ps) (auto simp: bind_res_Inr_iff doc_of_pour_valid)

lemma doc_of_valid: "RECIPE_SCHEMA (raw_of r) = Inr r \<Longrightarrow> validate_doc sh (doc_of r) = Inr r"
proof -
  assume r: "RECIPE_SCHEMA (raw_of r) = Inr r"
  then have ps: "validate_pours (map (\<lambda>p. JDict (doc_of_pour p)) (rd_pours r)) = Inr (rd_pours r)"
    by (intro doc_of_pours_valid) (auto simp: RECIPE_SCHEMA_def raw_of_def bind_res_Inr_iff dest: arg_cong [where f = rd_pours])
  have keys: "set (map fst (doc_of r)) \<subseteq> set RECIPE_KEYS"
    using keys_entry [of "''uid''" JStr "rd_uid r"] keys_entry [of "''cloud_table_id''" JInt "rd_cloud_table_id r"]
      keys_entry [of "''share_url''" JStr "rd_share_url r"] keys_entry [of "''source''" JStr "rd_source r"]
    by (auto simp: doc_of_def RECIPE_KEYS_def)
  have fields:
    "optional (doc_of r) ''uid'' None (some_text sh) = Inr (rd_uid r)"
    "optional (doc_of r) ''cloud_table_id'' None (\<lambda>v. bind_res (coerce_int v) (\<lambda>n. Inr (Some n))) = Inr (rd_cloud_table_id r)"
    "optional (doc_of r) ''share_url'' None (some_text sh) = Inr (rd_share_url r)"
    "optional (doc_of r) ''source'' None (some_text sh) = Inr (rd_source r)"
    "required (doc_of r) ''name'' (text_of_json sh) = Inr (rd_name r)"
    "optional (doc_of r) ''grind_size'' 50 coerce_int = Inr (rd_grind_size r)"
    "optional (doc_of r) ''rpm'' 80 coerce_int = Inr (rd_rpm r)"
    "optional (doc_of r) ''dose_g'' (Fin 15) coerce_float = Inr (dose_g r)"
    "optional (doc_of r) ''ratio'' None ratio_of_json = Inr (ratio r)"
    "optional (doc_of r) ''cup_type'' ''omni_dripper'' (text_of_json sh) = Inr (rd_cup_type r)"
    "optional (doc_of r) ''bypass_volume'' (Fin 0) coerce_float = Inr (rd_bypass_volume r)"
    "optional (doc_of r) ''bypass_temperature'' (Fin 0) coerce_float = Inr (rd_bypass_temperature r)"
    "required (doc_of r) ''pours'' pours_of_json = Inr (rd_pours r)"
    by (simp_all add: doc_of_def some_text_def coerce_int_def coerce_float_def ratio_of_json_def ps split: option.split)
  show ?thesis using keys by (simp add: validate_doc_def fields Let_def failure_def settled_def)
qed

text \<open>The fields the store manages cannot be set by a document.\<close>

lemma stripped_optional:
  "k \<in> set RECIPE_PROTECTED_FIELDS \<Longrightarrow> optional (strip_protected_recipe_fields d) k x f = Inr x"
proof -
  assume k: "k \<in> set RECIPE_PROTECTED_FIELDS"
  then have "map_of (strip_protected_recipe_fields d) k = None"
    by (auto simp: strip_protected_recipe_fields_def map_of_eq_None_iff)
  then show ?thesis by (simp add: optional_def)
qed

lemma stripped_identity:
  assumes "validate_doc sh (strip_protected_recipe_fields d) = Inr r"
  shows "rd_uid r = None" "rd_cloud_table_id r = None" "rd_share_url r = None" "rd_source r = None"
  using assms unfolding validate_doc_def Let_def settled_Inr
  by (auto simp: stripped_optional RECIPE_PROTECTED_FIELDS_def)

end
