(* ===== verification/Setup.thy ===== *)
theory Setup
  imports StoreFacts Documents
begin

text \<open>
  Setting an entry up (\<^verbatim>\<open>__init__.py\<close>): the migrations of stored recipes and of entity ids
  (\<^verbatim>\<open>entity.py\<close>), loading the bundled and the YAML recipes, creating the coordinator from the
  entry, and reacting to a change of the entry's options.
\<close>

section \<open>Migrations\<close>

text \<open>The fields of a version 1 pour move to their new names.\<close>

definition migrate_pour :: "doc \<Rightarrow> doc" where
  "migrate_pour p =
     doc_rename ''pausing'' ''pause_seconds''
       (doc_rename ''temperature'' ''temperature_c'' (doc_rename ''volume'' ''volume_ml'' p))"

fun doc_of_json :: "json \<Rightarrow> doc res" where
  "doc_of_json (JDict d) = Inr d"
| "doc_of_json _ = Inl TypeError"

fun docs_of_json :: "json \<Rightarrow> doc list res" where
  "docs_of_json (JList vs) = map_res doc_of_json vs"
| "docs_of_json _ = Inl TypeError"

definition migrate_recipe_v1_to_v2 :: "doc \<Rightarrow> doc res" where
  "migrate_recipe_v1_to_v2 recipe =
     bind_res (case map_of recipe ''bean_weight'' of None \<Rightarrow> Inr (Fin 15) | Some v \<Rightarrow> float_of_json v) (\<lambda>dose.
     bind_res (case map_of recipe ''total_water'' of None \<Rightarrow> Inr (Fin 250) | Some v \<Rightarrow> float_of_json v) (\<lambda>total.
     bind_res (if flt (Fin 0) dose then bind_res (fdiv total dose) (\<lambda>q. Inr (JFloat q)) else Inr JNull) (\<lambda>rat.
     bind_res (case map_of recipe ''pours'' of None \<Rightarrow> Inr [] | Some v \<Rightarrow> docs_of_json v) (\<lambda>ps.
       Inr (doc_put ''pours'' (JList (map (\<lambda>p. JDict (migrate_pour p)) ps))
           (doc_put ''ratio'' rat
           (doc_put ''dose_g'' (JFloat dose)
           (doc_pop ''total_water'' (doc_pop ''bean_weight'' recipe)))))))))"

definition migrate_recipe_v2_to_v3 :: "string \<Rightarrow> doc \<Rightarrow> doc" where
  "migrate_recipe_v2_to_v3 uid recipe =
     doc_default ''source'' (JStr ''manual'') (doc_default ''uid'' (JStr uid) recipe)"

text \<open>
  The stored recipes, where \<open>None\<close> is a tombstone.  \<open>mint\<close> gives the uid minted for a name; a
  name occurs once.
\<close>

type_synonym doc_layer = "(string \<times> doc option) list"

definition migrate_layer_v1 :: "doc_layer \<Rightarrow> doc_layer res" where
  "migrate_layer_v1 =
     map_res (\<lambda>(nm, r). case r of None \<Rightarrow> Inr (nm, None)
       | Some d \<Rightarrow> bind_res (migrate_recipe_v1_to_v2 d) (\<lambda>d'. Inr (nm, Some d')))"

definition migrate_layer_v2 :: "(string \<Rightarrow> string) \<Rightarrow> doc_layer \<Rightarrow> doc_layer" where
  "migrate_layer_v2 mint = map (\<lambda>(nm, r). (nm, map_option (migrate_recipe_v2_to_v3 (mint nm)) r))"

definition scoped_unique_id :: "string \<Rightarrow> string \<Rightarrow> string" where
  "scoped_unique_id entry_id unique_id = entry_id @ ''_'' @ unique_id"

definition scope_unique_ids :: "string \<Rightarrow> string list \<Rightarrow> string list" where
  "scope_unique_ids entry_id ids = map (scoped_unique_id entry_id) ids"

text \<open>The registry callback: \<open>None\<close> leaves an entry alone.\<close>

definition scope_unique_id_migration :: "string \<Rightarrow> string \<Rightarrow> string option" where
  "scope_unique_id_migration entry_id unique_id =
     (if prefix (scoped_unique_id entry_id []) unique_id then None
      else Some (scoped_unique_id entry_id unique_id))"

definition migrate_registry :: "string \<Rightarrow> string list \<Rightarrow> string list" where
  "migrate_registry entry_id =
     map (\<lambda>u. case scope_unique_id_migration entry_id u of None \<Rightarrow> u | Some u' \<Rightarrow> u')"

record stored_entry =
  se_id :: string
  se_version :: nat
  se_minor_version :: nat
  se_recipes :: doc_layer
  se_unique_ids :: "string list"

text \<open>The three steps, each on what the one before left; an exception ends the migration.\<close>

definition migrate_v1 :: "stored_entry \<Rightarrow> stored_entry res" where
  "migrate_v1 e =
     (if se_version e \<noteq> 1 then Inr e
      else if se_recipes e = [] then Inr (e\<lparr>se_version := 2\<rparr>)
      else bind_res (migrate_layer_v1 (se_recipes e)) (\<lambda>rs. Inr (e\<lparr>se_recipes := rs, se_version := 2\<rparr>)))"

definition migrate_v2 :: "(string \<Rightarrow> string) \<Rightarrow> stored_entry \<Rightarrow> stored_entry" where
  "migrate_v2 mint e =
     (if se_version e \<noteq> 2 then e
      else e\<lparr>se_recipes := migrate_layer_v2 mint (se_recipes e), se_version := 3\<rparr>)"

definition migrate_v3 :: "stored_entry \<Rightarrow> stored_entry" where
  "migrate_v3 e =
     (if se_version e = 3 \<and> se_minor_version e < 2
      then e\<lparr>se_unique_ids := migrate_registry (se_id e) (se_unique_ids e), se_minor_version := 2\<rparr>
      else e)"

definition async_migrate_entry :: "(string \<Rightarrow> string) \<Rightarrow> stored_entry \<Rightarrow> stored_entry res" where
  "async_migrate_entry mint e = bind_res (migrate_v1 e) (\<lambda>e1. Inr (migrate_v3 (migrate_v2 mint e1)))"

section \<open>Recipes from the files\<close>

text \<open>
  The bundled recipes; a name is its UTF-8 encoding.  A document that fails its validation is
  skipped with a log line.
\<close>

definition utf8 :: "nat list \<Rightarrow> string" where "utf8 bs = map char_of bs"

definition bundled_pour :: "int \<Rightarrow> int \<Rightarrow> int \<Rightarrow> json" where
  "bundled_pour vol temp pause =
     JDict [(''volume_ml'', JInt vol), (''temperature_c'', JInt temp), (''pause_seconds'', JInt pause)]"

definition bundled_tea :: "nat list \<Rightarrow> json list \<Rightarrow> doc" where
  "bundled_tea nm ps =
     [(''name'', JStr (utf8 nm)), (''cup_type'', JStr ''tea''), (''grind_size'', JInt 0), (''rpm'', JInt 0),
      (''dose_g'', JFloat (Fin 0)), (''pours'', JList ps)]"

definition DEFAULT_RECIPES :: "doc list" where
  "DEFAULT_RECIPES =
     [bundled_tea [237, 158, 136, 235, 185, 132, 236, 138, 164, 236, 187, 164, 236, 138, 164, 32,
          235, 178, 160, 235, 166, 172] [bundled_pour 120 100 300, bundled_pour 120 100 120],
      bundled_tea [237, 153, 141, 236, 176, 168] [bundled_pour 120 95 180, bundled_pour 120 95 120],
      bundled_tea [235, 133, 185, 236, 176, 168] [bundled_pour 120 80 120, bundled_pour 120 80 60],
      bundled_tea [237, 158, 136, 235, 185, 132, 236, 138, 164, 236, 187, 164, 236, 138, 164, 32,
          236, 149, 132, 236, 157, 180, 236, 138, 164, 237, 139, 176]
        [bundled_pour 120 100 300, bundled_pour 120 100 120]]"

fun validated_defaults :: "(pyfloat \<Rightarrow> string) \<Rightarrow> doc list \<Rightarrow> (string \<times> recipe_dict) list \<Rightarrow> (string \<times> recipe_dict) list res" where
  "validated_defaults sh [] acc = Inr acc"
| "validated_defaults sh (d # ds) acc =
     (case validate_doc sh d of
        Inr r \<Rightarrow> validated_defaults sh ds (AList.update (rd_name r) r acc)
      | Inl e \<Rightarrow> if e = VolInvalid then validated_defaults sh ds acc else Inl e)"

text \<open>\<open>sha1_hex\<close> is the hexadecimal SHA-1 digest of a text.\<close>

definition yaml_recipe_uid :: "(string \<Rightarrow> string) \<Rightarrow> string \<Rightarrow> string" where
  "yaml_recipe_uid sha1_hex nm = ''yaml-'' @ take 8 (sha1_hex nm)"

definition yaml_recipes :: "(string \<Rightarrow> string) \<Rightarrow> recipe_dict list \<Rightarrow> (string \<times> recipe_dict) list" where
  "yaml_recipes sha1_hex rs =
     fold (\<lambda>r. AList.update (rd_name r)
       (r\<lparr>rd_uid := Some (yaml_recipe_uid sha1_hex (rd_name r)), rd_source := Some ''yaml''\<rparr>)) rs []"

record hass_data =
  hd_default_recipes :: "(string \<times> recipe_dict) list"
  hd_yaml_recipes :: "(string \<times> recipe_dict) list"

definition async_setup :: "(pyfloat \<Rightarrow> string) \<Rightarrow> (string \<Rightarrow> string) \<Rightarrow> recipe_dict list option \<Rightarrow> hass_data res" where
  "async_setup sh sha1_hex configured =
     bind_res (validated_defaults sh DEFAULT_RECIPES []) (\<lambda>ds.
       Inr \<lparr>hd_default_recipes = ds,
            hd_yaml_recipes = (case configured of None \<Rightarrow> [] | Some rs \<Rightarrow> yaml_recipes sha1_hex rs)\<rparr>)"

section \<open>The entry and its coordinator\<close>

record entry_data =
  ed_mac_address :: string
  ed_telemetry_interval :: "int option"
  ed_session_timeout :: "int option"
  ed_email :: "string option"
  ed_password :: "string option"

record options =
  op_recipes :: "layer option"
  op_recipes_seeded :: bool
  op_account_recipes_seeded :: bool
  op_easy_slots :: "(string \<times> string option \<times> string) list option"
  op_mode :: "string option"
  op_store_region :: "string option"
  op_water_source :: "int option"
  op_weight_unit :: "string option"
  op_temp_unit :: "string option"
  op_telemetry_interval :: "int option"
  op_session_timeout :: "int option"

definition DEFAULT_TELEMETRY_INTERVAL :: int where "DEFAULT_TELEMETRY_INTERVAL = 5"
definition DEFAULT_SESSION_TIMEOUT :: int where "DEFAULT_SESSION_TIMEOUT = 60"
definition DEFAULT_WATER_SOURCE :: int where "DEFAULT_WATER_SOURCE = 0"
definition DEFAULT_MODE :: string where "DEFAULT_MODE = ''easy''"
definition DEFAULT_WEIGHT_UNIT :: string where "DEFAULT_WEIGHT_UNIT = ''g''"
definition DEFAULT_TEMP_UNIT :: string where "DEFAULT_TEMP_UNIT = ''c''"

definition or_default :: "'a option \<Rightarrow> 'a \<Rightarrow> 'a" where
  "or_default v x = (case v of None \<Rightarrow> x | Some y \<Rightarrow> y)"

lemma or_default_simps [simp]: "or_default None x = x" "or_default (Some y) x = y"
  by (simp_all add: or_default_def)

definition session_timeout_of :: "options \<Rightarrow> entry_data \<Rightarrow> int" where
  "session_timeout_of opts d =
     or_default (op_session_timeout opts) (or_default (ed_session_timeout d) DEFAULT_SESSION_TIMEOUT)"

definition telemetry_interval_of :: "options \<Rightarrow> entry_data \<Rightarrow> int" where
  "telemetry_interval_of opts d =
     or_default (op_telemetry_interval opts) (or_default (ed_telemetry_interval d) DEFAULT_TELEMETRY_INTERVAL)"

definition account_of :: "entry_data \<Rightarrow> (string \<times> string) option" where
  "account_of d = (case (ed_email d, ed_password d) of (Some e, Some p) \<Rightarrow> Some (e, p) | _ \<Rightarrow> None)"

text \<open>What the store reads from the entry's options at any later time.\<close>

definition adopt_options :: "options \<Rightarrow> store \<Rightarrow> store" where
  "adopt_options opts s =
     s\<lparr>st_options := or_default (op_recipes opts) [], st_slots := or_default (op_easy_slots opts) [],
       st_seeded := op_recipes_seeded opts, st_account_seeded := op_account_recipes_seeded opts\<rparr>"

definition new_store :: "hass_data \<Rightarrow> entry_data \<Rightarrow> options \<Rightarrow> world \<Rightarrow> store" where
  "new_store h d opts w = adopt_options opts
     \<lparr>st_coord = init_coord w (session_timeout_of opts d)
        (or_default (op_water_source opts) DEFAULT_WATER_SOURCE) (or_default (op_mode opts) DEFAULT_MODE)
        (or_default (op_weight_unit opts) DEFAULT_WEIGHT_UNIT) (or_default (op_temp_unit opts) DEFAULT_TEMP_UNIT),
      st_yaml = hd_yaml_recipes h, st_entry = True, st_options = [], st_slots = [],
      st_seeded = False, st_account_seeded = False, st_account = account_of d, st_cloud = new_cloud\<rparr>"

text \<open>\<open>uids\<close> are the ones minted for the bundled recipes, in order; the first poll comes last.\<close>

definition async_setup_entry :: "string list \<Rightarrow> hass_data \<Rightarrow> entry_data \<Rightarrow> options \<Rightarrow> world \<Rightarrow> store" where
  "async_setup_entry uids h d opts w =
     (let s = rebuild_recipes (seed_bundled_recipes (zip (hd_default_recipes h) uids) (new_store h d opts w));
          (snap, k) = async_update_data False (st_coord s)
      in s\<lparr>st_coord := k\<lparr>k_data := snap\<rparr>\<rparr>)"

section \<open>Changed options\<close>

definition CONF_RECIPES :: string where "CONF_RECIPES = ''recipes''"
definition CONF_RECIPES_SEEDED :: string where "CONF_RECIPES_SEEDED = ''recipes_seeded''"
definition CONF_ACCOUNT_RECIPES_SEEDED :: string where "CONF_ACCOUNT_RECIPES_SEEDED = ''account_recipes_seeded''"
definition CONF_EASY_SLOTS :: string where "CONF_EASY_SLOTS = ''easy_slots''"
definition CONF_MODE :: string where "CONF_MODE = ''mode''"
definition CONF_STORE_REGION :: string where "CONF_STORE_REGION = ''store_region''"
definition CONF_TELEMETRY_INTERVAL :: string where "CONF_TELEMETRY_INTERVAL = ''telemetry_interval''"
definition CONF_SESSION_TIMEOUT :: string where "CONF_SESSION_TIMEOUT = ''session_timeout''"

definition RECIPE_ONLY_OPTION_KEYS :: "string list" where
  "RECIPE_ONLY_OPTION_KEYS = [CONF_RECIPES, CONF_RECIPES_SEEDED, CONF_ACCOUNT_RECIPES_SEEDED, CONF_EASY_SLOTS]"

definition UNIT_OPTION_KEYS :: "string list" where
  "UNIT_OPTION_KEYS = [CONF_WATER_SOURCE, CONF_WEIGHT_UNIT, CONF_TEMP_UNIT]"

definition NO_RELOAD_OPTION_KEYS :: "string list" where
  "NO_RELOAD_OPTION_KEYS = RECIPE_ONLY_OPTION_KEYS @ [CONF_MODE, CONF_STORE_REGION] @ UNIT_OPTION_KEYS"

text \<open>Dictionaries are equal when they have the same keys and values, in whatever order.\<close>

definition same_dict :: "('k \<times> 'v) list option \<Rightarrow> ('k \<times> 'v) list option \<Rightarrow> bool" where
  "same_dict a b \<longleftrightarrow>
     (case (a, b) of
        (Some xs, Some ys) \<Rightarrow> set (map fst xs) = set (map fst ys) \<and> list_all (\<lambda>k. map_of xs k = map_of ys k) (map fst xs)
      | _ \<Rightarrow> a = b)"

definition changed_keys :: "options \<Rightarrow> options \<Rightarrow> string list" where
  "changed_keys prev cur =
     (if same_dict (op_recipes prev) (op_recipes cur) then [] else [CONF_RECIPES]) @
     (if op_recipes_seeded prev = op_recipes_seeded cur then [] else [CONF_RECIPES_SEEDED]) @
     (if op_account_recipes_seeded prev = op_account_recipes_seeded cur then [] else [CONF_ACCOUNT_RECIPES_SEEDED]) @
     (if same_dict (op_easy_slots prev) (op_easy_slots cur) then [] else [CONF_EASY_SLOTS]) @
     (if op_mode prev = op_mode cur then [] else [CONF_MODE]) @
     (if op_store_region prev = op_store_region cur then [] else [CONF_STORE_REGION]) @
     (if op_water_source prev = op_water_source cur then [] else [CONF_WATER_SOURCE]) @
     (if op_weight_unit prev = op_weight_unit cur then [] else [CONF_WEIGHT_UNIT]) @
     (if op_temp_unit prev = op_temp_unit cur then [] else [CONF_TEMP_UNIT]) @
     (if op_telemetry_interval prev = op_telemetry_interval cur then [] else [CONF_TELEMETRY_INTERVAL]) @
     (if op_session_timeout prev = op_session_timeout cur then [] else [CONF_SESSION_TIMEOUT])"

definition unit_options_of :: "options \<Rightarrow> unit_options" where
  "unit_options_of opts =
     \<lparr>opt_weight_unit = op_weight_unit opts, opt_temp_unit = op_temp_unit opts, opt_water_source = op_water_source opts\<rparr>"

text \<open>
  The listener: whether the entry is reloaded, and the store it leaves otherwise.  \<open>prev\<close> is the
  snapshot of the options it saw last.
\<close>

definition async_update_listener :: "options \<Rightarrow> options \<Rightarrow> store \<Rightarrow> bool \<times> store" where
  "async_update_listener prev cur s0 =
     (let s = adopt_options cur s0; changed = changed_keys prev cur in
      if changed \<noteq> [] \<and> set changed \<subseteq> set NO_RELOAD_OPTION_KEYS
      then let s1 = (if set changed \<inter> set RECIPE_ONLY_OPTION_KEYS \<noteq> {} then rebuild_recipes s else s);
               s2 = (if set changed \<inter> set UNIT_OPTION_KEYS \<noteq> {}
                     then s1\<lparr>st_coord := handle_unit_options_change (unit_options_of cur) (st_coord s1)\<rparr> else s1)
        in (False, update_listeners s2)
      else (True, s))"

text \<open>Unloading hangs up first; the entry's data goes only when the platforms could be unloaded.\<close>

definition async_unload_entry :: "ble_stack \<Rightarrow> bool \<Rightarrow> store \<Rightarrow> (bool \<times> store option) res \<times> store" where
  "async_unload_entry B platforms_unloaded s =
     (let (r, s1) = on_coord (async_disconnect B) s
      in (bind_res r (\<lambda>_. Inr (platforms_unloaded, if platforms_unloaded then None else Some s1)), s1))"

section \<open>Facts\<close>

lemma round_half_even_near: "\<bar>x - of_int n\<bar> < 1 / 2 \<Longrightarrow> round_half_even x = n"
proof -
  assume near: "\<bar>x - of_int n\<bar> < 1 / 2"
  then have "\<lfloor>x\<rfloor> = n \<or> \<lfloor>x\<rfloor> = n - 1" by linarith
  then show ?thesis using near by (auto simp: round_half_even_def Let_def)
qed

text \<open>The water of a recipe survives the division by its dose and the multiplication with it.\<close>

lemma water_survives:
  assumes "1 \<le> n" "n \<le> 10000" "1 / 10 \<le> x" "x \<le> 1000"
  shows "\<exists>q. fdiv (Fin (of_int n)) (Fin x) = Inr (Fin q) \<and> q \<noteq> 0 \<and>
    (\<exists>t. fmul (Fin x) (Fin q) = Fin t \<and> round_half_even t = n)"
proof -
  have n: "1 \<le> (of_int n :: rat)" "(of_int n :: rat) \<le> 10000"
    using assms(1,2) by (simp_all flip: of_int_1_le_iff of_int_le_numeral_iff)
  have x: "0 < x" using assms(3) by linarith
  let ?z = "of_int n / x"
  have z: "1 / 1000 \<le> ?z" "?z \<le> 10 ^ 6"
    using n x assms(3,4) by (auto simp: field_simps intro: order_trans)
  obtain q where q: "to_double ?z = Fin q" "\<bar>q - ?z\<bar> \<le> ?z / 2 ^ 53"
    using to_double_close [OF disjI2 [OF z(1)] z(2)] by blast
  have zx: "?z * x = of_int n" using x by simp
  have d: "\<bar>q * x - of_int n\<bar> \<le> of_int n / 2 ^ 53"
  proof -
    have "\<bar>q * x - of_int n\<bar> = \<bar>q - ?z\<bar> * x" using x zx by (simp add: abs_mult_pos left_diff_distrib)
    also have "\<dots> \<le> ?z / 2 ^ 53 * x" using q(2) x by (intro mult_right_mono) auto
    also have "\<dots> = of_int n / 2 ^ 53" using x by simp
    finally show ?thesis .
  qed
  have small: "of_int n / 2 ^ 53 \<le> (1 / 1000 :: rat)" using n(2) by simp
  have near: "\<bar>x * q - of_int n\<bar> \<le> 1 / 1000"
    using order_trans [OF d small] by (simp only: mult.commute)
  have "x * q \<le> 1000000" using near n by linarith
  then have y: "1 / 1000 \<le> x * q" "x * q \<le> 10 ^ 6" using near n by (linarith, simp)
  obtain t where t: "to_double (x * q) = Fin t" "\<bar>t - x * q\<bar> \<le> x * q / 2 ^ 53"
    using to_double_close [OF disjI2 [OF y(1)] y(2)] by blast
  have "x * q / 2 ^ 53 \<le> 1000000 / 2 ^ 53" using \<open>x * q \<le> 1000000\<close> by (intro divide_right_mono) simp_all
  also have "\<dots> \<le> (1 / 1000 :: rat)" by simp
  finally have "\<bar>t - of_int n\<bar> < 1 / 2" using t(2) near by linarith
  then have "round_half_even t = n" by (rule round_half_even_near)
  moreover have "q \<noteq> 0" using y(1) by auto
  ultimately show ?thesis using q t x by (auto simp: field_simps)
qed

section \<open>Stored recipes survive an upgrade\<close>

text \<open>A pour and a recipe as version 1 stored them.\<close>

definition v1_pour :: "pour_dict \<Rightarrow> doc" where
  "v1_pour p =
     [(''volume'', JInt (volume_ml p)), (''temperature'', JInt (temperature_c p)),
      (''flow_rate'', JFloat (pour_flow_rate p)), (''pausing'', JInt (pause_seconds p)),
      (''pattern'', JInt (pattern_code p)), (''vibration'', JStr (vibration_name p))]"

definition v1_recipe :: "recipe_dict \<Rightarrow> int \<Rightarrow> doc" where
  "v1_recipe r water =
     [(''name'', JStr (rd_name r)), (''grind_size'', JInt (rd_grind_size r)), (''rpm'', JInt (rd_rpm r)),
      (''bean_weight'', JFloat (dose_g r)), (''total_water'', JFloat (Fin (of_int water))),
      (''cup_type'', JStr (rd_cup_type r)), (''pours'', JList (map (\<lambda>p. JDict (v1_pour p)) (rd_pours r)))]"

lemma migrated_pour:
  "POUR_SCHEMA (raw_pour_of p) = Inr p \<Longrightarrow> validate_pour (migrate_pour (v1_pour p)) = Inr p"
  by (auto simp: POUR_SCHEMA_def raw_pour_of_def validate_pour_def v1_pour_def migrate_pour_def doc_rename_def
      doc_put_def doc_pop_def positive_int_def coerce_int_def coerce_float_def vibration_of_json_def settled_def
      failure_def POUR_KEYS_def bind_res_Inr_iff split: if_splits)

lemma migrated_pours:
  "map_res POUR_SCHEMA (map raw_pour_of ps) = Inr ps \<Longrightarrow>
   validate_pours (map (\<lambda>p. JDict (migrate_pour (v1_pour p))) ps) = Inr ps"
  by (induction ps) (auto simp: bind_res_Inr_iff migrated_pour)

lemma docs_of_v1: "map_res doc_of_json (map (\<lambda>p. JDict (v1_pour p)) ps) = Inr (map v1_pour ps)"
  by (induction ps) simp_all

text \<open>
  Upgrading keeps what a stored recipe brews: a version 1 recipe of valid pours, with a dose
  between 0.1 and 1000 g and a whole amount of water up to ten litres, is migrated to a document
  that the present schema accepts, with the same name, settings, dose and pours, a uid and the
  source of a user's recipe; and its water, now the product of dose and ratio, is the water it had.
\<close>

theorem migration_keeps_the_brew:
  assumes "RECIPE_SCHEMA (raw_of r) = Inr r" and "dose_g r = Fin x" "1 / 10 \<le> x" "x \<le> 1000"
    and "1 \<le> water" "water \<le> 10000"
  shows "\<exists>d r'. migrate_recipe_v1_to_v2 (v1_recipe r water) = Inr d \<and>
    validate_doc sh (migrate_recipe_v2_to_v3 uid d) = Inr r' \<and>
    rd_pours r' = rd_pours r \<and> dose_g r' = dose_g r \<and> rd_name r' = rd_name r \<and> rd_grind_size r' = rd_grind_size r \<and>
    rd_rpm r' = rd_rpm r \<and> rd_cup_type r' = rd_cup_type r \<and> rd_uid r' = Some uid \<and> rd_source r' = Some ''manual'' \<and>
    bind_res (compute_total_water_ml r') round_float = Inr water"
proof -
  obtain q t where q: "fdiv (Fin (of_int water)) (Fin x) = Inr (Fin q)" "q \<noteq> 0"
    and t: "fmul (Fin x) (Fin q) = Fin t" "round_half_even t = water"
    using water_survives [OF assms(5,6,3,4)] by blast
  let ?ps = "map (\<lambda>p. JDict (migrate_pour (v1_pour p))) (rd_pours r)"
  let ?d = "[(''name'', JStr (rd_name r)), (''grind_size'', JInt (rd_grind_size r)), (''rpm'', JInt (rd_rpm r)),
      (''cup_type'', JStr (rd_cup_type r)), (''pours'', JList ?ps), (''dose_g'', JFloat (Fin x)), (''ratio'', JFloat (Fin q))]"
  let ?r = "\<lparr>rd_uid = Some uid, rd_cloud_table_id = None, rd_share_url = None, rd_source = Some ''manual'',
    rd_name = rd_name r, rd_grind_size = rd_grind_size r, rd_rpm = rd_rpm r, dose_g = Fin x, ratio = Some (Fin q),
    rd_cup_type = rd_cup_type r, rd_bypass_volume = Fin 0, rd_bypass_temperature = Fin 0, rd_pours = rd_pours r\<rparr>"
  have x: "0 < x" using assms(3) by linarith
  have "migrate_recipe_v1_to_v2 (v1_recipe r water) = Inr ?d"
    using x by (simp add: migrate_recipe_v1_to_v2_def v1_recipe_def doc_put_def doc_pop_def assms(2) q(1) docs_of_v1 comp_def
        del: fdiv.simps)
  moreover have "validate_pours ?ps = Inr (rd_pours r)"
    using assms(1) by (intro migrated_pours)
      (auto simp: RECIPE_SCHEMA_def raw_of_def bind_res_Inr_iff dest: arg_cong [where f = rd_pours])
  then have "validate_doc sh (migrate_recipe_v2_to_v3 uid ?d) = Inr ?r"
    by (simp add: migrate_recipe_v2_to_v3_def doc_default_def doc_put_def validate_doc_def coerce_int_def coerce_float_def
        ratio_of_json_def some_text_def failure_def settled_def RECIPE_KEYS_def)
  moreover have "bind_res (compute_total_water_ml ?r) round_float = Inr water"
    using x q(2) t by (simp add: compute_total_water_ml_def ftruthy_def del: fmul.simps)
  ultimately show ?thesis using assms(2) by (intro exI [of _ ?d] exI [of _ ?r]) simp
qed

definition v1_coffee :: recipe_dict where
  "v1_coffee =
     \<lparr>rd_uid = None, rd_cloud_table_id = None, rd_share_url = None, rd_source = None, rd_name = ''V60'',
      rd_grind_size = 60, rd_rpm = 80, dose_g = Fin 16, ratio = None, rd_cup_type = ''omni_dripper'',
      rd_bypass_volume = Fin 0, rd_bypass_temperature = Fin 0,
      rd_pours = [\<lparr>volume_ml = 50, temperature_c = 92, pour_flow_rate = Fin 3, pause_seconds = 45,
        pattern_code = 2, vibration_name = ''after''\<rparr>]\<rparr>"

theorem migration_keeps_the_brew_witness:
  "\<exists>d r'. migrate_recipe_v1_to_v2 (v1_recipe v1_coffee 250) = Inr d \<and>
     validate_doc (\<lambda>_. []) (migrate_recipe_v2_to_v3 ''a1'' d) = Inr r' \<and>
     bind_res (compute_total_water_ml r') round_float = Inr 250"
proof -
  have "RECIPE_SCHEMA (raw_of v1_coffee) = Inr v1_coffee"
    by (simp add: v1_coffee_def RECIPE_SCHEMA_def raw_of_def raw_pour_of_def POUR_SCHEMA_def VIBRATION_NAMES_def)
  then show ?thesis
    using migration_keeps_the_brew [of v1_coffee 16 250 "\<lambda>_. []" "''a1''"] by (auto simp: v1_coffee_def)
qed

lemma migrate_layer_v1_names:
  "migrate_layer_v1 rs = Inr rs' \<Longrightarrow> map (\<lambda>(nm, r). (nm, r = None)) rs' = map (\<lambda>(nm, r). (nm, r = None)) rs"
  unfolding migrate_layer_v1_def
  by (induction rs arbitrary: rs') (auto simp: bind_res_Inr_iff split: option.splits)

definition labelled :: "doc \<Rightarrow> bool" where
  "labelled d \<longleftrightarrow> map_of d ''uid'' \<noteq> None \<and> map_of d ''source'' \<noteq> None"

definition scoped :: "string \<Rightarrow> string \<Rightarrow> bool" where
  "scoped entry_id u \<longleftrightarrow> prefix (scoped_unique_id entry_id []) u"

lemma migrate_registry_scoped: "list_all (scoped i) (migrate_registry i us)"
  by (induction us) (auto simp: migrate_registry_def scope_unique_id_migration_def scoped_def scoped_unique_id_def)

lemma scoped_stays: "list_all (scoped i) us \<Longrightarrow> migrate_registry i us = us"
  by (induction us) (auto simp: migrate_registry_def scope_unique_id_migration_def scoped_def)

lemma migrate_layer_v2_names:
  "map (\<lambda>(nm, r). (nm, r = None)) (migrate_layer_v2 mint rs) = map (\<lambda>(nm, r). (nm, r = None)) rs"
  by (induction rs) (auto simp: migrate_layer_v2_def)

lemma migrate_layer_v2_labelled: "(nm, Some d) \<in> set (migrate_layer_v2 mint rs) \<Longrightarrow> labelled d"
proof -
  assume "(nm, Some d) \<in> set (migrate_layer_v2 mint rs)"
  then obtain d0 where "d = migrate_recipe_v2_to_v3 (mint nm) d0"
    unfolding migrate_layer_v2_def by (auto simp: eq_commute [of "Some d"])
  then show ?thesis by (auto simp: migrate_recipe_v2_to_v3_def labelled_def)
qed

lemma migrate_v3_frame [simp]:
  "se_recipes (migrate_v3 e) = se_recipes e" "se_version (migrate_v3 e) = se_version e"
  by (simp_all add: migrate_v3_def)

lemma migrate_v1_spec:
  assumes "migrate_v1 e = Inr e1"
  shows "map (\<lambda>(nm, r). (nm, r = None)) (se_recipes e1) = map (\<lambda>(nm, r). (nm, r = None)) (se_recipes e)"
    and "se_version e1 = (if se_version e = 1 then 2 else se_version e)"
    and "se_minor_version e1 = se_minor_version e" "se_unique_ids e1 = se_unique_ids e" "se_id e1 = se_id e"
  using assms by (auto simp: migrate_v1_def bind_res_Inr_iff migrate_layer_v1_names split: if_splits)

text \<open>
  C40. A migration that ends leaves an entry of version 3.2 with exactly the names it had and
  tombstones exactly where they were; recipes that came from an older version all have a uid and a
  source, the entity ids are all scoped to the entry, and migrating again changes nothing.
\<close>

theorem migrated_entry_complete:
  assumes "async_migrate_entry mint e = Inr e'" and "se_version e \<in> {1, 2, 3}"
  shows "se_version e' = 3 \<and> 2 \<le> se_minor_version e' \<and>
    map (\<lambda>(nm, r). (nm, r = None)) (se_recipes e') = map (\<lambda>(nm, r). (nm, r = None)) (se_recipes e) \<and>
    (se_version e < 3 \<longrightarrow> (\<forall>nm d. (nm, Some d) \<in> set (se_recipes e') \<longrightarrow> labelled d)) \<and>
    (se_minor_version e < 2 \<longrightarrow> list_all (scoped (se_id e)) (se_unique_ids e')) \<and>
    async_migrate_entry mint' e' = Inr e'"
proof -
  obtain e1 where e1: "migrate_v1 e = Inr e1" and e': "e' = migrate_v3 (migrate_v2 mint e1)"
    using assms(1) by (auto simp: async_migrate_entry_def bind_res_Inr_iff)
  note m = migrate_v1_spec [OF e1]
  have v: "se_version e' = 3" "2 \<le> se_minor_version e'"
    using assms(2) m(2) by (auto simp: e' migrate_v2_def migrate_v3_def)
  have names: "map (\<lambda>(nm, r). (nm, r = None)) (se_recipes e') = map (\<lambda>(nm, r). (nm, r = None)) (se_recipes e)"
    using m(1) by (simp add: e' migrate_v2_def migrate_v3_def migrate_layer_v2_names)
  have "se_version e1 = 2" if "se_version e < 3" using that assms(2) m(2) by auto
  then have labelled: "labelled d" if "se_version e < 3" "(nm, Some d) \<in> set (se_recipes e')" for nm d
    using that by (auto simp: e' migrate_v2_def dest: migrate_layer_v2_labelled)
  have ids: "list_all (scoped (se_id e)) (se_unique_ids e')" if "se_minor_version e < 2"
    using that assms(2) m by (auto simp: e' migrate_v2_def migrate_v3_def migrate_registry_scoped)
  have "async_migrate_entry mint' e' = Inr e'"
    using v by (simp add: async_migrate_entry_def migrate_v1_def migrate_v2_def migrate_v3_def)
  then show ?thesis using v names labelled ids by blast
qed

definition old_entry :: stored_entry where
  "old_entry = \<lparr>se_id = ''e1'', se_version = 1, se_minor_version = 1,
     se_recipes = [(''V60'', Some (v1_recipe v1_coffee 250)), (''Gone'', None)], se_unique_ids = [''xbloom_grind'']\<rparr>"

theorem migrated_entry_complete_witness:
  "\<exists>e'. async_migrate_entry (\<lambda>_. ''a1'') old_entry = Inr e' \<and> se_version e' = 3 \<and>
     map fst (se_recipes e') = [''V60'', ''Gone''] \<and> list_all (scoped ''e1'') (se_unique_ids e')"
proof -
  obtain d where d: "migrate_recipe_v1_to_v2 (v1_recipe v1_coffee 250) = Inr d"
    by (simp add: v1_coffee_def v1_recipe_def migrate_recipe_v1_to_v2_def)
  then obtain e' where e': "async_migrate_entry (\<lambda>_. ''a1'') old_entry = Inr e'"
    by (simp add: async_migrate_entry_def migrate_v1_def old_entry_def migrate_layer_v1_def)
  have "map fst (se_recipes e') = map fst (map (\<lambda>(nm, r). (nm, r = None)) (se_recipes e'))" by (auto simp: comp_def split_def)
  then show ?thesis
    using migrated_entry_complete [OF e', where mint' = "\<lambda>_. []"] e' by (auto simp: old_entry_def)
qed

end
