(* ===== verification/Flow.thy ===== *)
theory Flow
  imports Setup
begin

text \<open>
  The configuration and options flows (\<^verbatim>\<open>config_flow.py\<close>): adding a machine by address or by
  discovery, its optional cloud account, and the options menu with the account, the settings and
  the recipes.  Home Assistant validates a form against its schema before a step sees it; the YAML
  reader, the connection test and the machines already configured are arguments.
\<close>

section \<open>Steps\<close>

text \<open>What a step answers: a form again with its errors, an entry with its data, an abort, a menu.\<close>

datatype 'a flow_result =
    ShowForm string "(string \<times> string) list"
  | CreateEntry 'a
  | FlowAbort string
  | ShowMenu "string list"


section \<open>Adding a machine\<close>

definition mac_hex :: "char \<Rightarrow> bool" where "mac_hex c \<longleftrightarrow> hex_value c \<noteq> None"

fun mac_groups :: "nat \<Rightarrow> string \<Rightarrow> bool" where
  "mac_groups 0 s \<longleftrightarrow> (case s of [a, b] \<Rightarrow> mac_hex a \<and> mac_hex b | _ \<Rightarrow> False)"
| "mac_groups (Suc n) s \<longleftrightarrow>
     (case s of a # b # c # r \<Rightarrow> mac_hex a \<and> mac_hex b \<and> c = CHR '':'' \<and> mac_groups n r | _ \<Rightarrow> False)"

definition valid_mac :: "string \<Rightarrow> bool" where "valid_mac mac \<longleftrightarrow> mac_groups 5 (py_strip mac)"

text \<open>The state of one flow: what the machine step collected, and a machine that was discovered.\<close>

record flow =
  fl_step_data :: "entry_data option"
  fl_discovered_mac :: "string option"
  fl_discovered_name :: "string option"

definition new_flow :: flow where
  "new_flow = \<lparr>fl_step_data = None, fl_discovered_mac = None, fl_discovered_name = None\<rparr>"

record user_input =
  ui_mac_address :: string
  ui_telemetry_interval :: "int option"
  ui_session_timeout :: "int option"

definition show_account :: "entry_data flow_result" where "show_account = ShowForm ''account'' []"

text \<open>\<open>connects\<close> is the outcome of the connection test: established, refused, or an exception.\<close>

definition connection_errors :: "bool res \<Rightarrow> (string \<times> string) list" where
  "connection_errors connects = (if connects = Inr True then [] else [(''base'', ''cannot_connect'')])"

definition async_step_user :: "string list \<Rightarrow> (string \<Rightarrow> bool res) \<Rightarrow> user_input option \<Rightarrow> flow \<Rightarrow>
    entry_data flow_result \<times> flow" where
  "async_step_user configured connects input fl =
     (case input of
        None \<Rightarrow> (ShowForm ''user'' [], fl)
      | Some ui \<Rightarrow>
          let mac = py_upper (py_strip (ui_mac_address ui)) in
          if \<not> valid_mac mac then (ShowForm ''user'' [(''mac_address'', ''invalid_mac'')], fl)
          else if mac \<in> set configured then (FlowAbort ''already_configured'', fl)
          else let errors = connection_errors (connects mac) in
            if errors \<noteq> [] then (ShowForm ''user'' errors, fl)
            else (show_account, fl\<lparr>fl_step_data := Some
                \<lparr>ed_mac_address = mac,
                 ed_telemetry_interval = Some (or_default (ui_telemetry_interval ui) DEFAULT_TELEMETRY_INTERVAL),
                 ed_session_timeout = Some (or_default (ui_session_timeout ui) DEFAULT_SESSION_TIMEOUT),
                 ed_email = None, ed_password = None\<rparr>\<rparr>))"

definition async_step_bluetooth :: "string list \<Rightarrow> string \<Rightarrow> string option \<Rightarrow> flow \<Rightarrow> entry_data flow_result \<times> flow" where
  "async_step_bluetooth configured address local_name fl =
     (let mac = py_upper address in
      if mac \<in> set configured then (FlowAbort ''already_configured'', fl)
      else (ShowForm ''bluetooth_confirm'' [],
            fl\<lparr>fl_discovered_mac := Some mac,
               fl_discovered_name := Some (case local_name of None \<Rightarrow> mac | Some n \<Rightarrow> if n = [] then mac else n)\<rparr>))"

text \<open>The confirmation of a discovered machine; without one the assertion fails.\<close>

definition async_step_bluetooth_confirm :: "(string \<Rightarrow> bool res) \<Rightarrow> bool \<Rightarrow> flow \<Rightarrow> (entry_data flow_result \<times> flow) option" where
  "async_step_bluetooth_confirm connects submitted fl =
     (case fl_discovered_mac fl of
        None \<Rightarrow> None
      | Some mac \<Rightarrow> Some (
          if \<not> submitted then (ShowForm ''bluetooth_confirm'' [], fl)
          else let errors = connection_errors (connects mac) in
            if errors \<noteq> [] then (ShowForm ''bluetooth_confirm'' errors, fl)
            else (show_account, fl\<lparr>fl_step_data := Some
                \<lparr>ed_mac_address = mac, ed_telemetry_interval = Some DEFAULT_TELEMETRY_INTERVAL,
                 ed_session_timeout = Some DEFAULT_SESSION_TIMEOUT, ed_email = None, ed_password = None\<rparr>\<rparr>)))"

record account_input =
  ai_email :: "string option"
  ai_password :: "string option"

definition entered_email :: "account_input \<Rightarrow> string" where
  "entered_email a = py_strip (or_default (ai_email a) [])"

definition entered_password :: "account_input \<Rightarrow> string" where
  "entered_password a = or_default (ai_password a) []"

definition async_step_account :: "account_input option \<Rightarrow> flow \<Rightarrow> entry_data flow_result" where
  "async_step_account input fl =
     (case (input, fl_step_data fl) of
        (Some a, Some d) \<Rightarrow>
          let email = entered_email a; password = entered_password a in
          if (email \<noteq> []) \<noteq> (password \<noteq> []) then ShowForm ''account'' [(''base'', ''account_incomplete'')]
          else CreateEntry (if email \<noteq> [] then d\<lparr>ed_email := Some email, ed_password := Some password\<rparr> else d)
      | _ \<Rightarrow> show_account)"

section \<open>The options menu: account and settings\<close>

definition async_step_init :: "unit flow_result" where
  "async_step_init = ShowMenu [''settings'', ''account'', ''add_recipe'', ''edit_recipe'', ''delete_recipe'']"

definition has_account :: "entry_data \<Rightarrow> bool" where
  "has_account d \<longleftrightarrow> or_default (ed_email d) [] \<noteq> [] \<and> or_default (ed_password d) [] \<noteq> []"

text \<open>The account step of the options flow: the new data of the entry, or the form with an error.\<close>

definition options_step_account :: "account_input option \<Rightarrow> entry_data \<Rightarrow> entry_data flow_result" where
  "options_step_account input d =
     (case input of
        None \<Rightarrow> show_account
      | Some a \<Rightarrow>
          let email = entered_email a; password = entered_password a; stored = or_default (ed_email d) [] in
          if email = [] \<and> password = []
          then CreateEntry (if has_account d then d\<lparr>ed_email := None, ed_password := None\<rparr> else d)
          else if email \<noteq> [] \<and> password \<noteq> []
          then CreateEntry (d\<lparr>ed_email := Some email, ed_password := Some password\<rparr>)
          else if email \<noteq> []
          then (if email = stored \<and> has_account d then CreateEntry d
                else ShowForm ''account'' [(''base'', ''account_password_required'')])
          else ShowForm ''account'' [(''base'', ''account_email_required'')])"

definition WATER_SOURCE_OPTIONS :: "(string \<times> int) list" where
  "WATER_SOURCE_OPTIONS = [(''tank'', WATER_SOURCE_TANK), (''direct'', WATER_SOURCE_DIRECT)]"

record settings_values =
  sv_telemetry_interval :: int
  sv_session_timeout :: int
  sv_weight_unit :: string
  sv_temp_unit :: string
  sv_water_source :: int

definition effective_settings :: "options \<Rightarrow> entry_data \<Rightarrow> settings_values" where
  "effective_settings opts d =
     \<lparr>sv_telemetry_interval = telemetry_interval_of opts d, sv_session_timeout = session_timeout_of opts d,
      sv_weight_unit = or_default (op_weight_unit opts) DEFAULT_WEIGHT_UNIT,
      sv_temp_unit = or_default (op_temp_unit opts) DEFAULT_TEMP_UNIT,
      sv_water_source = or_default (op_water_source opts) DEFAULT_WATER_SOURCE\<rparr>"

text \<open>The submitted form; a key that was not submitted is absent, but the water source is always set.\<close>

record settings_input =
  si_telemetry_interval :: "int option"
  si_session_timeout :: "int option"
  si_weight_unit :: "string option"
  si_temp_unit :: "string option"
  si_water_source :: "string option"

definition submitted_water_source :: "settings_input \<Rightarrow> int" where
  "submitted_water_source i =
     or_default (map_of WATER_SOURCE_OPTIONS (or_default (si_water_source i) ''tank'')) DEFAULT_WATER_SOURCE"

definition persisted :: "'a option \<Rightarrow> 'a \<Rightarrow> 'a option \<Rightarrow> 'a option" where
  "persisted submitted current stored =
     (case submitted of None \<Rightarrow> stored | Some v \<Rightarrow> if v \<noteq> current then Some v else stored)"

definition async_step_settings :: "settings_input option \<Rightarrow> options \<Rightarrow> entry_data \<Rightarrow> options flow_result" where
  "async_step_settings input opts d =
     (case input of
        None \<Rightarrow> ShowForm ''settings'' []
      | Some i \<Rightarrow>
          let cur = effective_settings opts d in
          CreateEntry (opts\<lparr>
            op_telemetry_interval := persisted (si_telemetry_interval i) (sv_telemetry_interval cur) (op_telemetry_interval opts),
            op_session_timeout := persisted (si_session_timeout i) (sv_session_timeout cur) (op_session_timeout opts),
            op_weight_unit := persisted (si_weight_unit i) (sv_weight_unit cur) (op_weight_unit opts),
            op_temp_unit := persisted (si_temp_unit i) (sv_temp_unit cur) (op_temp_unit opts),
            op_water_source := persisted (Some (submitted_water_source i)) (sv_water_source cur) (op_water_source opts)\<rparr>))"

section \<open>The options menu: recipes\<close>

text \<open>The stored layer without its tombstones, and what is visible with them.\<close>

definition flow_options_recipes :: "options \<Rightarrow> layer" where
  "flow_options_recipes opts = filter (\<lambda>(_, r). r \<noteq> None) (or_default (op_recipes opts) [])"

definition all_visible_recipes :: "(string \<times> recipe_dict) list \<Rightarrow> options \<Rightarrow> (string \<times> recipe_dict) list" where
  "all_visible_recipes yaml opts = merge_layers yaml (or_default (op_recipes opts) [])"

definition save_recipes :: "layer \<Rightarrow> options \<Rightarrow> options" where
  "save_recipes rs opts = opts\<lparr>op_recipes := Some rs\<rparr>"

text \<open>
  \<open>load\<close> is the YAML reader (\<open>None\<close> for text that is no YAML).  The left side is the error shown on
  the form.
\<close>

definition parse_and_validate :: "(pyfloat \<Rightarrow> string) \<Rightarrow> (string \<Rightarrow> json option) \<Rightarrow> string \<Rightarrow> (string + recipe_dict) res" where
  "parse_and_validate sh load raw =
     (case load raw of
        Some (JDict d) \<Rightarrow>
          (case validate_doc sh (strip_protected_recipe_fields d) of
             Inr r \<Rightarrow> Inr (Inr r)
           | Inl e \<Rightarrow> if e = VolInvalid then Inr (Inl ''invalid_recipe'') else Inl e)
      | _ \<Rightarrow> Inr (Inl ''invalid_yaml''))"

definition async_step_add_recipe :: "(pyfloat \<Rightarrow> string) \<Rightarrow> (string \<Rightarrow> json option) \<Rightarrow> string \<Rightarrow>
    (string \<times> recipe_dict) list \<Rightarrow> string option \<Rightarrow> options \<Rightarrow> options flow_result res" where
  "async_step_add_recipe sh load uid yaml input opts =
     (case input of
        None \<Rightarrow> Inr (ShowForm ''add_recipe'' [])
      | Some raw \<Rightarrow> bind_res (parse_and_validate sh load raw) (\<lambda>parsed.
          Inr (case parsed of
            Inl e \<Rightarrow> ShowForm ''add_recipe'' [(''base'', e)]
          | Inr r \<Rightarrow>
              if rd_name r \<in> fst ` set (all_visible_recipes yaml opts)
              then ShowForm ''add_recipe'' [(''base'', ''recipe_exists'')]
              else CreateEntry (save_recipes (put_recipe (rd_name r)
                     (r\<lparr>rd_uid := Some uid, rd_source := Some ''manual''\<rparr>) (flow_options_recipes opts)) opts))))"

definition async_step_edit_recipe :: "(string \<times> recipe_dict) list \<Rightarrow> string option \<Rightarrow> options \<Rightarrow> options flow_result" where
  "async_step_edit_recipe yaml picked opts =
     (if all_visible_recipes yaml opts = [] then FlowAbort ''no_recipes''
      else case picked of
        None \<Rightarrow> ShowForm ''edit_recipe'' []
      | Some nm \<Rightarrow> if nm \<in> fst ` set (all_visible_recipes yaml opts) then ShowForm ''edit_recipe_yaml'' []
          else FlowAbort ''no_recipes'')"

text \<open>The identity of the recipe that is edited; a field it does not have stays as the form gives it.\<close>

definition restore_identity :: "recipe_dict \<Rightarrow> recipe_dict \<Rightarrow> recipe_dict" where
  "restore_identity original r =
     r\<lparr>rd_uid := (if rd_uid original = None then rd_uid r else rd_uid original),
       rd_cloud_table_id := (if rd_cloud_table_id original = None then rd_cloud_table_id r else rd_cloud_table_id original),
       rd_share_url := (if rd_share_url original = None then rd_share_url r else rd_share_url original),
       rd_source := (if rd_source original = None then rd_source r else rd_source original)\<rparr>"

definition async_step_edit_recipe_yaml :: "(pyfloat \<Rightarrow> string) \<Rightarrow> (string \<Rightarrow> json option) \<Rightarrow>
    (string \<times> recipe_dict) list \<Rightarrow> string \<Rightarrow> string option \<Rightarrow> options \<Rightarrow> options flow_result res" where
  "async_step_edit_recipe_yaml sh load yaml editing input opts =
     (case map_of (all_visible_recipes yaml opts) editing of
        None \<Rightarrow> Inr (FlowAbort ''no_recipes'')
      | Some original \<Rightarrow>
          if editing = [] then Inr (FlowAbort ''no_recipes'')
          else case input of
            None \<Rightarrow> Inr (ShowForm ''edit_recipe_yaml'' [])
          | Some raw \<Rightarrow> bind_res (parse_and_validate sh load raw) (\<lambda>parsed.
              Inr (case parsed of
                Inl e \<Rightarrow> ShowForm ''edit_recipe_yaml'' [(''base'', e)]
              | Inr r \<Rightarrow> CreateEntry (save_recipes (put_recipe (rd_name r) (restore_identity original r)
                    (filter (\<lambda>(nm, _). nm \<noteq> editing) (flow_options_recipes opts))) opts))))"

definition async_step_delete_recipe :: "(string \<times> recipe_dict) list \<Rightarrow> string option \<Rightarrow> options \<Rightarrow> options flow_result" where
  "async_step_delete_recipe yaml picked opts =
     (if all_visible_recipes yaml opts = [] then FlowAbort ''no_recipes''
      else case picked of
        None \<Rightarrow> ShowForm ''delete_recipe'' []
      | Some nm \<Rightarrow>
          let existing = flow_options_recipes opts
          in CreateEntry (save_recipes
               (if nm \<in> fst ` set existing then AList.delete nm existing else AList.update nm None existing) opts))"

section \<open>Facts\<close>

definition units_in_sync :: "options \<Rightarrow> coord \<Rightarrow> bool" where
  "units_in_sync opts k \<longleftrightarrow>
     k_weight_unit k = or_default (op_weight_unit opts) DEFAULT_WEIGHT_UNIT \<and>
     k_temp_unit k = or_default (op_temp_unit opts) DEFAULT_TEMP_UNIT \<and>
     k_water_source k = or_default (op_water_source opts) DEFAULT_WATER_SOURCE"

lemma persisted_same: "persisted x c stored = stored \<longleftrightarrow> x = None \<or> x = Some c \<or> x = stored"
  by (cases x) (auto simp: persisted_def)

lemma persisted_default:
  "or_default (persisted x (or_default stored d) stored) d = or_default x (or_default stored d)"
  by (cases x) (auto simp: persisted_def)

text \<open>The interval keys count as changed exactly when another value was submitted.\<close>

definition interval_changed :: "settings_input \<Rightarrow> options \<Rightarrow> entry_data \<Rightarrow> bool" where
  "interval_changed i opts d \<longleftrightarrow>
     si_telemetry_interval i \<notin> {None, Some (telemetry_interval_of opts d)} \<or>
     si_session_timeout i \<notin> {None, Some (session_timeout_of opts d)}"

lemma same_dict_refl [simp]: "same_dict a a"
  by (simp add: same_dict_def list_all_iff split: option.split)

lemma persisted_interval:
  "persisted x (or_default stored e) stored = stored \<longleftrightarrow> x \<in> {None, Some (or_default stored e)}"
  by (cases x; cases stored) (auto simp: persisted_def)

lemma handle_unit_options:
  "k_weight_unit (handle_unit_options_change u k) = or_default (opt_weight_unit u) (k_weight_unit k)"
  "k_temp_unit (handle_unit_options_change u k) = or_default (opt_temp_unit u) (k_temp_unit k)"
  "k_water_source (handle_unit_options_change u k) = or_default (opt_water_source u) (k_water_source k)"
  "k_recipes (handle_unit_options_change u k) = k_recipes k"
  by (auto simp: handle_unit_options_change_def Let_def request_def or_default_def split: option.split)

lemma settings_changed_keys:
  assumes "async_step_settings (Some i) opts d = CreateEntry cur"
  shows "set (changed_keys opts cur) \<inter> set RECIPE_ONLY_OPTION_KEYS = {}"
    and "set (changed_keys opts cur) \<subseteq> set NO_RELOAD_OPTION_KEYS \<longleftrightarrow> \<not> interval_changed i opts d"
    and "set (changed_keys opts cur) \<inter> set UNIT_OPTION_KEYS = {} \<Longrightarrow> unit_options_of cur = unit_options_of opts"
    and "cur \<noteq> opts \<Longrightarrow> changed_keys opts cur \<noteq> []"
proof -
  note keys = changed_keys_def RECIPE_ONLY_OPTION_KEYS_def UNIT_OPTION_KEYS_def NO_RELOAD_OPTION_KEYS_def CONF_RECIPES_def
    CONF_RECIPES_SEEDED_def CONF_ACCOUNT_RECIPES_SEEDED_def CONF_EASY_SLOTS_def CONF_MODE_def CONF_STORE_REGION_def
    CONF_TELEMETRY_INTERVAL_def CONF_SESSION_TIMEOUT_def CONF_WATER_SOURCE_def CONF_WEIGHT_UNIT_def CONF_TEMP_UNIT_def
  let ?c = "effective_settings opts d"
  have cur: "cur = opts\<lparr>
      op_telemetry_interval := persisted (si_telemetry_interval i) (sv_telemetry_interval ?c) (op_telemetry_interval opts),
      op_session_timeout := persisted (si_session_timeout i) (sv_session_timeout ?c) (op_session_timeout opts),
      op_weight_unit := persisted (si_weight_unit i) (sv_weight_unit ?c) (op_weight_unit opts),
      op_temp_unit := persisted (si_temp_unit i) (sv_temp_unit ?c) (op_temp_unit opts),
      op_water_source := persisted (Some (submitted_water_source i)) (sv_water_source ?c) (op_water_source opts)\<rparr>"
    using assms by (simp add: async_step_settings_def Let_def)
  have same: "op_recipes cur = op_recipes opts" "op_easy_slots cur = op_easy_slots opts" "op_mode cur = op_mode opts"
    "op_recipes_seeded cur = op_recipes_seeded opts" "op_store_region cur = op_store_region opts"
    "op_account_recipes_seeded cur = op_account_recipes_seeded opts"
    by (simp_all add: cur)
  have intervals: "op_telemetry_interval cur = op_telemetry_interval opts \<and> op_session_timeout cur = op_session_timeout opts
      \<longleftrightarrow> \<not> interval_changed i opts d"
    by (auto simp: cur effective_settings_def telemetry_interval_of_def session_timeout_of_def interval_changed_def
        persisted_interval)
  show "set (changed_keys opts cur) \<inter> set RECIPE_ONLY_OPTION_KEYS = {}"
    by (simp add: same keys)
  show "set (changed_keys opts cur) \<subseteq> set NO_RELOAD_OPTION_KEYS \<longleftrightarrow> \<not> interval_changed i opts d"
    unfolding intervals [symmetric] by (auto simp: same keys)
  show "unit_options_of cur = unit_options_of opts" if "set (changed_keys opts cur) \<inter> set UNIT_OPTION_KEYS = {}"
    using that by (auto simp: same keys unit_options_of_def split: if_splits)
  show "changed_keys opts cur \<noteq> []" if "cur \<noteq> opts"
  proof
    assume "changed_keys opts cur = []"
    then have "cur = opts" by (intro options.equality) (auto simp: same keys split: if_splits)
    then show False using that by simp
  qed
qed

lemma persisted_absent: "persisted x c stored = None \<Longrightarrow> stored = None"
  by (auto simp: persisted_def split: option.splits if_splits)

lemma kept_units:
  assumes "async_step_settings (Some i) opts d = CreateEntry cur" "units_in_sync opts k"
  shows "or_default (op_weight_unit cur) (k_weight_unit k) = or_default (op_weight_unit cur) DEFAULT_WEIGHT_UNIT"
    "or_default (op_temp_unit cur) (k_temp_unit k) = or_default (op_temp_unit cur) DEFAULT_TEMP_UNIT"
    "or_default (op_water_source cur) (k_water_source k) = or_default (op_water_source cur) DEFAULT_WATER_SOURCE"
proof -
  let ?c = "effective_settings opts d"
  have cur: "op_weight_unit cur = persisted (si_weight_unit i) (sv_weight_unit ?c) (op_weight_unit opts)"
    "op_temp_unit cur = persisted (si_temp_unit i) (sv_temp_unit ?c) (op_temp_unit opts)"
    "op_water_source cur = persisted (Some (submitted_water_source i)) (sv_water_source ?c) (op_water_source opts)"
    using assms(1) by (auto simp: async_step_settings_def Let_def)
  have absent: "op_weight_unit cur = None \<Longrightarrow> op_weight_unit opts = None"
    "op_temp_unit cur = None \<Longrightarrow> op_temp_unit opts = None" "op_water_source cur = None \<Longrightarrow> op_water_source opts = None"
    unfolding cur by (rule persisted_absent, assumption)+
  note k = assms(2) [unfolded units_in_sync_def]
  show "or_default (op_weight_unit cur) (k_weight_unit k) = or_default (op_weight_unit cur) DEFAULT_WEIGHT_UNIT"
    using absent(1) k by (cases "op_weight_unit cur") simp_all
  show "or_default (op_temp_unit cur) (k_temp_unit k) = or_default (op_temp_unit cur) DEFAULT_TEMP_UNIT"
    using absent(2) k by (cases "op_temp_unit cur") simp_all
  show "or_default (op_water_source cur) (k_water_source k) = or_default (op_water_source cur) DEFAULT_WATER_SOURCE"
    using absent(3) k by (cases "op_water_source cur") simp_all
qed

text \<open>
  C32. Saving the settings form takes effect in place or reloads the entry, as it should: the entry
  is reloaded exactly when another polling interval or session timeout was entered, and otherwise
  the coordinator holds exactly the units and the water source entered, in step with the options
  that were saved, with the link and the recipes untouched and every setting whose command
  changed queued for the machine.
\<close>

theorem settings_apply_in_place:
  assumes sync: "units_in_sync opts (st_coord s)"
    and step: "async_step_settings (Some i) opts d = CreateEntry cur" and "cur \<noteq> opts"
    and listener: "async_update_listener opts cur s = (reload, s')"
  shows "reload = interval_changed i opts d \<and>
    (\<not> reload \<longrightarrow>
      k_weight_unit (st_coord s') = or_default (si_weight_unit i) (k_weight_unit (st_coord s)) \<and>
      k_temp_unit (st_coord s') = or_default (si_temp_unit i) (k_temp_unit (st_coord s)) \<and>
      k_water_source (st_coord s') = submitted_water_source i \<and>
      units_in_sync cur (st_coord s') \<and>
      k_world (st_coord s') = k_world (st_coord s) \<and> st_recipes s' = st_recipes s \<and>
      list_all (\<lambda>key. unit_push_command key (st_coord s') = unit_push_command key (st_coord s) \<or>
        key \<in> set (k_pending_unit_pushes (st_coord s'))) UNIT_PUSH_ORDER)"
proof -
  note keys = settings_changed_keys [OF step]
  let ?k = "st_coord s" and ?c = "effective_settings opts d"
  let ?k' = "if set (changed_keys opts cur) \<inter> set UNIT_OPTION_KEYS \<noteq> {}
    then handle_unit_options_change (unit_options_of cur) ?k else ?k"
  have reload: "reload = interval_changed i opts d"
    using listener keys(2) keys(4) [OF \<open>cur \<noteq> opts\<close>]
    by (auto simp: async_update_listener_def Let_def split: if_splits)
  show ?thesis
  proof (cases "interval_changed i opts d")
    case False
    have k': "st_coord s' = request UpdateListeners ?k'"
      using listener keys(1,2) keys(4) [OF \<open>cur \<noteq> opts\<close>] False
      by (auto simp: async_update_listener_def Let_def update_listeners_def adopt_options_def split: if_splits)
    have vals: "or_default (op_weight_unit cur) DEFAULT_WEIGHT_UNIT = or_default (si_weight_unit i) (k_weight_unit ?k)"
      "or_default (op_temp_unit cur) DEFAULT_TEMP_UNIT = or_default (si_temp_unit i) (k_temp_unit ?k)"
      "or_default (op_water_source cur) DEFAULT_WATER_SOURCE = submitted_water_source i"
      using step sync by (auto simp: async_step_settings_def Let_def effective_settings_def units_in_sync_def persisted_default)
    have held: "k_weight_unit ?k' = or_default (op_weight_unit cur) DEFAULT_WEIGHT_UNIT"
      "k_temp_unit ?k' = or_default (op_temp_unit cur) DEFAULT_TEMP_UNIT"
      "k_water_source ?k' = or_default (op_water_source cur) DEFAULT_WATER_SOURCE"
      using kept_units [OF step sync] keys(3) sync
      by (auto simp: handle_unit_options unit_options_of_def units_in_sync_def)
    have same: "k_world ?k' = k_world ?k" "k_recipes ?k' = k_recipes ?k"
      by (simp_all add: options_queue(2) handle_unit_options(4))
    have queued: "unit_push_command key ?k' = unit_push_command key ?k \<or> key \<in> set (k_pending_unit_pushes ?k')"
      if "key \<in> set UNIT_PUSH_ORDER" for key
      using options_changed_queued [OF that, of "unit_options_of cur" ?k] by auto
    have "unit_push_command key (request t k) = unit_push_command key k" for key t k
      by (simp add: unit_push_command_def request_def)
    then show ?thesis
      unfolding reload k' using False held same queued vals
      by (auto simp: units_in_sync_def list_all_iff request_def)
  qed (simp add: reload)
qed

definition no_options :: options where
  "no_options = \<lparr>op_recipes = None, op_recipes_seeded = False, op_account_recipes_seeded = False, op_easy_slots = None,
     op_mode = None, op_store_region = None, op_water_source = None, op_weight_unit = None, op_temp_unit = None,
     op_telemetry_interval = None, op_session_timeout = None\<rparr>"

definition demo_data :: entry_data where
  "demo_data = \<lparr>ed_mac_address = ''AA:BB:CC:DD:EE:FF'', ed_telemetry_interval = Some 5, ed_session_timeout = Some 60,
     ed_email = None, ed_password = None\<rparr>"

definition demo_form :: settings_input where
  "demo_form = \<lparr>si_telemetry_interval = Some 5, si_session_timeout = Some 60, si_weight_unit = Some ''oz'',
     si_temp_unit = Some ''c'', si_water_source = Some ''tank''\<rparr>"

definition fresh_store :: store where
  "fresh_store = new_store \<lparr>hd_default_recipes = [], hd_yaml_recipes = []\<rparr> demo_data no_options (demo_world [])"

theorem settings_apply_in_place_witness:
  "\<exists>cur s'. async_step_settings (Some demo_form) no_options demo_data = CreateEntry cur \<and>
     async_update_listener no_options cur fresh_store = (False, s') \<and> k_weight_unit (st_coord s') = ''oz'' \<and>
     op_temp_unit cur = None"
proof -
  have sync: "units_in_sync no_options (st_coord fresh_store)"
    by (simp add: units_in_sync_def fresh_store_def new_store_def adopt_options_def init_coord_def no_options_def)
  let ?cur = "no_options\<lparr>op_weight_unit := Some ''oz''\<rparr>"
  have step: "async_step_settings (Some demo_form) no_options demo_data = CreateEntry ?cur"
    by (simp add: async_step_settings_def Let_def demo_form_def no_options_def demo_data_def effective_settings_def
        persisted_def telemetry_interval_of_def session_timeout_of_def DEFAULT_TEMP_UNIT_def DEFAULT_WEIGHT_UNIT_def
        submitted_water_source_def WATER_SOURCE_OPTIONS_def WATER_SOURCE_TANK_def DEFAULT_WATER_SOURCE_def)
  have new: "?cur \<noteq> no_options" by (simp add: no_options_def)
  obtain reload s' where run: "async_update_listener no_options ?cur fresh_store = (reload, s')" by fastforce
  have "\<not> interval_changed demo_form no_options demo_data"
    by (simp add: interval_changed_def demo_form_def telemetry_interval_of_def session_timeout_of_def no_options_def demo_data_def)
  then show ?thesis
    using settings_apply_in_place [OF sync step new run] step run
    by (auto simp: demo_form_def no_options_def)
qed

definition account_whole :: "entry_data \<Rightarrow> bool" where
  "account_whole d \<longleftrightarrow> (case (ed_email d, ed_password d) of
     (None, None) \<Rightarrow> True | (Some e, Some p) \<Rightarrow> e \<noteq> [] \<and> p \<noteq> [] | _ \<Rightarrow> False)"

text \<open>
  Both account forms keep the account whole: an entry they write has both credentials, not
  empty, or neither; the options form changes nothing but the credentials, removes them only when
  both fields are submitted blank, and replaces them only when both are filled in.
\<close>

theorem account_stays_whole:
  "(\<forall>d0 d. fl_step_data fl = Some d0 \<and> account_whole d0 \<and> async_step_account input fl = CreateEntry d \<longrightarrow>
      account_whole d \<and> d\<lparr>ed_email := ed_email d0, ed_password := ed_password d0\<rparr> = d0) \<and>
   (\<forall>d d'. account_whole d \<and> options_step_account input d = CreateEntry d' \<longrightarrow>
      account_whole d' \<and> d'\<lparr>ed_email := ed_email d, ed_password := ed_password d\<rparr> = d \<and>
      (d' = d \<or>
       (\<exists>a. input = Some a \<and>
         (if ed_email d' = None then entered_email a = [] \<and> entered_password a = []
          else ed_email d' = Some (entered_email a) \<and> ed_password d' = Some (entered_password a)))))"
  by (auto simp: async_step_account_def options_step_account_def account_whole_def has_account_def show_account_def Let_def
      split: option.splits if_splits)

definition demo_login :: account_input where
  "demo_login = \<lparr>ai_email = Some '' me@example.org '', ai_password = Some ''secret''\<rparr>"

theorem account_stays_whole_witness:
  "\<exists>d. async_step_account (Some demo_login) (new_flow\<lparr>fl_step_data := Some demo_data\<rparr>) = CreateEntry d \<and>
     account_whole d \<and> ed_email d = Some ''me@example.org'' \<and>
     options_step_account (Some (demo_login\<lparr>ai_password := None\<rparr>)) d = CreateEntry d"
proof -
  have login: "entered_email demo_login = ''me@example.org''" "entered_password demo_login = ''secret''"
    "entered_email (demo_login\<lparr>ai_password := None\<rparr>) = ''me@example.org''"
    "entered_password (demo_login\<lparr>ai_password := None\<rparr>) = []"
    by (simp_all add: entered_email_def entered_password_def demo_login_def py_strip_def py_space_def)
  let ?d = "demo_data\<lparr>ed_email := Some ''me@example.org'', ed_password := Some ''secret''\<rparr>"
  let ?fl = "new_flow\<lparr>fl_step_data := Some demo_data\<rparr>"
  have step: "async_step_account (Some demo_login) ?fl = CreateEntry ?d"
    by (simp add: async_step_account_def login)
  have "account_whole demo_data" by (simp add: account_whole_def demo_data_def)
  then have "account_whole ?d"
    using account_stays_whole [of ?fl "Some demo_login", THEN conjunct1, rule_format, of demo_data ?d] step by simp
  moreover have "options_step_account (Some (demo_login\<lparr>ai_password := None\<rparr>)) ?d = CreateEntry ?d"
    by (simp add: options_step_account_def login has_account_def)
  ultimately show ?thesis using step by (intro exI [of _ ?d]) simp
qed

section \<open>Adding a machine\<close>

text \<open>The states a configuration flow goes through, whatever the user enters and discovery finds.\<close>

inductive flow_reaches :: "string list \<Rightarrow> (string \<Rightarrow> bool res) \<Rightarrow> flow \<Rightarrow> bool"
  for configured :: "string list" and connects :: "string \<Rightarrow> bool res" where
  start: "flow_reaches configured connects new_flow"
| user: "flow_reaches configured connects fl \<Longrightarrow> async_step_user configured connects input fl = (shown, fl') \<Longrightarrow>
    flow_reaches configured connects fl'"
| bluetooth: "flow_reaches configured connects fl \<Longrightarrow>
    async_step_bluetooth configured address local_name fl = (shown, fl') \<Longrightarrow> flow_reaches configured connects fl'"
| bluetooth_confirm: "flow_reaches configured connects fl \<Longrightarrow>
    async_step_bluetooth_confirm connects submitted fl = Some (shown, fl') \<Longrightarrow> flow_reaches configured connects fl'"

definition step_data_ok :: "string list \<Rightarrow> (string \<Rightarrow> bool res) \<Rightarrow> entry_data \<Rightarrow> bool" where
  "step_data_ok configured connects d \<longleftrightarrow>
     ed_mac_address d \<notin> set configured \<and> connects (ed_mac_address d) = Inr True \<and> account_whole d"

lemma connection_errors_Nil: "connection_errors r = [] \<longleftrightarrow> r = Inr True"
  by (simp add: connection_errors_def)

lemma step_data_plain:
  "m \<notin> set configured \<Longrightarrow> connects m = Inr True \<Longrightarrow> step_data_ok configured connects
     \<lparr>ed_mac_address = m, ed_telemetry_interval = t, ed_session_timeout = q, ed_email = None, ed_password = None\<rparr>"
  by (simp add: step_data_ok_def account_whole_def)

lemma flow_reaches_ok:
  "flow_reaches configured connects fl \<Longrightarrow>
     (\<forall>d. fl_step_data fl = Some d \<longrightarrow> step_data_ok configured connects d) \<and>
     (\<forall>m. fl_discovered_mac fl = Some m \<longrightarrow> m \<notin> set configured)"
proof (induction rule: flow_reaches.induct)
  case (user fl input shown fl')
  then show ?case
    by (auto simp: async_step_user_def Let_def connection_errors_Nil intro: step_data_plain split: option.splits if_splits)
next
  case (bluetooth fl address local_name shown fl')
  then show ?case by (auto simp: async_step_bluetooth_def Let_def split: if_splits)
next
  case (bluetooth_confirm fl submitted shown fl')
  then show ?case
    by (auto simp: async_step_bluetooth_confirm_def Let_def connection_errors_Nil intro: step_data_plain
        split: option.splits if_splits)
qed (simp add: new_flow_def)

text \<open>
  Whatever a user and discovery do in a configuration flow, an entry it creates is for a machine
  that is not configured yet and that answered the connection test, with a whole account.
\<close>

theorem created_entry_is_new_and_reachable:
  assumes "flow_reaches configured connects fl" and "async_step_account input fl = CreateEntry d"
  shows "step_data_ok configured connects d"
proof -
  obtain d0 where d0: "fl_step_data fl = Some d0"
    using assms(2) by (auto simp: async_step_account_def show_account_def split: option.splits)
  then have "step_data_ok configured connects d0" using flow_reaches_ok [OF assms(1)] by blast
  then show ?thesis
    using assms(2) d0
    by (auto simp: async_step_account_def step_data_ok_def account_whole_def show_account_def Let_def split: option.splits if_splits)
qed

definition demo_entry :: user_input where
  "demo_entry = \<lparr>ui_mac_address = '' aa:bb:cc:dd:ee:ff'', ui_telemetry_interval = None, ui_session_timeout = None\<rparr>"

theorem created_entry_is_new_and_reachable_witness:
  "\<exists>fl d. flow_reaches [''11:22:33:44:55:66''] (\<lambda>_. Inr True) fl \<and>
     async_step_account (Some \<lparr>ai_email = None, ai_password = None\<rparr>) fl = CreateEntry d \<and>
     step_data_ok [''11:22:33:44:55:66''] (\<lambda>_. Inr True) d \<and> ed_mac_address d = ''AA:BB:CC:DD:EE:FF''"
proof -
  let ?fl = "new_flow\<lparr>fl_step_data := Some demo_data\<rparr>"
  have mac: "py_upper (py_strip '' aa:bb:cc:dd:ee:ff'') = ''AA:BB:CC:DD:EE:FF''" "valid_mac ''AA:BB:CC:DD:EE:FF''"
    by code_simp+
  have "async_step_user [''11:22:33:44:55:66''] (\<lambda>_. Inr True) (Some demo_entry) new_flow = (show_account, ?fl)"
    by (simp add: async_step_user_def demo_entry_def mac connection_errors_def new_flow_def demo_data_def
        DEFAULT_TELEMETRY_INTERVAL_def DEFAULT_SESSION_TIMEOUT_def)
  then have r: "flow_reaches [''11:22:33:44:55:66''] (\<lambda>_. Inr True) ?fl"
    by (rule flow_reaches.user [OF flow_reaches.start])
  have step: "async_step_account (Some \<lparr>ai_email = None, ai_password = None\<rparr>) ?fl = CreateEntry demo_data"
    by (simp add: async_step_account_def entered_email_def entered_password_def py_strip_def)
  show ?thesis
    using r step created_entry_is_new_and_reachable [OF r step] by (intro exI [of _ ?fl] exI [of _ demo_data]) (simp add: demo_data_def)
qed

section \<open>Recipes in the options flow\<close>

lemma merge_options:
  "distinct (map fst (or_default (op_recipes opts) [])) \<Longrightarrow>
   map_of (all_visible_recipes yaml opts) = visible yaml (or_default (op_recipes opts) [])"
  by (simp add: all_visible_recipes_def merge_map_of)

text \<open>The layer the recipe steps write back: no tombstone of the stored one is in it.\<close>

lemma flow_options_lookup:
  "distinct (map fst (or_default (op_recipes opts) [])) \<Longrightarrow>
   map_of (flow_options_recipes opts) nm =
     (case map_of (or_default (op_recipes opts) []) nm of Some (Some r) \<Rightarrow> Some (Some r) | _ \<Rightarrow> None)"
  for opts :: options
proof -
  have "distinct (map fst xs) \<Longrightarrow> map_of (filter (\<lambda>(_, r). r \<noteq> None) xs) nm =
     (case map_of xs nm of Some (Some r) \<Rightarrow> Some (Some r) | _ \<Rightarrow> None)" for xs :: layer
  proof (induction xs)
    case (Cons x xs)
    then show ?case
      by (cases x) (auto simp: map_of_eq_None_iff image_iff split: option.splits)
  qed simp
  then show "distinct (map fst (or_default (op_recipes opts) [])) \<Longrightarrow> ?thesis" by (simp add: flow_options_recipes_def)
qed

lemma distinct_flow_options:
  "distinct (map fst (or_default (op_recipes opts) [])) \<Longrightarrow> distinct (map fst (flow_options_recipes opts))"
  for opts :: options
  by (simp add: flow_options_recipes_def distinct_map_filter)

datatype recipe_form = AddForm string | EditForm string string | DeleteForm string

fun submit_recipe :: "(pyfloat \<Rightarrow> string) \<Rightarrow> (string \<Rightarrow> json option) \<Rightarrow> string \<Rightarrow> (string \<times> recipe_dict) list \<Rightarrow>
    recipe_form \<Rightarrow> options \<Rightarrow> options flow_result res" where
  "submit_recipe sh load uid yaml (AddForm raw) opts = async_step_add_recipe sh load uid yaml (Some raw) opts"
| "submit_recipe sh load uid yaml (EditForm editing raw) opts =
     async_step_edit_recipe_yaml sh load yaml editing (Some raw) opts"
| "submit_recipe sh load uid yaml (DeleteForm nm) opts = Inr (async_step_delete_recipe yaml (Some nm) opts)"

fun names_in_form :: "(pyfloat \<Rightarrow> string) \<Rightarrow> (string \<Rightarrow> json option) \<Rightarrow> recipe_form \<Rightarrow> string list" where
  "names_in_form sh load (AddForm raw) =
     (case parse_and_validate sh load raw of Inr (Inr r) \<Rightarrow> [rd_name r] | _ \<Rightarrow> [])"
| "names_in_form sh load (EditForm editing raw) =
     editing # (case parse_and_validate sh load raw of Inr (Inr r) \<Rightarrow> [rd_name r] | _ \<Rightarrow> [])"
| "names_in_form sh load (DeleteForm nm) = [nm]"

lemma saved_layer [simp]: "or_default (op_recipes (save_recipes rs opts)) d = rs"
  by (simp add: save_recipes_def)

lemma distinct_filter_names: "distinct (map fst xs) \<Longrightarrow> distinct (map fst (filter P xs))"
  by (simp add: distinct_map_filter)

lemma map_of_filter_name: "nm \<noteq> editing \<Longrightarrow> map_of (filter (\<lambda>(n, _). n \<noteq> editing) xs) nm = map_of xs nm"
  by (induction xs) auto

lemma add_saved:
  assumes "async_step_add_recipe sh load uid yaml (Some raw) opts = Inr (CreateEntry opts')"
  obtains r where "parse_and_validate sh load raw = Inr (Inr r)"
    "opts' = save_recipes (put_recipe (rd_name r) (r\<lparr>rd_uid := Some uid, rd_source := Some ''manual''\<rparr>)
       (flow_options_recipes opts)) opts"
proof -
  obtain p where p: "parse_and_validate sh load raw = Inr p"
    using assms by (auto simp: async_step_add_recipe_def bind_res_Inr_iff)
  then show thesis using assms that by (cases p) (auto simp: async_step_add_recipe_def split: if_splits)
qed

lemma edit_saved:
  assumes "async_step_edit_recipe_yaml sh load yaml editing (Some raw) opts = Inr (CreateEntry opts')"
  obtains q r where "parse_and_validate sh load raw = Inr (Inr r)"
    "map_of (all_visible_recipes yaml opts) editing = Some q"
    "opts' = save_recipes (put_recipe (rd_name r) (restore_identity q r)
       (filter (\<lambda>(nm, _). nm \<noteq> editing) (flow_options_recipes opts))) opts"
proof -
  obtain p where p: "parse_and_validate sh load raw = Inr p"
    using assms by (auto simp: async_step_edit_recipe_yaml_def bind_res_Inr_iff split: option.splits if_splits)
  then show thesis using assms that
    by (cases p) (auto simp: async_step_edit_recipe_yaml_def split: option.splits if_splits)
qed

text \<open>A submitted form writes the layer without its tombstones, changed at the form's names only.\<close>

lemma submitted_layer:
  assumes "distinct (map fst (or_default (op_recipes opts) []))"
    and "submit_recipe sh load uid yaml form opts = Inr (CreateEntry opts')"
  shows "distinct (map fst (or_default (op_recipes opts') []))"
    and "nm \<notin> set (names_in_form sh load form) \<Longrightarrow>
      map_of (or_default (op_recipes opts') []) nm = map_of (flow_options_recipes opts) nm"
proof -
  note d = distinct_flow_options [OF assms(1)]
  have "distinct (map fst (or_default (op_recipes opts') [])) \<and> (nm \<notin> set (names_in_form sh load form) \<longrightarrow>
      map_of (or_default (op_recipes opts') []) nm = map_of (flow_options_recipes opts) nm)"
  proof (cases form)
    case (AddForm raw)
    then obtain r where "parse_and_validate sh load raw = Inr (Inr r)" "opts' = save_recipes (put_recipe (rd_name r)
        (r\<lparr>rd_uid := Some uid, rd_source := Some ''manual''\<rparr>) (flow_options_recipes opts)) opts"
      using assms(2) by (auto elim: add_saved)
    then show ?thesis using AddForm d by (simp add: put_recipe_def AList.update_conv' AList.distinct_update)
  next
    case (EditForm editing raw)
    then obtain q r where "parse_and_validate sh load raw = Inr (Inr r)" "opts' = save_recipes (put_recipe (rd_name r)
        (restore_identity q r) (filter (\<lambda>(nm, _). nm \<noteq> editing) (flow_options_recipes opts))) opts"
      using assms(2) by (auto elim: edit_saved)
    then show ?thesis using EditForm distinct_filter_names [OF d]
      by (simp add: put_recipe_def AList.update_conv' AList.distinct_update map_of_filter_name)
  next
    case (DeleteForm n)
    then show ?thesis using assms(2) d
      by (auto simp: async_step_delete_recipe_def Let_def AList.update_conv' AList.delete_conv' AList.distinct_update
          AList.distinct_delete split: if_splits)
  qed
  then show "distinct (map fst (or_default (op_recipes opts') []))"
    and "nm \<notin> set (names_in_form sh load form) \<Longrightarrow>
      map_of (or_default (op_recipes opts') []) nm = map_of (flow_options_recipes opts) nm"
    by auto
qed

text \<open>
  C38. A recipe form of the options flow brings deleted recipes back: a YAML recipe that was deleted,
  and so is hidden by a tombstone, is visible again after any other recipe was added, edited or
  deleted through the form.
\<close>

theorem options_flow_drops_tombstones:
  assumes "distinct (map fst (or_default (op_recipes opts) []))"
    and "map_of (or_default (op_recipes opts) []) nm = Some None" "map_of yaml nm = Some y"
    and "submit_recipe sh load uid yaml form opts = Inr (CreateEntry opts')"
    and "nm \<notin> set (names_in_form sh load form)"
  shows "map_of (all_visible_recipes yaml opts) nm = None \<and> map_of (all_visible_recipes yaml opts') nm = Some y"
  using assms(1-3) submitted_layer(1) [OF assms(1,4)] submitted_layer(2) [OF assms(1,4,5)]
  by (simp add: merge_options visible_def flow_options_lookup)

theorem options_flow_drops_tombstones_witness:
  "\<exists>opts'. submit_recipe (\<lambda>_. []) (\<lambda>_. None) [] [(''V60'', v1_coffee), (''Sip'', v1_coffee\<lparr>rd_name := ''Sip''\<rparr>)] (DeleteForm ''Sip'')
       (no_options\<lparr>op_recipes := Some [(''V60'', None)]\<rparr>) = Inr (CreateEntry opts') \<and>
     map_of (all_visible_recipes [(''V60'', v1_coffee), (''Sip'', v1_coffee\<lparr>rd_name := ''Sip''\<rparr>)] opts') ''V60'' = Some v1_coffee"
proof -
  let ?yaml = "[(''V60'', v1_coffee), (''Sip'', v1_coffee\<lparr>rd_name := ''Sip''\<rparr>)]" and ?opts = "no_options\<lparr>op_recipes := Some [(''V60'', None)]\<rparr>"
  let ?opts' = "save_recipes [(''Sip'', None)] ?opts"
  have step: "submit_recipe (\<lambda>_. []) (\<lambda>_. None) [] ?yaml (DeleteForm ''Sip'') ?opts = Inr (CreateEntry ?opts')"
    by (simp add: async_step_delete_recipe_def all_visible_recipes_def merge_layers_def flow_options_recipes_def)
  show ?thesis
    using step options_flow_drops_tombstones [OF _ _ _ step, of "''V60''" v1_coffee] by simp
qed

text \<open>Deleting a stored recipe that replaced a YAML one brings the YAML recipe back.\<close>

lemma flow_delete_resurfaces:
  assumes "distinct (map fst (or_default (op_recipes opts) []))"
    and "map_of (or_default (op_recipes opts) []) nm = Some (Some r)" "map_of yaml nm = Some y"
    and "async_step_delete_recipe yaml (Some nm) opts = CreateEntry opts'"
  shows "map_of (all_visible_recipes yaml opts') nm = Some y"
proof -
  have "map_of (flow_options_recipes opts) nm = Some (Some r)" using assms(1,2) by (simp add: flow_options_lookup)
  then have "nm \<in> fst ` set (flow_options_recipes opts)" by (metis map_of_SomeD fst_conv image_eqI)
  then have o: "or_default (op_recipes opts') [] = AList.delete nm (flow_options_recipes opts)"
    using assms(4) by (auto simp: async_step_delete_recipe_def Let_def split: if_splits)
  show ?thesis
    using assms(3) distinct_flow_options [OF assms(1)]
    by (subst merge_options) (simp_all add: o AList.distinct_delete AList.delete_conv' visible_def)
qed

text \<open>Renaming onto a name that is taken replaces the recipe of that name without a word.\<close>

lemma flow_rename_overwrites:
  assumes "distinct (map fst (or_default (op_recipes opts) []))"
    and "map_of (all_visible_recipes yaml opts) editing = Some r" "editing \<noteq> []"
    and "parse_and_validate sh load raw = Inr (Inr q)"
    and "async_step_edit_recipe_yaml sh load yaml editing (Some raw) opts = Inr (CreateEntry opts')"
  shows "map_of (all_visible_recipes yaml opts') (rd_name q) = Some (restore_identity r q)"
proof -
  have o: "or_default (op_recipes opts') [] =
      put_recipe (rd_name q) (restore_identity r q) (filter (\<lambda>(n, _). n \<noteq> editing) (flow_options_recipes opts))"
    using assms(2-5) by (auto simp: async_step_edit_recipe_yaml_def)
  show ?thesis
    using distinct_filter_names [OF distinct_flow_options [OF assms(1)]]
    by (subst merge_options)
      (simp_all add: o put_recipe_def AList.distinct_update AList.update_conv' visible_def)
qed

lemma strip_doc: "strip_protected_recipe_fields (doc_of r) = doc_of (strip_protected r)"
  by (simp add: strip_protected_recipe_fields_def doc_of_def strip_protected_def RECIPE_PROTECTED_FIELDS_def
      entry_of_def doc_of_pour_def split: option.split)

lemma strip_valid: "RECIPE_SCHEMA (raw_of r) = Inr r \<Longrightarrow> RECIPE_SCHEMA (raw_of (strip_protected r)) = Inr (strip_protected r)"
  by (auto simp: RECIPE_SCHEMA_def raw_of_def strip_protected_def bind_res_Inr_iff dest: arg_cong [where f = rd_pours])

lemma restore_stripped: "restore_identity r (strip_protected r) = r"
  by (simp add: restore_identity_def strip_protected_def)

text \<open>
  C39. The edit form is faithful: submitting the YAML it shows for a recipe, unchanged, saves the very
  same recipe, with the identity its text could not carry.
\<close>

theorem edit_form_roundtrip:
  assumes "distinct (map fst (or_default (op_recipes opts) []))"
    and "map_of (all_visible_recipes yaml opts) (rd_name r) = Some r" "rd_name r \<noteq> []" "RECIPE_SCHEMA (raw_of r) = Inr r"
    and "load raw = Some (JDict (doc_of r))"
  shows "\<exists>opts'. async_step_edit_recipe_yaml sh load yaml (rd_name r) (Some raw) opts = Inr (CreateEntry opts') \<and>
    map_of (all_visible_recipes yaml opts') (rd_name r) = Some r"
proof -
  have parsed: "parse_and_validate sh load raw = Inr (Inr (strip_protected r))"
    using doc_of_valid [OF strip_valid [OF assms(4)]] by (simp add: parse_and_validate_def assms(5) strip_doc)
  obtain opts' where step: "async_step_edit_recipe_yaml sh load yaml (rd_name r) (Some raw) opts = Inr (CreateEntry opts')"
    using assms(2,3) parsed by (simp add: async_step_edit_recipe_yaml_def)
  show ?thesis
    using step flow_rename_overwrites [OF assms(1,2,3) parsed step] by (simp add: restore_stripped) (simp add: strip_protected_def)
qed

theorem edit_form_roundtrip_witness:
  "\<exists>opts'. async_step_edit_recipe_yaml (\<lambda>_. []) (\<lambda>_. Some (JDict (doc_of (v1_coffee\<lparr>rd_uid := Some ''a1''\<rparr>)))) []
       ''V60'' (Some []) (no_options\<lparr>op_recipes := Some [(''V60'', Some (v1_coffee\<lparr>rd_uid := Some ''a1''\<rparr>))]\<rparr>)
       = Inr (CreateEntry opts') \<and>
     map_of (all_visible_recipes [] opts') ''V60'' = Some (v1_coffee\<lparr>rd_uid := Some ''a1''\<rparr>)"
proof -
  let ?r = "v1_coffee\<lparr>rd_uid := Some ''a1''\<rparr>"
  let ?opts = "no_options\<lparr>op_recipes := Some [(''V60'', Some ?r)]\<rparr>"
  have "RECIPE_SCHEMA (raw_of ?r) = Inr ?r"
    by (simp add: v1_coffee_def RECIPE_SCHEMA_def raw_of_def raw_pour_of_def POUR_SCHEMA_def VIBRATION_NAMES_def)
  moreover have "map_of (all_visible_recipes [] ?opts) ''V60'' = Some ?r"
    by (simp add: all_visible_recipes_def merge_layers_def)
  ultimately show ?thesis
    using edit_form_roundtrip [of ?opts "[]" ?r "\<lambda>_. Some (JDict (doc_of ?r))" "[]" "\<lambda>_. []"] by (simp add: v1_coffee_def)
qed

end
