(* ===== verification/Entities.thy ===== *)
theory Entities
  imports Flow
begin

text \<open>
  The entities of a machine: \<^verbatim>\<open>button.py\<close>, \<^verbatim>\<open>number.py\<close>, \<^verbatim>\<open>select.py\<close>, \<^verbatim>\<open>switch.py\<close>,
  \<^verbatim>\<open>binary_sensor.py\<close>, \<^verbatim>\<open>sensor.py\<close>, \<^verbatim>\<open>event.py\<close> and \<^verbatim>\<open>update.py\<close>.  What an entity shows is a
  function of the coordinator, what the user does with it an action on the coordinator or the
  store.  \<open>B\<close>, \<open>meanwhile\<close> and \<open>srv\<close> are the Bluetooth stack, the other tasks and the cloud, \<open>uid\<close> is
  the identifier a recipe gets that has to be imported.
\<close>

section \<open>Buttons\<close>

datatype button =
    GrindButton | PourButton | ExecuteRecipeButton | PauseButton | CancelButton | TareButton
  | ScaleModeButton | CalibrateGrinderButton | WriteSlotButton string

definition pause_icon :: "coord \<Rightarrow> string" where
  "pause_icon k = (if d_state (k_data k) = ''paused'' then ''mdi:play'' else ''mdi:pause'')"

definition scale_mode_icon :: "coord \<Rightarrow> string" where
  "scale_mode_icon k = (if d_state (k_data k) = ''standalone_scale'' then ''mdi:exit-to-app'' else ''mdi:scale-balance'')"

definition ignore :: "('s, 'a) act \<Rightarrow> ('s, unit) act" where
  "ignore m = then_co m (return_co ())"

definition press_grind :: "ble_stack \<Rightarrow> (string \<Rightarrow> coord \<Rightarrow> coord) \<Rightarrow> unit ko" where
  "press_grind B meanwhile k =
     (if k_armed_operation k = Some ''grind'' then ignore (async_confirm_grind B meanwhile) k
      else ignore (async_arm_grind B meanwhile) k)"

definition press_pour :: "ble_stack \<Rightarrow> (string \<Rightarrow> coord \<Rightarrow> coord) \<Rightarrow> unit ko" where
  "press_pour B meanwhile k =
     (if k_armed_operation k = Some ''pour'' then ignore (async_confirm_pour B meanwhile) k
      else ignore (async_arm_pour B meanwhile) k)"

definition press_execute_recipe :: "ble_stack \<Rightarrow> (string \<Rightarrow> coord \<Rightarrow> coord) \<Rightarrow> unit ko" where
  "press_execute_recipe B meanwhile k =
     (if k_armed_operation k = Some ''recipe'' then ignore (coord_confirm_recipe B meanwhile) k
      else coord_arm_recipe B meanwhile no_overrides [] None None k)"

definition press_scale_mode :: "ble_stack \<Rightarrow> (string \<Rightarrow> coord \<Rightarrow> coord) \<Rightarrow> unit ko" where
  "press_scale_mode B meanwhile k =
     (if d_state (k_data k) = ''standalone_scale'' then async_exit_scale_mode B meanwhile k
      else async_enter_scale_mode B meanwhile k)"

fun async_press :: "server \<Rightarrow> string \<Rightarrow> ble_stack \<Rightarrow> (string \<Rightarrow> coord \<Rightarrow> coord) \<Rightarrow> button \<Rightarrow> unit so" where
  "async_press srv uid B meanwhile GrindButton = on_coord (press_grind B meanwhile)"
| "async_press srv uid B meanwhile PourButton = on_coord (press_pour B meanwhile)"
| "async_press srv uid B meanwhile ExecuteRecipeButton = on_coord (press_execute_recipe B meanwhile)"
| "async_press srv uid B meanwhile PauseButton = on_coord (async_pause_resume B meanwhile)"
| "async_press srv uid B meanwhile CancelButton = on_coord (async_cancel B meanwhile)"
| "async_press srv uid B meanwhile TareButton = on_coord (async_tare_scale B meanwhile)"
| "async_press srv uid B meanwhile ScaleModeButton = on_coord (press_scale_mode B meanwhile)"
| "async_press srv uid B meanwhile CalibrateGrinderButton = on_coord (async_calibrate_grinder B meanwhile)"
| "async_press srv uid B meanwhile (WriteSlotButton letter) = ignore (coord_write_easy_slot srv uid B meanwhile letter None)"

section \<open>Sliders\<close>

text \<open>The declared range of each slider: minimum, maximum and step.\<close>

datatype slider = GrindSize | RPM | Temperature | Volume

fun slider_range :: "slider \<Rightarrow> int \<times> int \<times> int" where
  "slider_range GrindSize = (1, 80, 1)"
| "slider_range RPM = (60, 120, 10)"
| "slider_range Temperature = (39, 96, 1)"
| "slider_range Volume = (30, 500, 10)"

fun slider_value :: "slider \<Rightarrow> coord \<Rightarrow> int" where
  "slider_value GrindSize k = k_grind_size k"
| "slider_value RPM k = k_rpm k"
| "slider_value Temperature k = k_temperature k"
| "slider_value Volume k = k_volume k"

definition native_value :: "slider \<Rightarrow> coord \<Rightarrow> pyfloat res" where
  "native_value s k = float_of_int (slider_value s k)"

fun store_slider :: "slider \<Rightarrow> int \<Rightarrow> coord \<Rightarrow> coord" where
  "store_slider GrindSize n k = k\<lparr>k_grind_size := n\<rparr>"
| "store_slider RPM n k = k\<lparr>k_rpm := n\<rparr>"
| "store_slider Temperature n k = k\<lparr>k_temperature := n\<rparr>"
| "store_slider Volume n k = k\<lparr>k_volume := n\<rparr>"

fun sync_slider :: "ble_stack \<Rightarrow> (string \<Rightarrow> coord \<Rightarrow> coord) \<Rightarrow> slider \<Rightarrow> unit ko" where
  "sync_slider B meanwhile GrindSize = async_sync_armed_grinder_settings B meanwhile"
| "sync_slider B meanwhile RPM = async_sync_armed_grinder_settings B meanwhile"
| "sync_slider B meanwhile Temperature = async_sync_armed_brewer_temperature B meanwhile"
| "sync_slider B meanwhile Volume = return_co ()"

definition async_set_native_value :: "ble_stack \<Rightarrow> (string \<Rightarrow> coord \<Rightarrow> coord) \<Rightarrow> slider \<Rightarrow> pyfloat \<Rightarrow> unit ko" where
  "async_set_native_value B meanwhile s v =
     bind_co (lift_res (int_of_float v)) (\<lambda>n.
       then_co (modify (store_slider s n)) (sync_slider B meanwhile s))"

section \<open>Selects and the connection switch\<close>

definition POUR_PATTERN_OPTIONS :: "(string \<times> int) list" where
  "POUR_PATTERN_OPTIONS = [(''center'', 0), (''circular'', 1), (''spiral'', 2)]"

text \<open>The selected recipe's fields, and the number of its pours.\<close>

definition recipe_attributes :: "store \<Rightarrow> (recipe_dict \<times> nat) option" where
  "recipe_attributes s =
     (case st_selected s of
        None \<Rightarrow> None
      | Some nm \<Rightarrow>
          if nm = [] then None
          else map_option (\<lambda>r. (r, length (rd_pours r))) (map_of (st_recipes s) nm))"

definition async_select_recipe :: "string \<Rightarrow> unit ko" where
  "async_select_recipe option = modify (select_recipe (Some option))"

definition current_pattern :: "coord \<Rightarrow> string" where
  "current_pattern k =
     (case find (\<lambda>(nm, v). v = k_pour_pattern k) POUR_PATTERN_OPTIONS of None \<Rightarrow> ''spiral'' | Some (nm, _) \<Rightarrow> nm)"

definition async_select_pattern :: "ble_stack \<Rightarrow> (string \<Rightarrow> coord \<Rightarrow> coord) \<Rightarrow> string \<Rightarrow> unit ko" where
  "async_select_pattern B meanwhile option =
     then_co (modify (\<lambda>k. k\<lparr>k_pour_pattern := or_default (map_of POUR_PATTERN_OPTIONS option) 2\<rparr>))
       (async_sync_armed_brewer_pattern B meanwhile)"

definition current_mode :: "coord \<Rightarrow> string" where "current_mode k = d_mode (k_data k)"

definition async_select_mode :: "ble_stack \<Rightarrow> (string \<Rightarrow> coord \<Rightarrow> coord) \<Rightarrow> string \<Rightarrow> unit ko" where
  "async_select_mode B meanwhile option = async_set_mode B meanwhile option"

definition connection_is_on :: "coord \<Rightarrow> bool" where "connection_is_on k = d_connected (k_data k)"

definition async_turn_on :: "ble_stack \<Rightarrow> (string \<Rightarrow> coord \<Rightarrow> coord) \<Rightarrow> unit ko" where
  "async_turn_on B meanwhile = ignore (async_connect B meanwhile)"

definition async_turn_off :: "ble_stack \<Rightarrow> unit ko" where "async_turn_off B = async_disconnect B"

section \<open>Sensors\<close>

text \<open>\<open>None\<close> is a state Home Assistant shows as unknown.\<close>

definition grinder_running_is_on :: "coord \<Rightarrow> bool" where "grinder_running_is_on k = d_grinder_running (k_data k)"
definition brewer_running_is_on :: "coord \<Rightarrow> bool" where "brewer_running_is_on k = d_brewer_running (k_data k)"

definition water_is_on :: "coord \<Rightarrow> bool option" where
  "water_is_on k = (if d_connected (k_data k) then Some (\<not> d_water_level_ok (k_data k)) else None)"

definition problem_is_on :: "coord \<Rightarrow> bool" where
  "problem_is_on k \<longleftrightarrow> d_error (k_data k) \<notin> {None, Some []}"

definition problem_attributes :: "coord \<Rightarrow> (string \<times> string) list" where
  "problem_attributes k =
     (case d_error (k_data k) of None \<Rightarrow> [] | Some e \<Rightarrow> if e = [] then [] else [(''last_error'', e)])"

definition state_sensor :: "coord \<Rightarrow> string \<times> string option" where
  "state_sensor k = (d_state (k_data k), d_operation (k_data k))"

definition weight_sensor :: "coord \<Rightarrow> pyfloat option" where "weight_sensor k = d_weight (k_data k)"
definition brewer_temp_sensor :: "coord \<Rightarrow> pyfloat option" where "brewer_temp_sensor k = d_temperature (k_data k)"
definition flow_rate_sensor :: "coord \<Rightarrow> pyfloat" where "flow_rate_sensor k = k_flow_rate k"
definition serial_number_sensor :: "coord \<Rightarrow> string" where
  "serial_number_sensor k = (if d_serial_number (k_data k) = [] then ''unknown'' else d_serial_number (k_data k))"
definition live_grind_size_sensor :: "coord \<Rightarrow> int option" where "live_grind_size_sensor k = d_live_grind_size (k_data k)"
definition live_grind_speed_sensor :: "coord \<Rightarrow> int option" where "live_grind_speed_sensor k = d_live_grind_speed (k_data k)"
definition voltage_sensor :: "coord \<Rightarrow> int option" where "voltage_sensor k = d_voltage (k_data k)"
definition pour_radius_sensor :: "coord \<Rightarrow> int option" where "pour_radius_sensor k = d_pour_radius (k_data k)"
definition vibration_amplitude_sensor :: "coord \<Rightarrow> int option" where
  "vibration_amplitude_sensor k = d_vibration_amplitude (k_data k)"

text \<open>What was last written to a slot: its name, and the attribute with its uid.\<close>

definition easy_slot_sensor :: "string \<Rightarrow> store \<Rightarrow> string option \<times> string option option" where
  "easy_slot_sensor letter s =
     (case easy_slot_contents letter s of
        None \<Rightarrow> (None, None)
      | Some (u, nm) \<Rightarrow> (if nm = [] then None else Some nm, Some u))"

section \<open>Event entities\<close>

definition ERROR_EVENT_TYPES :: "string list" where
  "ERROR_EVENT_TYPES =
     [''water_shortage'', ''no_beans'', ''abnormal_dose_or_water'', ''abnormal_gear_position'',
      ''water_shortage_cleared'', ''mismatched_power'', ''brewing_error'', ''dock_moving_error'',
      ''grinding_error'', ''scale_overload'', ''upgrade_failed'']"

definition NOTIFICATION_EVENT_TYPES :: "string list" where
  "NOTIFICATION_EVENT_TYPES =
     [''grinding_started'', ''grinding_complete'', ''brewing_started'', ''pour_complete'', ''bloom'',
      ''paused'', ''recipe_complete'', ''tea_soaking'', ''tea_soak_time_changed'', ''tea_resumed'',
      ''water_refilled'', ''pod_detected'', ''easy_slot_started'', ''grinder_calibration_started'',
      ''grinder_calibration_progress'', ''grinder_calibration_complete'']"

text \<open>
  \<^verbatim>\<open>_on_ble_event\<close> of an entity of one category: nothing for another category's event; Home
  Assistant's \<^verbatim>\<open>_trigger_event\<close> refuses a type the entity does not declare.
\<close>

definition event_types :: "string \<Rightarrow> string list" where
  "event_types category = (if category = ''error'' then ERROR_EVENT_TYPES else NOTIFICATION_EVENT_TYPES)"

definition on_ble_event :: "string \<Rightarrow> event \<Rightarrow> (string \<times> attrs) option res" where
  "on_ble_event own ev = (case ev of (category, event_type, a) \<Rightarrow>
     if category \<noteq> own then Inr None
     else if event_type \<notin> set (event_types own) then Inl ValueError
     else Inr (Some (event_type, a)))"

section \<open>The firmware entity\<close>

record firmware_info =
  fw_version :: string
  fw_release_notes :: string
  fw_download_url :: string

definition installed_version :: "coord \<Rightarrow> string option" where
  "installed_version k = (if d_version (k_data k) = [] then None else Some (d_version (k_data k)))"

definition latest_version :: "firmware_info option \<Rightarrow> coord \<Rightarrow> string option" where
  "latest_version latest k = (case latest of None \<Rightarrow> installed_version k | Some f \<Rightarrow> Some (fw_version f))"

definition build_of :: "string option \<Rightarrow> int option" where
  "build_of v = (case v of None \<Rightarrow> None | Some t \<Rightarrow> firmware_build t)"

definition async_update :: "firmware_info option \<Rightarrow> coord \<Rightarrow> firmware_info option \<Rightarrow> firmware_info option" where
  "async_update fetched k latest =
     (case fetched of
        None \<Rightarrow> latest
      | Some f \<Rightarrow>
          (case (build_of (installed_version k), firmware_build (fw_version f)) of
             (Some current, Some new) \<Rightarrow> if new < current then latest else Some f
           | _ \<Rightarrow> Some f))"

end
