(* ===== verification/Wire.thy ===== *)
theory Wire
  imports Entities
begin

text \<open>
  Two contracts that everything the entities do respects.  \<open>wire_law\<close> is about the link: \<open>W\<close> relates
  the world before and after, \<open>may\<close> says which commands may be sent.  \<open>entity_law\<close> puts a contract \<open>R\<close>
  of the coordinator on top of it.
\<close>

section \<open>The link\<close>

text \<open>The commands that set the grinder, the pump or a brew going.\<close>

definition STARTING_COMMANDS :: "int list" where
  "STARTING_COMMANDS = [CMD_GRINDER_START, CMD_BREWER_START, CMD_TEA_RECIPE_MAKE, CMD_RECIPE_EXECUTE]"

locale wire_law = act_law W for W :: "world \<Rightarrow> world \<Rightarrow> bool" +
  fixes may :: "int \<Rightarrow> bool"
  assumes may_rest: "command \<notin> set STARTING_COMMANDS \<Longrightarrow> may command"
    and W_pause: "keeps W (sleep d)"
    and W_send: "may command \<Longrightarrow> keeps W (send_payload command p ty)"
    and W_wait: "keeps W (wait_for fut timeout)"
    and W_same: "events (w_client w') = events (w_client w) \<Longrightarrow> w_sent w' = w_sent w \<Longrightarrow> W w w'"
    and W_new: "W w (w\<lparr>w_client := (init_client t0)\<lparr>cleanup_on_disconnect := False\<rparr>,
        w_link := False, w_expect_disconnect := False\<rparr>)"
begin

lemma keeps_update: "(\<And>c. events (f c) = events c) \<Longrightarrow> keeps W (upd_client f)"
  by (simp add: keeps_def W_same)

lemma keeps_guarded: "keeps W m \<Longrightarrow> keeps W (\<lambda>w. if \<not> w_link w then (x, w) else m w)"
  by (simp add: keeps_def R_refl)

lemma keeps_linked: "keeps W m \<Longrightarrow> keeps W (\<lambda>w. if w_link w then m w else (x, w))"
  by (simp add: keeps_def R_refl)

lemma keeps_choice: "keeps W m \<Longrightarrow> keeps W n \<Longrightarrow> keeps W (if b then m else n)"
  by simp

lemma keeps_command: "may command \<Longrightarrow> keeps W (send_command command d ty)"
  using W_send [of command "Data d" ty] by simp

lemma keeps_raw: "may command \<Longrightarrow> keeps W (send_command_raw command d ty)"
  using W_send [of command "Raw d" ty] by simp

lemma keeps_ack:
  assumes "may command"
  shows "keeps W (send_and_wait command p timeout ty)"
proof -
  have "W w (snd (send_and_wait command p timeout ty w))" for w
  proof -
    let ?w0 = "w\<lparr>w_next_future := w_next_future w + 1, w_client := add_waiter command (w_next_future w) (w_client w)\<rparr>"
    let ?m = "then_co (send_payload command p ty) (wait_for (w_next_future w) timeout)"
    let ?w1 = "snd (?m ?w0)"
    have 1: "W w ?w0" by (rule W_same) (simp_all add: add_waiter_def)
    have "keeps W ?m" by (intro keeps_then W_send W_wait assms)
    then have 2: "W ?w0 ?w1" by (simp add: keeps_def)
    have 3: "W ?w1 (?w1\<lparr>w_client := remove_waiter command (w_next_future w) (w_client ?w1)\<rparr>)"
      by (rule W_same) (simp_all add: remove_waiter_def Let_def split: option.split)
    have "send_and_wait command p timeout ty w =
        (fst (?m ?w0), ?w1\<lparr>w_client := remove_waiter command (w_next_future w) (w_client ?w1)\<rparr>)"
      by (simp add: send_and_wait_def Let_def split_beta)
    then show ?thesis using R_trans [OF R_trans [OF 1 2] 3] by simp
  qed
  then show ?thesis by (simp add: keeps_def)
qed

lemmas keeps_wire = keeps_return keeps_raise keeps_lift keeps_bind keeps_then keeps_catch keeps_choice
  W_pause keeps_command keeps_raw keeps_ack keeps_guarded keeps_linked

lemma keeps_handshake: "keeps W async_send_handshake"
proof -
  have "may CMD_HANDSHAKE" by (rule may_rest) (simp add: STARTING_COMMANDS_def command_ids)
  then show ?thesis unfolding async_send_handshake_def [abs_def] by (intro keeps_wire)
qed

lemma keeps_reset: "keeps W reset_state"
proof -
  have "may CMD_RECIPE_STOP" "may CMD_BREWER_QUIT" "may CMD_GRINDER_QUIT"
    by (rule may_rest, simp add: STARTING_COMMANDS_def command_ids)+
  then show ?thesis unfolding reset_state_def by (intro keeps_wire keeps_handshake)
qed

lemma keeps_stack_connect: "keeps W (stack_connect B)"
proof -
  let ?after = "\<lambda>sub sub_read. then_co (start_notify sub)
      (then_co (catch_co (start_notify sub_read) (\<lambda>_. return_co ()))
      (then_co (upd_client (set_connected True)) (then_co reset_state (then_co (sleep (1 / 2)) (return_co True)))))"
  have "keeps W (start_notify x)" for x by (simp add: keeps_def start_notify_def R_refl)
  then have after: "keeps W (?after sub sub_read)" for sub sub_read
    by (intro keeps_wire keeps_reset keeps_update) (simp_all add: set_connected_def)
  have "W w (snd (client_connect est sub sub_read w))" for est sub sub_read w
  proof -
    obtain r w1 where c: "connection_connect est w = (r, w1)" by fastforce
    have 1: "W w w1" using c by (intro W_same) (auto simp: connection_connect_def split: sum.splits)
    have "W w1 (snd (?after sub sub_read w1))" using after by (simp add: keeps_def)
    then have "W w (snd (?after sub sub_read w1))" using 1 R_trans by blast
    then show ?thesis using 1 by (simp add: client_connect_def c R_refl split: sum.split)
  qed
  then show ?thesis by (simp add: keeps_def stack_connect_def)
qed

lemma keeps_stack_disconnect: "keeps W (stack_disconnect B)"
proof -
  have hang: "keeps W (connection_disconnect x)" for x
    by (simp add: keeps_def connection_disconnect_def W_same split: sum.split)
  have upd: "keeps W (upd_client (\<lambda>c. fail_pending_acks (set_connected False c)))"
    by (rule keeps_update) (simp add: fail_pending_acks_def set_connected_def)
  have "keeps W (then_co (if b then then_co (if b2 then catch_co reset_state (\<lambda>_. return_co ()) else return_co ())
      (connection_disconnect x) else return_co ()) (upd_client (\<lambda>c. fail_pending_acks (set_connected False c))))" for b b2 x
    by (intro keeps_wire keeps_reset hang upd)
  then show ?thesis by (simp add: keeps_def stack_disconnect_def client_disconnect_def Let_def)
qed

lemma keeps_step: "may command \<Longrightarrow> keeps W (ack_step command p timeout settle)"
proof -
  assume may: "may command"
  have "keeps W (\<lambda>w. if 0 < settle - (w_now w - t) then sleep (settle - (w_now w - t)) w else (Inr (), w))" for t
    using W_pause by (simp add: keeps_def R_refl)
  then have "keeps W (bind_co (send_and_wait command p timeout 1)
      (\<lambda>_ w. if 0 < settle - (w_now w - t) then sleep (settle - (w_now w - t)) w else (Inr (), w)))" for t
    by (intro keeps_bind keeps_ack may)
  then show ?thesis by (simp add: keeps_def ack_step_def Let_def)
qed

lemma keeps_arm_coffee: "keeps W (async_arm_coffee r v t)"
proof -
  have "may BACK_TO_HOME" "may CMD_SET_BYPASS" "may CMD_SET_CUP" "may (recipe_cmd r)"
    by (rule may_rest, simp add: STARTING_COMMANDS_def command_ids BACK_TO_HOME_def recipe_cmd_def)+
  then show ?thesis unfolding async_arm_coffee_def [abs_def] by (intro keeps_wire keeps_step)
qed

lemma keeps_arm_tea: "keeps W (async_arm_tea r)"
proof -
  have "may BACK_TO_HOME" "may CMD_SET_BYPASS" "may CMD_SET_CUP" "may CMD_TEA_RECIPE_CODE"
    by (rule may_rest, simp add: STARTING_COMMANDS_def command_ids BACK_TO_HOME_def)+
  then show ?thesis unfolding async_arm_tea_def [abs_def] by (intro keeps_wire keeps_step)
qed

lemma keeps_arm: "keeps W (async_arm_recipe r v t)"
  unfolding async_arm_recipe_def by (intro keeps_wire keeps_arm_coffee keeps_arm_tea)

lemma keeps_verify: "keeps W (async_verify_brew_started timeout)"
proof -
  have "W w (snd (verify_loop deadline label w))" for deadline label w
  proof (induction deadline label w rule: verify_loop.induct)
    case (1 deadline label w)
    have s: "W w (snd (sleep (1 / 10) w))" using W_pause by (simp add: keeps_def)
    show ?case
      using 1 R_trans [OF s] R_refl
      by (subst verify_loop.simps) (auto simp: Let_def split: option.split)
  qed
  then show ?thesis by (simp add: keeps_def async_verify_brew_started_def)
qed

lemma keeps_confirm:
  assumes "may CMD_TEA_RECIPE_MAKE" "may CMD_RECIPE_EXECUTE"
  shows "keeps W (async_confirm_recipe tea payload)"
proof -
  have "keeps W (case payload of None \<Rightarrow> raise_co ValueError
     | Some p \<Rightarrow> then_co (send_and_wait CMD_TEA_RECIPE_MAKE (Raw p) ACK_TIMEOUT_RECIPE_SEND_S 1) (return_co ()))"
    using assms by (cases payload) (simp_all add: keeps_raise keeps_then keeps_ack keeps_return)
  then show ?thesis
    unfolding async_confirm_recipe_def execute_coffee_recipe_def by (intro keeps_wire keeps_verify assms)
qed

lemma keeps_grinder_in: "keeps W (grinder_enter_mode sz speed)"
proof -
  have "may CMD_GRINDER_IN" by (rule may_rest) (simp add: STARTING_COMMANDS_def command_ids)
  then have "keeps W (\<lambda>w. send_command CMD_GRINDER_IN [gc_size (w_client w), gc_speed (w_client w)] 1 w)"
    using keeps_command by (simp add: keeps_def)
  then show ?thesis
    unfolding grinder_enter_mode_def grinder_store_def by (intro keeps_then keeps_update) simp_all
qed

lemma keeps_grinder_start:
  assumes "may CMD_GRINDER_START"
  shows "keeps W (grinder_confirm_start sz speed)"
proof -
  have "keeps W grinder_send_start"
    using keeps_command [OF assms] by (simp add: keeps_def grinder_send_start_def)
  then show ?thesis
    unfolding grinder_confirm_start_def grinder_store_def by (intro keeps_then keeps_update) simp_all
qed

lemma keeps_brewer_in: "keeps W brewer_enter_mode"
  unfolding brewer_enter_mode_def by (intro keeps_command may_rest) (simp add: STARTING_COMMANDS_def command_ids)

lemma keeps_brewer_start: "may CMD_BREWER_START \<Longrightarrow> keeps W (brewer_start v t fl pat src)"
  unfolding brewer_start_def by (intro keeps_wire)

lemma keeps_temperature: "keeps W (brewer_set_temperature t)"
  unfolding brewer_set_temperature_def
  by (intro keeps_wire may_rest) (simp add: STARTING_COMMANDS_def command_ids)

lemma keeps_pattern: "keeps W (brewer_set_pattern pat)"
  unfolding brewer_set_pattern_def
  by (intro keeps_wire may_rest) (simp add: STARTING_COMMANDS_def command_ids)

lemma keeps_plain: "command \<notin> set STARTING_COMMANDS \<Longrightarrow> keeps W (send_command command d ty)"
  by (intro keeps_command may_rest)

lemma keeps_when_connected: "command \<notin> set STARTING_COMMANDS \<Longrightarrow> keeps W (when_connected command)"
  unfolding when_connected_def [abs_def] by (intro keeps_wire keeps_plain)

lemma keeps_slot_write: "keeps W (async_write_easy_slots slots scale_on)"
proof -
  have may: "may CMD_EASY_RECIPE_SEND" "may CMD_EASY_RECIPE_ORDER"
    by (rule may_rest, simp add: STARTING_COMMANDS_def command_ids CMD_EASY_RECIPE_SEND_def CMD_EASY_RECIPE_ORDER_def)+
  have one: "keeps W (write_slot scale_on i r)" for i r
    unfolding write_slot_def by (intro keeps_wire may)
  have all: "keeps W (write_slots scale_on ls slots)" for ls
  proof (induction ls)
    case (Cons l ls)
    obtain letter i where l: "l = (letter, i)" by (cases l)
    show ?case using one Cons by (simp add: l keeps_raise keeps_then split: option.split)
  qed (simp only: write_slots.simps keeps_return)
  have unless: "keeps W (\<lambda>w. if b then (x, w) else m w)" if "keeps W m" for b x and m :: "unit co"
    using that by (simp add: keeps_def R_refl)
  show ?thesis unfolding async_write_easy_slots_def [abs_def] by (intro unless keeps_wire all may)
qed

end

section \<open>What a press confirms\<close>

text \<open>The operation whose arming a button confirms.\<close>

fun button_operation :: "button \<Rightarrow> string option" where
  "button_operation GrindButton = Some ''grind''"
| "button_operation PourButton = Some ''pour''"
| "button_operation ExecuteRecipeButton = Some ''recipe''"
| "button_operation _ = None"

section \<open>The coordinator\<close>

locale entity_law = wire: wire_law W may + act_law R
  for W :: "world \<Rightarrow> world \<Rightarrow> bool" and may :: "int \<Rightarrow> bool" and R :: "coord \<Rightarrow> coord \<Rightarrow> bool" +
  assumes R_fires: "W (k_world k) w \<Longrightarrow> set evs \<subseteq> set (events (w_client w)) \<Longrightarrow>
      R k (dispatch_events evs (k\<lparr>k_world := w\<rparr>))"
    and R_wire: "W (k_world k) w \<Longrightarrow> R k (k\<lparr>k_world := w\<rparr>)"
    and R_chores: "chore t \<Longrightarrow> R k (request t k)"
    and W_calibrating: "keeps W (upd_client (fire_event ''notification'' ''grinder_calibration_started'' []))"
    and R_local: "k_world k' = k_world k \<Longrightarrow> k_tasks k' = k_tasks k \<Longrightarrow> k_delivered k' = k_delivered k \<Longrightarrow> R k k'"

sublocale entity_law \<subseteq> link_law R W
proof
  show "keeps W (send_and_wait command (Data payload) ACK_TIMEOUT_S 1)"
    if "command \<in> {8005, 8010, CMD_SWITCH_WATER_FEED, BACK_TO_HOME}" for command payload
    using that by (intro wire.keeps_ack wire.may_rest)
      (auto simp: STARTING_COMMANDS_def command_ids BACK_TO_HOME_def CMD_SWITCH_WATER_FEED_def)
  show "keeps W (send_command_raw CMD_EASYMODE raw 2)" for raw
    by (intro wire.keeps_raw wire.may_rest) (simp add: STARTING_COMMANDS_def command_ids CMD_EASYMODE_def)
qed (simp_all add: R_fires R_wire R_chores R_local wire.W_new wire.W_pause wire.keeps_stack_connect
    wire.keeps_stack_disconnect wire.keeps_handshake)

context entity_law
begin

lemma keeps_local: "(\<And>k. k_world (f k) = k_world k \<and> k_tasks (f k) = k_tasks k \<and> k_delivered (f k) = k_delivered k) \<Longrightarrow>
    keeps R (modify f)"
  by (intro keeps_modify R_local) simp_all

lemma keeps_up:
  "(\<And>key k. R k (meanwhile key k)) \<Longrightarrow> keeps R body \<Longrightarrow> keeps R (when_up B meanwhile x body)"
  unfolding when_up_def by (intro keeps_bind keeps_ensure keeps_if_const keeps_return)

lemma keeps_with_client: "keeps R m \<Longrightarrow> keeps R (with_client m)"
  unfolding with_client_def [abs_def] by (intro keeps_if keeps_pure)

lemma keeps_finally:
  assumes "keeps R m" "\<And>k. k_world (f k) = k_world k \<and> k_tasks (f k) = k_tasks k \<and> k_delivered (f k) = k_delivered k"
  shows "keeps R (finally_co m f)"
proof -
  have "R k (f (snd (m k)))" for k
  proof (rule R_trans)
    show "R k (snd (m k))" using assms(1) by (simp add: keeps_def)
    show "R (snd (m k)) (f (snd (m k)))" using assms(2) by (intro R_local) simp_all
  qed
  then show ?thesis by (simp add: keeps_def finally_co_def)
qed

lemma keeps_ignore: "keeps R m \<Longrightarrow> keeps R (ignore m)"
  unfolding ignore_def by (intro keeps_then keeps_return)

lemmas keeps_user = keeps_up keeps_attempt keeps_then keeps_bind keeps_if_const keeps_return keeps_lift
  keeps_retry keeps_on_client keeps_with_client keeps_pause keeps_local

lemma keeps_open_grind: "keeps R (\<lambda>k. on_client (grinder_enter_mode (Some (k_grind_size k)) (Some (k_rpm k))) k)"
  using keeps_on_client [OF wire.keeps_grinder_in] by (simp add: keeps_def)

lemma keeps_arm_grind:
  "(\<And>key k. R k (meanwhile key k)) \<Longrightarrow> keeps R (async_arm_grind B meanwhile)"
  unfolding async_arm_grind_def
  by (intro keeps_user keeps_open_grind) simp_all

lemma keeps_wire_temperature: "keeps R send_wire_temperature"
proof -
  have "keeps R (bind_co (lift_res r) (\<lambda>t. on_client (brewer_set_temperature t)))" for r
    by (intro keeps_bind keeps_lift keeps_on_client wire.keeps_temperature)
  then have "keeps R (\<lambda>k. bind_co (lift_res (wire_temperature k)) (\<lambda>t. on_client (brewer_set_temperature t)) k)"
    by (simp add: keeps_def)
  then show ?thesis unfolding send_wire_temperature_def by (rule keeps_with_client)
qed

lemma keeps_set_pattern: "keeps R (\<lambda>k. on_client (brewer_set_pattern (k_pour_pattern k)) k)"
  using keeps_on_client [OF wire.keeps_pattern] by (simp add: keeps_def)

lemma keeps_arm_pour:
  "(\<And>key k. R k (meanwhile key k)) \<Longrightarrow> keeps R (async_arm_pour B meanwhile)"
  unfolding async_arm_pour_def
  by (intro keeps_user keeps_set_pattern keeps_wire_temperature wire.keeps_brewer_in) simp_all

lemma keeps_arm_recipe:
  assumes "\<And>key k. R k (meanwhile key k)"
  shows "keeps R (coord_arm_recipe B meanwhile ov povs bv bt)"
proof -
  have arm: "keeps R (catch_co
      (bind_co (async_retry_while_sleeping B meanwhile (on_client (async_arm_recipe recipe v t)))
        (\<lambda>tea_payload. modify (\<lambda>k. k\<lparr>k_armed_operation := Some ''recipe'', k_armed_recipe_is_tea := is_tea,
           k_armed_recipe_tea_payload := tea_payload, k_active_recipe_pours := Some (pours recipe)\<rparr>)))
      (\<lambda>_. modify (\<lambda>k. k\<lparr>k_active_recipe_pours := None\<rparr>)))" for recipe is_tea v t
    by (intro keeps_catch keeps_user assms wire.keeps_arm) simp_all
  show ?thesis
    unfolding coord_arm_recipe_def
    by (intro keeps_up assms) (use arm in \<open>simp add: keeps_def R_refl split: sum.split option.split\<close>)
qed

lemma keeps_confirm_grind:
  assumes "\<And>key k. R k (meanwhile key k)" "may CMD_GRINDER_START"
  shows "keeps R (async_confirm_grind B meanwhile)"
proof -
  have "keeps R (\<lambda>k. on_client (grinder_confirm_start (Some (k_grind_size k)) (Some (k_rpm k))) k)"
    using keeps_on_client [OF wire.keeps_grinder_start [OF assms(2)]] by (simp add: keeps_def)
  then show ?thesis
    unfolding async_confirm_grind_def by (intro keeps_finally keeps_user assms(1)) simp_all
qed

lemma keeps_confirm_pour:
  assumes "\<And>key k. R k (meanwhile key k)" "may CMD_BREWER_START"
  shows "keeps R (async_confirm_pour B meanwhile)"
proof -
  have "keeps R (bind_co (lift_res a) (\<lambda>v. bind_co (lift_res b) (\<lambda>t. on_client (brewer_start v t fl pat src))))" for a b fl pat src
    by (intro keeps_bind keeps_lift keeps_on_client wire.keeps_brewer_start assms(2))
  then have "keeps R (\<lambda>k. bind_co (lift_res (float_of_int (k_volume k))) (\<lambda>v. bind_co (lift_res (wire_temperature k))
      (\<lambda>t. on_client (brewer_start v t (k_flow_rate k) (k_pour_pattern k) (k_water_source k)))) k)"
    by (simp add: keeps_def)
  then have "keeps R send_brewer_start" unfolding send_brewer_start_def by (rule keeps_with_client)
  then show ?thesis
    unfolding async_confirm_pour_def by (intro keeps_finally keeps_user assms(1)) simp_all
qed

lemma keeps_confirm_recipe:
  assumes "\<And>key k. R k (meanwhile key k)" "may CMD_TEA_RECIPE_MAKE" "may CMD_RECIPE_EXECUTE"
  shows "keeps R (coord_confirm_recipe B meanwhile)"
proof -
  have "keeps R (\<lambda>k. on_client (async_confirm_recipe (k_armed_recipe_is_tea k) (k_armed_recipe_tea_payload k)) k)"
    using keeps_on_client [OF wire.keeps_confirm [OF assms(2,3)]] by (simp add: keeps_def)
  then show ?thesis
    unfolding coord_confirm_recipe_def by (intro keeps_finally keeps_catch keeps_user assms(1)) simp_all
qed

lemma keeps_plain_client: "command \<notin> set STARTING_COMMANDS \<Longrightarrow> keeps R (on_client (send_command command d ty))"
  by (intro keeps_on_client wire.keeps_plain)

lemma keeps_resume:
  assumes "\<And>key k. R k (meanwhile key k)"
  shows "keeps R (async_pause_resume B meanwhile)"
proof -
  have either: "keeps R (on_client (if b then send_command c [] 1 else send_command d [] 1))"
    if "c \<notin> set STARTING_COMMANDS" "d \<notin> set STARTING_COMMANDS" for b c d
    using that by (cases b) (simp_all add: keeps_plain_client)
  have manual: "keeps R (pause_manual op state_str)" for op state_str
    unfolding pause_manual_def grinder_pause_def grinder_restart_def brewer_pause_def brewer_restart_def
    by (intro keeps_if_const keeps_then keeps_local either; simp add: STARTING_COMMANDS_def command_ids)
  have other: "keeps R (then_co (on_client (send_command c [] 1)) (return_co ()))" if "c \<in> {CMD_RECIPE_RESTART, CMD_RECIPE_PAUSE}" for c
    using that by (intro keeps_then keeps_plain_client keeps_return)
      (auto simp: STARTING_COMMANDS_def command_ids CMD_RECIPE_RESTART_def CMD_RECIPE_PAUSE_def)
  have "keeps R (attempt (if m then pause_manual op st else if a then then_co (on_client (send_command CMD_RECIPE_RESTART [] 1)) (return_co ())
      else if b then then_co (on_client (send_command CMD_RECIPE_PAUSE [] 1)) (return_co ()) else return_co ()) () ())" for m op st a b
    by (intro keeps_attempt keeps_if_const manual other keeps_return) simp_all
  then show ?thesis
    unfolding async_pause_resume_def by (intro keeps_up assms) (simp add: keeps_def R_refl Let_def)
qed

lemma keeps_cancel:
  assumes "\<And>key k. R k (meanwhile key k)"
  shows "keeps R (async_cancel B meanwhile)"
proof -
  have quit: "the (map_of ARMED_QUIT_COMMANDS page) \<notin> set STARTING_COMMANDS" if "page \<in> {''grind'', ''pour''}" for page
    using that by (auto simp: ARMED_QUIT_COMMANDS_def STARTING_COMMANDS_def command_ids)
  have stop: "keeps R (stop_component component)" for component
    unfolding stop_component_def grinder_stop_def brewer_stop_def
    by (cases "component = ''grinder''")
      (simp_all, (intro keeps_plain_client; simp add: STARTING_COMMANDS_def command_ids)+)
  have watch: "keeps R (watch_stop n component)" for n component
  proof (induction n)
    case 0
    show ?case unfolding watch_stop.simps by (intro keeps_then stop keeps_return)
  next
    case (Suc n)
    show ?case unfolding watch_stop.simps by (intro keeps_if keeps_pure keeps_then keeps_pause Suc)
  qed
  have verify: "keeps R (async_verify_component_stop component)" for component
    unfolding async_verify_component_stop_def [abs_def] by (intro keeps_if keeps_pure watch)
  have all: "set cs \<inter> set STARTING_COMMANDS = {} \<Longrightarrow> keeps R (send_all cs)" for cs
    by (induction cs) (simp_all only: send_all.simps keeps_return keeps_then keeps_plain_client list.set insert_disjoint not_False_eq_True simp_thms)
  have pages: "keeps R (stop_and_quit component page)" if "page \<in> {''grind'', ''pour''}" for component page
    unfolding stop_and_quit_def by (intro keeps_then stop verify keeps_pause keeps_plain_client quit that keeps_return)
  have recipe: "keeps R (then_co (on_client stop_recipe) (return_co ()))"
    unfolding stop_recipe_def by (intro keeps_then keeps_plain_client keeps_return) (simp add: STARTING_COMMANDS_def command_ids)
  have action: "keeps R (cancel_action k qs)" if "set qs \<inter> set STARTING_COMMANDS = {}" for k qs
    unfolding cancel_action_def by (intro keeps_if_const all that pages recipe) simp_all
  have qs: "set qs \<inter> set STARTING_COMMANDS = {}" if "quit_commands armed pod = Inr qs" for armed pod qs
    using that by (auto simp: quit_commands_def ARMED_QUIT_COMMANDS_def STARTING_COMMANDS_def command_ids
        bind_res_Inr_iff split: option.splits if_splits)
  have quits: "keeps R (bind_co (lift_res (quit_commands armed pod)) (\<lambda>qs. attempt (cancel_action k qs) () ()))" for armed pod k
  proof (cases "quit_commands armed pod")
    case (Inr q)
    then show ?thesis using keeps_attempt [OF action [OF qs [OF Inr]]] by (simp add: keeps_def bind_co_def)
  qed (simp add: keeps_def bind_co_def R_refl)
  have "keeps R (bind_co (async_ensure_connected B meanwhile) (\<lambda>ok. if \<not> ok then modify (request UpdateListeners)
      else bind_co (lift_res (quit_commands armed pod)) (\<lambda>qs. attempt (cancel_action k qs) () ())))" for armed pod k
    by (intro keeps_bind keeps_ensure assms keeps_if_const keeps_modify R_request quits)
  then have step: "R k0 (snd (bind_co (async_ensure_connected B meanwhile) (\<lambda>ok. if \<not> ok then modify (request UpdateListeners)
      else bind_co (lift_res (quit_commands armed pod)) (\<lambda>qs. attempt (cancel_action k qs) () ())) k0))" for k0 armed pod k
    by (simp add: keeps_def)
  have "R k (clear_bookkeeping k)" for k by (rule R_local) (simp_all add: clear_bookkeeping_def)
  then show ?thesis using step R_trans unfolding keeps_def async_cancel_def cancel_action_def by blast
qed

lemma keeps_scale:
  assumes "\<And>key k. R k (meanwhile key k)"
  shows "keeps R (async_tare_scale B meanwhile)" "keeps R (async_enter_scale_mode B meanwhile)"
    "keeps R (async_exit_scale_mode B meanwhile)"
  unfolding async_tare_scale_def async_enter_scale_mode_def async_exit_scale_mode_def async_tare_def
    async_enter_scale_def async_exit_scale_def
  by (intro keeps_user assms wire.keeps_when_connected;
      simp add: STARTING_COMMANDS_def command_ids CMD_TARE_def CMD_SCALE_IN_def CMD_SCALE_QUIT_def)+

lemma keeps_calibrate:
  assumes "\<And>key k. R k (meanwhile key k)"
  shows "keeps R (async_calibrate_grinder B meanwhile)"
proof -
  have "keeps W client_calibrate_grinder"
    unfolding client_calibrate_grinder_def
    by (intro wire.keeps_then wire.keeps_plain wire.keeps_return) (simp add: STARTING_COMMANDS_def command_ids)
  moreover have "keeps W (upd_client (upd_status f))" for f
    by (rule wire.keeps_update) simp
  ultimately show ?thesis
    unfolding async_calibrate_grinder_def set_calibrating_def fire_on_client_def
    by (intro keeps_up keeps_attempt keeps_then keeps_retry keeps_on_client keeps_modify R_request W_calibrating assms)
qed

lemma keeps_sync:
  assumes "\<And>key k. R k (meanwhile key k)"
  shows "keeps R (async_sync_armed_grinder_settings B meanwhile)"
    "keeps R (async_sync_armed_brewer_temperature B meanwhile)"
    "keeps R (async_sync_armed_brewer_pattern B meanwhile)"
  unfolding async_sync_armed_grinder_settings_def [abs_def] async_sync_armed_brewer_temperature_def [abs_def]
    async_sync_armed_brewer_pattern_def [abs_def]
  by (intro keeps_if keeps_pure keeps_up keeps_attempt keeps_open_grind keeps_wire_temperature keeps_set_pattern assms)+

lemma keeps_slider:
  assumes "\<And>key k. R k (meanwhile key k)"
  shows "keeps R (async_set_native_value B meanwhile s v)"
proof -
  have "keeps R (sync_slider B meanwhile s)"
    using keeps_sync [OF assms] keeps_return by (cases s) (simp_all add: return_co_def)
  moreover have "keeps R (modify (store_slider s n))" for n
    by (rule keeps_local) (cases s; simp)
  ultimately show ?thesis
    unfolding async_set_native_value_def by (intro keeps_bind keeps_lift keeps_then)
qed

lemma keeps_mode:
  assumes "\<And>key k. R k (meanwhile key k)"
  shows "keeps R (async_set_mode B meanwhile md)"
proof -
  have persist: "R k (request PersistOptions (k\<lparr>k_mode := m\<rparr>))" for k m
    by (intro R_trans [OF R_local R_request(6)]) simp_all
  show ?thesis
    unfolding async_set_mode_def Let_def
    by (intro keeps_bind keeps_ensure assms keeps_if_const keeps_return keeps_raise keeps_catch keeps_then keeps_switch
        keeps_modify persist R_request)
qed

lemma keeps_select: "keeps R (modify (select_recipe nm))"
proof -
  have "R k (request UpdateListeners (k\<lparr>k_selected_recipe := nm, k_grind_size := g, k_rpm := r\<rparr>))" for k g r
    by (rule R_trans [OF R_local R_request(2)]) simp_all
  moreover have "R k (k\<lparr>k_selected_recipe := nm\<rparr>)" for k by (rule R_local) simp_all
  ultimately show ?thesis
    by (intro keeps_modify) (simp add: select_recipe_def Let_def split: option.split)
qed

lemma keeps_choose_pattern:
  assumes "\<And>key k. R k (meanwhile key k)"
  shows "keeps R (async_select_pattern B meanwhile nm)"
  unfolding async_select_pattern_def by (intro keeps_then keeps_local keeps_sync assms) simp

lemma keeps_press:
  assumes "\<And>key k. R k (meanwhile key k)"
  shows "k_armed_operation k \<noteq> Some ''grind'' \<or> may CMD_GRINDER_START \<Longrightarrow> R k (snd (press_grind B meanwhile k))"
    and "k_armed_operation k \<noteq> Some ''pour'' \<or> may CMD_BREWER_START \<Longrightarrow> R k (snd (press_pour B meanwhile k))"
    and "k_armed_operation k \<noteq> Some ''recipe'' \<or> may CMD_TEA_RECIPE_MAKE \<and> may CMD_RECIPE_EXECUTE \<Longrightarrow>
      R k (snd (press_execute_recipe B meanwhile k))"
    and "R k (snd (press_scale_mode B meanwhile k))"
  using keeps_ignore [OF keeps_arm_grind [OF assms]] keeps_ignore [OF keeps_confirm_grind [OF assms]]
    keeps_ignore [OF keeps_arm_pour [OF assms]] keeps_ignore [OF keeps_confirm_pour [OF assms]]
    keeps_arm_recipe [OF assms] keeps_ignore [OF keeps_confirm_recipe [OF assms]] keeps_scale [OF assms]
  by (auto simp: keeps_def press_grind_def press_pour_def press_execute_recipe_def press_scale_mode_def)

end

section \<open>The store\<close>

text \<open>A contract on the coordinator, as one on the store that holds it.\<close>

definition over :: "(coord \<Rightarrow> coord \<Rightarrow> bool) \<Rightarrow> store \<Rightarrow> store \<Rightarrow> bool" where
  "over R s s' \<longleftrightarrow> R (st_coord s) (st_coord s')"

sublocale entity_law \<subseteq> st: act_law "over R"
  by unfold_locales (auto simp: over_def intro: R_refl R_trans)

context entity_law
begin

lemma keeps_on_coord: "keeps R m \<Longrightarrow> keeps (over R) (on_coord m)"
  by (simp add: keeps_def over_def on_coord_def split_beta Let_def)

lemma over_cloud: "keeps (over R) (on_cloud m)"
  by (simp add: keeps_def over_def on_cloud_def split_beta Let_def R_refl)

lemma over_update: "over R s (update_listeners s)"
  by (simp add: over_def update_listeners_def R_request)

lemma over_rebuild: "over R s (rebuild_recipes s)"
  by (simp add: over_def rebuild_recipes_def R_local)

lemma over_options: "over R s (write_options_recipes opts s)"
proof -
  have "over R s (s\<lparr>st_options := opts\<rparr>)" by (simp add: over_def R_refl)
  then show ?thesis
    unfolding write_options_recipes_def using st.R_trans [OF st.R_trans [OF _ over_rebuild] over_update] st.R_refl by simp
qed

lemma over_import: "keeps (over R) (async_import_cloud_recipe srv uid ref)"
  unfolding async_import_cloud_recipe_def
  by (intro st.keeps_bind over_cloud)
    (simp add: keeps_def st.R_refl over_options Let_def split: option.split sum.split)

lemma over_resolve: "keeps (over R) (resolve_or_import srv uid i)"
proof -
  have "keeps (over R) (bind_co (async_import_cloud_recipe srv uid i) (\<lambda>imported s1.
            case imported of
              Refused e \<Rightarrow> (Inr (Inl e), s1)
            | Saved u _ \<Rightarrow>
                (case find_recipe (st_recipes s1) uid of
                   Some x \<Rightarrow> (Inr (Inr x), s1)
                 | None \<Rightarrow> (Inr (Inl ''recipe_not_found''), s1))))"
    by (intro st.keeps_bind over_import) (simp add: keeps_def st.R_refl split: reply.split option.split)
  then show ?thesis by (simp add: keeps_def resolve_or_import_def st.R_refl split: option.split)
qed

lemma over_slot_source: "keeps (over R) (slot_source srv uid i)"
  using over_resolve by (simp add: keeps_def slot_source_def st.R_refl split: option.split)

lemma over_record_slot: "over R s (record_slot target x s)"
proof -
  have "over R s (if st_entry s then s\<lparr>st_slots := sl\<rparr> else s)" for sl by (simp add: over_def R_refl)
  then show ?thesis unfolding record_slot_def by (rule st.R_trans [OF _ over_update])
qed

lemma over_slot:
  assumes "\<And>key k. R k (meanwhile key k)"
  shows "keeps (over R) (coord_write_easy_slot srv uid B meanwhile letter i)"
proof -
  have batch: "keeps (over R) (bind_co (on_coord (write_in_pro_mode B meanwhile slots)) (\<lambda>written s1.
      if \<not> written then (Inr (Refused ''write_failed''), s1)
      else (Inr (Saved (rd_uid (snd x)) (fst x)), record_slot target x s1)))" for slots x target
    by (intro st.keeps_bind keeps_on_coord keeps_slot_batch assms wire.keeps_slot_write)
      (simp add: keeps_def st.R_refl over_record_slot)
  then have three: "keeps (over R) (write_three_slots B meanwhile target x)" for target x
    by (simp add: keeps_def write_three_slots_def st.R_refl split: sum.split)
  have "keeps (over R) (write_slot_recipe B meanwhile letter x)" for x
    unfolding write_slot_recipe_def
    using three by (cases "py_lower (py_strip (rd_cup_type (snd x))) = ''tea''")
      (simp_all add: st.keeps_return, intro st.keeps_bind keeps_on_coord keeps_ensure assms,
        simp add: keeps_def st.R_refl Let_def)
  then show ?thesis
    unfolding coord_write_easy_slot_def
    by (intro st.keeps_bind over_slot_source) (simp add: st.keeps_return split: sum.split)
qed

text \<open>A press: nothing the button may not do is done, when its operation is not armed or may be started.\<close>

lemma over_press:
  assumes "\<And>key k. R k (meanwhile key k)"
    "button_operation b = None \<or> k_armed_operation (st_coord s) \<noteq> button_operation b \<or> (\<forall>c\<in>set STARTING_COMMANDS. may c)"
  shows "over R s (snd (async_press srv uid B meanwhile b s))"
proof -
  have coord: "over R s (snd (on_coord m s))" if "R (st_coord s) (snd (m (st_coord s)))" for m :: "unit ko"
    using that by (simp add: over_def on_coord_def split_beta Let_def)
  have all: "over R s (snd (on_coord m s))" if "keeps R m" for m :: "unit ko"
    using that by (intro coord) (simp add: keeps_def)
  show ?thesis
  proof (cases b)
    case GrindButton
    then show ?thesis using assms(2) by (simp, intro coord keeps_press(1) assms(1)) (auto simp: STARTING_COMMANDS_def)
  next
    case PourButton
    then show ?thesis using assms(2) by (simp, intro coord keeps_press(2) assms(1)) (auto simp: STARTING_COMMANDS_def)
  next
    case ExecuteRecipeButton
    then show ?thesis using assms(2) by (simp, intro coord keeps_press(3) assms(1)) (auto simp: STARTING_COMMANDS_def)
  next
    case ScaleModeButton
    show ?thesis by (simp add: ScaleModeButton, intro coord keeps_press(4) assms(1))
  next
    case (WriteSlotButton letter)
    have "keeps (over R) (ignore (coord_write_easy_slot srv uid B meanwhile letter None))"
      unfolding ignore_def by (intro st.keeps_then st.keeps_return over_slot assms(1))
    then show ?thesis by (simp add: WriteSlotButton keeps_def)
  qed (simp_all, (intro all keeps_resume keeps_cancel keeps_scale keeps_calibrate assms(1))+)
qed

end

end
