(* ===== verification/EntityFacts.thy ===== *)
theory EntityFacts
  imports Wire
begin

text \<open>
  What the entities can and cannot do: no button starts anything that was not armed before, and
  every event the coordinator hands to an event entity is one that entity declares.
\<close>

section \<open>No start\<close>

definition no_start :: "world \<Rightarrow> world \<Rightarrow> bool" where
  "no_start w w' \<longleftrightarrow> (\<exists>ss. w_sent w' = w_sent w @ ss \<and> (\<forall>x\<in>set ss. s_command x \<notin> set STARTING_COMMANDS))"

definition no_start_step :: "coord \<Rightarrow> coord \<Rightarrow> bool" where
  "no_start_step k k' \<longleftrightarrow> no_start (k_world k) (k_world k')"

lemma no_start_same: "w_sent w' = w_sent w \<Longrightarrow> no_start w w'"
  by (simp add: no_start_def)

lemma no_start_trans: "no_start w1 w2 \<Longrightarrow> no_start w2 w3 \<Longrightarrow> no_start w1 w3"
  by (force simp: no_start_def)

lemma no_start_send:
  assumes "command \<notin> set STARTING_COMMANDS"
  shows "keeps no_start (send_payload command p ty)"
  unfolding keeps_def
proof
  fix w show "no_start w (snd (send_payload command p ty w))"
  proof (cases "send_payload command p ty w")
    case (Pair r w')
    then show ?thesis
      using send_payload_err [of command p ty w _ w'] send_payload_ok [of command p ty w _ w'] assms
      by (cases r) (auto simp: no_start_def)
  qed
qed

interpretation ns: entity_law no_start "\<lambda>c. c \<notin> set STARTING_COMMANDS" no_start_step
proof
  show "no_start w w" for w by (simp add: no_start_same)
  show "no_start w1 w2 \<Longrightarrow> no_start w2 w3 \<Longrightarrow> no_start w1 w3" for w1 w2 w3 by (rule no_start_trans)
  show "no_start_step k k" for k by (simp add: no_start_step_def no_start_same)
  show "no_start_step k1 k2 \<Longrightarrow> no_start_step k2 k3 \<Longrightarrow> no_start_step k1 k3" for k1 k2 k3
    unfolding no_start_step_def by (rule no_start_trans)
  show "keeps no_start (send_payload command p ty)" if "command \<notin> set STARTING_COMMANDS" for command p ty
    using that by (rule no_start_send)
qed (simp_all add: no_start_step_def no_start_same keeps_def sleep_sent wait_for_sent dispatch_events_fields request_def
    fire_event_def)

lemma no_start_changes: "no_start_step k (changes_meanwhile changes key k)"
  by (simp add: no_start_step_def no_start_same changes_world)

text \<open>
  C7. A button whose operation is not armed starts nothing: whatever the link and the other tasks
  do, among the commands its press sends (arming, waking, reconnecting, pushing settings, switching
  the mode and writing slots included) there is none that starts the grinder, the pump or a brew.
\<close>

theorem first_press_never_starts:
  assumes "button_operation b = None \<or> k_armed_operation (st_coord s) \<noteq> button_operation b"
  shows "\<exists>ss. w_sent (k_world (st_coord (snd (async_press srv uid B (changes_meanwhile changes) b s))))
       = w_sent (k_world (st_coord s)) @ ss \<and> (\<forall>x\<in>set ss. s_command x \<notin> set STARTING_COMMANDS)"
proof -
  have "over no_start_step s (snd (async_press srv uid B (changes_meanwhile changes) b s))"
    by (rule ns.over_press [OF no_start_changes]) (use assms in blast)
  then show ?thesis by (simp add: over_def no_start_step_def no_start_def)
qed

section \<open>Declared events\<close>

definition declared :: "event \<Rightarrow> bool" where
  "declared ev = (case ev of (category, event_type, a) \<Rightarrow>
     category \<in> {''error'', ''notification''} \<longrightarrow> event_type \<in> set (event_types category))"

definition all_declared :: "client \<Rightarrow> bool" where
  "all_declared c \<longleftrightarrow> (\<forall>e\<in>set (events c). declared (fst e))"

fun declared_task :: "task \<Rightarrow> bool" where
  "declared_task (DoDispatch b ev cs) = (declared ev \<and> set cs \<subseteq> {''water_shortage_cleared''})"
| "declared_task (EnrichAndDispatch ev cs) = (declared ev \<and> set cs \<subseteq> {''water_shortage_cleared''})"
| "declared_task t = True"

definition coord_declared :: "coord \<Rightarrow> bool" where
  "coord_declared k \<longleftrightarrow> all_declared (w_client (k_world k)) \<and> (\<forall>t\<in>set (k_tasks k). declared_task t) \<and>
     (\<forall>d\<in>set (k_delivered k). declared (snd d))"

lemma all_declared_same: "events c' = events c \<Longrightarrow> all_declared c \<Longrightarrow> all_declared c'"
  by (simp add: all_declared_def)

lemma all_declared_fire: "all_declared (fire_event cat ty a c) \<longleftrightarrow> all_declared c \<and> declared (cat, ty, a)"
  by (auto simp: all_declared_def fire_event_def)

lemma all_declared_status [simp]: "all_declared (c\<lparr>status := s\<rparr>) = all_declared c"
  by (simp add: all_declared_def)

lemma map_of_range: "map_of xs x = Some y \<Longrightarrow> set (map snd xs) \<subseteq> Y \<Longrightarrow> y \<in> Y"
  by (force dest: map_of_SomeD)

lemma declared_settings: "declared (''settings'', ty, a)"
  by (simp add: declared_def)

lemma declared_notification: "map_of NOTIFICATION_MAP r = Some ty \<Longrightarrow> declared (''notification'', ty, a)"
  unfolding declared_def
  by (drule map_of_range [where Y = "set NOTIFICATION_EVENT_TYPES"])
    (simp_all add: NOTIFICATION_MAP_def NOTIFICATION_EVENT_TYPES_def event_types_def)

lemma declared_error: "map_of ERROR_MAP r = Some ty \<Longrightarrow> declared (''error'', ty, a)"
  unfolding declared_def
  by (drule map_of_range [where Y = "set ERROR_EVENT_TYPES"])
    (simp_all add: ERROR_MAP_def ERROR_EVENT_TYPES_def event_types_def)

lemma declared_alarm: "ALARM_CODE_EVENTS code = Some ty \<Longrightarrow> declared (''error'', ty, a)"
proof -
  assume "ALARM_CODE_EVENTS code = Some ty"
  then have "(code, ty) \<in> set (rev (concat (map (\<lambda>(codes, ev). map (\<lambda>code. (code, ev)) codes) ALARM_CODE_GROUPS)))"
    unfolding ALARM_CODE_EVENTS_def by (rule map_of_SomeD)
  then have "ty \<in> snd ` set ALARM_CODE_GROUPS" by force
  moreover have "snd ` set ALARM_CODE_GROUPS \<subseteq> set ERROR_EVENT_TYPES"
    by (simp add: ALARM_CODE_GROUPS_def ERROR_EVENT_TYPES_def)
  ultimately show ?thesis by (auto simp: declared_def event_types_def)
qed

lemma declared_plain:
  "declared (''notification'', ''grinder_calibration_complete'', a)" "declared (''notification'', ''water_refilled'', a)"
  "declared (''notification'', ''grinder_calibration_started'', a)"
  "declared (''error'', ''water_shortage'', a)" "declared (''error'', ''water_shortage_cleared'', a)"
  by (simp_all add: declared_def event_types_def NOTIFICATION_EVENT_TYPES_def ERROR_EVENT_TYPES_def)

lemma declared_attrs: "declared (cat, ty, a) = declared (cat, ty, b)"
  by (simp add: declared_def)

lemma status_code_events: "events (status_code_step code c) = events c"
  by (simp add: status_code_step_def Let_def update_brew_context_def update_calibration_latch_def split: option.split)

lemma handle_status_declared: "all_declared c \<Longrightarrow> handle_status r payload c = Inr d \<Longrightarrow> all_declared d"
proof -
  assume c: "all_declared c" and h: "handle_status r payload c = Inr d"
  have weight: "events (snd (filter_weight x c)) = events c" for x by (simp add: filter_weight_def split: option.split)
  then have "all_declared (handle_weight payload c)"
    using c by (simp add: handle_weight_def Let_def split_beta all_declared_def)
  moreover have "all_declared (handle_machine_info payload c)"
    using c by (simp add: handle_machine_info_def Let_def)
  moreover have "all_declared (handle_brewer_temperature payload c)" "all_declared (handle_in_brewer payload c)"
    "all_declared (handle_in_grinder payload c)" "all_declared (handle_grinder_size payload c)"
    "all_declared (handle_grinder_speed payload c)" "all_declared (handle_current_grinder payload c)"
    "all_declared (handle_brewer_mode payload c)" "all_declared (handle_unit_change payload c)"
    unfolding handle_brewer_temperature_def handle_in_brewer_def handle_in_grinder_def handle_grinder_size_def
      handle_grinder_speed_def handle_current_grinder_def handle_brewer_mode_def handle_unit_change_def Let_def
    using c by (simp_all add: all_declared_fire declared_settings declared_plain)
  ultimately show ?thesis using h c
    by (cases r) (auto simp: bind_res_Inr_iff split: if_splits)
qed

lemma handle_events_declared: "all_declared c \<Longrightarrow> all_declared (handle_events r payload c)"
  unfolding handle_events_def Let_def
  by (simp add: all_declared_fire declared_plain declared_notification declared_error split: option.split)

interpretation dc: receive_law all_declared
proof
  fix c d :: client and r f
  assume c: "all_declared c"
  show "all_declared (alarm_event code c)" for code
    using c by (simp add: alarm_event_def all_declared_fire declared_alarm split: option.split)
  show "all_declared d" if h: "handle_response r f c = Inr d"
  proof -
    obtain c1 where 1: "handle_status r (frame_payload f) c = Inr c1"
      and d: "d = handle_events r (frame_payload f) (handle_mode_ack r (frame_payload f) c1)"
      using h by (auto simp: handle_response_def Let_def bind_res_Inr_iff)
    have "all_declared (handle_mode_ack r (frame_payload f) c1)"
      using handle_status_declared [OF c 1] by (simp add: handle_mode_ack_def)
    then show ?thesis unfolding d by (rule handle_events_declared)
  qed
  show "all_declared (c\<lparr>last_notification_monotonic := t\<rparr>)" "all_declared (set_advanced m v c)" for t m v
    using c by (simp_all add: all_declared_def set_advanced_def)
  show "all_declared (status_code_step code c)" for code
    using c by (simp add: all_declared_def status_code_events)
  show "all_declared (resolve_pending_acks cmd f c)" for cmd
    using c by (simp add: all_declared_def resolve_pending_acks_def)
qed simp

definition keeps_declared :: "world \<Rightarrow> world \<Rightarrow> bool" where
  "keeps_declared w w' \<longleftrightarrow> (all_declared (w_client w) \<longrightarrow> all_declared (w_client w'))"

definition keeps_coord_declared :: "coord \<Rightarrow> coord \<Rightarrow> bool" where
  "keeps_coord_declared k k' \<longleftrightarrow> (coord_declared k \<longrightarrow> coord_declared k')"

lemma deliver_declared: "keeps_declared w (deliver t dt w)"
proof -
  have "all_declared c \<Longrightarrow> all_declared (fold (\<lambda>raw c. fst (on_notification now raw c)) rs c)" for c now rs
    by (induction rs arbitrary: c) (simp_all add: dc.on_notification_inv)
  then show ?thesis by (simp add: keeps_declared_def deliver_def Let_def)
qed

interpretation dw: world_law keeps_declared
  by unfold_locales (simp_all add: deliver_declared, simp_all add: keeps_declared_def)

lemma tick_deliver: "keeps_declared w (deliver t dt (snd (next_tick w)))"
  by (rule dw.R_trans [OF dw.R_next_tick deliver_declared])

lemma declared_part_upd [simp]:
  "k_world (request t k) = k_world k" "k_delivered (request t k) = k_delivered k" "k_tasks (request t k) = k_tasks k @ [t]"
  "k_world (track_pod_prompt cat ty k) = k_world k" "k_delivered (track_pod_prompt cat ty k) = k_delivered k"
  "k_world (armed_to_active cat ty k) = k_world k" "k_delivered (armed_to_active cat ty k) = k_delivered k"
  "k_world (snd (track_run cat ty a k)) = k_world k" "k_delivered (snd (track_run cat ty a k)) = k_delivered k"
  "k_world (snd (water_latch cat ty k)) = k_world k" "k_delivered (snd (water_latch cat ty k)) = k_delivered k"
  by (auto simp: dispatch_parts Let_def split: option.split)

lemma knob_declared:
  "coord_declared k \<Longrightarrow> coord_declared (apply_grinder_knob st a k)"
  "coord_declared k \<Longrightarrow> coord_declared (apply_brewer_knob st a k)"
  "coord_declared k \<Longrightarrow> coord_declared (apply_brewer_page_entry st a k)"
  by (auto simp: knob_parts coord_declared_def Let_def split: option.splits pyfloat.splits)

lemma declared_parts [simp]:
  "coord_declared (request t k) \<longleftrightarrow> coord_declared k \<and> declared_task t"
  "coord_declared (track_pod_prompt cat ty k) = coord_declared k"
  "coord_declared (armed_to_active cat ty k) = coord_declared k"
  "coord_declared (snd (track_run cat ty a k)) = coord_declared k"
  "coord_declared (snd (water_latch cat ty k)) = coord_declared k"
  by (auto simp: coord_declared_def)

lemma declared_tasks [simp]:
  "declared_task (if b then EnrichAndDispatch ev (if x then [''water_shortage_cleared''] else [])
      else DoDispatch y ev (if x then [''water_shortage_cleared''] else [])) = declared ev"
  by (cases x) simp_all

lemma dispatch_declared:
  assumes "coord_declared k" "declared (cat, ty, a)"
  shows "coord_declared (dispatch_event st (cat, ty, a) k)"
  using assms knob_declared [OF assms(1)]
  by (simp add: dispatch_event_def Let_def split_beta del: declared_task.simps(1,2))

lemma dispatches_declared:
  "coord_declared k \<Longrightarrow> (\<And>e. e \<in> set evs \<Longrightarrow> declared (fst e)) \<Longrightarrow> coord_declared (dispatch_events evs k)"
proof (induction evs arbitrary: k)
  case (Cons e evs)
  obtain cat ty a s where e: "e = ((cat, ty, a), s)" by (cases e) auto
  then have "coord_declared (dispatch_event (Some s) (cat, ty, a) k)"
    using Cons.prems(2) [of e] by (intro dispatch_declared Cons.prems(1)) simp
  from Cons.IH [OF this] show ?case using Cons.prems(2) by (simp add: dispatch_events_def e)
qed (simp add: dispatch_events_def)

interpretation dk: entity_law keeps_declared "\<lambda>_. True" keeps_coord_declared
proof
  fix k k' :: coord and w w' :: world
  show "keeps_declared w w'" if "events (w_client w') = events (w_client w)" "w_sent w' = w_sent w"
    using that by (simp add: keeps_declared_def all_declared_def)
  show "keeps keeps_declared (sleep d)" for d
    using tick_deliver by (simp add: keeps_def sleep_def split_beta Let_def)
  show "keeps keeps_declared (wait_for fut timeout)" for fut timeout
  proof -
    have "keeps_declared w (snd (wait_for fut timeout w))" for w
      using tick_deliver [of w] dw.R_refl [of w]
      by (simp add: wait_for_def split_beta Let_def keeps_declared_def split: option.split)
    then show ?thesis by (simp add: keeps_def)
  qed
  show "keeps_declared w (w\<lparr>w_client := (init_client t0)\<lparr>cleanup_on_disconnect := False\<rparr>, w_link := False,
      w_expect_disconnect := False\<rparr>)" for t0
    by (simp add: keeps_declared_def all_declared_def init_client_def)
  show "keeps_coord_declared k k'" if "k_world k' = k_world k" "k_tasks k' = k_tasks k" "k_delivered k' = k_delivered k"
    using that by (simp add: keeps_coord_declared_def coord_declared_def)
  show "keeps_coord_declared k (dispatch_events evs (k\<lparr>k_world := w\<rparr>))"
    if w: "keeps_declared (k_world k) w" and e: "set evs \<subseteq> set (events (w_client w))" for evs
  proof -
    have "coord_declared (dispatch_events evs (k\<lparr>k_world := w\<rparr>))" if k: "coord_declared k"
    proof (rule dispatches_declared)
      show "coord_declared (k\<lparr>k_world := w\<rparr>)" using k w by (simp add: coord_declared_def keeps_declared_def)
      then show "declared (fst x)" if "x \<in> set evs" for x
        using that e by (auto simp: coord_declared_def all_declared_def)
    qed
    then show ?thesis by (simp add: keeps_coord_declared_def)
  qed
  show "keeps_coord_declared k (request t k)" if "chore t" for t
    using that by (cases t) (auto simp: keeps_coord_declared_def coord_declared_def request_def)
  show "keeps keeps_declared (send_payload command p ty)" for command p ty by (rule dw.keeps_send_payload)
  show "keeps keeps_declared (upd_client (fire_event ''notification'' ''grinder_calibration_started'' []))"
    by (simp add: keeps_def keeps_declared_def all_declared_fire declared_plain)
  show "keeps_coord_declared k (k\<lparr>k_world := w\<rparr>)" if "keeps_declared (k_world k) w"
    using that by (simp add: keeps_coord_declared_def coord_declared_def keeps_declared_def)
qed (simp_all add: keeps_declared_def keeps_coord_declared_def)

section \<open>What a user can do\<close>

text \<open>
  Everything the entities offer, an event entity that comes or goes, a poll, and a turn of the event loop: the oldest dispatch waiting is
  carried out, with what the cloud answers for a pod.
\<close>

datatype user_action =
    Press string button | Slide slider pyfloat | SelectRecipe string | SelectPattern string | SelectMode string
  | TurnOn | TurnOff | AddEntity nat | RemoveEntity nat | Poll bool | RunLoop "attrs option res"

definition run_dispatch :: "attrs option res \<Rightarrow> coord \<Rightarrow> coord" where
  "run_dispatch fetched k =
     (case k_tasks k of
        DoDispatch suppress_event ev cleared # ts \<Rightarrow> do_dispatch suppress_event ev cleared (k\<lparr>k_tasks := ts\<rparr>)
      | EnrichAndDispatch ev cleared # ts \<Rightarrow> enrich_and_dispatch fetched ev cleared (k\<lparr>k_tasks := ts\<rparr>)
      | t # ts \<Rightarrow> k\<lparr>k_tasks := ts @ [t]\<rparr>
      | [] \<Rightarrow> k)"

fun user_step :: "server \<Rightarrow> ble_stack \<Rightarrow> (string \<Rightarrow> coord \<Rightarrow> coord) \<Rightarrow> user_action \<Rightarrow> store \<Rightarrow> store" where
  "user_step srv B meanwhile (Press uid b) s = snd (async_press srv uid B meanwhile b s)"
| "user_step srv B meanwhile (Slide sl v) s = snd (on_coord (async_set_native_value B meanwhile sl v) s)"
| "user_step srv B meanwhile (SelectRecipe nm) s = snd (on_coord (async_select_recipe nm) s)"
| "user_step srv B meanwhile (SelectPattern nm) s = snd (on_coord (async_select_pattern B meanwhile nm) s)"
| "user_step srv B meanwhile (SelectMode nm) s = snd (on_coord (async_select_mode B meanwhile nm) s)"
| "user_step srv B meanwhile TurnOn s = snd (on_coord (async_turn_on B meanwhile) s)"
| "user_step srv B meanwhile TurnOff s = snd (on_coord (async_turn_off B) s)"
| "user_step srv B meanwhile (AddEntity cb) s = s\<lparr>st_coord := register_event_listener cb (st_coord s)\<rparr>"
| "user_step srv B meanwhile (RemoveEntity cb) s = s\<lparr>st_coord := unregister_event_listener cb (st_coord s)\<rparr>"
| "user_step srv B meanwhile (Poll connecting) s =
     (case async_update_data connecting (st_coord s) of (snap, k) \<Rightarrow> s\<lparr>st_coord := k\<lparr>k_data := snap\<rparr>\<rparr>)"
| "user_step srv B meanwhile (RunLoop fetched) s = s\<lparr>st_coord := run_dispatch fetched (st_coord s)\<rparr>"

lemma run_dispatch_declared: "coord_declared k \<Longrightarrow> coord_declared (run_dispatch fetched k)"
proof (cases "k_tasks k")
  case (Cons t ts)
  assume k: "coord_declared k"
  have cleared: "declared (''error'', c, [])" if "c \<in> {''water_shortage_cleared''}" for c
    using that by (auto simp: declared_plain)
  show ?thesis
    using k Cons cleared
    by (cases t) (auto simp: run_dispatch_def do_dispatch_def enrich_and_dispatch_def coord_declared_def Let_def
        declared_def split: prod.splits if_splits)
qed (simp add: run_dispatch_def)

lemma declared_poll_parts [simp]:
  "coord_declared (note_activity k) = coord_declared k"
  "coord_declared (reconcile_manual_operation st k) = coord_declared k"
  "coord_declared (reconcile_armed_with_screen st k) = coord_declared k"
  "coord_declared (snd (tracked_live_grind_size st k)) = coord_declared k"
  "coord_declared (maybe_update_device_registry d k) = coord_declared k"
  "coord_declared (k\<lparr>k_temperature := n\<rparr>) = coord_declared k" "coord_declared (k\<lparr>k_pour_pattern := n\<rparr>) = coord_declared k"
  "coord_declared (k\<lparr>k_data := d\<rparr>) = coord_declared k" "coord_declared (k\<lparr>k_force_reconnect_pending := b\<rparr>) = coord_declared k"
  "coord_declared (k\<lparr>k_idle_standby_pending := b\<rparr>) = coord_declared k"
  by (simp_all add: coord_declared_def note_activity_def reconcile_manual_operation_def note_manual_run_def
      note_manual_idle_def clear_manual_run_def reconcile_armed_with_screen_def tracked_live_grind_size_def
      maybe_update_device_registry_def Let_def ball_Un split: option.split)

lemma poll_declared: "coord_declared k \<Longrightarrow> coord_declared (snd (async_update_data b k))"
  by (simp add: async_update_data_def read_status_def maybe_schedule_reconnect_def Let_def split_beta
      split: sum.split option.split)

lemma user_step_declared:
  assumes "coord_declared (st_coord s)"
  shows "coord_declared (st_coord (user_step srv B (changes_meanwhile ch) a s))"
proof -
  let ?m = "changes_meanwhile ch"
  have "coord_declared (handle_unit_options_change options k) = coord_declared k" for options k
    by (simp add: handle_unit_options_change_def Let_def coord_declared_def)
  then have "coord_declared (fold handle_unit_options_change os k) = coord_declared k" for os k
    by (induction os arbitrary: k) simp_all
  then have m: "keeps_coord_declared k (?m key k)" for key k
    by (simp add: keeps_coord_declared_def changes_meanwhile_def)
  have coord: ?thesis if "user_step srv B ?m a s = snd (on_coord f s)" "keeps keeps_coord_declared f" for f :: "unit ko"
    using that assms by (simp add: on_coord_def keeps_def keeps_coord_declared_def split_beta Let_def)
  show ?thesis
  proof (cases a)
    case (Press uid b)
    have "over keeps_coord_declared s (snd (async_press srv uid B ?m b s))" by (rule dk.over_press [OF m]) simp
    then show ?thesis using assms by (simp add: Press over_def keeps_coord_declared_def)
  next
    case (Poll connecting)
    then show ?thesis using poll_declared [OF assms] by (simp add: split_beta)
  next
    case (AddEntity cb)
    then show ?thesis using assms by (simp add: register_event_listener_def coord_declared_def)
  next
    case (RemoveEntity cb)
    then show ?thesis using assms by (simp add: unregister_event_listener_def coord_declared_def)
  next
    case (RunLoop fetched)
    then show ?thesis using run_dispatch_declared [OF assms] by simp
  next
    case (Slide sl v)
    show ?thesis by (rule coord, simp add: Slide, rule dk.keeps_slider [OF m])
  next
    case (SelectRecipe nm)
    show ?thesis by (rule coord, simp add: SelectRecipe, simp add: async_select_recipe_def dk.keeps_select)
  next
    case (SelectPattern nm)
    show ?thesis by (rule coord, simp add: SelectPattern, rule dk.keeps_choose_pattern [OF m])
  next
    case (SelectMode nm)
    show ?thesis by (rule coord, simp add: SelectMode, unfold async_select_mode_def, rule dk.keeps_mode [OF m])
  next
    case TurnOn
    show ?thesis by (rule coord, simp add: TurnOn, unfold async_turn_on_def, intro dk.keeps_ignore dk.keeps_connect m)
  next
    case TurnOff
    show ?thesis by (rule coord, simp add: TurnOff, unfold async_turn_off_def, rule dk.keeps_disconnect)
  qed
qed

text \<open>
  C23. Home Assistant refuses an event whose type the entity does not declare.  Whatever the user does,
  in any order, whatever the machine sends, the link does and the cloud answers for a pod, every
  event the coordinator hands to its listeners is accepted by the two event entities: the receive
  path's names, the synthesised \<^verbatim>\<open>water_shortage_cleared\<close> and the calibration's own events are all
  declared.
\<close>

theorem entity_events_declared:
  assumes "events (w_client (k_world (st_coord s))) = []" "k_tasks (st_coord s) = []" "k_delivered (st_coord s) = []"
    and "category \<in> {''error'', ''notification''}"
    and "(cb, ev) \<in> set (k_delivered (st_coord (fold (user_step srv B (changes_meanwhile ch)) acts s)))"
  shows "is_ok (on_ble_event category ev)"
proof -
  have "coord_declared (st_coord s)" using assms(1-3) by (simp add: coord_declared_def all_declared_def)
  then have "coord_declared (st_coord (fold (user_step srv B (changes_meanwhile ch)) acts s))"
    by (induction acts arbitrary: s) (simp_all add: user_step_declared)
  then have "declared ev" using assms(5) by (force simp: coord_declared_def)
  then show ?thesis using assms(4) by (auto simp: declared_def on_ble_event_def is_ok_def split: prod.splits)
qed

lemma quiet_calibrate:
  assumes "w_ticks w = []" "w_link w"
  shows "\<exists>v. client_calibrate_grinder w = (Inr (), v) \<and> w_client v = w_client w \<and> w_link v"
proof -
  have "is_ok (build_packet_raw CMD_CALIBRATE_GRINDER (le_bytes 4 1000) 1 DEVICE_ID)"
    by (subst build_packet_raw_ok_iff) (simp add: DEVICE_ID_def command_ids)
  moreover have "map_res pack_I [1000] = Inr [le_bytes 4 1000]" by (simp add: pack_I_def pack_le_def)
  ultimately obtain packet where p: "build_packet CMD_CALIBRATE_GRINDER [1000] 1 DEVICE_ID = Inr packet"
    by (auto simp: build_packet_def elim: is_okE)
  obtain w1 where w1: "write_command packet w = (Inr (), w1)" "w_client w1 = w_client w" "w_link w1"
    using quiet_gatt_write_all [OF assms(1)] assms(2) by (auto simp: write_command_def Let_def)
  show ?thesis
    using w1 assms(2) \<open>map_res pack_I [1000] = Inr [le_bytes 4 1000]\<close>
    by (simp add: client_calibrate_grinder_def send_command_def then_co_def bind_co_def p log_sent_def)
qed

lemma on_client_update:
  assumes "k_client k" "events (f (w_client (k_world k))) = events (w_client (k_world k)) @ es"
  shows "on_client (upd_client f) k =
    (Inr (), dispatch_events es (k\<lparr>k_world := (k_world k)\<lparr>w_client := f (w_client (k_world k))\<rparr>\<rparr>))"
  using assms by (simp add: on_client_def on_world_def upd_client_def Let_def)

lemma calibration_announced:
  assumes "k_client k" "k_world k = demo_world []" "k_tasks k = []" "k_event_listeners k = [cb]" "k_delivered k = []"
    "\<not> k_water_shortage k"
  shows "k_delivered (run_dispatch fetched (snd (async_calibrate_grinder B meanwhile k))) =
    [(cb, ''notification'', ''grinder_calibration_started'', [])]"
proof -
  have up: "k_connected k" using assms by simp
  obtain v where v: "client_calibrate_grinder (demo_world []) = (Inr (), v)" "w_client v = w_client (demo_world [])" "w_link v"
    using quiet_calibrate [of "demo_world []"] by auto
  define k1 where "k1 = note_activity k"
  have k1: "k_world k1 = demo_world []" "k_client k1" "k_tasks k1 = []" "k_event_listeners k1 = [cb]" "k_delivered k1 = []"
    "\<not> k_water_shortage k1"
    using assms by (simp_all add: k1_def note_activity_def)
  have run: "on_client client_calibrate_grinder k1 = (Inr (), k1\<lparr>k_world := v\<rparr>)"
    using v k1 by (simp add: on_client_def on_world_def Let_def dispatch_events_def)
  have awake: "\<not> k_asleep k1" "\<not> k_asleep (k1\<lparr>k_world := v\<rparr>)"
    by (simp_all add: k_asleep_def k1 v init_client_def init_status_def)
  define k2 where "k2 = k1\<lparr>k_world := v\<lparr>w_client := upd_status (\<lambda>s. s\<lparr>is_calibrating_grinder := True\<rparr>) (w_client v)\<rparr>\<rparr>"
  have two: "set_calibrating True (k1\<lparr>k_world := v\<rparr>) = (Inr (), k2)"
    using on_client_update [of "k1\<lparr>k_world := v\<rparr>" "upd_status (\<lambda>s. s\<lparr>is_calibrating_grinder := True\<rparr>)" "[]"] k1(2)
    by (simp add: set_calibrating_def k2_def dispatch_events_def)
  have k2: "k_client k2" "k_tasks k2 = []" "k_event_listeners k2 = [cb]" "k_delivered k2 = []" "\<not> k_water_shortage k2"
    using k1 by (simp_all add: k2_def)
  define k3 where "k3 = dispatch_event (Some (status (w_client (k_world k2)))) (''notification'', ''grinder_calibration_started'', [])
    (k2\<lparr>k_world := (k_world k2)\<lparr>w_client := fire_event ''notification'' ''grinder_calibration_started'' [] (w_client (k_world k2))\<rparr>\<rparr>)"
  have three: "fire_on_client ''notification'' ''grinder_calibration_started'' k2 = (Inr (), k3)"
    using on_client_update [of k2 "fire_event ''notification'' ''grinder_calibration_started'' []"
        "[((''notification'', ''grinder_calibration_started'', []), status (w_client (k_world k2)))]"] k2(1)
    by (simp add: fire_on_client_def k3_def dispatch_events_def fire_event_def)
  have k3: "k_tasks k3 = [DoDispatch False (''notification'', ''grinder_calibration_started'', []) []]"
    "k_event_listeners k3 = [cb]" "k_delivered k3 = []"
    using k2 by (simp_all add: k3_def dispatch_event_def water_latch_def track_pod_prompt_def armed_to_active_def
        track_run_def request_def)
  have "async_calibrate_grinder B meanwhile k =
      (Inr (), request CalibrationTimeoutFallback (request AsyncRefresh k3))"
    unfolding async_calibrate_grinder_def when_up_def
      bind_co_run [where m = "async_ensure_connected B meanwhile", OF ensure_connected_up [OF up]] k1_def [symmetric]
    by (simp add: async_retry_while_sleeping_def Let_def awake attempt_def catch_co_def then_co_def bind_co_def run
      WAKE_RETRY_MAX_ATTEMPTS_def eval_nat_numeral two three modify_def)
  then show ?thesis using k3 by (simp add: run_dispatch_def do_dispatch_def request_def)
qed

theorem entity_events_declared_witness:
  "is_ok (on_ble_event ''notification'' (''notification'', ''grinder_calibration_started'', [])) \<and>
   (7, ''notification'', ''grinder_calibration_started'', []) \<in> set (k_delivered (st_coord
     (fold (user_step (\<lambda>_. None) offline_stack (changes_meanwhile (\<lambda>_. [])))
       [AddEntity 7, Press [] CalibrateGrinderButton, RunLoop (Inr None)] demo_store)))"
proof -
  let ?s = "fold (user_step (\<lambda>_. None) offline_stack (changes_meanwhile (\<lambda>_. [])))
       [AddEntity 7, Press [] CalibrateGrinderButton, RunLoop (Inr None)] demo_store"
  let ?k = "register_event_listener 7 (st_coord demo_store)"
  have "k_client ?k" "k_world ?k = demo_world []" "k_tasks ?k = []" "k_event_listeners ?k = [7]" "k_delivered ?k = []"
    "\<not> k_water_shortage ?k"
    by (simp_all add: register_event_listener_def demo_store_def) (simp_all add: demo_coord_def init_coord_def)
  from calibration_announced [OF this, of "Inr None" offline_stack "changes_meanwhile (\<lambda>_. [])"]
  have 1: "(7, ''notification'', ''grinder_calibration_started'', []) \<in> set (k_delivered (st_coord ?s))"
    by (simp add: on_coord_def split_beta Let_def)
  have "events (w_client (k_world (st_coord demo_store))) = []" "k_tasks (st_coord demo_store) = []"
    "k_delivered (st_coord demo_store) = []"
    by (simp_all add: demo_store_def init_client_def) (simp add: demo_coord_def init_coord_def)
  from entity_events_declared [OF this _ 1, of "''notification''"] 1 show ?thesis by simp
qed

theorem first_press_never_starts_witness:
  "\<exists>ss. w_sent (k_world (st_coord (snd (async_press (\<lambda>_. None) [] offline_stack (changes_meanwhile (\<lambda>_. [])) GrindButton
       (demo_store\<lparr>st_coord := demo_coord\<lparr>k_armed_operation := Some ''pour''\<rparr>\<rparr>))))) = ss \<and>
     list_all (\<lambda>x. s_command x \<notin> set STARTING_COMMANDS) ss"
  using first_press_never_starts [of GrindButton "demo_store\<lparr>st_coord := demo_coord\<lparr>k_armed_operation := Some ''pour''\<rparr>\<rparr>"
      "\<lambda>_. None" "[]" offline_stack "\<lambda>_. []"]
  by (simp add: list_all_iff)

section \<open>Firmware checks\<close>

text \<open>
  A check whose answer is older than what is installed is ignored, so as not to offer a downgrade.
  But what an earlier check stored stays: a first check made before the machine has reported its
  version is stored unseen, and once the machine reports a newer one every further check keeps
  offering the older firmware.
\<close>

theorem early_check_offers_downgrade:
  assumes "d_version (k_data k0) = []" "firmware_build (fw_version f) = Some old"
    "firmware_build (d_version (k_data k)) = Some current" "old < current"
  shows "latest_version (fold (\<lambda>_. async_update (Some f) k) checks (async_update (Some f) k0 None)) k = Some (fw_version f)"
proof -
  have "installed_version k0 = None" using assms(1) by (simp add: installed_version_def)
  then have "async_update (Some f) k0 None = Some f" by (simp add: async_update_def build_of_def)
  moreover have "async_update (Some f) k (Some f) = Some f" by (simp add: async_update_def split: option.split)
  then have "fold (\<lambda>_. async_update (Some f) k) checks (Some f) = Some f" by (induction checks) simp_all
  ultimately show ?thesis by (simp add: latest_version_def)
qed

theorem early_check_offers_downgrade_witness:
  "firmware_build ''V12.0D.500'' = Some 500 \<and>
   (let f = \<lparr>fw_version = ''V12.0D.450'', fw_release_notes = [], fw_download_url = []\<rparr>;
        k = demo_coord\<lparr>k_data := DEFAULT_STATE\<lparr>d_version := ''V12.0D.500''\<rparr>\<rparr>
    in latest_version (async_update (Some f) k (async_update (Some f) demo_coord None)) k = Some ''V12.0D.450'')"
proof -
  let ?f = "\<lparr>fw_version = ''V12.0D.450'', fw_release_notes = [], fw_download_url = []\<rparr>"
  let ?k = "demo_coord\<lparr>k_data := DEFAULT_STATE\<lparr>d_version := ''V12.0D.500''\<rparr>\<rparr>"
  have b: "firmware_build ''V12.0D.500'' = Some 500" "firmware_build ''V12.0D.450'' = Some 450" by code_simp+
  have e: "d_version (k_data demo_coord) = []" by (simp add: demo_coord_def init_coord_def DEFAULT_STATE_def)
  have "latest_version (fold (\<lambda>_. async_update (Some ?f) ?k) [()] (async_update (Some ?f) demo_coord None)) ?k = Some (fw_version ?f)"
    by (rule early_check_offers_downgrade [OF e, where old = 450 and current = 500]) (simp_all add: b)
  then show ?thesis using b by (simp add: Let_def)
qed

end
