(* ===== verification/Tools.thy ===== *)
theory Tools
  imports EntityFacts
begin

text \<open>
  The tools of the language-model API (\<^verbatim>\<open>llm/\<close>).  A tool call is an action on the coordinator
  or the store; its arguments have passed the tool's parameter schema, whose bounds are the
  \<open>_parameters\<close> predicates.  Of a result the model keeps what it reports and the error code; the
  instruction texts for the language model are left out.
\<close>

section \<open>Results and the link\<close>

datatype 'a tool_result = ToolFailed string | ToolAsks 'a | ToolDone 'a

text \<open>The first step of every tool that talks to the machine; an exception counts as a failure.\<close>

definition tool_connect :: "ble_stack \<Rightarrow> (string \<Rightarrow> coord \<Rightarrow> coord) \<Rightarrow> bool ko" where
  "tool_connect B meanwhile k =
     (if \<not> k_connected k then catch_co (async_connect B meanwhile) (\<lambda>_. return_co False) k else (Inr True, k))"

definition guarded_co :: "'a ko \<Rightarrow> 'a option ko" where
  "guarded_co m = catch_co (bind_co m (\<lambda>x. return_co (Some x))) (\<lambda>_. return_co None)"

definition with_machine :: "ble_stack \<Rightarrow> (string \<Rightarrow> coord \<Rightarrow> coord) \<Rightarrow> 'a tool_result ko \<Rightarrow> 'a tool_result ko" where
  "with_machine B meanwhile body =
     bind_co (tool_connect B meanwhile) (\<lambda>ok. if \<not> ok then return_co (ToolFailed ''connect_failed'') else body)"

section \<open>Manual grind and pour\<close>

definition GRIND_SIZE_MIN :: int where "GRIND_SIZE_MIN = 1"
definition GRIND_SIZE_MAX :: int where "GRIND_SIZE_MAX = 80"
definition RPM_MIN :: int where "RPM_MIN = 60"
definition RPM_MAX :: int where "RPM_MAX = 120"

definition int_range :: "int \<Rightarrow> int \<Rightarrow> int option \<Rightarrow> bool" where
  "int_range lo hi x = (case x of None \<Rightarrow> True | Some n \<Rightarrow> lo \<le> n \<and> n \<le> hi)"

definition grind_parameters :: "int option \<Rightarrow> int option \<Rightarrow> bool" where
  "grind_parameters gsize speed \<longleftrightarrow> int_range GRIND_SIZE_MIN GRIND_SIZE_MAX gsize \<and> int_range RPM_MIN RPM_MAX speed"

text \<open>
  The two phases of a manual operation once its settings are stored: only a standing arm is
  started, otherwise the machine is armed; the result reports \<open>shown\<close> of the state after it.
\<close>

definition two_phase :: "bool \<Rightarrow> string \<Rightarrow> string \<Rightarrow> bool ko \<Rightarrow> bool ko \<Rightarrow> (coord \<Rightarrow> 'a) \<Rightarrow> 'a tool_result ko" where
  "two_phase confirmed op failed confirm arm shown k0 =
     (let start = (confirmed \<and> k_armed_operation k0 = Some op) in
      bind_co (guarded_co (if start then confirm else arm)) (\<lambda>r.
        case r of
          None \<Rightarrow> return_co (ToolFailed failed)
        | Some ok \<Rightarrow>
            then_co (modify (request UpdateListeners)) (\<lambda>k.
              (Inr (if \<not> ok then ToolFailed (if start then ''start_failed'' else ''arm_failed'')
                    else if \<not> start then ToolAsks (shown k) else ToolDone (shown k)), k))) k0)"

definition grind_tool :: "ble_stack \<Rightarrow> (string \<Rightarrow> coord \<Rightarrow> coord) \<Rightarrow> int option \<Rightarrow> int option \<Rightarrow> bool \<Rightarrow>
    (int \<times> int) tool_result ko" where
  "grind_tool B meanwhile gsize speed confirmed =
     with_machine B meanwhile
       (then_co (modify (\<lambda>k. k\<lparr>k_grind_size := or_default gsize (k_grind_size k), k_rpm := or_default speed (k_rpm k)\<rparr>))
         (two_phase confirmed ''grind'' ''Grind failed'' (async_confirm_grind B meanwhile) (async_arm_grind B meanwhile)
           (\<lambda>k. (k_grind_size k, k_rpm k))))"

definition TEMPERATURE_MIN_C :: rat where "TEMPERATURE_MIN_C = 40"
definition TEMPERATURE_MAX_C :: rat where "TEMPERATURE_MAX_C = 95"
definition TEMPERATURE_BOILING_C :: int where "TEMPERATURE_BOILING_C = 96"
definition VOLUME_MIN_ML :: int where "VOLUME_MIN_ML = 10"
definition VOLUME_MAX_ML :: int where "VOLUME_MAX_ML = 500"
definition FLOW_RATE_MIN :: rat where "FLOW_RATE_MIN = 3"
definition FLOW_RATE_MAX :: rat where "FLOW_RATE_MAX = 7 / 2"

definition float_range :: "rat \<Rightarrow> rat \<Rightarrow> pyfloat option \<Rightarrow> bool" where
  "float_range lo hi x = (case x of None \<Rightarrow> True | Some (Fin v) \<Rightarrow> lo \<le> v \<and> v \<le> hi | _ \<Rightarrow> False)"

definition pour_parameters :: "pyfloat option \<Rightarrow> int \<Rightarrow> pyfloat option \<Rightarrow> bool" where
  "pour_parameters t vol flow \<longleftrightarrow> float_range TEMPERATURE_MIN_C TEMPERATURE_MAX_C t \<and>
     int_range VOLUME_MIN_ML VOLUME_MAX_ML (Some vol) \<and> float_range FLOW_RATE_MIN FLOW_RATE_MAX flow"

definition pour_temperature :: "bool \<Rightarrow> pyfloat option \<Rightarrow> pyfloat option" where
  "pour_temperature boiling t = (if boiling then Some (Fin (of_int TEMPERATURE_BOILING_C)) else t)"

definition pour_tool :: "ble_stack \<Rightarrow> (string \<Rightarrow> coord \<Rightarrow> coord) \<Rightarrow> pyfloat option \<Rightarrow> bool \<Rightarrow> int \<Rightarrow> pyfloat option \<Rightarrow> bool \<Rightarrow>
    (pyfloat \<times> bool \<times> int) tool_result ko" where
  "pour_tool B meanwhile t boiling vol flow confirmed =
     (case pour_temperature boiling t of
        None \<Rightarrow> return_co (ToolFailed ''missing_temperature'')
      | Some t \<Rightarrow>
          with_machine B meanwhile
            (bind_co (lift_res (round_float t)) (\<lambda>n.
             then_co (modify (\<lambda>k. k\<lparr>k_temperature := n, k_volume := vol, k_flow_rate := or_default flow (k_flow_rate k)\<rparr>))
               (two_phase confirmed ''pour'' ''Pour failed'' (async_confirm_pour B meanwhile) (async_arm_pour B meanwhile)
                 (\<lambda>_. (t, boiling, vol))))))"

section \<open>Cancel, tare, calibrate, status\<close>

definition cancel_tool :: "ble_stack \<Rightarrow> (string \<Rightarrow> coord \<Rightarrow> coord) \<Rightarrow> unit tool_result ko" where
  "cancel_tool B meanwhile =
     bind_co (guarded_co (async_cancel B meanwhile)) (\<lambda>r.
       return_co (if r = None then ToolFailed ''Cancel failed'' else ToolDone ()))"

definition tare_tool :: "ble_stack \<Rightarrow> (string \<Rightarrow> coord \<Rightarrow> coord) \<Rightarrow> unit tool_result ko" where
  "tare_tool B meanwhile = with_machine B meanwhile
     (bind_co (guarded_co (async_tare_scale B meanwhile)) (\<lambda>r.
       return_co (if r = None then ToolFailed ''Tare failed'' else ToolDone ())))"

definition calibrate_tool :: "ble_stack \<Rightarrow> (string \<Rightarrow> coord \<Rightarrow> coord) \<Rightarrow> unit tool_result ko" where
  "calibrate_tool B meanwhile = with_machine B meanwhile
     (bind_co (guarded_co (async_calibrate_grinder B meanwhile)) (\<lambda>r.
       return_co (if r = None then ToolFailed ''Calibration failed'' else ToolDone ())))"

record machine_status =
  ms_state :: string
  ms_brewer_temperature_c :: "pyfloat option"
  ms_scale_weight_g :: "pyfloat option"
  ms_grinder_running :: bool
  ms_brewer_running :: bool
  ms_water_level_ok :: bool
  ms_firmware_version :: string
  ms_serial_number :: string
  ms_error :: "string option"

definition machine_status_of :: "snapshot \<Rightarrow> machine_status" where
  "machine_status_of d =
     \<lparr>ms_state = d_state d, ms_brewer_temperature_c = d_temperature d, ms_scale_weight_g = d_weight d,
      ms_grinder_running = d_grinder_running d, ms_brewer_running = d_brewer_running d,
      ms_water_level_ok = d_water_level_ok d, ms_firmware_version = d_version d,
      ms_serial_number = d_serial_number d, ms_error = d_error d\<rparr>"

definition status_tool :: "ble_stack \<Rightarrow> (string \<Rightarrow> coord \<Rightarrow> coord) \<Rightarrow> machine_status tool_result ko" where
  "status_tool B meanwhile = with_machine B meanwhile (\<lambda>k. (Inr (ToolDone (machine_status_of (k_data k))), k))"

section \<open>Recipes as the language model sees them\<close>

record recipe_summary =
  sm_uid :: "string option"
  sm_name :: string
  sm_source :: "string option"
  sm_cup_type :: string
  sm_dose_g :: pyfloat
  sm_grind_size :: int
  sm_total_water_ml :: pyfloat
  sm_pour_count :: nat
  sm_cloud_table_id :: "int option"
  sm_share_url :: "string option"

definition summarize_recipe :: "recipe_dict \<Rightarrow> recipe_summary res" where
  "summarize_recipe raw = bind_res (compute_total_water_ml raw) (\<lambda>water. Inr
     \<lparr>sm_uid = rd_uid raw, sm_name = rd_name raw, sm_source = rd_source raw, sm_cup_type = rd_cup_type raw,
      sm_dose_g = dose_g raw, sm_grind_size = rd_grind_size raw, sm_total_water_ml = water,
      sm_pour_count = length (rd_pours raw), sm_cloud_table_id = rd_cloud_table_id raw,
      sm_share_url = (if rd_share_url raw = Some [] then None else rd_share_url raw)\<rparr>)"

text \<open>The first pattern name of a code, spiral for an unknown one.\<close>

definition PATTERN_INT_TO_NAME :: "(int \<times> string) list" where
  "PATTERN_INT_TO_NAME = map (\<lambda>(k, v). (v, k)) POUR_PATTERN_OPTIONS"

record pour_detail =
  pd_pour_index :: nat
  pd_volume_ml :: int
  pd_temperature_c :: int
  pd_flow_rate :: pyfloat
  pd_pattern :: string
  pd_pause_seconds :: int

record recipe_detail =
  de_name :: string
  de_cup_type :: string
  de_grind_size :: int
  de_rpm :: int
  de_dose_g :: pyfloat
  de_total_water_ml :: pyfloat
  de_bypass_volume_ml :: pyfloat
  de_bypass_temperature_c :: pyfloat
  de_pours :: "pour_detail list"

definition pour_detail_of :: "nat \<Rightarrow> pour_dict \<Rightarrow> pour_detail" where
  "pour_detail_of i p =
     \<lparr>pd_pour_index = i, pd_volume_ml = volume_ml p, pd_temperature_c = temperature_c p,
      pd_flow_rate = pour_flow_rate p, pd_pattern = or_default (map_of PATTERN_INT_TO_NAME (pattern_code p)) ''spiral'',
      pd_pause_seconds = pause_seconds p\<rparr>"

definition detail_recipe :: "recipe_dict \<Rightarrow> recipe_detail res" where
  "detail_recipe raw = bind_res (compute_total_water_ml raw) (\<lambda>water. Inr
     \<lparr>de_name = rd_name raw, de_cup_type = rd_cup_type raw, de_grind_size = rd_grind_size raw, de_rpm = rd_rpm raw,
      de_dose_g = dose_g raw, de_total_water_ml = water, de_bypass_volume_ml = rd_bypass_volume raw,
      de_bypass_temperature_c = rd_bypass_temperature raw,
      de_pours = map (\<lambda>(i, p). pour_detail_of i p) (zip [0..<length (rd_pours raw)] (rd_pours raw))\<rparr>)"

definition get_recipe_tool :: "string \<Rightarrow> recipe_detail tool_result ko" where
  "get_recipe_tool identifier k =
     (case find_recipe (k_recipes k) identifier of
        None \<Rightarrow> (Inr (ToolFailed ''recipe_not_found''), k)
      | Some (_, raw) \<Rightarrow> (bind_res (detail_recipe raw) (\<lambda>d. Inr (ToolDone d)), k))"

definition list_recipes_tool :: "string option \<Rightarrow> recipe_summary list ko" where
  "list_recipes_tool text k =
     (let query = py_lower (py_strip (or_default text [])) in
      (map_res summarize_recipe
         (map snd (filter (\<lambda>(nm, _). query = [] \<or> contains query (py_lower nm)) (k_recipes k))), k))"

section \<open>Executing a recipe\<close>

definition CUP_PRESENCE_WEIGHT_G :: pyfloat where "CUP_PRESENCE_WEIGHT_G = Fin 20"

record llm_pour =
  lp_pour_index :: int
  lp_volume :: "int option"
  lp_flow_rate :: "pyfloat option"
  lp_pattern :: "string option"

record execute_args =
  ea_confirmed :: bool
  ea_grind_size :: "int option"
  ea_rpm :: "int option"
  ea_dose_g :: "pyfloat option"
  ea_ratio :: "pyfloat option"
  ea_temperature_c :: "int option"
  ea_cup_type :: "string option"
  ea_bypass_volume :: "int option"
  ea_bypass_temperature :: "int option"
  ea_pour_overrides :: "llm_pour list"

definition execute_parameters :: "execute_args \<Rightarrow> bool" where
  "execute_parameters a \<longleftrightarrow>
     int_range 1 80 (ea_grind_size a) \<and> int_range 60 120 (ea_rpm a) \<and> float_range 1 100 (ea_dose_g a) \<and>
     float_range 1 50 (ea_ratio a) \<and> int_range 40 100 (ea_temperature_c a) \<and>
     ea_cup_type a \<in> insert None (Some ` {''x_pod'', ''omni_dripper'', ''other'', ''tea''}) \<and>
     int_range 0 200 (ea_bypass_volume a) \<and> int_range 0 100 (ea_bypass_temperature a) \<and>
     list_all (\<lambda>p. 0 \<le> lp_pour_index p \<and> int_range 30 500 (lp_volume p) \<and> float_range 3 (7 / 2) (lp_flow_rate p) \<and>
       lp_pattern p \<in> insert None (Some ` set (map fst POUR_PATTERN_OPTIONS))) (ea_pour_overrides a)"

text \<open>What the user is asked about before a start.\<close>

datatype checklist_item = BeansAdded | TeaLeavesAdded | DripperAttached | PaperFilterInstalled | CupOnScale pyfloat

datatype execution = Started recipe_summary | Armed "checklist_item list" recipe_summary

definition tool_cup_type :: "execute_args \<Rightarrow> recipe_dict \<Rightarrow> string" where
  "tool_cup_type a recipe =
     py_lower (case ea_cup_type a of
         Some c \<Rightarrow> if c \<noteq> [] then c else if rd_cup_type recipe \<noteq> [] then rd_cup_type recipe else ''omni_dripper''
       | None \<Rightarrow> if rd_cup_type recipe \<noteq> [] then rd_cup_type recipe else ''omni_dripper'')"

definition needs_grind :: "execute_args \<Rightarrow> recipe_dict \<Rightarrow> bool" where
  "needs_grind a recipe \<longleftrightarrow>
     tool_cup_type a recipe \<noteq> ''tea'' \<and> flt (Fin 0) (or_default (ea_dose_g a) (dose_g recipe)) \<and>
     0 < rd_grind_size recipe"

definition checklist :: "execute_args \<Rightarrow> recipe_dict \<Rightarrow> pyfloat option \<Rightarrow> checklist_item list" where
  "checklist a recipe weight =
     (let is_tea = (tool_cup_type a recipe = ''tea''); w = or_default weight (Fin 0) in
      (if is_tea \<or> needs_grind a recipe
       then [if is_tea then TeaLeavesAdded else BeansAdded, DripperAttached] else [])
      @ (if needs_grind a recipe then [PaperFilterInstalled] else [])
      @ (if flt w CUP_PRESENCE_WEIGHT_G then [CupOnScale w] else []))"

definition pour_override_of :: "llm_pour \<Rightarrow> pour_override res" where
  "pour_override_of p =
     bind_res (case lp_pattern p of
         None \<Rightarrow> Inr None
       | Some nm \<Rightarrow> (case map_of POUR_PATTERN_OPTIONS nm of None \<Rightarrow> Inl KeyError | Some c \<Rightarrow> Inr (Some c))) (\<lambda>pat.
     Inr \<lparr>pour_index = lp_pour_index p, ov_volume = lp_volume p, ov_flow_rate = lp_flow_rate p, ov_pattern = pat\<rparr>)"

text \<open>Phase 2: the standing arm is started, and the recipe asked for is reported.\<close>

definition start_armed :: "ble_stack \<Rightarrow> (string \<Rightarrow> coord \<Rightarrow> coord) \<Rightarrow> recipe_dict \<Rightarrow> execution tool_result ko" where
  "start_armed B meanwhile recipe =
     bind_co (guarded_co (coord_confirm_recipe B meanwhile)) (\<lambda>r.
       case r of
         None \<Rightarrow> return_co (ToolFailed ''Execution failed'')
       | Some started \<Rightarrow>
           then_co (modify (request UpdateListeners))
             (if \<not> started then return_co (ToolFailed ''start_failed'')
              else bind_co (lift_res (summarize_recipe recipe)) (\<lambda>sm. return_co (ToolDone (Started sm)))))"

text \<open>Phase 1: select, store the settings, back out of a standing arm, arm.\<close>

definition apply_execute_args :: "bool \<Rightarrow> execute_args \<Rightarrow> coord \<Rightarrow> coord" where
  "apply_execute_args is_tea a k =
     (if is_tea then k
      else k\<lparr>k_grind_size := or_default (ea_grind_size a) (k_grind_size k), k_rpm := or_default (ea_rpm a) (k_rpm k)\<rparr>)"

definition rearm :: "ble_stack \<Rightarrow> (string \<Rightarrow> coord \<Rightarrow> coord) \<Rightarrow> recipe_overrides \<Rightarrow> pour_override list \<Rightarrow>
    pyfloat option \<Rightarrow> pyfloat option \<Rightarrow> unit ko" where
  "rearm B meanwhile ov pour_ovs bypass_volume bypass_temperature k =
     then_co (if k_armed_operation k \<notin> {None, Some []} then async_cancel B meanwhile else return_co ())
       (coord_arm_recipe B meanwhile ov pour_ovs bypass_volume bypass_temperature) k"

definition arm_for_llm :: "ble_stack \<Rightarrow> (string \<Rightarrow> coord \<Rightarrow> coord) \<Rightarrow> execute_args \<Rightarrow> string \<Rightarrow> recipe_dict \<Rightarrow>
    execution tool_result ko" where
  "arm_for_llm B meanwhile a recipe_name recipe =
     (let is_tea = (tool_cup_type a recipe = ''tea'');
          bypass = (\<lambda>x. if is_tea then Inr None
             else case x of None \<Rightarrow> Inr None | Some n \<Rightarrow> bind_res (float_of_int n) (\<lambda>f. Inr (Some f)));
          ov = \<lparr>ro_dose_g = ea_dose_g a, ro_ratio = ea_ratio a, ro_cup_type = ea_cup_type a,
                ro_temperature_c = ea_temperature_c a\<rparr>
      in then_co (modify (\<lambda>k. apply_execute_args is_tea a (select_recipe (Some recipe_name) k)))
        (bind_co (lift_res (bypass (ea_bypass_volume a))) (\<lambda>bypass_volume.
         bind_co (lift_res (bypass (ea_bypass_temperature a))) (\<lambda>bypass_temperature.
         bind_co (lift_res (map_res pour_override_of (ea_pour_overrides a))) (\<lambda>pour_ovs.
         bind_co (guarded_co (rearm B meanwhile ov pour_ovs bypass_volume bypass_temperature)) (\<lambda>r.
           if r = None then return_co (ToolFailed ''Arming failed'')
           else then_co (modify (request UpdateListeners)) (\<lambda>k.
             if k_armed_operation k \<noteq> Some ''recipe'' then (Inr (ToolFailed ''arm_failed''), k)
             else (bind_res (summarize_recipe recipe) (\<lambda>sm.
                     Inr (ToolAsks (Armed (checklist a recipe (d_weight (k_data k))) sm))), k))))))))"

definition execute_tool :: "ble_stack \<Rightarrow> (string \<Rightarrow> coord \<Rightarrow> coord) \<Rightarrow> string \<Rightarrow> execute_args \<Rightarrow> execution tool_result ko" where
  "execute_tool B meanwhile identifier a k0 =
     (case find_recipe (k_recipes k0) identifier of
        None \<Rightarrow> (Inr (ToolFailed ''recipe_not_found''), k0)
      | Some (recipe_name, recipe) \<Rightarrow>
          with_machine B meanwhile (\<lambda>k.
            if k_water_source k = WATER_SOURCE_TANK \<and> \<not> d_water_level_ok (k_data k)
            then (Inr (ToolFailed ''water_low''), k)
            else if ea_confirmed a \<and> k_armed_operation k = Some ''recipe'' \<and> k_selected_recipe k = Some recipe_name
            then start_armed B meanwhile recipe k
            else arm_for_llm B meanwhile a recipe_name recipe k) k0)"

section \<open>Easy Mode slots\<close>

definition slot_tool :: "server \<Rightarrow> string \<Rightarrow> ble_stack \<Rightarrow> (string \<Rightarrow> coord \<Rightarrow> coord) \<Rightarrow> string \<Rightarrow> string \<Rightarrow>
    (string \<times> recipe_summary option) tool_result so" where
  "slot_tool srv uid B meanwhile slot identifier =
     (let slot_letter = py_upper (py_strip slot) in
      if slot_letter \<notin> {''A'', ''B'', ''C''} then return_co (ToolFailed ''invalid_slot'')
      else bind_co (on_coord (tool_connect B meanwhile)) (\<lambda>ok.
        if \<not> ok then return_co (ToolFailed ''connect_failed'')
        else bind_co (coord_write_easy_slot srv uid B meanwhile slot_letter (Some identifier)) (\<lambda>reply s.
          case reply of
            Refused e \<Rightarrow> (Inr (ToolFailed e), s)
          | Saved _ nm \<Rightarrow>
              (case map_of (st_recipes s) nm of
                 None \<Rightarrow> (Inr (ToolDone (slot_letter, None)), s)
               | Some r \<Rightarrow> (bind_res (summarize_recipe r) (\<lambda>sm. Inr (ToolDone (slot_letter, Some sm))), s)))))"

section \<open>Creating, editing, deleting\<close>

record tool_pour =
  tp_volume_ml :: int
  tp_temperature_c :: int
  tp_flow_rate :: "pyfloat option"
  tp_pattern :: "string option"
  tp_pause_seconds :: "int option"

definition pour_arg_ok :: "tool_pour \<Rightarrow> bool" where
  "pour_arg_ok p \<longleftrightarrow> int_range 1 1000 (Some (tp_volume_ml p)) \<and> int_range 0 100 (Some (tp_temperature_c p)) \<and>
     float_range 3 (7 / 2) (tp_flow_rate p) \<and> tp_pattern p \<in> insert None (Some ` set (map fst POUR_PATTERN_OPTIONS)) \<and>
     int_range 0 600 (tp_pause_seconds p)"

text \<open>An absent field of a pour takes the recipe schema's default.\<close>

definition pour_of_args :: "tool_pour \<Rightarrow> raw_pour res" where
  "pour_of_args p =
     bind_res (case tp_pattern p of
         None \<Rightarrow> Inr 2
       | Some nm \<Rightarrow> (case map_of POUR_PATTERN_OPTIONS nm of None \<Rightarrow> Inl KeyError | Some c \<Rightarrow> Inr c)) (\<lambda>pat.
     Inr \<lparr>raw_volume_ml = tp_volume_ml p, raw_temperature_c = PInt (tp_temperature_c p),
       raw_flow_rate = or_default (tp_flow_rate p) (Fin 3), raw_pause_seconds = or_default (tp_pause_seconds p) 0,
       raw_pattern = PInt pat, raw_vibration = ''none''\<rparr>)"

record recipe_args =
  ra_name :: "string option"
  ra_cup_type :: "string option"
  ra_grind_size :: "int option"
  ra_rpm :: "int option"
  ra_dose_g :: "pyfloat option"
  ra_ratio :: "pyfloat option"
  ra_bypass_volume :: "pyfloat option"
  ra_bypass_temperature :: "pyfloat option"
  ra_pours :: "tool_pour list option"

definition recipe_args_to_dict :: "recipe_args \<Rightarrow> recipe_changes res" where
  "recipe_args_to_dict a =
     bind_res (case ra_pours a of None \<Rightarrow> Inr None
         | Some ps \<Rightarrow> bind_res (map_res pour_of_args ps) (\<lambda>rs. Inr (Some rs))) (\<lambda>ps.
     Inr \<lparr>ch_uid = None, ch_cloud_table_id = None, ch_share_url = None, ch_source = None, ch_name = ra_name a,
       ch_grind_size = ra_grind_size a, ch_rpm = ra_rpm a, ch_dose_g = ra_dose_g a, ch_ratio = map_option Some (ra_ratio a),
       ch_cup_type = ra_cup_type a, ch_bypass_volume = ra_bypass_volume a,
       ch_bypass_temperature = ra_bypass_temperature a, ch_pours = ps\<rparr>)"

text \<open>The defaults of the recipe schema, over which a new recipe's fields are laid.\<close>

definition schema_defaults :: recipe_dict where
  "schema_defaults =
     \<lparr>rd_uid = None, rd_cloud_table_id = None, rd_share_url = None, rd_source = None, rd_name = [],
      rd_grind_size = 50, rd_rpm = 80, dose_g = Fin 15, ratio = None, rd_cup_type = ''omni_dripper'',
      rd_bypass_volume = Fin 0, rd_bypass_temperature = Fin 0, rd_pours = []\<rparr>"

definition stored_reply :: "reply \<Rightarrow> (string option \<times> string) tool_result" where
  "stored_reply r = (case r of Refused e \<Rightarrow> ToolFailed e | Saved u nm \<Rightarrow> ToolDone (u, nm))"

definition create_recipe_tool :: "string \<Rightarrow> recipe_args \<Rightarrow> (string option \<times> string) tool_result so" where
  "create_recipe_tool uid a =
     bind_co (lift_res (recipe_args_to_dict a)) (\<lambda>ch s.
       case create_local_recipe uid (merge_changes schema_defaults ch) s of (r, s1) \<Rightarrow> (Inr (stored_reply r), s1))"

definition no_change :: recipe_changes where
  "no_change = \<lparr>ch_uid = None, ch_cloud_table_id = None, ch_share_url = None, ch_source = None, ch_name = None,
     ch_grind_size = None, ch_rpm = None, ch_dose_g = None, ch_ratio = None, ch_cup_type = None,
     ch_bypass_volume = None, ch_bypass_temperature = None, ch_pours = None\<rparr>"

definition edit_recipe_tool :: "server \<Rightarrow> string \<Rightarrow> string \<Rightarrow> recipe_args \<Rightarrow> (string option \<times> string) tool_result so" where
  "edit_recipe_tool srv uid identifier a =
     bind_co (lift_res (recipe_args_to_dict a)) (\<lambda>ch.
       if ch = no_change then return_co (ToolFailed ''no_fields'')
       else bind_co (async_edit_local_recipe srv uid identifier ch) (\<lambda>r. return_co (stored_reply r)))"

definition delete_recipe_tool :: "string \<Rightarrow> bool \<Rightarrow> (string option \<times> string) tool_result so" where
  "delete_recipe_tool identifier confirmed s =
     (if \<not> confirmed then (Inr (ToolAsks (None, identifier)), s)
      else case delete_local_recipe identifier s of (r, s1) \<Rightarrow> (Inr (stored_reply r), s1))"

section \<open>The cloud\<close>

definition import_tool :: "server \<Rightarrow> string \<Rightarrow> string \<Rightarrow> (string option \<times> string) tool_result so" where
  "import_tool srv uid share_url_or_id =
     bind_co (async_import_cloud_recipe srv uid share_url_or_id) (\<lambda>r. return_co (stored_reply r))"

definition search_tool :: "server \<Rightarrow> search_filters \<Rightarrow> (cloud_entry list \<times> (string \<times> string list) list) tool_result so" where
  "search_tool srv f =
     bind_co (on_cloud (search_collective srv f)) (\<lambda>found.
       return_co (case found of None \<Rightarrow> ToolFailed ''search_failed'' | Some x \<Rightarrow> ToolDone x))"

text \<open>The recipe, its cloud id and link when it was uploaded, and whether the bypass warning applies.\<close>

definition export_tool :: "server \<Rightarrow> string \<Rightarrow> (recipe_dict \<times> (int \<times> string) option \<times> bool) tool_result so" where
  "export_tool srv identifier =
     bind_co (async_export_recipe srv identifier) (\<lambda>r. return_co (case r of
         ExportRefused e \<Rightarrow> ToolFailed e
       | ExportLocal recipe warning \<Rightarrow> ToolDone (recipe, None, warning)
       | Exported t link recipe warning \<Rightarrow> ToolDone (recipe, Some (t, link), warning)))"

section \<open>The API of an entry\<close>

text \<open>
  Each loaded entry registers an API of its own; \<open>entries\<close> gives the coordinator of a loaded entry.
  The tools are served for the id of a loaded entry only.
\<close>

definition XBLOOM_LLM_API_ID :: string where "XBLOOM_LLM_API_ID = ''xbloom_coffee''"
definition API_ID_PREFIX :: string where "API_ID_PREFIX = XBLOOM_LLM_API_ID @ ''_''"

definition llm_api_id :: "string \<Rightarrow> string" where "llm_api_id entry_id = API_ID_PREFIX @ entry_id"

definition async_get_tools :: "(string \<rightharpoonup> 'a) \<Rightarrow> string \<Rightarrow> 'a option" where
  "async_get_tools entries api_id =
     (if take (length API_ID_PREFIX) api_id \<noteq> API_ID_PREFIX then None
      else entries (drop (length API_ID_PREFIX) api_id))"

definition async_get_api_instance :: "(string \<rightharpoonup> 'a) \<Rightarrow> string \<Rightarrow> 'a res" where
  "async_get_api_instance entries entry_id =
     (case async_get_tools entries (llm_api_id entry_id) of
        None \<Rightarrow> Inl HomeAssistantError
      | Some c \<Rightarrow> Inr c)"

end
