(* ===== verification/ToolFacts.thy ===== *)
theory ToolFacts
  imports Tools
begin

text \<open>
  What a tool call can set going, where the confirmation of a recipe goes astray, and that a recipe
  the language model creates reads back as it was given.
\<close>

section \<open>Tool calls under a contract\<close>

datatype llm_call =
    GrindCall "int option" "int option" bool | PourCall "pyfloat option" bool int "pyfloat option" bool
  | ExecuteCall string execute_args | CancelCall | TareCall | CalibrateCall | StatusCall | GetCall string
  | ListCall "string option" | SlotCall string string string | CreateCall string recipe_args
  | EditCall string string recipe_args | DeleteCall string bool | ImportCall string string | SearchCall search_filters
  | ExportCall string

definition forget :: "('s, 'a) act \<Rightarrow> ('s, unit) act" where
  "forget m s = (case m s of (r, s') \<Rightarrow> (map_sum id (\<lambda>_. ()) r, s'))"

fun tool_call :: "server \<Rightarrow> ble_stack \<Rightarrow> (string \<Rightarrow> coord \<Rightarrow> coord) \<Rightarrow> llm_call \<Rightarrow> unit so" where
  "tool_call srv B m (GrindCall g r c) = forget (on_coord (grind_tool B m g r c))"
| "tool_call srv B m (PourCall t b v f c) = forget (on_coord (pour_tool B m t b v f c))"
| "tool_call srv B m (ExecuteCall i a) = forget (on_coord (execute_tool B m i a))"
| "tool_call srv B m CancelCall = forget (on_coord (cancel_tool B m))"
| "tool_call srv B m TareCall = forget (on_coord (tare_tool B m))"
| "tool_call srv B m CalibrateCall = forget (on_coord (calibrate_tool B m))"
| "tool_call srv B m StatusCall = forget (on_coord (status_tool B m))"
| "tool_call srv B m (GetCall i) = forget (on_coord (get_recipe_tool i))"
| "tool_call srv B m (ListCall q) = forget (on_coord (list_recipes_tool q))"
| "tool_call srv B m (SlotCall uid l i) = forget (slot_tool srv uid B m l i)"
| "tool_call srv B m (CreateCall uid a) = forget (create_recipe_tool uid a)"
| "tool_call srv B m (EditCall uid i a) = forget (edit_recipe_tool srv uid i a)"
| "tool_call srv B m (DeleteCall i c) = forget (delete_recipe_tool i c)"
| "tool_call srv B m (ImportCall uid i) = forget (import_tool srv uid i)"
| "tool_call srv B m (SearchCall f) = forget (search_tool srv f)"
| "tool_call srv B m (ExportCall i) = forget (export_tool srv i)"

text \<open>The operation a call may start: the one it confirms.\<close>

fun confirmed_operation :: "llm_call \<Rightarrow> string option" where
  "confirmed_operation (GrindCall _ _ c) = (if c then Some ''grind'' else None)"
| "confirmed_operation (PourCall _ _ _ _ c) = (if c then Some ''pour'' else None)"
| "confirmed_operation (ExecuteCall _ a) = (if ea_confirmed a then Some ''recipe'' else None)"
| "confirmed_operation _ = None"

context entity_law
begin

lemma keeps_tool_connect: "(\<And>key k. R k (meanwhile key k)) \<Longrightarrow> keeps R (tool_connect B meanwhile)"
proof -
  assume m: "\<And>key k. R k (meanwhile key k)"
  have "keeps R (catch_co (async_connect B meanwhile) (\<lambda>_. return_co False))"
    by (intro keeps_catch keeps_connect keeps_return m)
  then show ?thesis by (simp add: keeps_def tool_connect_def R_refl)
qed

lemma keeps_guarded_call: "keeps R m \<Longrightarrow> keeps R (guarded_co m)"
  unfolding guarded_co_def by (intro keeps_catch keeps_bind keeps_return)

text \<open>The body runs in the state the connection leaves.\<close>

lemma with_machine_at:
  assumes "\<And>key k. R k (meanwhile key k)" "R (snd (tool_connect B meanwhile k)) (snd (body (snd (tool_connect B meanwhile k))))"
  shows "R k (snd (with_machine B meanwhile body k))"
proof -
  have 1: "R k (snd (tool_connect B meanwhile k))" using keeps_tool_connect [OF assms(1)] by (simp add: keeps_def)
  show ?thesis
    using R_trans [OF 1 assms(2)] 1
    by (cases "tool_connect B meanwhile k") (auto simp: with_machine_def bind_co_eq split: sum.split)
qed

lemma keeps_with_machine:
  "(\<And>key k. R k (meanwhile key k)) \<Longrightarrow> keeps R body \<Longrightarrow> keeps R (with_machine B meanwhile body)"
  unfolding keeps_def by (intro allI with_machine_at) simp_all

lemma two_phase_at:
  assumes "keeps R arm" "\<not> confirmed \<or> k_armed_operation k \<noteq> Some op \<or> keeps R confirm"
  shows "R k (snd (two_phase confirmed op failed confirm arm shown k))"
proof -
  let ?start = "confirmed \<and> k_armed_operation k = Some op"
  have "keeps R (case r of None \<Rightarrow> return_co (ToolFailed failed)
        | Some ok \<Rightarrow> then_co (modify (request UpdateListeners)) (\<lambda>k.
              (Inr (if \<not> ok then ToolFailed (if b then ''start_failed'' else ''arm_failed'')
                    else if \<not> b then ToolAsks (shown k) else ToolDone (shown k)), k)))" for r b
    by (cases r) (simp_all add: keeps_return keeps_then keeps_modify R_request keeps_pure del: then_co_def)
  then have "keeps R (bind_co (guarded_co (if ?start then confirm else arm)) (\<lambda>r. case r of
        None \<Rightarrow> return_co (ToolFailed failed)
      | Some ok \<Rightarrow> then_co (modify (request UpdateListeners)) (\<lambda>k.
              (Inr (if \<not> ok then ToolFailed (if ?start then ''start_failed'' else ''arm_failed'')
                    else if \<not> ?start then ToolAsks (shown k) else ToolDone (shown k)), k))))"
    using assms by (intro keeps_bind keeps_guarded_call) auto
  then show ?thesis by (simp only: keeps_def two_phase_def Let_def)
qed

lemma then_local_at:
  assumes "k_world (f k) = k_world k" "k_tasks (f k) = k_tasks k" "k_delivered (f k) = k_delivered k"
    "R (f k) (snd (m (f k)))"
  shows "R k (snd (then_co (modify f) m k))"
  using R_trans [OF R_local [OF assms(1-3)] assms(4)] by (simp add: then_co_def bind_co_def modify_def)

lemma grind_tool_at:
  assumes "\<And>key k. R k (meanwhile key k)"
    "\<not> confirmed \<or> k_armed_operation (snd (tool_connect B meanwhile k)) \<noteq> Some ''grind'' \<or> may CMD_GRINDER_START"
  shows "R k (snd (grind_tool B meanwhile gsize speed confirmed k))"
  unfolding grind_tool_def
  by (intro with_machine_at assms(1) then_local_at two_phase_at keeps_arm_grind)
    (use assms keeps_confirm_grind in auto)

lemma pour_tool_at:
  assumes "\<And>key k. R k (meanwhile key k)"
    "\<not> confirmed \<or> k_armed_operation (snd (tool_connect B meanwhile k)) \<noteq> Some ''pour'' \<or> may CMD_BREWER_START"
  shows "R k (snd (pour_tool B meanwhile t boiling vol flow confirmed k))"
proof (cases "pour_temperature boiling t")
  case (Some x)
  let ?k = "snd (tool_connect B meanwhile k)"
  have "R ?k (snd (then_co (modify (\<lambda>k. k\<lparr>k_temperature := n, k_volume := vol, k_flow_rate := or_default flow (k_flow_rate k)\<rparr>))
      (two_phase confirmed ''pour'' ''Pour failed'' (async_confirm_pour B meanwhile) (async_arm_pour B meanwhile) sh) ?k))" for n and sh :: "coord \<Rightarrow> pyfloat \<times> bool \<times> int"
    by (intro then_local_at two_phase_at keeps_arm_pour assms(1)) (use assms keeps_confirm_pour in auto)
  then show ?thesis
    unfolding pour_tool_def Some option.case
    by (intro with_machine_at assms(1)) (simp add: bind_co_def R_refl split: sum.split)
qed (simp add: pour_tool_def R_refl)

lemma keeps_start_armed:
  assumes "\<And>key k. R k (meanwhile key k)" "may CMD_TEA_RECIPE_MAKE" "may CMD_RECIPE_EXECUTE"
  shows "keeps R (start_armed B meanwhile recipe)"
proof -
  have "keeps R (case r of None \<Rightarrow> return_co (ToolFailed ''Execution failed'')
     | Some started \<Rightarrow> then_co (modify (request UpdateListeners))
             (if \<not> started then return_co (ToolFailed ''start_failed'')
              else bind_co (lift_res (summarize_recipe recipe)) (\<lambda>sm. return_co (ToolDone (Started sm)))))" for r
    by (cases r) (simp_all add: keeps_return keeps_then keeps_modify R_request keeps_bind keeps_lift del: then_co_def)
  then show ?thesis
    unfolding start_armed_def by (intro keeps_bind keeps_guarded_call keeps_confirm_recipe assms)
qed

lemma keeps_rearm:
  assumes "\<And>key k. R k (meanwhile key k)"
  shows "keeps R (rearm B meanwhile ov povs bv bt)"
proof -
  have "keeps R (then_co (if b then async_cancel B meanwhile else return_co ()) (coord_arm_recipe B meanwhile ov povs bv bt))" for b
    by (intro keeps_then keeps_if_const keeps_cancel keeps_arm_recipe keeps_return assms)
  then show ?thesis by (simp add: keeps_def rearm_def)
qed

lemma keeps_arm_for_llm:
  assumes "\<And>key k. R k (meanwhile key k)"
  shows "keeps R (arm_for_llm B meanwhile a nm recipe)"
proof -
  have "R k (select_recipe (Some nm) k)" for k using keeps_select by (simp add: keeps_def modify_def)
  moreover have "R k (apply_execute_args t a k)" for k t by (rule R_local) (simp_all add: apply_execute_args_def)
  ultimately have sel: "R k (apply_execute_args t a (select_recipe (Some nm) k))" for k t using R_trans by blast
  have rest: "keeps R (\<lambda>k. if k_armed_operation k \<noteq> Some ''recipe'' then (Inr (ToolFailed ''arm_failed''), k)
             else (bind_res (summarize_recipe recipe) (\<lambda>sm. Inr (ToolAsks (Armed (f k) sm))), k))" for f
    by (simp add: keeps_def R_refl)
  show ?thesis
    unfolding arm_for_llm_def Let_def
    by (intro keeps_then keeps_modify sel keeps_bind keeps_lift keeps_guarded_call keeps_rearm assms keeps_if_const
        keeps_return R_request rest)
qed

lemma execute_tool_at:
  assumes "\<And>key k. R k (meanwhile key k)"
    "\<not> ea_confirmed a \<or> k_armed_operation (snd (tool_connect B meanwhile k)) \<noteq> Some ''recipe'' \<or>
       may CMD_TEA_RECIPE_MAKE \<and> may CMD_RECIPE_EXECUTE"
  shows "R k (snd (execute_tool B meanwhile i a k))"
proof (cases "find_recipe (k_recipes k) i")
  case (Some x)
  obtain nm r where x: "x = (nm, r)" by (cases x)
  have arm: "R k' (snd (arm_for_llm B meanwhile a nm r k'))" for k'
    using keeps_arm_for_llm [OF assms(1)] by (simp add: keeps_def)
  have start: "R k' (snd (start_armed B meanwhile r k'))" if "may CMD_TEA_RECIPE_MAKE \<and> may CMD_RECIPE_EXECUTE" for k'
    using keeps_start_armed [OF assms(1)] that by (simp add: keeps_def)
  show ?thesis
    unfolding execute_tool_def Some option.case x prod.case
    by (rule with_machine_at) (use assms arm start R_refl in auto)
qed (simp add: execute_tool_def R_refl)

lemma keeps_plain_tools:
  assumes "\<And>key k. R k (meanwhile key k)"
  shows "keeps R (cancel_tool B meanwhile)" "keeps R (tare_tool B meanwhile)" "keeps R (calibrate_tool B meanwhile)"
    "keeps R (status_tool B meanwhile)" "keeps R (get_recipe_tool i)" "keeps R (list_recipes_tool q)"
  unfolding cancel_tool_def tare_tool_def calibrate_tool_def status_tool_def
  by (intro keeps_with_machine keeps_bind keeps_guarded_call keeps_cancel keeps_scale(1) keeps_calibrate keeps_return
      keeps_pure assms)+ (simp_all add: keeps_def get_recipe_tool_def list_recipes_tool_def Let_def R_refl split: option.split)

lemma over_stored: "over R s (snd (create_local_recipe uid raw s))" "over R s (snd (delete_local_recipe i s))"
  "over R s (snd (apply_edit nm r ch s))"
proof -
  have sel: "over R s (set_selected n s)" for n s by (simp add: over_def set_selected_def R_local)
  show "over R s (snd (create_local_recipe uid raw s))"
    by (simp add: create_local_recipe_def Let_def st.R_refl over_options split: sum.split)
  show "over R s (snd (delete_local_recipe i s))" "over R s (snd (apply_edit nm r ch s))"
    using st.R_trans [OF sel over_options]
    by (simp_all add: delete_local_recipe_def apply_edit_def Let_def st.R_refl over_options split: option.split sum.split)
qed

lemma over_edit: "keeps (over R) (async_edit_local_recipe srv uid i ch)"
  unfolding async_edit_local_recipe_def
proof (rule st.keeps_bind [OF over_resolve])
  fix x show "keeps (over R) (\<lambda>s. case x of Inl e \<Rightarrow> (Inr (Refused e), s)
     | Inr (old_name, current) \<Rightarrow> (case apply_edit old_name current ch s of (r, s1) \<Rightarrow> (Inr r, s1)))"
    using over_stored(3) by (simp add: keeps_def split_beta st.R_refl split: sum.split)
qed

lemma over_export: "keeps (over R) (async_export_recipe srv i)"
proof -
  have login: "keeps (over R) (async_ensure_cloud_login srv)"
    using over_cloud [of "login srv e p" for e p] by (simp add: keeps_def async_ensure_cloud_login_def st.R_refl)
  have "over R s (snd (record_export nm raw t l s))" for nm raw t l s
    by (simp add: record_export_def Let_def over_options)
  then have "keeps (over R) (export_to_account srv nm raw v warning)" for nm raw v warning
    unfolding export_to_account_def
    by (intro st.keeps_bind login) (simp add: st.keeps_return, intro impI st.keeps_bind over_cloud,
      simp add: keeps_def split_beta st.R_refl split: option.split)
  then show ?thesis
    by (simp add: keeps_def async_export_recipe_def Let_def st.R_refl bind_co_def return_co_def lift_res_def
        split: option.split sum.split)
qed

lemma over_forget: "over R s (snd (m s)) \<Longrightarrow> over R s (snd (forget m s))"
  by (simp add: forget_def split_beta)

lemma over_on_coord: "R (st_coord s) (snd (m (st_coord s))) \<Longrightarrow> over R s (snd (on_coord m s))"
  by (simp add: over_def on_coord_def split_beta Let_def)

lemma over_store_tools:
  "keeps (over R) (create_recipe_tool uid a)" "keeps (over R) (edit_recipe_tool srv uid i a)"
  "keeps (over R) (delete_recipe_tool i c)" "keeps (over R) (import_tool srv uid i)"
  "keeps (over R) (search_tool srv f)" "keeps (over R) (export_tool srv i)"
proof -
  have created: "keeps (over R) (\<lambda>s. case create_local_recipe uid (merge_changes schema_defaults ch) s of
      (r, s1) \<Rightarrow> (Inr (stored_reply r), s1))" for ch
    using over_stored(1) by (simp add: keeps_def split_beta)
  show "keeps (over R) (create_recipe_tool uid a)"
    unfolding create_recipe_tool_def by (intro st.keeps_bind st.keeps_lift created)
  have choice: "keeps (over R) (if b then f else g)" if "keeps (over R) f" "keeps (over R) g"
    for b and f g :: "(string option \<times> string) tool_result so" using that by simp
  show "keeps (over R) (edit_recipe_tool srv uid i a)"
    unfolding edit_recipe_tool_def by (intro st.keeps_bind st.keeps_lift choice st.keeps_return over_edit)
  show "keeps (over R) (delete_recipe_tool i c)"
    using over_stored(2) by (simp add: keeps_def delete_recipe_tool_def split_beta st.R_refl)
  show "keeps (over R) (import_tool srv uid i)" "keeps (over R) (search_tool srv f)" "keeps (over R) (export_tool srv i)"
    unfolding import_tool_def search_tool_def export_tool_def
    by (intro st.keeps_bind over_import over_cloud over_export st.keeps_return)+
qed

text \<open>A whole call: it keeps the contract when what it confirms is not armed, or may be started.\<close>

lemma over_tool_call:
  assumes m: "\<And>key k. R k (meanwhile key k)"
    and safe: "confirmed_operation c = None \<or>
      k_armed_operation (snd (tool_connect B meanwhile (st_coord s))) \<noteq> confirmed_operation c \<or>
      (\<forall>cmd\<in>set STARTING_COMMANDS. may cmd)"
  shows "over R s (snd (tool_call srv B meanwhile c s))"
proof (cases c)
  case (GrindCall g r b)
  then show ?thesis using safe
    by (simp only: tool_call.simps, intro over_forget over_on_coord grind_tool_at m) (auto simp: STARTING_COMMANDS_def)
next
  case (PourCall t b v f x)
  then show ?thesis using safe
    by (simp only: tool_call.simps, intro over_forget over_on_coord pour_tool_at m) (auto simp: STARTING_COMMANDS_def)
next
  case (ExecuteCall i a)
  then show ?thesis using safe
    by (simp only: tool_call.simps, intro over_forget over_on_coord execute_tool_at m) (auto simp: STARTING_COMMANDS_def)
next
  case (SlotCall uid l i)
  have answer: "keeps (over R) (\<lambda>s. case reply of
            Refused e \<Rightarrow> (Inr (ToolFailed e), s)
          | Saved _ nm \<Rightarrow>
              (case map_of (st_recipes s) nm of
                 None \<Rightarrow> (Inr (ToolDone (x, None)), s)
               | Some r \<Rightarrow> (bind_res (summarize_recipe r) (\<lambda>sm. Inr (ToolDone (x, Some sm))), s)))" for reply x
    by (simp add: keeps_def st.R_refl split: reply.split option.split)
  have choice: "keeps (over R) (if b then f else g)" if "keeps (over R) f" "keeps (over R) g"
    for b and f g :: "(string \<times> recipe_summary option) tool_result so" using that by simp
  have "keeps (over R) (slot_tool srv uid B meanwhile l i)"
    unfolding slot_tool_def Let_def
    by (intro choice st.keeps_bind keeps_on_coord keeps_tool_connect over_slot m st.keeps_return answer)
  then show ?thesis by (simp only: SlotCall tool_call.simps, intro over_forget) (simp add: keeps_def)
qed (simp_all only: tool_call.simps,
    (intro over_forget over_on_coord keeps_plain_tools [OF m, unfolded keeps_def, rule_format]
      over_store_tools [unfolded keeps_def, rule_format])+)

end

section \<open>Starts\<close>

text \<open>
  C8. No tool call starts the grinder, the pump or a brew unless the user's confirmation is in its
  arguments and, once the machine is connected, the very operation it confirms is armed: whatever
  the link, the cloud and the other tasks do, every other call (arming, cancelling, slot writes and
  recipe edits included) sends no starting command.
\<close>

theorem unconfirmed_calls_never_start:
  assumes "confirmed_operation c = None \<or>
    k_armed_operation (snd (tool_connect B (changes_meanwhile ch) (st_coord s))) \<noteq> confirmed_operation c"
  shows "\<exists>ss. w_sent (k_world (st_coord (snd (tool_call srv B (changes_meanwhile ch) c s))))
       = w_sent (k_world (st_coord s)) @ ss \<and> (\<forall>x\<in>set ss. s_command x \<notin> set STARTING_COMMANDS)"
proof -
  have "over no_start_step s (snd (tool_call srv B (changes_meanwhile ch) c s))"
    by (rule ns.over_tool_call [OF no_start_changes]) (use assms in blast)
  then show ?thesis by (simp add: over_def no_start_step_def no_start_def)
qed

theorem unconfirmed_calls_never_start_witness:
  "list_all (\<lambda>x. s_command x \<notin> set STARTING_COMMANDS)
     (w_sent (k_world (st_coord (snd (tool_call (\<lambda>_. None) offline_stack (changes_meanwhile (\<lambda>_. []))
        (GrindCall (Some 40) None True) (demo_store\<lparr>st_coord := demo_coord\<lparr>k_armed_operation := Some ''pour''\<rparr>\<rparr>))))))"
  using unconfirmed_calls_never_start [of "GrindCall (Some 40) None True" offline_stack "\<lambda>_. []"
      "demo_store\<lparr>st_coord := demo_coord\<lparr>k_armed_operation := Some ''pour''\<rparr>\<rparr>" "\<lambda>_. None"]
  by (auto simp: tool_connect_def list_all_iff simp del: tool_call.simps)

section \<open>Which recipe a confirmation starts\<close>

text \<open>
  C31. Selecting another recipe leaves a standing arm as it is, and a confirmed call for the recipe
  selected meanwhile starts the armed one and reports the other.  While a brew is armed for one recipe
  and that one is still selected, a confirmed call for a different recipe backs out and arms that one.
  Once the different recipe is selected, the same call is taken for the second phase: the machine,
  awake and connected, is sent the confirmation of the recipe that was armed (for tea, with its payload),
  and the answer says that the recipe asked for was started.
\<close>

theorem confirm_starts_the_armed_recipe:
  assumes "armed_with p k" "k_selected_recipe k = Some armed_name" "nm \<noteq> armed_name"
    and "find_recipe (k_recipes k) i = Some (nm, r)" "summarize_recipe r = Inr sm" "ea_confirmed a"
    and "k_connected k" "\<not> k_asleep k" "k_water_source k = WATER_SOURCE_TANK \<longrightarrow> d_water_level_ok (k_data k)"
    and "async_confirm_recipe (is_tea_recipe p) (k_armed_recipe_tea_payload k) (k_world k) = (Inr (), w)"
    and "\<not> is_sleeping (status (w_client w))"
  shows "execute_tool B m i a k = arm_for_llm B m a nm r k \<and>
    armed_with p (select_recipe (Some nm) k) \<and>
    (\<exists>k'. execute_tool B m i a (select_recipe (Some nm) k) = (Inr (ToolDone (Started sm)), k') \<and> k_world k' = w \<and>
       sm_name sm = rd_name r \<and> sm_uid sm = rd_uid r)"
proof -
  let ?k = "select_recipe (Some nm) k"
  have f: "k_client ?k = k_client k" "k_world ?k = k_world k" "k_armed_operation ?k = k_armed_operation k"
    "k_recipes ?k = k_recipes k" "k_selected_recipe ?k = Some nm" "k_water_source ?k = k_water_source k"
    "k_active_recipe_pours ?k = k_active_recipe_pours k" "k_armed_recipe_tea_payload ?k = k_armed_recipe_tea_payload k"
    "k_armed_recipe_is_tea ?k = k_armed_recipe_is_tea k" "k_data ?k = k_data k"
    by (simp_all add: select_recipe_def Let_def request_def split: option.split)
  have armed: "armed_with p ?k" using assms(1) by (simp add: armed_with_def f)
  have up: "k_connected ?k" "\<not> k_asleep ?k" using assms(7,8) by (simp_all add: f k_asleep_def)
  have "async_confirm_recipe (k_armed_recipe_is_tea ?k) (k_armed_recipe_tea_payload ?k) (k_world ?k) = (Inr (), w)"
    using assms(1,10) by (simp add: f armed_with_def)
  from confirm_awake [OF up assms(11) this] obtain k' where c: "coord_confirm_recipe B m ?k = (Inr True, k')" "k_world k' = w"
    by blast
  have "execute_tool B m i a ?k = start_armed B m r ?k"
    using assms(1,4,6,7,9) by (auto simp: execute_tool_def f with_machine_def tool_connect_def bind_co_def armed_with_def)
  moreover have "start_armed B m r ?k = (Inr (ToolDone (Started sm)), request UpdateListeners k')"
    by (simp add: start_armed_def guarded_co_def catch_co_def bind_co_def then_co_def c(1) return_co_def modify_def
        lift_res_def assms(5))
  moreover have "execute_tool B m i a k = arm_for_llm B m a nm r k"
    using assms(2,3,4,7,9) by (auto simp: execute_tool_def with_machine_def tool_connect_def bind_co_def)
  moreover have "sm_name sm = rd_name r" "sm_uid sm = rd_uid r"
    using assms(5) by (auto simp: summarize_recipe_def bind_res_Inr_iff)
  ultimately show ?thesis using armed c(2) by (auto simp: request_def)
qed

definition recipe_b :: recipe_dict where "recipe_b = (demo_dict [sip 2])\<lparr>rd_uid := Some ''b''\<rparr>"

definition confirmed_args :: execute_args where
  "confirmed_args = \<lparr>ea_confirmed = True, ea_grind_size = None, ea_rpm = None, ea_dose_g = None, ea_ratio = None,
     ea_temperature_c = None, ea_cup_type = None, ea_bypass_volume = None, ea_bypass_temperature = None,
     ea_pour_overrides = []\<rparr>"

definition recipe_a :: xbloom_recipe where
  "recipe_a = \<lparr>grind_size = 50, total_water = 2, rpm = 80, cup_type = CUP_OMNI_DRIPPER, name = ''A'', bean_weight = Fin 15,
     recipe_id = 0, pours = []\<rparr>"

theorem confirm_starts_the_armed_recipe_witness:
  "let k = demo_coord\<lparr>k_armed_operation := Some ''recipe'', k_selected_recipe := Some ''A'', k_active_recipe_pours := Some [],
         k_water_source := WATER_SOURCE_DIRECT, k_recipes := [(''B'', recipe_b)], k_world := brewing_world\<rparr>
   in armed_with recipe_a k \<and> (\<exists>sm k'. execute_tool offline_stack (\<lambda>_ k. k) ''b'' confirmed_args (select_recipe (Some ''B'') k) =
        (Inr (ToolDone (Started sm)), k') \<and> sm_uid sm = Some ''b'')"
proof -
  let ?k = "demo_coord\<lparr>k_armed_operation := Some ''recipe'', k_selected_recipe := Some ''A'', k_active_recipe_pours := Some [],
         k_water_source := WATER_SOURCE_DIRECT, k_recipes := [(''B'', recipe_b)], k_world := brewing_world\<rparr>"
  have found: "find_recipe (k_recipes ?k) ''b'' = Some (''B'', recipe_b)"
    by (rule find_recipe_uid) (auto simp: recipe_b_def py_strip_def py_space_def)
  have armed: "armed_with recipe_a ?k"
    by (simp add: armed_with_def recipe_a_def is_tea_recipe_def CUP_OMNI_DRIPPER_def CUP_TEA_def demo_coord_def init_coord_def)
  have "float_volumes [sip 2] = Inr (Fin 2)" by (simp add: float_volumes_def sip_def float_of_int_def small_doubles)
  then obtain sm where sm: "summarize_recipe recipe_b = Inr sm"
    by (simp add: summarize_recipe_def recipe_b_def demo_dict_def compute_total_water_ml_def)
  obtain v where v: "async_confirm_recipe False (k_armed_recipe_tea_payload ?k) brewing_world = (Inr (), v)"
    "w_client v = w_client brewing_world" using brewing_confirms by blast
  have k: "k_connected ?k" "\<not> k_asleep ?k" "\<not> is_sleeping (status (w_client v))" "\<not> is_tea_recipe recipe_a"
    by (simp_all add: v(2) demo_coord_def init_coord_def k_asleep_def brewing_world_def demo_world_def init_client_def
        init_status_def recipe_a_def is_tea_recipe_def CUP_OMNI_DRIPPER_def CUP_TEA_def)
  have "async_confirm_recipe (is_tea_recipe recipe_a) (k_armed_recipe_tea_payload ?k) (k_world ?k) = (Inr (), v)"
    using v(1) k(4) by simp
  from confirm_starts_the_armed_recipe [OF armed _ _ found sm _ k(1,2) _ this k(3), of "''A''" confirmed_args offline_stack "\<lambda>_ k. k"]
  show ?thesis using armed by (auto simp: Let_def confirmed_args_def recipe_b_def WATER_SOURCE_DIRECT_def WATER_SOURCE_TANK_def)
qed

section \<open>A created recipe reads back\<close>

lemma pattern_names:
  "map_of POUR_PATTERN_OPTIONS nm = Some c \<Longrightarrow> c \<in> {0, 1, 2} \<and> map_of PATTERN_INT_TO_NAME c = Some nm"
  by (auto simp: POUR_PATTERN_OPTIONS_def PATTERN_INT_TO_NAME_def split: if_splits)

definition as_given :: "tool_pour \<Rightarrow> int \<times> int \<times> pyfloat \<times> string \<times> int" where
  "as_given p = (tp_volume_ml p, tp_temperature_c p, or_default (tp_flow_rate p) (Fin 3),
     or_default (tp_pattern p) ''spiral'', or_default (tp_pause_seconds p) 0)"

definition as_shown :: "pour_detail \<Rightarrow> int \<times> int \<times> pyfloat \<times> string \<times> int" where
  "as_shown q = (pd_volume_ml q, pd_temperature_c q, pd_flow_rate q, pd_pattern q, pd_pause_seconds q)"

definition stored_pour :: "tool_pour \<Rightarrow> pour_dict" where
  "stored_pour p = \<lparr>volume_ml = tp_volume_ml p, temperature_c = tp_temperature_c p,
     pour_flow_rate = or_default (tp_flow_rate p) (Fin 3), pause_seconds = or_default (tp_pause_seconds p) 0,
     pattern_code = (case tp_pattern p of None \<Rightarrow> 2 | Some nm \<Rightarrow> the (map_of POUR_PATTERN_OPTIONS nm)),
     vibration_name = ''none''\<rparr>"

lemma pour_stored:
  assumes "pour_arg_ok p" "0 < tp_temperature_c p"
  shows "bind_res (pour_of_args p) POUR_SCHEMA = Inr (stored_pour p)" "is_ok (pour_of_args p)"
    "as_shown (pour_detail_of i (stored_pour p)) = as_given p"
proof -
  have pat: "\<exists>c. map_of POUR_PATTERN_OPTIONS nm = Some c" if "tp_pattern p = Some nm" for nm
    using assms(1) that by (auto simp: pour_arg_ok_def weak_map_of_SomeI dest!: weak_map_of_SomeI)
  have vol: "0 \<le> tp_volume_ml p" using assms(1) by (simp add: pour_arg_ok_def int_range_def)
  show "bind_res (pour_of_args p) POUR_SCHEMA = Inr (stored_pour p)" "is_ok (pour_of_args p)"
    "as_shown (pour_detail_of i (stored_pour p)) = as_given p"
    using pat pattern_names vol assms(2)
    by (cases "tp_pattern p"; force simp: pour_of_args_def POUR_SCHEMA_def stored_pour_def VIBRATION_NAMES_def is_ok_def
      as_shown_def as_given_def pour_detail_of_def PATTERN_INT_TO_NAME_def POUR_PATTERN_OPTIONS_def)+
qed

lemma map_res_chain:
  "(\<And>x. x \<in> set xs \<Longrightarrow> bind_res (f x) g = Inr (h x)) \<Longrightarrow>
     \<exists>ys. map_res f xs = Inr ys \<and> map_res g ys = Inr (map h xs)"
proof (induction xs)
  case (Cons x xs)
  then obtain ys where "map_res f xs = Inr ys" "map_res g ys = Inr (map h xs)" by auto
  moreover obtain y where "f x = Inr y" "g y = Inr (h x)" using Cons.prems [of x] by (auto simp: bind_res_Inr_iff)
  ultimately show ?case by simp
qed simp

text \<open>The recipe a create call stores, but for its name in the store, its uid and its source.\<close>

definition created_recipe :: "recipe_args \<Rightarrow> recipe_dict" where
  "created_recipe a =
     \<lparr>rd_uid = None, rd_cloud_table_id = None, rd_share_url = None, rd_source = None,
      rd_name = or_default (ra_name a) [], rd_grind_size = or_default (ra_grind_size a) 50,
      rd_rpm = or_default (ra_rpm a) 80, dose_g = or_default (ra_dose_g a) (Fin 15), ratio = ra_ratio a,
      rd_cup_type = or_default (ra_cup_type a) ''omni_dripper'',
      rd_bypass_volume = or_default (ra_bypass_volume a) (Fin 0),
      rd_bypass_temperature = or_default (ra_bypass_temperature a) (Fin 0),
      rd_pours = map stored_pour (or_default (ra_pours a) [])\<rparr>"

lemma args_validate:
  assumes "ra_pours a = Some ps" "list_all (\<lambda>p. pour_arg_ok p \<and> 0 < tp_temperature_c p) ps"
  obtains ch where "recipe_args_to_dict a = Inr ch"
    "RECIPE_SCHEMA (strip_raw (merge_changes schema_defaults ch)) = Inr (created_recipe a)"
proof -
  have "bind_res (pour_of_args p) POUR_SCHEMA = Inr (stored_pour p)" if "p \<in> set ps" for p
    using pour_stored(1) assms(2) that by (auto simp: list_all_iff)
  from map_res_chain [of ps pour_of_args POUR_SCHEMA stored_pour, OF this] obtain rs where rs: "map_res pour_of_args ps = Inr rs" "map_res POUR_SCHEMA rs = Inr (map stored_pour ps)"
    by blast
  show ?thesis
  proof (rule that)
    show "recipe_args_to_dict a = Inr \<lparr>ch_uid = None, ch_cloud_table_id = None, ch_share_url = None, ch_source = None,
       ch_name = ra_name a, ch_grind_size = ra_grind_size a, ch_rpm = ra_rpm a, ch_dose_g = ra_dose_g a,
       ch_ratio = map_option Some (ra_ratio a), ch_cup_type = ra_cup_type a, ch_bypass_volume = ra_bypass_volume a,
       ch_bypass_temperature = ra_bypass_temperature a, ch_pours = Some rs\<rparr>" (is "_ = Inr ?ch")
      using rs(1) by (simp add: recipe_args_to_dict_def assms(1))
    show "RECIPE_SCHEMA (strip_raw (merge_changes schema_defaults ?ch)) = Inr (created_recipe a)"
      using rs(2) by (simp add: RECIPE_SCHEMA_def strip_raw_def merge_changes_def strip_protected_def schema_defaults_def
          created_recipe_def assms(1) override_def override_option_def or_default_def split: option.split)
  qed
qed

lemma created_water:
  assumes "ra_pours a = Some ps" "list_all (\<lambda>p. pour_arg_ok p \<and> 0 < tp_temperature_c p) ps"
  shows "\<exists>x. compute_total_water_ml ((created_recipe a)\<lparr>rd_name := nm, rd_uid := u, rd_cloud_table_id := None,
    rd_share_url := None, rd_source := src\<rparr>) = Inr x"
proof -
  have "float_of_int (volume_ml q) = Inr (Fin (of_int (volume_ml q)))" if "q \<in> set (map stored_pour ps)" for q
  proof -
    have "\<bar>volume_ml q\<bar> < 2 ^ 53"
      using that assms(2) by (auto simp: list_all_iff stored_pour_def pour_arg_ok_def int_range_def)
    then show ?thesis by (simp add: float_of_int_def to_double_int)
  qed
  from map_res_ok [of "map stored_pour ps" "\<lambda>q. float_of_int (volume_ml q)", OF this]
  have "\<exists>x. float_volumes (map stored_pour ps) = Inr x" by (simp add: float_volumes_def del: map_map)
  then show ?thesis by (auto simp: compute_total_water_ml_def created_recipe_def assms(1) split: option.split)
qed

lemma cold_pour_refused:
  assumes "ra_pours a = Some ps" "list_all pour_arg_ok ps" "list_ex (\<lambda>p. tp_temperature_c p = 0) ps"
  shows "create_recipe_tool uid a s = (Inr (ToolFailed ''invalid_recipe''), s)"
proof -
  have each: "\<exists>rp. pour_of_args p = Inr rp \<and> (tp_temperature_c p = 0 \<longrightarrow> \<not> is_ok (POUR_SCHEMA rp))" if "p \<in> set ps" for p
  proof (cases "tp_pattern p")
    case None
    then show ?thesis by (auto simp: pour_of_args_def POUR_SCHEMA_def is_ok_def)
  next
    case (Some nm)
    then obtain c where "map_of POUR_PATTERN_OPTIONS nm = Some c"
      using assms(2) \<open>p \<in> set ps\<close> by (auto simp: list_all_iff pour_arg_ok_def dest!: weak_map_of_SomeI)
    then show ?thesis using Some by (auto simp: pour_of_args_def POUR_SCHEMA_def is_ok_def)
  qed
  then obtain f where f: "\<And>p. p \<in> set ps \<Longrightarrow> pour_of_args p = Inr (f p) \<and> (tp_temperature_c p = 0 \<longrightarrow> \<not> is_ok (POUR_SCHEMA (f p)))"
    by metis
  have rs: "map_res pour_of_args ps = Inr (map f ps)" using f by (induction ps) auto
  obtain p where p: "p \<in> set ps" "tp_temperature_c p = 0" using assms(3) by (auto simp: list_ex_iff)
  have "map_res POUR_SCHEMA (map f ps) \<noteq> Inr vs" for vs
    using map_res_Inr_all [of POUR_SCHEMA "map f ps" vs] p f [OF p(1)]
    by (auto simp: list_all2_conv_all_nth in_set_conv_nth is_ok_def split: sum.splits)
  then have bad: "\<exists>e. map_res POUR_SCHEMA (map f ps) = Inl e" by (cases "map_res POUR_SCHEMA (map f ps)") auto
  have "recipe_args_to_dict a = Inr \<lparr>ch_uid = None, ch_cloud_table_id = None, ch_share_url = None, ch_source = None,
       ch_name = ra_name a, ch_grind_size = ra_grind_size a, ch_rpm = ra_rpm a, ch_dose_g = ra_dose_g a,
       ch_ratio = map_option Some (ra_ratio a), ch_cup_type = ra_cup_type a, ch_bypass_volume = ra_bypass_volume a,
       ch_bypass_temperature = ra_bypass_temperature a, ch_pours = Some (map f ps)\<rparr>"
    using rs by (simp add: recipe_args_to_dict_def assms(1))
  then show ?thesis
    using bad by (auto simp: create_recipe_tool_def bind_co_def create_local_recipe_def RECIPE_SCHEMA_def strip_raw_def
        merge_changes_def override_def stored_reply_def)
qed

text \<open>
  C25. A recipe the language model creates with pours the tool's schema accepts is refused exactly when
  one of them has 0 degrees, which the schema allows and the recipe schema does not; then nothing is
  stored.  Otherwise it is created, and reading it back by the uid the answer gives shows it as it was
  given: every pour's volume, temperature, flow, pattern name and pause, in order, and the scalars,
  with the schema's defaults for what was left out and the name the answer reports.  The ratio, which
  the reading tool does not show, is stored as given, and the total water shown is the stored recipe's.
\<close>

theorem create_reads_back:
  assumes "well_layered s" "fresh_uid (st_view s) uid" "py_strip uid = uid" "uid \<noteq> []"
    and "ra_pours a = Some ps" "list_all pour_arg_ok ps"
  shows "if list_ex (\<lambda>p. tp_temperature_c p = 0) ps then create_recipe_tool uid a s = (Inr (ToolFailed ''invalid_recipe''), s)
    else \<exists>nm s' d r. create_recipe_tool uid a s = (Inr (ToolDone (Some uid, nm)), s') \<and>
    get_recipe_tool uid (st_coord s') = (Inr (ToolDone d), st_coord s') \<and>
    map as_shown (de_pours d) = map as_given ps \<and> map pd_pour_index (de_pours d) = [0..<length ps] \<and>
    de_name d = nm \<and> de_cup_type d = or_default (ra_cup_type a) ''omni_dripper'' \<and>
    de_grind_size d = or_default (ra_grind_size a) 50 \<and> de_rpm d = or_default (ra_rpm a) 80 \<and>
    de_dose_g d = or_default (ra_dose_g a) (Fin 15) \<and>
    de_bypass_volume_ml d = or_default (ra_bypass_volume a) (Fin 0) \<and>
    de_bypass_temperature_c d = or_default (ra_bypass_temperature a) (Fin 0) \<and>
    find_recipe (st_recipes s') uid = Some (nm, r) \<and> ratio r = ra_ratio a \<and>
    compute_total_water_ml r = Inr (de_total_water_ml d)"
proof (cases "list_ex (\<lambda>p. tp_temperature_c p = 0) ps")
  case True
  then show ?thesis using cold_pour_refused [OF assms(5,6)] by simp
next
  case False
  have ps: "ra_pours a = Some ps" "list_all (\<lambda>p. pour_arg_ok p \<and> 0 < tp_temperature_c p) ps"
    using assms(5,6) False by (auto simp: list_all_iff list_ex_iff pour_arg_ok_def int_range_def order_less_le)
  obtain ch where ch: "recipe_args_to_dict a = Inr ch"
    "RECIPE_SCHEMA (strip_raw (merge_changes schema_defaults ch)) = Inr (created_recipe a)"
    using args_validate [OF ps] .
  obtain u nm s' where c: "create_local_recipe uid (merge_changes schema_defaults ch) s = (Saved u nm, s')"
    by (simp add: create_local_recipe_def ch(2) Let_def)
  let ?r = "(created_recipe a)\<lparr>rd_name := nm, rd_uid := Some uid, rd_cloud_table_id := None, rd_share_url := None,
                   rd_source := Some ''manual''\<rparr>"
  have found: "u = Some uid" "find_recipe (st_recipes s') uid = Some (nm, ?r)"
    using created_recipe_found [OF assms(1-4) c] ch(2) by auto
  obtain x where x: "compute_total_water_ml ?r = Inr x" using created_water [OF ps] by blast
  then obtain d where d: "detail_recipe ?r = Inr d" by (simp add: detail_recipe_def)
  let ?ds = "map (\<lambda>(i, p). pour_detail_of i p) (zip [0..<length ps] (map stored_pour ps))"
  have len: "length ?ds = length ps" by simp
  have "as_shown (?ds ! i) = as_given (ps ! i)" "pd_pour_index (?ds ! i) = i" if "i < length ps" for i
    using that ps(2) pour_stored(3) by (auto simp: list_all_iff pour_detail_of_def)
  then have "map as_shown ?ds = map as_given ps" "map pd_pour_index ?ds = [0..<length ps]"
    by (auto intro!: nth_equalityI simp del: map_zip_map2)
  moreover have "de_pours d = ?ds" "de_name d = nm" "de_cup_type d = rd_cup_type ?r" "de_grind_size d = rd_grind_size ?r"
    "de_rpm d = rd_rpm ?r" "de_dose_g d = dose_g ?r" "de_bypass_volume_ml d = rd_bypass_volume ?r"
    "de_bypass_temperature_c d = rd_bypass_temperature ?r"
    using d by (auto simp: detail_recipe_def bind_res_Inr_iff) (simp add: created_recipe_def ps(1))
  moreover have "create_recipe_tool uid a s = (Inr (ToolDone (Some uid, nm)), s')"
    using ch(1) c found(1) by (simp add: create_recipe_tool_def bind_co_def stored_reply_def)
  moreover have "get_recipe_tool uid (st_coord s') = (Inr (ToolDone d), st_coord s')"
    using found(2) d by (simp add: get_recipe_tool_def)
  moreover have "compute_total_water_ml ?r = Inr (de_total_water_ml d)" "ratio ?r = ra_ratio a"
    using d by (auto simp: detail_recipe_def bind_res_Inr_iff created_recipe_def)
  ultimately have "create_recipe_tool uid a s = (Inr (ToolDone (Some uid, nm)), s') \<and>
      get_recipe_tool uid (st_coord s') = (Inr (ToolDone d), st_coord s') \<and>
      map as_shown (de_pours d) = map as_given ps \<and> map pd_pour_index (de_pours d) = [0..<length ps] \<and>
      de_name d = nm \<and> de_cup_type d = or_default (ra_cup_type a) ''omni_dripper'' \<and>
      de_grind_size d = or_default (ra_grind_size a) 50 \<and> de_rpm d = or_default (ra_rpm a) 80 \<and>
      de_dose_g d = or_default (ra_dose_g a) (Fin 15) \<and>
      de_bypass_volume_ml d = or_default (ra_bypass_volume a) (Fin 0) \<and>
      de_bypass_temperature_c d = or_default (ra_bypass_temperature a) (Fin 0) \<and>
      find_recipe (st_recipes s') uid = Some (nm, ?r) \<and> ratio ?r = ra_ratio a \<and>
      compute_total_water_ml ?r = Inr (de_total_water_ml d)"
    using found(2) by (simp add: created_recipe_def)
  then show ?thesis using False by (simp only: if_False) blast
qed

definition demo_args :: recipe_args where
  "demo_args = \<lparr>ra_name = Some ''Filter'', ra_cup_type = None, ra_grind_size = Some 45, ra_rpm = None, ra_dose_g = None,
     ra_ratio = None, ra_bypass_volume = None, ra_bypass_temperature = None,
     ra_pours = Some [\<lparr>tp_volume_ml = 120, tp_temperature_c = 93, tp_flow_rate = None, tp_pattern = Some ''center'',
       tp_pause_seconds = Some 5\<rparr>]\<rparr>"

theorem create_reads_back_witness:
  "\<exists>nm s' d. create_recipe_tool ''u1'' demo_args demo_store = (Inr (ToolDone (Some ''u1'', nm)), s') \<and>
     get_recipe_tool ''u1'' (st_coord s') = (Inr (ToolDone d), st_coord s') \<and>
     map as_shown (de_pours d) = [(120, 93, Fin 3, ''center'', 5)] \<and> de_grind_size d = 45 \<and> de_rpm d = 80"
proof -
  let ?ps = "[\<lparr>tp_volume_ml = 120, tp_temperature_c = 93, tp_flow_rate = None, tp_pattern = Some ''center'',
       tp_pause_seconds = Some 5\<rparr>]"
  have 1: "fresh_uid (st_view demo_store) ''u1''" by (simp add: fresh_uid_def demo_store_ok(2))
  have 2: "py_strip ''u1'' = ''u1''" "''u1'' \<noteq> []" by (simp_all add: py_strip_def py_space_def)
  have 3: "ra_pours demo_args = Some ?ps" by (simp add: demo_args_def)
  have 4: "list_all pour_arg_ok ?ps"
    by (simp add: pour_arg_ok_def int_range_def float_range_def POUR_PATTERN_OPTIONS_def)
  from create_reads_back [OF demo_store_ok(1) 1 2 3 4] show ?thesis by (auto simp: as_given_def demo_args_def)
qed

section \<open>Which tools an API serves\<close>

lemma tools_of_own_entry:
  "async_get_tools entries api = Some c \<longleftrightarrow> (\<exists>e. api = llm_api_id e \<and> entries e = Some c)"
proof -
  have "take (length API_ID_PREFIX) api = API_ID_PREFIX \<longleftrightarrow> (\<exists>e. api = API_ID_PREFIX @ e)"
    by (metis append_eq_conv_conj append_take_drop_id)
  then show ?thesis by (auto simp: async_get_tools_def llm_api_id_def)
qed

lemma api_instance_of_loaded_entry:
  "async_get_api_instance entries e = (case entries e of None \<Rightarrow> Inl HomeAssistantError | Some c \<Rightarrow> Inr c)"
  by (simp add: async_get_api_instance_def async_get_tools_def llm_api_id_def)

end
