(* ===== verification/Services.thy ===== *)
theory Services
  imports ToolFacts "HOL-Library.List_Lexorder" "HOL-Library.Char_ord"
begin

text \<open>
  The integration's services (\<^verbatim>\<open>__init__.py\<close>): which machines a call is for, and the handler of each
  service on the loaded machines, in the order they were set up.  Home Assistant has validated a
  call against the service's schema; the YAML reader, the server, minted uids and the Bluetooth
  stack of each machine are arguments.
\<close>

section \<open>Targets\<close>

type_synonym machines = "(string \<times> store) list"
type_synonym 'a mo = "(machines, 'a) act"

text \<open>The stack of a machine, and what may happen while a call waits on it.\<close>

type_synonym link_env = "string \<Rightarrow> ble_stack \<times> (string \<Rightarrow> coord \<Rightarrow> coord)"

definition coordinators_for_call :: "string option \<Rightarrow> machines \<Rightarrow> string list" where
  "coordinators_for_call config_entry_id ms =
     (case config_entry_id of
        None \<Rightarrow> map fst ms
      | Some i \<Rightarrow> if i = [] then map fst ms else if map_of ms i = None then [] else [i])"

definition on_machine :: "string \<Rightarrow> 'a so \<Rightarrow> 'a mo" where
  "on_machine i m ms =
     (case map_of ms i of
        None \<Rightarrow> (Inl KeyError, ms)
      | Some s \<Rightarrow> (case m s of (r, s1) \<Rightarrow> (r, AList.update i s1 ms)))"

fun for_machines :: "(string \<Rightarrow> 'a so) \<Rightarrow> string list \<Rightarrow> 'a list mo" where
  "for_machines m [] = return_co []"
| "for_machines m (i # is) =
     bind_co (on_machine i (m i)) (\<lambda>x. bind_co (for_machines m is) (\<lambda>xs. return_co (x # xs)))"

text \<open>A call that matches no machine raises; otherwise it is for all of them or for the first one.\<close>

definition with_targets :: "string option \<Rightarrow> (string list \<Rightarrow> 'a mo) \<Rightarrow> 'a mo" where
  "with_targets cid f ms =
     (let targets = coordinators_for_call cid ms
      in if targets = [] then (Inl HomeAssistantError, ms) else f targets ms)"

definition on_first :: "string option \<Rightarrow> (string \<Rightarrow> 'a so) \<Rightarrow> 'a mo" where
  "on_first cid m = with_targets cid (\<lambda>targets. on_machine (hd targets) (m (hd targets)))"

section \<open>Brewing\<close>

record execute_call =
  xc_recipe :: "string option"
  xc_grind_size :: "int option"
  xc_rpm :: "int option"
  xc_dose_g :: "pyfloat option"
  xc_ratio :: "pyfloat option"
  xc_cup_type :: "string option"
  xc_bypass_volume :: "pyfloat option"
  xc_bypass_temperature :: "pyfloat option"

definition execute_schema :: "execute_call \<Rightarrow> bool" where
  "execute_schema a \<longleftrightarrow>
     int_range 1 80 (xc_grind_size a) \<and> int_range 60 120 (xc_rpm a) \<and> float_range 1 100 (xc_dose_g a) \<and>
     float_range 1 50 (xc_ratio a) \<and>
     xc_cup_type a \<in> insert None (Some ` {''x_pod'', ''xpod'', ''omni_dripper'', ''other'', ''tea''}) \<and>
     float_range 0 200 (xc_bypass_volume a) \<and> float_range 0 100 (xc_bypass_temperature a)"

text \<open>The recipe a brew service is about: the one named, or the selected one.\<close>

definition called_recipe :: "string option \<Rightarrow> coord \<Rightarrow> string option" where
  "called_recipe identifier k =
     (let nm = (case identifier of
            None \<Rightarrow> k_selected_recipe k
          | Some i \<Rightarrow> if i = [] then k_selected_recipe k else map_option fst (find_recipe (k_recipes k) i))
      in case nm of
           None \<Rightarrow> None
         | Some n \<Rightarrow> if n = [] \<or> map_of (k_recipes k) n = None then None else Some n)"

text \<open>\<^verbatim>\<open>except HomeAssistantError\<close>: only that exception is caught.\<close>

definition skip_refused :: "unit ko \<Rightarrow> unit ko" where
  "skip_refused m = catch_co m (\<lambda>e. if e = HomeAssistantError then return_co () else raise_co e)"

definition execute_one :: "ble_stack \<Rightarrow> (string \<Rightarrow> coord \<Rightarrow> coord) \<Rightarrow> execute_call \<Rightarrow> unit ko" where
  "execute_one B meanwhile a k =
     (case called_recipe (xc_recipe a) k of
        None \<Rightarrow> (Inr (), k)
      | Some nm \<Rightarrow>
          let k1 = select_recipe (Some nm) k;
              k2 = k1\<lparr>k_grind_size := or_default (xc_grind_size a) (k_grind_size k1),
                      k_rpm := or_default (xc_rpm a) (k_rpm k1)\<rparr>;
              ov = \<lparr>ro_dose_g = xc_dose_g a, ro_ratio = xc_ratio a, ro_cup_type = xc_cup_type a, ro_temperature_c = None\<rparr>
          in skip_refused (coord_execute_recipe B meanwhile ov [] (xc_bypass_volume a) (xc_bypass_temperature a))
               (request UpdateListeners k2))"

definition handle_execute_recipe :: "link_env \<Rightarrow> string option \<Rightarrow> execute_call \<Rightarrow> unit list mo" where
  "handle_execute_recipe env cid a =
     with_targets cid (for_machines (\<lambda>i. on_coord (execute_one (fst (env i)) (snd (env i)) a)))"

definition execute_tea_one :: "ble_stack \<Rightarrow> (string \<Rightarrow> coord \<Rightarrow> coord) \<Rightarrow> string option \<Rightarrow> unit ko" where
  "execute_tea_one B meanwhile identifier k =
     (case called_recipe identifier k of
        None \<Rightarrow> (Inr (), k)
      | Some nm \<Rightarrow>
          if py_lower (py_strip (rd_cup_type (the (map_of (k_recipes k) nm)))) \<noteq> ''tea'' then (Inr (), k)
          else skip_refused (coord_execute_recipe B meanwhile no_overrides [] None None) (select_recipe (Some nm) k))"

definition handle_execute_tea_recipe :: "link_env \<Rightarrow> string option \<Rightarrow> string option \<Rightarrow> unit list mo" where
  "handle_execute_tea_recipe env cid identifier =
     with_targets cid (for_machines (\<lambda>i. on_coord (execute_tea_one (fst (env i)) (snd (env i)) identifier)))"

section \<open>Importing and the services of one machine\<close>

text \<open>The import runs on every target; the first one that succeeds is reported.\<close>

fun first_saved :: "reply list \<Rightarrow> (string option \<times> string) res" where
  "first_saved [] = Inl HomeAssistantError"
| "first_saved (r # rs) = (case r of Refused _ \<Rightarrow> first_saved rs | Saved u nm \<Rightarrow> Inr (u, nm))"

definition import_reference :: "string option \<Rightarrow> string option \<Rightarrow> string" where
  "import_reference share_url cloud_id =
     (if or_default share_url [] \<noteq> [] then the share_url else or_default cloud_id [])"

definition handle_cloud_import_recipe :: "server \<Rightarrow> (string \<Rightarrow> string) \<Rightarrow> string option \<Rightarrow> string option \<Rightarrow> string option \<Rightarrow>
    (string option \<times> string) mo" where
  "handle_cloud_import_recipe srv mint cid share_url cloud_id =
     with_targets cid (\<lambda>targets.
       bind_co (for_machines (\<lambda>i. async_import_cloud_recipe srv (mint i) (import_reference share_url cloud_id)) targets)
         (\<lambda>replies. lift_res (first_saved replies)))"

definition saved_or_raise :: "reply \<Rightarrow> (string option \<times> string) res" where
  "saved_or_raise r = (case r of Refused _ \<Rightarrow> Inl HomeAssistantError | Saved u nm \<Rightarrow> Inr (u, nm))"

definition handle_write_recipe_to_easy_slot :: "server \<Rightarrow> string \<Rightarrow> link_env \<Rightarrow> string option \<Rightarrow> string \<Rightarrow> string option \<Rightarrow>
    (string option \<times> string) mo" where
  "handle_write_recipe_to_easy_slot srv uid env cid slot_letter identifier =
     bind_co (on_first cid (\<lambda>i. coord_write_easy_slot srv uid (fst (env i)) (snd (env i)) slot_letter identifier))
       (\<lambda>r. lift_res (saved_or_raise r))"

text \<open>The published radius, the radius centre of the cloud and the login outcome are arguments.\<close>

definition handle_advanced_settings :: "link_env \<Rightarrow> (coord \<Rightarrow> int option) \<Rightarrow> (string \<Rightarrow> int \<Rightarrow> int option) \<Rightarrow> bool \<Rightarrow>
    string option \<Rightarrow> int option \<Rightarrow> int option \<Rightarrow> int option \<Rightarrow> unit mo" where
  "handle_advanced_settings env published center login_ok cid radius vib brightness =
     bind_co (on_first cid (\<lambda>i. on_coord (async_set_advanced_settings (fst (env i)) (snd (env i)) published center login_ok
         radius vib brightness)))
       (\<lambda>r. lift_res (case r of SettingsOk \<Rightarrow> Inr () | SettingsError _ \<Rightarrow> Inl HomeAssistantError))"

definition handle_cloud_export_recipe :: "server \<Rightarrow> string option \<Rightarrow> string \<Rightarrow>
    (recipe_dict \<times> (int \<times> string) option \<times> bool) mo" where
  "handle_cloud_export_recipe srv cid identifier =
     bind_co (on_first cid (\<lambda>_. async_export_recipe srv identifier)) (\<lambda>r. lift_res (case r of
         ExportRefused _ \<Rightarrow> Inl HomeAssistantError
       | ExportLocal recipe warning \<Rightarrow> Inr (recipe, None, warning)
       | Exported t link recipe warning \<Rightarrow> Inr (recipe, Some (t, link), warning)))"

definition handle_list_recipes :: "string option \<Rightarrow> string option \<Rightarrow> (string \<times> recipe_dict) list mo" where
  "handle_list_recipes cid query = on_first cid (\<lambda>_ s. (Inr (list_local_recipes query s), s))"

definition handle_cloud_search_collective_recipes :: "server \<Rightarrow> string option \<Rightarrow> search_filters \<Rightarrow>
    (cloud_entry list \<times> (string \<times> string list) list) mo" where
  "handle_cloud_search_collective_recipes srv cid f =
     bind_co (on_first cid (\<lambda>_. on_cloud (search_collective srv f)))
       (\<lambda>found. lift_res (case found of None \<Rightarrow> Inl HomeAssistantError | Some x \<Rightarrow> Inr x))"

section \<open>Recipes written in YAML\<close>

text \<open>\<open>load\<close> is the YAML reader, \<open>None\<close> for text that is no YAML.\<close>

definition parse_yaml_mapping :: "(string \<Rightarrow> json option) \<Rightarrow> string \<Rightarrow> doc res" where
  "parse_yaml_mapping load text = (case load text of Some (JDict d) \<Rightarrow> Inr d | _ \<Rightarrow> Inl HomeAssistantError)"

text \<open>An invalid document is refused; an overflow passes out of the schema.\<close>

definition on_valid :: "recipe_dict res \<Rightarrow> (recipe_dict \<Rightarrow> store \<Rightarrow> reply \<times> store) \<Rightarrow> reply so" where
  "on_valid v f s =
     (case v of
        Inr r \<Rightarrow> (case f r s of (x, s1) \<Rightarrow> (Inr x, s1))
      | Inl e \<Rightarrow> if e = VolInvalid then (Inr (Refused ''invalid_recipe''), s) else (Inl e, s))"

definition add_manual :: "string \<Rightarrow> recipe_dict \<Rightarrow> store \<Rightarrow> reply \<times> store" where
  "add_manual uid v s =
     (let nm = dedupe_name (rd_name v) (map fst (st_recipes s));
          r = v\<lparr>rd_name := nm, rd_uid := Some uid, rd_source := Some ''manual''\<rparr>
      in (Saved (Some uid) nm, write_options_recipes (put_recipe nm r (options_recipes s)) s))"

definition create_from_doc :: "(pyfloat \<Rightarrow> string) \<Rightarrow> string \<Rightarrow> doc \<Rightarrow> reply so" where
  "create_from_doc sh uid d = on_valid (validate_doc sh (strip_protected_recipe_fields d)) (add_manual uid)"

definition handle_create_recipe :: "(pyfloat \<Rightarrow> string) \<Rightarrow> (string \<Rightarrow> json option) \<Rightarrow> string \<Rightarrow> string option \<Rightarrow> string \<Rightarrow>
    (string option \<times> string) mo" where
  "handle_create_recipe sh load uid cid recipe_yaml =
     with_targets cid (\<lambda>targets.
       bind_co (lift_res (parse_yaml_mapping load recipe_yaml)) (\<lambda>d.
       bind_co (on_machine (hd targets) (create_from_doc sh uid d)) (\<lambda>r. lift_res (saved_or_raise r))))"

definition replace_recipe :: "string \<Rightarrow> recipe_dict \<Rightarrow> store \<Rightarrow> reply \<times> store" where
  "replace_recipe old_name v s =
     (let new_name = rd_name v in
      if new_name \<noteq> old_name \<and> new_name \<in> fst ` set (st_recipes s) then (Refused ''name_taken'', s)
      else let opts = (if new_name \<noteq> old_name then hide_recipe (st_yaml s) old_name (options_recipes s)
                       else options_recipes s);
               s1 = (if st_selected s = Some old_name then set_selected (Some new_name) s else s)
        in (Saved (rd_uid v) new_name, write_options_recipes (put_recipe new_name v opts) s1))"

text \<open>\<^verbatim>\<open>{**current, **changes}\<close> on the stored recipe's document.\<close>

definition changed_doc :: "recipe_dict \<Rightarrow> doc \<Rightarrow> doc" where
  "changed_doc current changes =
     fold (\<lambda>(key, v). doc_put key v) (strip_protected_recipe_fields changes) (doc_of current)"

definition edit_from_doc :: "(pyfloat \<Rightarrow> string) \<Rightarrow> server \<Rightarrow> string \<Rightarrow> string \<Rightarrow> doc \<Rightarrow> reply so" where
  "edit_from_doc sh srv uid identifier changes =
     bind_co (resolve_or_import srv uid identifier) (\<lambda>resolved.
       case resolved of
         Inl e \<Rightarrow> return_co (Refused e)
       | Inr (old_name, current) \<Rightarrow>
           on_valid (validate_doc sh (changed_doc current changes)) (replace_recipe old_name))"

definition handle_edit_recipe :: "(pyfloat \<Rightarrow> string) \<Rightarrow> (string \<Rightarrow> json option) \<Rightarrow> server \<Rightarrow> string \<Rightarrow> string option \<Rightarrow>
    string \<Rightarrow> string \<Rightarrow> (string option \<times> string) mo" where
  "handle_edit_recipe sh load srv uid cid identifier changes =
     with_targets cid (\<lambda>targets.
       bind_co (lift_res (parse_yaml_mapping load changes)) (\<lambda>d.
       bind_co (on_machine (hd targets) (edit_from_doc sh srv uid identifier d)) (\<lambda>r. lift_res (saved_or_raise r))))"

text \<open>The typed operations of the store end in the same two updates.\<close>

lemma create_adds_manual:
  "create_local_recipe uid raw s =
     (case RECIPE_SCHEMA (strip_raw raw) of Inl _ \<Rightarrow> (Refused ''invalid_recipe'', s) | Inr v \<Rightarrow> add_manual uid v s)"
  by (simp add: create_local_recipe_def add_manual_def split: sum.split)

lemma edit_replaces:
  "apply_edit old_name current ch s =
     (case RECIPE_SCHEMA (merge_changes current (strip_changes ch)) of
        Inl _ \<Rightarrow> (Refused ''invalid_recipe'', s) | Inr v \<Rightarrow> replace_recipe old_name v s)"
  by (simp add: apply_edit_def replace_recipe_def split: sum.split)

definition handle_delete_recipe :: "string option \<Rightarrow> string \<Rightarrow> (string option \<times> string) mo" where
  "handle_delete_recipe cid identifier =
     bind_co (on_first cid (\<lambda>_ s. case delete_local_recipe identifier s of (r, s1) \<Rightarrow> (Inr r, s1)))
       (\<lambda>r. lift_res (saved_or_raise r))"

section \<open>The recipes a service offers\<close>

text \<open>
  The choices of the recipe field: every machine's recipes by uid, or by name without one, the first
  machine that has a uid giving its name, in the order of the names.
\<close>

definition option_value :: "string \<times> recipe_dict \<Rightarrow> string" where
  "option_value = (\<lambda>(nm, r). let u = or_default (rd_uid r) [] in if u = [] then nm else u)"

definition offer :: "string \<times> recipe_dict \<Rightarrow> (string \<times> string) list \<Rightarrow> (string \<times> string) list" where
  "offer x merged = (if option_value x \<in> fst ` set merged then merged else merged @ [(option_value x, fst x)])"

definition recipe_options :: "machines \<Rightarrow> (string \<times> string) list" where
  "recipe_options ms =
     sort_key (\<lambda>(_, nm). py_lower nm) (fold offer (concat (map (\<lambda>(_, s). st_recipes s) ms)) [])"

lemma offered_from: "set (fold offer xs merged) \<subseteq> set merged \<union> (\<lambda>x. (option_value x, fst x)) ` set xs"
proof (induction xs arbitrary: merged)
  case (Cons x xs)
  have "set (offer x merged) \<subseteq> insert (option_value x, fst x) (set merged)" by (auto simp: offer_def)
  then show ?case using Cons [of "offer x merged"] by auto
qed simp

lemma offered_values: "fst ` set (fold offer xs merged) = fst ` set merged \<union> option_value ` set xs"
proof (induction xs arbitrary: merged)
  case (Cons x xs)
  have "fst ` set (offer x merged) = insert (option_value x) (fst ` set merged)" by (auto simp: offer_def)
  then show ?case using Cons [of "offer x merged"] by simp
qed simp

text \<open>Every visible recipe is offered, and an offered uid leads back to a recipe of that name.\<close>

lemma every_recipe_offered:
  "(i, s) \<in> set ms \<Longrightarrow> x \<in> set (st_recipes s) \<Longrightarrow> option_value x \<in> fst ` set (recipe_options ms)"
  by (auto simp: recipe_options_def offered_values)

lemma offered_recipe_resolves:
  assumes "(v, nm) \<in> set (recipe_options ms)"
    "\<And>i s. (i, s) \<in> set ms \<Longrightarrow> well_layered s \<and> consistent (abs_store s)"
    "\<And>i s n r. (i, s) \<in> set ms \<Longrightarrow> (n, r) \<in> set (st_recipes s) \<Longrightarrow> \<exists>u. rd_uid r = Some u \<and> py_strip u = u \<and> u \<noteq> []"
  obtains i s r where "(i, s) \<in> set ms" "find_recipe (st_recipes s) v = Some (nm, r)"
proof -
  obtain x where x: "v = option_value x" "nm = fst x" "x \<in> set (concat (map (\<lambda>(_, s). st_recipes s) ms))"
    using assms(1) offered_from [of "concat (map (\<lambda>(_, s). st_recipes s) ms)" "[]"]
    by (fastforce simp: recipe_options_def simp del: set_concat)
  then obtain i s r where m: "(i, s) \<in> set ms" "(nm, r) \<in> set (st_recipes s)" "v = option_value (nm, r)"
    by (cases x) auto
  obtain u where u: "rd_uid r = Some u" "py_strip u = u" "u \<noteq> []" using assms(3) [OF m(1,2)] by blast
  then have v: "v = u" using m(3) by (simp add: option_value_def)
  have s: "well_layered s" "views.keyed rd_uid (st_view s)" using assms(2) [OF m(1)] by (simp_all add: consistent_def abs_store_def)
  have view: "st_view s n = Some q" if "(n, q) \<in> set (st_recipes s)" for n q
    using that s(1) distinct_merge [of "st_yaml s" "options_recipes s"] recipes_view [OF s(1)]
    by (metis map_of_is_SomeI well_layered_def)
  have only: "(n, q) = (nm, r)" if "(n, q) \<in> set (st_recipes s)" "rd_uid q = Some v" for n q
  proof -
    have "n = nm" using s(2) view [OF that(1)] view [OF m(2)] that(2) u(1) v unfolding views.keyed_def by blast
    then show ?thesis using view [OF that(1)] view [OF m(2)] by simp
  qed
  have "rd_uid r = Some v" "py_strip v = v" "v \<noteq> []" using u v by simp_all
  from find_recipe_uid [OF m(2) this only] have "find_recipe (st_recipes s) v = Some (nm, r)" by simp
  then show ?thesis using that [OF m(1)] by blast
qed

section \<open>All services\<close>

record service_env =
  sv_link :: link_env
  sv_server :: server
  sv_mint :: "string \<Rightarrow> string"
  sv_show_float :: "pyfloat \<Rightarrow> string"
  sv_load :: "string \<Rightarrow> json option"
  sv_published :: "coord \<Rightarrow> int option"
  sv_center :: "string \<Rightarrow> int \<Rightarrow> int option"
  sv_login :: bool

datatype service_call =
    ExecuteRecipe execute_call
  | ExecuteTeaRecipe "string option"
  | CloudImportRecipe "string option" "string option"
  | WriteRecipeToEasySlot string "string option"
  | AdvancedSettings "int option" "int option" "int option"
  | CloudExportRecipe string
  | ListRecipes "string option"
  | CreateRecipe string
  | EditRecipe string string
  | DeleteRecipe string
  | SearchRecipes search_filters

definition run_service :: "service_env \<Rightarrow> string option \<Rightarrow> service_call \<Rightarrow> unit mo" where
  "run_service v cid call =
     (case call of
        ExecuteRecipe a \<Rightarrow> forget (handle_execute_recipe (sv_link v) cid a)
      | ExecuteTeaRecipe i \<Rightarrow> forget (handle_execute_tea_recipe (sv_link v) cid i)
      | CloudImportRecipe u i \<Rightarrow> forget (handle_cloud_import_recipe (sv_server v) (sv_mint v) cid u i)
      | WriteRecipeToEasySlot l i \<Rightarrow>
          forget (handle_write_recipe_to_easy_slot (sv_server v) (sv_mint v []) (sv_link v) cid l i)
      | AdvancedSettings r n b \<Rightarrow>
          forget (handle_advanced_settings (sv_link v) (sv_published v) (sv_center v) (sv_login v) cid r n b)
      | CloudExportRecipe i \<Rightarrow> forget (handle_cloud_export_recipe (sv_server v) cid i)
      | ListRecipes q \<Rightarrow> forget (handle_list_recipes cid q)
      | CreateRecipe t \<Rightarrow> forget (handle_create_recipe (sv_show_float v) (sv_load v) (sv_mint v []) cid t)
      | EditRecipe i t \<Rightarrow> forget (handle_edit_recipe (sv_show_float v) (sv_load v) (sv_server v) (sv_mint v []) cid i t)
      | DeleteRecipe i \<Rightarrow> forget (handle_delete_recipe cid i)
      | SearchRecipes f \<Rightarrow> forget (handle_cloud_search_collective_recipes (sv_server v) cid f))"

section \<open>Machines a call is not for\<close>

definition others_kept :: "string \<Rightarrow> machines \<Rightarrow> machines \<Rightarrow> bool" where
  "others_kept i ms ms' \<longleftrightarrow> map fst ms' = map fst ms \<and> (\<forall>j. j \<noteq> i \<longrightarrow> map_of ms' j = map_of ms j)"

interpretation ot: act_law "others_kept i" for i
  by unfold_locales (auto simp: others_kept_def)

lemma keys_update: "map_of ms i = Some s \<Longrightarrow> map fst (AList.update i s' ms) = map fst ms"
  by (induction ms) auto

lemma others_on_machine: "keeps (others_kept i) (on_machine i m)"
  by (auto simp: keeps_def on_machine_def others_kept_def AList.update_conv' keys_update split: option.split prod.split)

lemma others_forget: "keeps R m \<Longrightarrow> keeps R (forget m)"
  by (auto simp: keeps_def forget_def split: prod.split) (metis snd_conv)

lemma targets_of_one: "i \<noteq> [] \<Longrightarrow> coordinators_for_call (Some i) ms = (if map_of ms i = None then [] else [i])"
  by (simp add: coordinators_for_call_def)

lemma others_targets:
  assumes "i \<noteq> []" "keeps (others_kept i) (f [i])"
  shows "keeps (others_kept i) (with_targets (Some i) f)"
  using assms by (auto simp: keeps_def with_targets_def targets_of_one ot.R_refl)

lemma others_for_machines: "keeps (others_kept i) (for_machines m [i])"
  by (simp add: ot.keeps_bind others_on_machine ot.keeps_return)

lemma others_on_first: "i \<noteq> [] \<Longrightarrow> keeps (others_kept i) (on_first (Some i) m)"
  unfolding on_first_def by (rule others_targets) (simp_all add: others_on_machine)

lemmas others_law = others_targets others_for_machines others_on_first others_on_machine ot.keeps_bind ot.keeps_lift

lemma others_service:
  assumes "i \<noteq> []"
  shows "keeps (others_kept i) (run_service v (Some i) call)"
proof -
  note handlers = handle_execute_recipe_def handle_execute_tea_recipe_def handle_cloud_import_recipe_def
    handle_write_recipe_to_easy_slot_def handle_advanced_settings_def handle_cloud_export_recipe_def
    handle_list_recipes_def handle_create_recipe_def handle_edit_recipe_def handle_delete_recipe_def
    handle_cloud_search_collective_recipes_def
  show ?thesis
    unfolding run_service_def handlers
    by (cases call) (simp_all add: others_forget others_law assms del: for_machines.simps)
qed

lemma unmatched_raises:
  assumes "i \<noteq> []" "map_of ms i = None"
  shows "run_service v (Some i) call ms = (Inl HomeAssistantError, ms)"
proof -
  have w: "with_targets (Some i) f ms = (Inl HomeAssistantError, ms)" for f :: "string list \<Rightarrow> 'a mo"
    using assms by (simp add: with_targets_def targets_of_one)
  show ?thesis
    by (cases call) (simp_all add: run_service_def forget_def handle_execute_recipe_def handle_execute_tea_recipe_def
        handle_cloud_import_recipe_def handle_write_recipe_to_easy_slot_def handle_advanced_settings_def
        handle_cloud_export_recipe_def handle_list_recipes_def handle_create_recipe_def handle_edit_recipe_def
        handle_delete_recipe_def handle_cloud_search_collective_recipes_def on_first_def w bind_co_def)
qed

section \<open>The loop over the machines\<close>

lemma machines_tail:
  "i \<notin> set js \<Longrightarrow> for_machines m js ((i, s) # ms) = (case for_machines m js ms of (r, ms') \<Rightarrow> (r, (i, s) # ms'))"
proof (induction js arbitrary: ms)
  case (Cons j js)
  have j: "on_machine j (m j) ((i, s) # ms) = (case on_machine j (m j) ms of (r, ms') \<Rightarrow> (r, (i, s) # ms'))"
    using Cons.prems by (auto simp: on_machine_def split: option.split prod.split)
  show ?case
    using Cons.prems Cons.IH j by (auto simp: bind_co_def split: prod.splits sum.splits)
qed simp

lemma brew_call_starts:
  assumes "called_recipe (xc_recipe a) k = Some nm" "k_connected k"
  shows "\<exists>k1. execute_one B meanwhile a k = skip_refused (coord_execute_recipe B meanwhile
      \<lparr>ro_dose_g = xc_dose_g a, ro_ratio = xc_ratio a, ro_cup_type = xc_cup_type a, ro_temperature_c = None\<rparr> []
      (xc_bypass_volume a) (xc_bypass_temperature a)) k1 \<and>
    k_connected k1 \<and> k_world k1 = k_world k \<and> k_recipes k1 = k_recipes k \<and> k_selected_recipe k1 = Some nm \<and>
    k_water_source k1 = k_water_source k \<and> k_data k1 = k_data k"
proof -
  let ?k1 = "select_recipe (Some nm) k"
  define k2 where "k2 = request UpdateListeners (?k1\<lparr>k_grind_size := or_default (xc_grind_size a) (k_grind_size ?k1),
      k_rpm := or_default (xc_rpm a) (k_rpm ?k1)\<rparr>)"
  have "k_connected k2 \<and> k_world k2 = k_world k \<and> k_recipes k2 = k_recipes k \<and> k_selected_recipe k2 = Some nm \<and>
      k_water_source k2 = k_water_source k \<and> k_data k2 = k_data k"
    using assms(2) by (simp add: k2_def select_recipe_def Let_def request_def split: option.split)
  moreover have "execute_one B meanwhile a k = skip_refused (coord_execute_recipe B meanwhile
      \<lparr>ro_dose_g = xc_dose_g a, ro_ratio = xc_ratio a, ro_cup_type = xc_cup_type a, ro_temperature_c = None\<rparr> []
      (xc_bypass_volume a) (xc_bypass_temperature a)) k2"
    using assms(1) by (simp add: execute_one_def Let_def k2_def)
  ultimately show ?thesis by blast
qed

lemma refused_brew:
  assumes "k_connected k" "prepare_recipe_execution (note_activity k) ov pos bv bt = Inl e"
  shows "skip_refused (coord_execute_recipe B meanwhile ov pos bv bt) k =
    (if e = HomeAssistantError then Inr () else Inl e, note_activity k)"
  using assms(2)
  by (simp add: skip_refused_def catch_co_def coord_execute_recipe_def when_up_def
      bind_co_run [where m = "async_ensure_connected B meanwhile", OF ensure_connected_up [OF assms(1)]])

lemma first_machine_step:
  assumes "distinct (map fst ((i, s) # ms))" "ms \<noteq> []"
    "execute_one (fst (env i)) (snd (env i)) a (st_coord s) = (r, k)"
  shows "handle_execute_recipe env None a ((i, s) # ms) =
    (case r of Inl e \<Rightarrow> (Inl e, (i, s\<lparr>st_coord := k\<rparr>) # ms)
     | Inr x \<Rightarrow> (case handle_execute_recipe env None a ms of
         (q, ms') \<Rightarrow> (bind_res q (\<lambda>xs. Inr (x # xs)), (i, s\<lparr>st_coord := k\<rparr>) # ms')))"
proof -
  let ?m = "\<lambda>i. on_coord (execute_one (fst (env i)) (snd (env i)) a)"
  have i: "i \<notin> set (map fst ms)" using assms(1) by simp
  have one: "on_machine i (?m i) ((i, s) # ms) = (r, (i, s\<lparr>st_coord := k\<rparr>) # ms)"
    using assms(3) by (simp add: on_machine_def on_coord_def)
  have all: "handle_execute_recipe env None a ms = for_machines ?m (map fst ms) ms"
    using assms(2) by (simp add: handle_execute_recipe_def with_targets_def coordinators_for_call_def)
  have "handle_execute_recipe env None a ((i, s) # ms) = for_machines ?m (i # map fst ms) ((i, s) # ms)"
    by (simp add: handle_execute_recipe_def with_targets_def coordinators_for_call_def)
  also have "\<dots> = bind_co (on_machine i (?m i)) (\<lambda>x. bind_co (for_machines ?m (map fst ms)) (\<lambda>xs. return_co (x # xs)))
      ((i, s) # ms)" by simp
  finally show ?thesis
    unfolding all bind_co_def one
    by (cases r) (simp_all add: machines_tail [OF i] bind_res_def split: prod.split sum.split)
qed

text \<open>A call for several machines, one after the other; none of them sees the others.\<close>

lemma machines_append:
  "for_machines m (xs @ ys) = bind_co (for_machines m xs) (\<lambda>as. bind_co (for_machines m ys) (\<lambda>bs. return_co (as @ bs)))"
proof (induction xs)
  case Nil
  then show ?case by (auto simp: bind_co_def return_co_def fun_eq_iff split: sum.split prod.split)
next
  case (Cons x xs)
  then show ?case by (auto simp: bind_co_def return_co_def fun_eq_iff split: sum.splits prod.splits)
qed

lemma machines_back:
  "set js \<inter> set (map fst pre) = {} \<Longrightarrow>
     for_machines m js (pre @ ms) = (case for_machines m js ms of (r, ms') \<Rightarrow> (r, pre @ ms'))"
proof (induction pre)
  case (Cons x pre)
  then show ?case using machines_tail [of "fst x" js m "snd x" "pre @ ms"] by (cases x) (auto split: prod.splits)
qed simp

lemma machine_front:
  assumes "j \<in> set (map fst pre)"
  shows "on_machine j m (pre @ rest) = (case on_machine j m pre of (r, pre') \<Rightarrow> (r, pre' @ rest))"
proof -
  have "AList.update j s' (pre @ rest) = AList.update j s' pre @ rest" for s' using assms by (induction pre) auto
  moreover obtain s where "map_of pre j = Some s" using assms by (metis map_of_eq_None_iff not_None_eq set_map)
  ultimately show ?thesis by (simp add: on_machine_def split: prod.split)
qed

lemma machine_keys: "on_machine j m ms = (r, ms') \<Longrightarrow> map fst ms' = map fst ms"
  by (auto simp: on_machine_def keys_update split: option.splits prod.splits)

lemma machines_front:
  "set js \<subseteq> set (map fst pre) \<Longrightarrow>
     for_machines m js (pre @ rest) = (case for_machines m js pre of (r, pre') \<Rightarrow> (r, pre' @ rest))"
proof (induction js arbitrary: pre)
  case (Cons j js)
  obtain r p where p: "on_machine j (m j) pre = (r, p)" by fastforce
  have one: "on_machine j (m j) (pre @ rest) = (r, p @ rest)" using machine_front [of j pre "m j" rest] Cons.prems p by simp
  have "for_machines m js (p @ rest) = (case for_machines m js p of (r, pre') \<Rightarrow> (r, pre' @ rest))"
    using Cons.IH [of p] Cons.prems machine_keys [OF p] by simp
  then show ?case by (auto simp: bind_co_def p one return_co_def split: sum.split prod.split)
qed (simp add: return_co_def)

lemma machines_keys: "for_machines m js ms = (r, ms') \<Longrightarrow> map fst ms' = map fst ms"
proof (induction js arbitrary: ms r ms')
  case (Cons j js)
  obtain q p where p: "on_machine j (m j) ms = (q, p)" by fastforce
  obtain q2 p2 where p2: "for_machines m js p = (q2, p2)" by fastforce
  have "ms' = p \<or> ms' = p2" using Cons.prems p p2 by (auto simp: bind_co_def return_co_def split: sum.splits)
  then show ?case using machine_keys [OF p] Cons.IH [OF p2] by auto
qed (simp add: return_co_def)

text \<open>The brew call for all of some machines, and what it does when one in the middle is stepped over.\<close>

definition brew_all :: "link_env \<Rightarrow> execute_call \<Rightarrow> unit list mo" where
  "brew_all env a ms = (if ms = [] then (Inr [], []) else handle_execute_recipe env None a ms)"

lemma brew_all_machines:
  "brew_all env a ms = for_machines (\<lambda>i. on_coord (execute_one (fst (env i)) (snd (env i)) a)) (map fst ms) ms"
  by (simp add: brew_all_def handle_execute_recipe_def with_targets_def coordinators_for_call_def return_co_def)

lemma middle_machine_step:
  assumes "distinct (map fst (pre @ (i, s) # later))"
    "execute_one (fst (env i)) (snd (env i)) a (st_coord s) = (Inr (), k)"
  shows "brew_all env a (pre @ (i, s) # later) =
      (case brew_all env a pre of
         (Inl e, pre') \<Rightarrow> (Inl e, pre' @ (i, s) # later)
       | (Inr xs, pre') \<Rightarrow> (case brew_all env a later of
           (q, later') \<Rightarrow> (bind_res q (\<lambda>ys. Inr (xs @ () # ys)), pre' @ (i, s\<lparr>st_coord := k\<rparr>) # later')))"
    (is ?all)
    and "i \<noteq> [] \<Longrightarrow> handle_execute_recipe env (Some i) a (pre @ (i, s) # later)
       = (Inr [()], pre @ (i, s\<lparr>st_coord := k\<rparr>) # later)"
proof -
  let ?m = "\<lambda>i. on_coord (execute_one (fst (env i)) (snd (env i)) a)"
  have here: "on_machine i (?m i) (p @ (i, s) # later) = (Inr (), p @ (i, s\<lparr>st_coord := k\<rparr>) # later)" if "map fst p = map fst pre" for p
  proof -
    have i: "i \<notin> set (map fst p)" using assms(1) that by simp
    then have "map_of p i = None" by (simp add: map_of_eq_None_iff)
    then have "map_of (p @ (i, s) # later) i = Some s" by (simp add: map_add_def)
    moreover have "AList.update i s' (p @ (i, s) # later) = p @ (i, s') # later" for s' using i by (induction p) auto
    ultimately show ?thesis unfolding on_machine_def by (simp only: option.case on_coord_def assms(2) Let_def prod.case)
  qed
  obtain r p where p: "for_machines ?m (map fst pre) pre = (r, p)" by fastforce
  have keys: "map fst p = map fst pre" using machines_keys [OF p] .
  obtain q ms where q: "for_machines ?m (map fst later) later = (q, ms)" by fastforce
  have front: "for_machines ?m (map fst pre) (pre @ (i, s) # later) = (r, p @ (i, s) # later)"
    using machines_front [of "map fst pre" pre ?m "(i, s) # later"] p by simp
  have rear: "for_machines ?m (map fst later) (p @ (i, s\<lparr>st_coord := k\<rparr>) # later) = (q, p @ (i, s\<lparr>st_coord := k\<rparr>) # ms)"
    using machines_back [of "map fst later" "p @ [(i, s\<lparr>st_coord := k\<rparr>)]" ?m later] q keys assms(1) by auto
  show ?all
    unfolding brew_all_machines map_append list.map machines_append p q
    by (cases r; cases q) (simp_all add: bind_co_def return_co_def front here [OF keys] rear)
  show "handle_execute_recipe env (Some i) a (pre @ (i, s) # later) = (Inr [()], pre @ (i, s\<lparr>st_coord := k\<rparr>) # later)"
    if "i \<noteq> []"
  proof -
    have "map_of (pre @ (i, s) # later) i \<noteq> None" by (auto simp: map_of_eq_None_iff)
    then show ?thesis
      using here [OF refl] that
      by (simp add: handle_execute_recipe_def with_targets_def targets_of_one bind_co_def return_co_def)
  qed
qed

text \<open>What a call has stored on a machine before it makes sure of the link.\<close>

definition called_state :: "execute_call \<Rightarrow> coord \<Rightarrow> coord" where
  "called_state a k =
     (case called_recipe (xc_recipe a) k of
        None \<Rightarrow> k
      | Some nm \<Rightarrow>
          let k1 = select_recipe (Some nm) k
          in request UpdateListeners (k1\<lparr>k_grind_size := or_default (xc_grind_size a) (k_grind_size k1),
               k_rpm := or_default (xc_rpm a) (k_rpm k1)\<rparr>))"

lemma called_state_world: "k_world (called_state a k) = k_world k" "k_client (called_state a k) = k_client k"
  by (simp_all add: called_state_def select_recipe_def Let_def request_def split: option.split)

lemma skipped_brew:
  assumes "called_recipe (xc_recipe a) k \<noteq> None" "async_ensure_connected B meanwhile (called_state a k) = (Inr up, k1)"
    and "up \<Longrightarrow> k_water_source k1 = WATER_SOURCE_TANK \<and> \<not> d_water_level_ok (k_data k1)"
  shows "execute_one B meanwhile a k = (Inr (), k1)"
proof -
  obtain nm where nm: "called_recipe (xc_recipe a) k = Some nm" using assms(1) by blast
  have "prepare_recipe_execution k1 ov pos bv bt = Inl HomeAssistantError" if up for ov pos bv bt
    by (rule prepare_gated) (use assms(3) [OF that] in simp)
  then have "coord_execute_recipe B meanwhile ov pos bv bt (called_state a k) =
      (if up then Inl HomeAssistantError else Inr (), k1)" for ov pos bv bt
    unfolding coord_execute_recipe_def when_up_def bind_co_run [where m = "async_ensure_connected B meanwhile", OF assms(2)]
    by (simp add: return_co_def)
  then show ?thesis
    using nm by (simp add: execute_one_def called_state_def Let_def skip_refused_def catch_co_def return_co_def)
qed

section \<open>Theorems\<close>

text \<open>
  C36. A service called for one machine never touches another: every other machine's recipes, slots,
  link and settings stay as they were, and a call for an unknown machine raises and changes nothing.
\<close>

theorem service_stays_on_target:
  assumes "i \<noteq> []" "run_service v (Some i) call ms = (r, ms')"
  shows "map fst ms' = map fst ms \<and> (j = i \<or> map_of ms' j = map_of ms j) \<and>
    (map_of ms i \<noteq> None \<or> r = Inl HomeAssistantError \<and> ms' = ms)"
proof -
  have "others_kept i ms ms'" using others_service [OF assms(1), of v call] assms(2) by (auto simp: keeps_def) (metis snd_conv)
  then show ?thesis using unmatched_raises [OF assms(1), of ms v call] assms(2) by (auto simp: others_kept_def)
qed

definition demo_env :: service_env where
  "demo_env = \<lparr>sv_link = (\<lambda>_. (offline_stack, \<lambda>_ k. k)), sv_server = (\<lambda>_. None), sv_mint = (\<lambda>i. ''u1'' @ i),
     sv_show_float = (\<lambda>_. []), sv_load = (\<lambda>_. None), sv_published = (\<lambda>_. None), sv_center = (\<lambda>_ _. None), sv_login = False\<rparr>"

definition plain_call :: execute_call where
  "plain_call = \<lparr>xc_recipe = None, xc_grind_size = None, xc_rpm = None, xc_dose_g = None, xc_ratio = None,
     xc_cup_type = None, xc_bypass_volume = None, xc_bypass_temperature = None\<rparr>"

definition with_coord :: "(coord \<Rightarrow> coord) \<Rightarrow> store" where
  "with_coord f = demo_store\<lparr>st_coord := f (st_coord demo_store)\<rparr>"

theorem service_stays_on_target_witness:
  "\<exists>ms'. run_service demo_env (Some ''a'') (DeleteRecipe ''y'') [(''a'', demo_store), (''b'', demo_store)] = (Inr (), ms') \<and>
     map_of ms' ''b'' = Some demo_store"
proof -
  have "find_recipe (st_recipes demo_store) ''y'' = Some (''V60'', (demo_dict [sip 2])\<lparr>rd_uid := Some ''y''\<rparr>)"
    by (rule find_recipe_uid) (auto simp: demo_store_def py_strip_def py_space_def)
  then have "fst (run_service demo_env (Some ''a'') (DeleteRecipe ''y'') [(''a'', demo_store), (''b'', demo_store)]) = Inr ()"
    by (simp add: run_service_def handle_delete_recipe_def on_first_def with_targets_def coordinators_for_call_def
        on_machine_def delete_local_recipe_def bind_co_def forget_def saved_or_raise_def)
  then obtain ms' where r: "run_service demo_env (Some ''a'') (DeleteRecipe ''y'') [(''a'', demo_store), (''b'', demo_store)]
      = (Inr (), ms')" by (metis prod.collapse)
  from service_stays_on_target [OF _ this, of "''b''"] r show ?thesis by simp
qed

text \<open>
  C37. One machine's refused brew does not stop the others.  A machine that is called on, wherever it
  stands in the order, and turns out to have its link down or its tank too low, is left as the call's
  settings and making sure of the link leave it, which on a connected machine sends nothing.  The
  machines before and after it do what a call for them alone does, and only an error of an earlier
  machine ends the call.  A call for this machine by its id succeeds without brewing.
\<close>

theorem gated_machine_skipped:
  assumes "distinct (map fst (pre @ (i, s) # later))" "called_recipe (xc_recipe a) (st_coord s) \<noteq> None"
    and "async_ensure_connected (fst (env i)) (snd (env i)) (called_state a (st_coord s)) = (Inr up, k1)"
    and "up \<longrightarrow> k_water_source k1 = WATER_SOURCE_TANK \<and> \<not> d_water_level_ok (k_data k1)"
  shows "brew_all env a (pre @ (i, s) # later) =
      (case brew_all env a pre of
         (Inl e, pre') \<Rightarrow> (Inl e, pre' @ (i, s) # later)
       | (Inr xs, pre') \<Rightarrow> (case brew_all env a later of
           (q, later') \<Rightarrow> (bind_res q (\<lambda>ys. Inr (xs @ () # ys)), pre' @ (i, s\<lparr>st_coord := k1\<rparr>) # later'))) \<and>
    (i \<noteq> [] \<longrightarrow> handle_execute_recipe env (Some i) a (pre @ (i, s) # later)
       = (Inr [()], pre @ (i, s\<lparr>st_coord := k1\<rparr>) # later)) \<and>
    (k_connected (st_coord s) \<longrightarrow> up \<and> k1 = note_activity (called_state a (st_coord s)) \<and>
       k_world k1 = k_world (st_coord s))"
proof -
  have one: "execute_one (fst (env i)) (snd (env i)) a (st_coord s) = (Inr (), k1)"
    by (rule skipped_brew [OF assms(2,3)]) (use assms(4) in blast)
  have "k_connected (st_coord s) \<longrightarrow> up \<and> k1 = note_activity (called_state a (st_coord s)) \<and> k_world k1 = k_world (st_coord s)"
    using ensure_connected_up [of "called_state a (st_coord s)" "fst (env i)" "snd (env i)"] assms(3)
    by (auto simp: called_state_world note_activity_def)
  then show ?thesis using middle_machine_step [where env = env, OF assms(1) one] by blast
qed

theorem gated_machine_skipped_witness:
  "let low = with_coord (\<lambda>k. k\<lparr>k_data := (k_data k)\<lparr>d_water_level_ok := False\<rparr>, k_selected_recipe := Some ''V60''\<rparr>)
   in handle_execute_recipe (sv_link demo_env) (Some ''b'') plain_call [(''a'', demo_store), (''b'', low), (''c'', demo_store)]
     = (Inr [()], [(''a'', demo_store), (''b'', low\<lparr>st_coord := note_activity (called_state plain_call (st_coord low))\<rparr>),
         (''c'', demo_store)])"
proof -
  let ?s = "with_coord (\<lambda>k. k\<lparr>k_data := (k_data k)\<lparr>d_water_level_ok := False\<rparr>, k_selected_recipe := Some ''V60''\<rparr>)"
  have up: "k_connected (called_state plain_call (st_coord ?s))"
    by (simp add: called_state_world with_coord_def demo_store_def demo_coord_def init_coord_def demo_world_def)
  have called: "called_recipe (xc_recipe plain_call) (st_coord ?s) \<noteq> None"
    by (simp add: called_recipe_def plain_call_def with_coord_def demo_store_def)
  have low: "k_water_source (note_activity (called_state plain_call (st_coord ?s))) = WATER_SOURCE_TANK \<and>
      \<not> d_water_level_ok (k_data (note_activity (called_state plain_call (st_coord ?s))))"
    by (simp add: called_state_def select_recipe_def request_def note_activity_def Let_def with_coord_def demo_store_def
        demo_coord_def init_coord_def WATER_SOURCE_TANK_def split: option.split)
  have en: "async_ensure_connected (fst (sv_link demo_env ''b'')) (snd (sv_link demo_env ''b'')) (called_state plain_call (st_coord ?s))
      = (Inr True, note_activity (called_state plain_call (st_coord ?s)))" by (rule ensure_connected_up [OF up])
  have "distinct (map fst ([(''a'', demo_store)] @ (''b'', ?s) # [(''c'', demo_store)]))" by simp
  from gated_machine_skipped [where env = "sv_link demo_env" and a = plain_call, OF this called en] low
  show ?thesis by (simp add: Let_def)
qed

text \<open>
  A recipe that cannot be built does stop them: with enough water, a connected machine whose
  recipe has a pour at a temperature the builder refuses ends the whole call with that error, and no
  machine after it is asked to brew.
\<close>

theorem unbuildable_recipe_stops_the_call:
  assumes "distinct (map fst ((i, s) # ms))" "ms \<noteq> []" "k_connected (st_coord s)"
    "d_water_level_ok (k_data (st_coord s))" "called_recipe (xc_recipe a) (st_coord s) = Some nm"
    "map_of (st_recipes s) nm = Some raw" "py_lower (rd_cup_type raw) \<noteq> ''tea''" "build_recipe_from_yaml raw = Inl ValueError"
    "xc_dose_g a = None" "xc_ratio a = None" "xc_cup_type a = None"
  shows "\<exists>k. handle_execute_recipe env None a ((i, s) # ms) = (Inl ValueError, (i, s\<lparr>st_coord := k\<rparr>) # ms)"
proof -
  from brew_call_starts [OF assms(5,3)] obtain k1 where k1: "k_connected k1"
    "map_of (k_recipes k1) nm = Some raw" "k_selected_recipe k1 = Some nm" "d_water_level_ok (k_data k1)"
    "execute_one (fst (env i)) (snd (env i)) a (st_coord s) = skip_refused (coord_execute_recipe (fst (env i)) (snd (env i))
      \<lparr>ro_dose_g = None, ro_ratio = None, ro_cup_type = None, ro_temperature_c = None\<rparr> []
      (xc_bypass_volume a) (xc_bypass_temperature a)) k1"
    using assms(4,6,9-11) by metis
  have nm: "nm \<noteq> []" using assms(5) by (auto simp: called_recipe_def Let_def split: option.splits if_splits)
  have "prepare_recipe_execution (note_activity k1) \<lparr>ro_dose_g = None, ro_ratio = None, ro_cup_type = None,
      ro_temperature_c = None\<rparr> [] (xc_bypass_volume a) (xc_bypass_temperature a) = Inl ValueError"
    using k1(2-4) nm assms(7,8)
    by (simp add: prepare_recipe_execution_def get_def note_activity_def build_prepared_def apply_overrides_def)
  from refused_brew [OF k1(1) this] k1(5)
  have "execute_one (fst (env i)) (snd (env i)) a (st_coord s) = (Inl ValueError, note_activity k1)" by simp
  from first_machine_step [where env = env, OF assms(1,2) this] show ?thesis by auto
qed

theorem unbuildable_recipe_stops_the_call_witness:
  "\<exists>s'. handle_execute_recipe (sv_link demo_env) None plain_call
     [(''a'', with_coord (\<lambda>k. k\<lparr>k_recipes := [(''V60'', demo_dict [sip 100\<lparr>temperature_c := 20\<rparr>])],
        k_selected_recipe := Some ''V60'', k_data := (k_data k)\<lparr>d_water_level_ok := True\<rparr>\<rparr>)), (''b'', demo_store)] =
   (Inl ValueError, [(''a'', s'), (''b'', demo_store)])"
proof -
  let ?raw = "demo_dict [sip 100\<lparr>temperature_c := 20\<rparr>]"
  let ?s = "with_coord (\<lambda>k. k\<lparr>k_recipes := [(''V60'', ?raw)], k_selected_recipe := Some ''V60'',
      k_data := (k_data k)\<lparr>d_water_level_ok := True\<rparr>\<rparr>)"
  have rec: "st_recipes ?s = [(''V60'', ?raw)]" "st_selected ?s = Some ''V60''" by (simp_all add: with_coord_def)
  have up: "distinct (map fst [(''a'', ?s), (''b'', demo_store)])" "[(''b'', demo_store)] \<noteq> []" "k_connected (st_coord ?s)"
    "d_water_level_ok (k_data (st_coord ?s))"
    by (simp_all add: with_coord_def demo_store_def demo_coord_def init_coord_def demo_world_def)
  have called: "called_recipe (xc_recipe plain_call) (st_coord ?s) = Some ''V60''" "map_of (st_recipes ?s) ''V60'' = Some ?raw"
    by (simp_all add: rec called_recipe_def plain_call_def)
  have raw: "py_lower (rd_cup_type ?raw) \<noteq> ''tea''" "build_recipe_from_yaml ?raw = Inl ValueError"
    by (simp add: demo_dict_def py_lower_def lower_char_def char_of_def bit_0)
      (rule room_temperature_never_builds_witness)
  from unbuildable_recipe_stops_the_call [OF up called raw] show ?thesis by (fastforce simp: plain_call_def)
qed

end
