(* ===== verification/Pictures.thy ===== *)
theory Pictures
  imports Flow
begin

text \<open>
  The colour a serial number encodes (\<^verbatim>\<open>machine_color.py\<close>), the web store of a region
  (\<^verbatim>\<open>stores.py\<close>), the cached machine pictures (\<^verbatim>\<open>machine_photo.py\<close>) and their refresh by the
  coordinator.  The picture directory is a map from files to their bytes; the web is an argument: the
  status and the chunks a download yields, or nothing when the connection fails.
\<close>

section \<open>Colours and stores\<close>

definition MACHINE_COLOR_CODES :: "(string \<times> string option) list" where
  "MACHINE_COLOR_CODES =
     [(''midnight_black'', Some ''01''), (''moonlight_white'', Some ''02''), (''sage_green_green'', Some ''03''),
      (''sage_green_gold'', Some ''04''), (''twilight'', Some ''05''), (''offline_blue'', None)]"

definition MACHINE_COLORS :: "string list" where "MACHINE_COLORS = map fst MACHINE_COLOR_CODES"

definition SERIAL_COLOR_CODES :: "(string \<times> string) list" where
  "SERIAL_COLOR_CODES =
     concat (map (\<lambda>(color, code). case code of None \<Rightarrow> [] | Some c \<Rightarrow> [(c, color)]) MACHINE_COLOR_CODES)"

definition color_code :: "string option \<Rightarrow> string option" where
  "color_code serial =
     (case serial of None \<Rightarrow> None | Some s \<Rightarrow> if length s < 6 then None else Some (slice 4 6 s))"

definition color_from_serial :: "string option \<Rightarrow> string option" where
  "color_from_serial serial = map_of SERIAL_COLOR_CODES (or_default (color_code serial) [])"

text \<open>The Repairs issue for a colour code that is not mapped: the code it reports, or no issue.\<close>

definition sync_machine_color_issue :: "string \<Rightarrow> string option" where
  "sync_machine_color_issue serial =
     (if color_code (Some serial) = None \<or> color_from_serial (Some serial) \<noteq> None then None
      else color_code (Some serial))"

record web_store =
  ws_home_page :: string
  ws_pods_page :: string

definition STORES :: "(string \<times> web_store) list" where
  "STORES =
     [(''global'', \<lparr>ws_home_page = ''https://xbloom.com'', ws_pods_page = ''https://xbloom.com/collections/xpods''\<rparr>),
      (''kr'', \<lparr>ws_home_page = ''https://xbloomkorea.cafe24.com'',
               ws_pods_page = ''https://xbloomkorea.cafe24.com/category/xPod/25/''\<rparr>),
      (''cn'', \<lparr>ws_home_page = ''https://xbloomcfdq.m.tmall.com/'', ws_pods_page = ''https://xbloomcfdq.m.tmall.com/''\<rparr>)]"

definition STORE_REGIONS :: "string list" where "STORE_REGIONS = map fst STORES"

definition COUNTRY_REGIONS :: "(string \<times> string) list" where
  "COUNTRY_REGIONS = [(''KR'', ''kr''), (''CN'', ''cn'')]"

definition region_for_country :: "string option \<Rightarrow> string" where
  "region_for_country country =
     or_default (map_of COUNTRY_REGIONS (py_upper (or_default country []))) ''global''"

definition effective_region :: "string option \<Rightarrow> string option \<Rightarrow> string" where
  "effective_region setting country =
     (case setting of
        Some r \<Rightarrow> if r \<in> set STORE_REGIONS then r else region_for_country country
      | None \<Rightarrow> region_for_country country)"

lemma effective_region_known: "effective_region setting country \<in> {''global'', ''kr'', ''cn''}"
proof -
  have "region_for_country c \<in> {''global'', ''kr'', ''cn''}" for c
    by (simp add: region_for_country_def COUNTRY_REGIONS_def or_default_def)
  then show ?thesis by (auto simp: effective_region_def STORE_REGIONS_def STORES_def split: option.split)
qed

section \<open>Whole images\<close>

definition STORE_PHOTO_CDN :: string where
  "STORE_PHOTO_CDN = ''https://cdn.shopify.com/s/files/1/0611/5704/8544/files/''"

definition STORE_PHOTOS :: "(string \<times> string) list" where
  "STORE_PHOTOS =
     [(''midnight_black'', ''xbloom_Studio_Midnight_Black_03.webp''),
      (''moonlight_white'', ''Frame_34597300_2dd2d49b-c4db-4846-82c6-58bb66c24332.png''),
      (''sage_green_green'', ''Frame_34598241.png''),
      (''sage_green_gold'', ''Frame_34598234.png''),
      (''twilight'', ''Frame_34598248.png''),
      (''offline_blue'', ''xbloomofflinebluestudioproductimage-3.webp'')]"

definition DEFAULT_COLOR :: string where "DEFAULT_COLOR = ''midnight_black''"

definition MAX_BYTES :: nat where "MAX_BYTES = 8 * 1024 * 1024"

definition PNG_MAGIC :: bytes where "PNG_MAGIC = [137, 80, 78, 71, 13, 10, 26, 10]"
definition PNG_END :: bytes where "PNG_END = [73, 69, 78, 68, 174, 66, 96, 130]"
definition RIFF :: bytes where "RIFF = [82, 73, 70, 70]"
definition WEBP :: bytes where "WEBP = [87, 69, 66, 80]"

text \<open>The content type by the magic bytes, for a whole image only.\<close>

definition image_type :: "bytes \<Rightarrow> string option" where
  "image_type bs =
     (if take 8 bs = PNG_MAGIC \<and> drop (length bs - 8) bs = PNG_END then Some ''image/png''
      else if slice 0 4 bs = RIFF \<and> slice 8 12 bs = WEBP \<and> le_val (slice 4 8 bs) + 8 = length bs
      then Some ''image/webp''
      else if take 3 bs = [255, 216, 255] \<and> drop (length bs - 2) bs = [255, 217] then Some ''image/jpeg''
      else None)"

section \<open>The picture directory\<close>

datatype photo_file = StorePhoto string | CoverPhoto string int

type_synonym photo_dir = "(photo_file \<times> bytes) list"

text \<open>A download: the HTTP status and the chunks of the body, or a failed connection.\<close>

type_synonym web = "string \<Rightarrow> (int \<times> bytes list) option"

definition is_alnum :: "char \<Rightarrow> bool" where
  "is_alnum c \<longleftrightarrow> is_digit c \<or> (let n = (of_char (upper_char c) :: nat) in 65 \<le> n \<and> n \<le> 90)"

definition safe_code :: "string option \<Rightarrow> string option" where
  "safe_code code = (case code of None \<Rightarrow> None | Some c \<Rightarrow> if c \<noteq> [] \<and> list_all is_alnum c then Some c else None)"

definition photo_color :: "string option \<Rightarrow> string" where
  "photo_color color =
     (case color of None \<Rightarrow> DEFAULT_COLOR | Some c \<Rightarrow> if c \<in> set (map fst STORE_PHOTOS) then c else DEFAULT_COLOR)"

definition store_file :: "string option \<Rightarrow> photo_file" where "store_file color = StorePhoto (photo_color color)"

text \<open>The covers cached for a colour code, newest version first.\<close>

definition is_cover :: "string \<Rightarrow> photo_file \<Rightarrow> bool" where
  "is_cover code f = (case f of StorePhoto _ \<Rightarrow> False | CoverPhoto c _ \<Rightarrow> c = code)"

definition cover_version :: "photo_file \<Rightarrow> int" where
  "cover_version f = (case f of StorePhoto _ \<Rightarrow> -1 | CoverPhoto _ v \<Rightarrow> v)"

definition cover_files :: "photo_dir \<Rightarrow> string \<Rightarrow> photo_file list" where
  "cover_files d code = sort_key (\<lambda>f. - cover_version f) (filter (is_cover code) (map fst d))"

fun read_chunks :: "bytes \<Rightarrow> bytes list \<Rightarrow> bytes option" where
  "read_chunks bs [] = Some bs"
| "read_chunks bs (c # cs) = (if MAX_BYTES < length (bs @ c) then None else read_chunks (bs @ c) cs)"

definition download :: "web \<Rightarrow> string \<Rightarrow> bytes option" where
  "download net url =
     (case net url of
        None \<Rightarrow> None
      | Some (code, chunks) \<Rightarrow>
          if code \<noteq> 200 then None
          else (case read_chunks [] chunks of
                  None \<Rightarrow> None
                | Some bs \<Rightarrow> if image_type bs \<noteq> None then Some bs else None))"

definition is_cached :: "photo_dir \<Rightarrow> photo_file \<Rightarrow> bool" where
  "is_cached d f = (case map_of d f of None \<Rightarrow> False | Some bs \<Rightarrow> image_type bs \<noteq> None)"

definition write_photo :: "photo_file \<Rightarrow> bytes \<Rightarrow> photo_file list \<Rightarrow> photo_dir \<Rightarrow> photo_dir" where
  "write_photo f bs stale d =
     fold (\<lambda>old d. if old \<noteq> f then AList.delete old d else d) stale (AList.update f bs d)"

definition async_cache_store_photo :: "web \<Rightarrow> string option \<Rightarrow> photo_dir \<Rightarrow> bool \<times> photo_dir" where
  "async_cache_store_photo net color d =
     (if is_cached d (store_file color) then (True, d)
      else case download net (STORE_PHOTO_CDN @ the (map_of STORE_PHOTOS (photo_color color)) @ ''?width=720'') of
             None \<Rightarrow> (False, d)
           | Some bs \<Rightarrow> (True, write_photo (store_file color) bs [] d))"

definition async_cache_cover :: "web \<Rightarrow> string option \<Rightarrow> string \<Rightarrow> int \<Rightarrow> photo_dir \<Rightarrow> bool \<times> photo_dir" where
  "async_cache_cover net code url ver d =
     (case safe_code code of
        None \<Rightarrow> (False, d)
      | Some c \<Rightarrow>
          if is_cached d (CoverPhoto c ver) then (True, d)
          else (case download net url of
                  None \<Rightarrow> (False, d)
                | Some bs \<Rightarrow> (True, write_photo (CoverPhoto c ver) bs (cover_files d c) d)))"

text \<open>The first candidate that holds a whole image.\<close>

fun first_image :: "photo_dir \<Rightarrow> photo_file list \<Rightarrow> (bytes \<times> string) option" where
  "first_image d [] = None"
| "first_image d (f # fs) =
     (case map_of d f of
        None \<Rightarrow> first_image d fs
      | Some bs \<Rightarrow> (case image_type bs of None \<Rightarrow> first_image d fs | Some t \<Rightarrow> Some (bs, t)))"

definition read_photo :: "photo_dir \<Rightarrow> string option \<Rightarrow> string option \<Rightarrow> (bytes \<times> string) option" where
  "read_photo d code color =
     first_image d ((case code of None \<Rightarrow> [] | Some c \<Rightarrow> take 1 (cover_files d c)) @ [store_file color])"

definition async_read_photo :: "web \<Rightarrow> string option \<Rightarrow> string option \<Rightarrow> photo_dir \<Rightarrow>
    (bytes \<times> string) option \<times> photo_dir" where
  "async_read_photo net code color d =
     (let photo = read_photo d (safe_code code) color in
      if photo \<noteq> None then (photo, d)
      else let (ok, d1) = async_cache_store_photo net color d
        in (if ok then read_photo d1 (safe_code code) color else None, d1))"

section \<open>The coordinator's refresh\<close>

definition MACHINE_COVER_MAX_AGE_S :: rat where "MACHINE_COVER_MAX_AGE_S = 3 * 24 * 3600"

record pictures =
  pc_store :: store
  pc_dir :: photo_dir
  pc_cover :: "(string \<times> int \<times> rat) option"

definition machine_cover_version :: "pictures \<Rightarrow> int option" where
  "machine_cover_version p = map_option (\<lambda>(_, v, _). v) (pc_cover p)"

definition cover_fresh :: "string \<Rightarrow> rat \<Rightarrow> pictures \<Rightarrow> bool" where
  "cover_fresh code now p =
     (case pc_cover p of None \<Rightarrow> False | Some (c, _, t) \<Rightarrow> c = code \<and> now - t < MACHINE_COVER_MAX_AGE_S)"

text \<open>\<open>now\<close> is the clock when the age is checked, \<open>later\<close> when the cover has been cached.\<close>

definition async_refresh_machine_photos :: "server \<Rightarrow> web \<Rightarrow> string \<Rightarrow> rat \<Rightarrow> rat \<Rightarrow> pictures \<Rightarrow> unit res \<times> pictures" where
  "async_refresh_machine_photos srv net serial now later p =
     (case color_code (Some serial) of
        None \<Rightarrow> (Inr (), p)
      | Some code \<Rightarrow>
          let p1 = p\<lparr>pc_dir := snd (async_cache_store_photo net (color_from_serial (Some serial)) (pc_dir p))\<rparr> in
          if \<not> cloud_login_configured (pc_store p1) \<or> cover_fresh code now p1 then (Inr (), p1)
          else let (r, s) = bind_co (async_ensure_cloud_login srv) (\<lambda>ok.
                   if \<not> ok then return_co None else on_cloud (get_machine_cover srv serial)) (pc_store p1);
                 p2 = p1\<lparr>pc_store := s\<rparr>
            in (case r of
                  Inl e \<Rightarrow> (Inl e, p2)
                | Inr None \<Rightarrow> (Inr (), p2)
                | Inr (Some (url, v)) \<Rightarrow>
                    let ver = or_default v 0; (cached, d) = async_cache_cover net (Some code) url ver (pc_dir p2)
                    in (Inr (), p2\<lparr>pc_dir := d, pc_cover := (if cached then Some (code, ver, later) else pc_cover p2)\<rparr>)))"

section \<open>Facts\<close>

definition pictures_sound :: "photo_dir \<Rightarrow> bool" where
  "pictures_sound d \<longleftrightarrow>
     distinct (map fst d) \<and> list_all (\<lambda>(_, bs). image_type bs \<noteq> None) d \<and> (\<forall>c. length (cover_files d c) \<le> 1)"

lemma set_cover_files: "set (cover_files d c) = {f \<in> fst ` set d. is_cover c f}"
  by (auto simp: cover_files_def)

lemma length_cover_files: "length (cover_files d c) = length (filter (is_cover c) (map fst d))"
  by (simp add: cover_files_def)

lemma write_photo_eq:
  "write_photo f bs stale d = filter (\<lambda>(g, _). g \<notin> set stale \<or> g = f) (AList.update f bs d)"
proof -
  have "fold (\<lambda>old d. if old \<noteq> f then AList.delete old d else d) stale d
      = filter (\<lambda>(g, _). g \<notin> set stale \<or> g = f) d" for d :: photo_dir
    by (induction stale arbitrary: d) (auto simp: AList.delete_eq intro!: filter_cong)
  then show ?thesis by (simp add: write_photo_def)
qed

lemma map_of_filter_keys: "map_of (filter (\<lambda>(g, _). P g) d) f = (if P f then map_of d f else None)"
  by (induction d) auto

lemma map_of_write_photo: "map_of (write_photo f bs stale d) f = Some bs"
  by (simp add: write_photo_eq map_of_filter_keys AList.update_conv')

lemma set_update_subset: "set (AList.update f bs d) \<subseteq> insert (f, bs) (set d)"
  by (induction d) auto

lemma write_photo_whole:
  assumes "list_all (\<lambda>(_, bs). image_type bs \<noteq> None) d" "image_type bs \<noteq> None"
  shows "list_all (\<lambda>(_, bs). image_type bs \<noteq> None) (write_photo f bs stale d)"
  using assms set_update_subset [of f bs d] by (fastforce simp: write_photo_eq list_all_iff)

lemma write_photo_distinct: "distinct (map fst d) \<Longrightarrow> distinct (map fst (write_photo f bs stale d))"
  by (simp add: write_photo_eq distinct_map_filter AList.distinct_update)

lemma keys_of: "g \<in> fst ` set d \<longleftrightarrow> map_of d g \<noteq> None"
  by (simp add: map_of_eq_None_iff)

lemma write_photo_keys:
  "fst ` set (write_photo f bs stale d) = {g \<in> insert f (fst ` set d). g \<notin> set stale \<or> g = f}"
proof (rule set_eqI)
  fix g
  show "g \<in> fst ` set (write_photo f bs stale d) \<longleftrightarrow> g \<in> {g \<in> insert f (fst ` set d). g \<notin> set stale \<or> g = f}"
    unfolding keys_of by (simp add: write_photo_eq map_of_filter_keys AList.update_conv' keys_of)
qed

lemma sound_write_store:
  assumes "pictures_sound d" "image_type bs \<noteq> None"
  shows "pictures_sound (write_photo (StorePhoto c) bs [] d)"
proof -
  let ?d = "write_photo (StorePhoto c) bs [] d"
  have d: "distinct (map fst d)" and "list_all (\<lambda>(_, bs). image_type bs \<noteq> None) d"
    using assms(1) by (simp_all add: pictures_sound_def)
  have "length (cover_files ?d x) = length (cover_files d x)" for x
  proof -
    have "set (cover_files ?d x) = set (cover_files d x)"
      by (auto simp: set_cover_files write_photo_keys is_cover_def)
    moreover have "distinct (cover_files ?d x)" "distinct (cover_files d x)"
      using d write_photo_distinct [OF d] by (simp_all add: cover_files_def)
    ultimately show ?thesis by (metis distinct_card)
  qed
  then show ?thesis using assms write_photo_distinct [OF d] write_photo_whole by (auto simp: pictures_sound_def)
qed

lemma sound_write_cover:
  assumes "pictures_sound d" "image_type bs \<noteq> None"
  shows "pictures_sound (write_photo (CoverPhoto c v) bs (cover_files d c) d)"
    and "cover_files (write_photo (CoverPhoto c v) bs (cover_files d c) d) c = [CoverPhoto c v]"
proof -
  let ?f = "CoverPhoto c v" and ?d = "write_photo (CoverPhoto c v) bs (cover_files d c) d"
  have d: "distinct (map fst d)" and whole: "list_all (\<lambda>(_, bs). image_type bs \<noteq> None) d"
    and one: "length (cover_files d x) \<le> 1" for x
    using assms(1) by (simp_all add: pictures_sound_def)
  have dis: "distinct (cover_files ?d x)" "distinct (cover_files d x)" for x
    using d write_photo_distinct [OF d] by (simp_all add: cover_files_def)
  have mine: "set (cover_files ?d c) = {?f}"
    by (auto simp: set_cover_files write_photo_keys is_cover_def)
  then have "length (cover_files ?d c) = 1" using distinct_card [OF dis(1), of c] by simp
  then show single: "cover_files ?d c = [?f]" using mine by (cases "cover_files ?d c") auto
  have "length (cover_files ?d x) \<le> 1" for x
  proof (cases "x = c")
    case False
    then have "set (cover_files ?d x) = set (cover_files d x)"
      by (auto simp: set_cover_files write_photo_keys is_cover_def split: photo_file.splits)
    then have "length (cover_files ?d x) = length (cover_files d x)" using dis by (metis distinct_card)
    then show ?thesis using one [of x] by simp
  qed (simp add: single)
  then show "pictures_sound ?d"
    using write_photo_distinct [OF d] write_photo_whole [OF whole assms(2)] by (simp add: pictures_sound_def)
qed

lemma download_whole: "download net url = Some bs \<Longrightarrow> image_type bs \<noteq> None"
  by (auto simp: download_def split: option.splits prod.splits if_splits)

lemma sound_cache_store:
  assumes "pictures_sound d" shows "pictures_sound (snd (async_cache_store_photo net color d))"
  using assms download_whole [of net]
  by (auto simp: async_cache_store_photo_def store_file_def intro: sound_write_store split: option.split)

lemma sound_cache_cover:
  assumes "pictures_sound d" shows "pictures_sound (snd (async_cache_cover net code url ver d))"
  using assms download_whole [of net] by (auto simp: async_cache_cover_def intro: sound_write_cover(1) split: option.split)

lemma sound_read:
  assumes "pictures_sound d" shows "pictures_sound (snd (async_read_photo net code color d))"
  using sound_cache_store [OF assms, of net color] assms by (simp add: async_read_photo_def Let_def split_beta)

datatype photo_op =
    CacheStore web "string option"
  | CacheCover web "string option" string int
  | ReadPhoto web "string option" "string option"

definition photo_step :: "photo_op \<Rightarrow> photo_dir \<Rightarrow> photo_dir" where
  "photo_step op d =
     (case op of
        CacheStore net color \<Rightarrow> snd (async_cache_store_photo net color d)
      | CacheCover net code url ver \<Rightarrow> snd (async_cache_cover net code url ver d)
      | ReadPhoto net code color \<Rightarrow> snd (async_read_photo net code color d))"

interpretation pics: invariant_step photo_step pictures_sound
  by unfold_locales (simp add: photo_step_def sound_cache_store sound_cache_cover sound_read split: photo_op.split)

lemma cover_cached:
  assumes "pictures_sound d" "async_cache_cover net code url ver d = (True, d')"
  obtains c bs where "safe_code code = Some c" "pictures_sound d'" "cover_files d' c = [CoverPhoto c ver]"
    "map_of d' (CoverPhoto c ver) = Some bs" "image_type bs \<noteq> None"
proof -
  obtain c where c: "safe_code code = Some c"
    using assms(2) by (auto simp: async_cache_cover_def split: option.splits)
  let ?f = "CoverPhoto c ver"
  have sound: "pictures_sound d'" using sound_cache_cover [OF assms(1), of net code url ver] assms(2) by simp
  show ?thesis
  proof (cases "is_cached d ?f")
    case True
    then have d': "d' = d" using assms(2) c by (simp add: async_cache_cover_def)
    from True obtain bs where bs: "map_of d ?f = Some bs" "image_type bs \<noteq> None"
      by (auto simp: is_cached_def split: option.splits)
    have "?f \<in> set (cover_files d c)"
      using bs(1) by (force simp: set_cover_files is_cover_def dest: map_of_SomeD)
    moreover have "length (cover_files d c) \<le> 1" using assms(1) by (simp add: pictures_sound_def)
    ultimately have "cover_files d c = [?f]" by (cases "cover_files d c") auto
    then show ?thesis using that [OF c sound] bs d' by simp
  next
    case False
    then obtain bs where bs: "download net url = Some bs" "d' = write_photo ?f bs (cover_files d c) d"
      using assms(2) c by (auto simp: async_cache_cover_def split: option.splits)
    show ?thesis
      using that [OF c sound] sound_write_cover(2) [OF assms(1) download_whole [OF bs(1)], of c ver]
        download_whole [OF bs(1)] map_of_write_photo [of ?f bs] bs(2) by simp
  qed
qed

section \<open>Theorems\<close>

text \<open>
  C34. Whatever pictures were cached and read before, from whatever the web sent, once a server
  cover of some version has been cached every file of the directory is a whole image, that version
  is the only cover kept for its colour code, and it is the picture served, without a download.
\<close>

theorem cached_cover_is_served:
  assumes "async_cache_cover net code url ver (fold photo_step ops []) = (True, d)"
  shows "list_all (\<lambda>(_, bs). image_type bs \<noteq> None) d \<and>
    (\<exists>c bs t. code = Some c \<and> cover_files d c = [CoverPhoto c ver] \<and> map_of d (CoverPhoto c ver) = Some bs \<and>
       async_read_photo net' code color d = (Some (bs, t), d))"
proof -
  have "pictures_sound ([] :: photo_dir)" by (simp add: pictures_sound_def cover_files_def)
  then have "pictures_sound (fold photo_step ops [])" by (rule pics.run_inv)
  from this assms obtain c bs where c: "safe_code code = Some c" "pictures_sound d" "cover_files d c = [CoverPhoto c ver]"
    "map_of d (CoverPhoto c ver) = Some bs" "image_type bs \<noteq> None" by (rule cover_cached)
  then have "code = Some c" by (auto simp: safe_code_def split: option.splits if_splits)
  moreover obtain t where "image_type bs = Some t" using c(5) by blast
  then have "async_read_photo net' code color d = (Some (bs, t), d)"
    using c by (simp add: async_read_photo_def read_photo_def)
  ultimately show ?thesis using c by (auto simp: pictures_sound_def)
qed

definition demo_jpeg :: bytes where "demo_jpeg = [255, 216, 255, 255, 217]"

definition demo_web :: web where "demo_web = (\<lambda>_. Some (200, [[255, 216], [255, 255, 217]]))"

theorem cached_cover_is_served_witness:
  "\<exists>d. async_cache_cover demo_web (Some ''02'') ''u'' 5
       (fold photo_step [CacheStore demo_web None, CacheCover demo_web (Some ''02'') ''u'' 4] []) = (True, d) \<and>
     length d = 2 \<and> (\<exists>t. async_read_photo (\<lambda>_. None) (Some ''02'') None d = (Some (demo_jpeg, t), d))"
proof -
  have img: "image_type demo_jpeg = Some ''image/jpeg''"
    by (simp add: image_type_def demo_jpeg_def PNG_MAGIC_def RIFF_def slice_def)
  have dl: "download demo_web url = Some demo_jpeg" for url
    using img by (simp add: download_def demo_web_def demo_jpeg_def MAX_BYTES_def)
  have code: "safe_code (Some ''02'') = Some ''02''" by (simp add: safe_code_def is_alnum_def is_digit_def)
  have run: "async_cache_cover demo_web (Some ''02'') ''u'' 5
      (fold photo_step [CacheStore demo_web None, CacheCover demo_web (Some ''02'') ''u'' 4] [])
      = (True, [(StorePhoto ''midnight_black'', demo_jpeg), (CoverPhoto ''02'' 5, demo_jpeg)])"
    by (simp add: photo_step_def async_cache_store_photo_def async_cache_cover_def dl code is_cached_def store_file_def
        photo_color_def DEFAULT_COLOR_def write_photo_def cover_files_def is_cover_def cover_version_def)
  from cached_cover_is_served [OF this, of "\<lambda>_. None" None]
  show ?thesis unfolding run by (auto simp: cover_files_def)
qed

end
