(* ===== verification/Pods.thy ===== *)
theory Pods
  imports Pictures
begin

text \<open>
  The pod library (\<^verbatim>\<open>pods.py\<close>): every pod a machine has scanned, by the xid of its tag, and the
  store file it is saved to.  A cloud lookup returns a pod's details or nothing (an empty
  dictionary); the clock reading of a scan is an argument.
\<close>

section \<open>The library\<close>

record pod =
  pod_detail :: "pod_detail option"
  pod_first_scanned :: rat
  pod_last_scanned :: rat
  pod_scans :: nat

record pod_library =
  pl_pods :: "(string \<times> pod) list"
  pl_store :: "(string \<times> pod) list option"

definition new_library :: "(string \<times> pod) list option \<Rightarrow> pod_library" where
  "new_library stored = \<lparr>pl_pods = [], pl_store = stored\<rparr>"

definition load_pods :: "pod_library \<Rightarrow> pod_library" where
  "load_pods l = l\<lparr>pl_pods := or_default (pl_store l) []\<rparr>"

definition save_pods :: "(string \<times> pod) list \<Rightarrow> pod_library \<Rightarrow> pod_library" where
  "save_pods ps l = l\<lparr>pl_pods := ps, pl_store := Some ps\<rparr>"

definition remove_pods :: "pod_library \<Rightarrow> pod_library" where "remove_pods l = l\<lparr>pl_store := None\<rparr>"

text \<open>The newest scan first; pods scanned at the same time keep their order.\<close>

definition pods :: "pod_library \<Rightarrow> (string \<times> pod) list" where
  "pods l = sort_key (\<lambda>(_, p). - pod_last_scanned p) (pl_pods l)"

definition get_pod :: "string \<Rightarrow> pod_library \<Rightarrow> pod option" where
  "get_pod xid l = map_of (pl_pods l) xid"

definition has_recipes :: "pod_detail option \<Rightarrow> bool" where
  "has_recipes detail = (case detail of None \<Rightarrow> False | Some d \<Rightarrow> pd_recipes d \<noteq> [])"

text \<open>\<^verbatim>\<open>{**previous, **detail}\<close> for the details.\<close>

definition overlay_detail :: "pod_detail option \<Rightarrow> pod_detail option \<Rightarrow> pod_detail option" where
  "overlay_detail previous detail =
     (case (previous, detail) of
        (Some p, Some d) \<Rightarrow> Some (d\<lparr>pd_fields := fold (\<lambda>(k, v). AList.update k v) (pd_fields d) (pd_fields p)\<rparr>)
      | (_, None) \<Rightarrow> previous
      | _ \<Rightarrow> detail)"

definition async_record :: "string \<Rightarrow> pod_detail option \<Rightarrow> rat \<Rightarrow> pod_library \<Rightarrow> pod_library" where
  "async_record xid detail now l =
     (let previous = get_pod xid l;
          old = (if has_recipes detail then None else Option.bind previous pod_detail)
      in save_pods (AList.update xid
           \<lparr>pod_detail = overlay_detail old detail,
            pod_first_scanned = (case previous of None \<Rightarrow> now | Some p \<Rightarrow> pod_first_scanned p),
            pod_last_scanned = now,
            pod_scans = (case previous of None \<Rightarrow> 0 | Some p \<Rightarrow> pod_scans p) + 1\<rparr> (pl_pods l)) l)"

definition async_update_detail :: "string \<Rightarrow> pod_detail option \<Rightarrow> pod_library \<Rightarrow> bool \<times> pod_library" where
  "async_update_detail xid detail l =
     (case get_pod xid l of
        None \<Rightarrow> (False, l)
      | Some p \<Rightarrow>
          if \<not> has_recipes detail then (False, l)
          else (True, save_pods (AList.update xid (p\<lparr>pod_detail := detail\<rparr>) (pl_pods l)) l))"

definition async_delete :: "string \<Rightarrow> pod_library \<Rightarrow> bool \<times> pod_library" where
  "async_delete xid l =
     (if get_pod xid l = None then (False, l) else (True, save_pods (AList.delete xid (pl_pods l)) l))"

section \<open>The history of a pod\<close>

datatype pod_op = Scan string "pod_detail option" rat | Refresh string "pod_detail option" | Forget string | Reload

definition pod_step :: "pod_op \<Rightarrow> pod_library \<Rightarrow> pod_library" where
  "pod_step op l =
     (case op of
        Scan xid detail now \<Rightarrow> async_record xid detail now l
      | Refresh xid detail \<Rightarrow> snd (async_update_detail xid detail l)
      | Forget xid \<Rightarrow> snd (async_delete xid l)
      | Reload \<Rightarrow> load_pods (new_library (pl_store l)))"

text \<open>The library and its file agree, and a pod has one entry.\<close>

definition library_ok :: "pod_library \<Rightarrow> bool" where
  "library_ok l \<longleftrightarrow> or_default (pl_store l) [] = pl_pods l \<and> distinct (map fst (pl_pods l))"

lemma library_ok_step: "library_ok l \<Longrightarrow> library_ok (pod_step op l)"
  by (auto simp: library_ok_def pod_step_def async_record_def async_update_detail_def async_delete_def save_pods_def
      load_pods_def new_library_def AList.distinct_update AList.distinct_delete Let_def split: pod_op.split option.split)

interpretation pl: invariant_step pod_step library_ok
  by unfold_locales (rule library_ok_step)

text \<open>
  What the operations on one tag mean: the times it was scanned since it was last forgotten, newest
  first, and the last details a lookup found since then.
\<close>

fun scan_times :: "string \<Rightarrow> pod_op list \<Rightarrow> rat list" where
  "scan_times xid [] = []"
| "scan_times xid (op # ops) =
     (case op of
        Scan x _ now \<Rightarrow> if x = xid then now # scan_times xid ops else scan_times xid ops
      | Forget x \<Rightarrow> if x = xid then [] else scan_times xid ops
      | _ \<Rightarrow> scan_times xid ops)"

fun last_detail :: "string \<Rightarrow> pod_op list \<Rightarrow> pod_detail option" where
  "last_detail xid [] = None"
| "last_detail xid (op # ops) =
     (case op of
        Scan x detail _ \<Rightarrow> if x = xid \<and> detail \<noteq> None then detail else last_detail xid ops
      | Refresh x detail \<Rightarrow>
          if x = xid \<and> detail \<noteq> None \<and> scan_times xid ops \<noteq> [] then detail else last_detail xid ops
      | Forget x \<Rightarrow> if x = xid then None else last_detail xid ops
      | _ \<Rightarrow> last_detail xid ops)"

definition pod_history :: "string \<Rightarrow> pod_op list \<Rightarrow> pod option" where
  "pod_history xid ops =
     (case scan_times xid ops of
        [] \<Rightarrow> None
      | t # ts \<Rightarrow> Some \<lparr>pod_detail = last_detail xid ops, pod_first_scanned = List.last (t # ts),
                       pod_last_scanned = t, pod_scans = length (t # ts)\<rparr>)"

text \<open>What a lookup found always holds a recipe.\<close>

definition found_has_recipes :: "pod_op \<Rightarrow> bool" where
  "found_has_recipes op =
     (case op of Scan _ d _ \<Rightarrow> d = None \<or> has_recipes d | Refresh _ d \<Rightarrow> d = None \<or> has_recipes d | _ \<Rightarrow> True)"

lemma lookup_finds_recipes: "fst (fetch_pod_detail srv xid c) = Inr d \<Longrightarrow> d = None \<or> has_recipes d"
  by (auto simp: fetch_pod_detail_def bind_co_def post_def Let_def has_recipes_def split: option.splits if_splits)

lemma get_pod_simps:
  "get_pod x (save_pods ps l) = map_of ps x"
  by (simp add: get_pod_def save_pods_def)

lemma overlay_simps [simp]:
  "overlay_detail None d = d" "overlay_detail p None = p"
  by (cases d; simp add: overlay_detail_def) (cases p; simp add: overlay_detail_def)

lemma last_detail_unscanned: "scan_times xid ops = [] \<Longrightarrow> last_detail xid ops = None"
  by (induction ops) (auto split: pod_op.splits if_splits)

lemma history_step:
  assumes "library_ok l" "get_pod xid l = pod_history xid ops" "found_has_recipes op"
  shows "get_pod xid (pod_step op l) = pod_history xid (op # ops)"
proof (cases op)
  case (Scan x d now)
  then show ?thesis
    using assms(2,3) last_detail_unscanned [of xid ops]
    by (auto simp: pod_step_def async_record_def get_pod_simps AList.update_conv' pod_history_def found_has_recipes_def
        Let_def has_recipes_def get_pod_def [symmetric] split: list.splits)
next
  case (Refresh x d)
  then show ?thesis
    using assms(2,3) last_detail_unscanned [of xid ops]
    by (auto simp: pod_step_def async_update_detail_def get_pod_simps AList.update_conv' pod_history_def
        found_has_recipes_def has_recipes_def get_pod_def [symmetric] split: list.splits option.splits)
next
  case (Forget x)
  then show ?thesis
    using assms(2)
    by (auto simp: pod_step_def async_delete_def get_pod_simps AList.delete_conv' pod_history_def
        get_pod_def [symmetric] split: list.splits)
next
  case Reload
  then show ?thesis
    using assms(1,2) by (simp add: pod_step_def load_pods_def new_library_def get_pod_def pod_history_def library_ok_def
        split: list.splits)
qed

section \<open>Theorems\<close>

text \<open>
  C33. However scans, retried lookups, forgotten pods and restarts follow each other, the library
  holds for a tag exactly its history since it was last forgotten: how often it was scanned, its
  first and last scan, and the details of the last lookup that found any, be it of a scan or of a
  retry; a failed lookup never wipes them, and nothing is lost with a restart.
\<close>

theorem library_is_scan_history:
  assumes "list_all found_has_recipes ops"
  shows "get_pod xid (fold pod_step ops (new_library None)) = pod_history xid (rev ops)"
  using assms
proof (induction ops rule: rev_induct)
  case Nil
  then show ?case by (simp add: get_pod_def new_library_def pod_history_def)
next
  case (snoc op ops)
  have "library_ok (new_library None)" by (simp add: library_ok_def new_library_def)
  then have "library_ok (fold pod_step ops (new_library None))" by (rule pl.run_inv)
  from history_step [OF this] snoc show ?case by simp
qed

definition demo_detail :: "string \<Rightarrow> pod_detail" where
  "demo_detail nm = \<lparr>pd_fields = [(''name'', nm)], pd_default_recipe = nm, pd_recipes = [raw_of (demo_dict [])]\<rparr>"

theorem library_is_scan_history_witness:
  "get_pod ''a'' (fold pod_step
      [Scan ''a'' None 1, Refresh ''a'' (Some (demo_detail ''x'')), Scan ''b'' None 2, Reload, Scan ''a'' None 3]
      (new_library None))
   = Some \<lparr>pod_detail = Some (demo_detail ''x''), pod_first_scanned = 1, pod_last_scanned = 3, pod_scans = 2\<rparr>"
  by (subst library_is_scan_history) (simp_all add: found_has_recipes_def has_recipes_def demo_detail_def pod_history_def)

end
