(* ===== verification/Hub.thy ===== *)
theory Hub
  imports Flow
begin

text \<open>
  What the cloud client reads from the community hub and the web store beyond the recipes
  themselves (\<^verbatim>\<open>_cloud_client.py\<close>): the summary of a search row, the detail page of a recipe, the
  answer about the latest firmware, and the store product an official recipe is named after.  An
  answer is a document; \<open>show\<close> is the text \<^verbatim>\<open>str\<close> gives for a JSON value that is not text.
\<close>

section \<open>Values of a document\<close>

definition doc_get :: "doc \<Rightarrow> string \<Rightarrow> json" where "doc_get d k = or_default (map_of d k) JNull"

fun truthy :: "json \<Rightarrow> bool" where
  "truthy JNull = False"
| "truthy (JBool b) = b"
| "truthy (JInt n) = (n \<noteq> 0)"
| "truthy (JFloat x) = ftruthy x"
| "truthy (JStr s) = (s \<noteq> [])"
| "truthy (JList vs) = (vs \<noteq> [])"
| "truthy (JDict d) = (d \<noteq> [])"

definition or_json :: "json \<Rightarrow> json \<Rightarrow> json" where "or_json v w = (if truthy v then v else w)"

definition is_int :: "json \<Rightarrow> bool" where
  "is_int v = (case v of JInt _ \<Rightarrow> True | JBool _ \<Rightarrow> True | _ \<Rightarrow> False)"

fun join_text :: "string \<Rightarrow> string list \<Rightarrow> string" where
  "join_text sep [] = []"
| "join_text sep [w] = w"
| "join_text sep (w # v # ws) = w @ sep @ join_text sep (v # ws)"

text \<open>The words of a text, as \<^verbatim>\<open>str.split()\<close> gives them.\<close>

function words_of :: "string \<Rightarrow> string list" where
  "words_of s =
     (let t = dropWhile py_space s in
      if t = [] then [] else takeWhile (\<lambda>c. \<not> py_space c) t # words_of (dropWhile (\<lambda>c. \<not> py_space c) t))"
  by pat_completeness auto

lemma length_after_word:
  assumes "dropWhile py_space s \<noteq> []"
  shows "length (dropWhile (\<lambda>c. \<not> py_space c) (dropWhile py_space s)) < length s"
proof -
  obtain c cs where c: "dropWhile py_space s = c # cs" using assms by (cases "dropWhile py_space s") auto
  then have "\<not> py_space c" by (metis dropWhile_eq_Cons_conv)
  then have "length (dropWhile (\<lambda>c. \<not> py_space c) (c # cs)) \<le> length cs" by (simp add: length_dropWhile_le)
  also have "\<dots> < length s" using c length_dropWhile_le [of py_space s] by simp
  finally show ?thesis using c by simp
qed

termination words_of by (relation "measure length") (simp_all add: length_after_word)

declare words_of.simps [simp del]

text \<open>\<^verbatim>\<open>str(v)\<close>: text stands for itself.\<close>

definition str_json :: "(json \<Rightarrow> string) \<Rightarrow> json \<Rightarrow> string" where
  "str_json show v = (case v of JStr s \<Rightarrow> s | _ \<Rightarrow> show v)"

section \<open>Rows and details of the hub\<close>

text \<open>A row of a search; \<open>roast_names\<close> are the names of the roast levels by their ids.\<close>

definition collective_result_to_summary :: "(json \<Rightarrow> string) \<Rightarrow> doc \<Rightarrow> (string \<times> json) list \<Rightarrow> doc" where
  "collective_result_to_summary show item roast_names =
     (let get = doc_get item in
      [(''community_recipe_id'', get ''communityRecipeId''), (''name'', get ''recipeName''),
       (''official'', JBool (truthy (get ''official''))), (''user_name'', get ''userName''),
       (''machine'', get ''model''), (''cup_type'', get ''cupType''), (''dose_g'', get ''dose''),
       (''ratio'', get ''grandWater''), (''pour_count'', get ''pourCount''), (''total_water_ml'', get ''volume''),
       (''likes_count'', get ''likesCount''), (''origin'', or_json (get ''origin'') (JList [])),
       (''varietal'', or_json (get ''varietal'') (JList [])), (''process'', or_json (get ''process'') (JList [])),
       (''roast'', if get ''roast'' = JNull then JNull else or_default (map_of roast_names (str_json show (get ''roast''))) JNull),
       (''flavor'', or_json (get ''flavor'') (JList [])), (''share_url'', get ''shareRecipeLink''),
       (''image_url'', get ''imageUrl'')])"

text \<open>The items of a list joined by a middle dot, or the text; \<open>JNull\<close> when nothing is left.\<close>

definition text_item :: "json \<Rightarrow> string res" where
  "text_item v = (case v of JStr s \<Rightarrow> Inr s | _ \<Rightarrow> Inl TypeError)"

definition joined :: "(json \<Rightarrow> string) \<Rightarrow> json \<Rightarrow> json res" where
  "joined show v =
     bind_res (case v of JList vs \<Rightarrow> bind_res (map_res text_item vs) (\<lambda>ts. Inr (join_text (utf8 [32, 194, 183, 32]) ts))
               | _ \<Rightarrow> Inr (if truthy v then str_json show v else []))
       (\<lambda>t. Inr (if py_strip t = [] then JNull else JStr (py_strip t)))"

text \<open>A pattern code is looked up by equality, in which \<^verbatim>\<open>True\<close> and \<^verbatim>\<open>1.0\<close> are 1.\<close>

definition pattern_name :: "json \<Rightarrow> json res" where
  "pattern_name v =
     (case v of
        JList _ \<Rightarrow> Inl TypeError
      | JDict _ \<Rightarrow> Inl TypeError
      | _ \<Rightarrow>
          let code = (case v of JInt n \<Rightarrow> Some n | JBool b \<Rightarrow> Some (if b then 1 else 0)
                      | JFloat (Fin x) \<Rightarrow> if of_int \<lfloor>x\<rfloor> = x then Some \<lfloor>x\<rfloor> else None | _ \<Rightarrow> None)
          in Inr (case Option.bind code (map_of CLOUD_PATTERN_TO_LOCAL) of None \<Rightarrow> JNull | Some s \<Rightarrow> JStr s))"

definition hub_pour :: "json \<Rightarrow> json res" where
  "hub_pour v =
     (case v of
        JDict p \<Rightarrow> bind_res (pattern_name (doc_get p ''pattern'')) (\<lambda>shape. Inr (JDict
          [(''name'', doc_get p ''theName''), (''volume_ml'', doc_get p ''volume''),
           (''temperature_c'', doc_get p ''temperature''), (''pause_seconds'', doc_get p ''pausing''),
           (''pattern'', shape)]))
      | _ \<Rightarrow> Inl AttributeError)"

definition hub_pours :: "json \<Rightarrow> json res" where
  "hub_pours v =
     (if \<not> truthy v then Inr (JList [])
      else case v of JList ps \<Rightarrow> bind_res (map_res hub_pour ps) (\<lambda>qs. Inr (JList qs)) | _ \<Rightarrow> Inl TypeError)"

definition joined_fields :: "string list" where
  "joined_fields = [''introduce'', ''type'', ''origin'', ''process'', ''varietal'', ''flavor'']"

definition hub_detail :: "(json \<Rightarrow> string) \<Rightarrow> doc \<Rightarrow> doc res" where
  "hub_detail show d =
     bind_res (map_res (\<lambda>k. bind_res (joined show (doc_get d k)) (\<lambda>v. Inr (k, v))) joined_fields) (\<lambda>texts.
     bind_res (hub_pours (doc_get d ''pourList'')) (\<lambda>ps.
       Inr (filter (\<lambda>(_, v). v \<noteq> JNull)
         ([(''community_recipe_id'', doc_get d ''communityRecipeId''), (''name'', doc_get d ''recipeName''),
           (''official'', JBool (truthy (doc_get d ''official''))), (''user_name'', doc_get d ''userName''),
           (''image_url'', doc_get d ''imageUrl''), (''upload_date'', doc_get d ''uploadDate''),
           (''likes_count'', doc_get d ''likesCount'')] @ texts @
          [(''roast'', if is_int (doc_get d ''roast'') then doc_get d ''roast'' else JNull),
           (''cup_type'', doc_get d ''cupType''), (''dose_g'', doc_get d ''dose''), (''ratio'', doc_get d ''grandWater''),
           (''grind_size'', doc_get d ''grinderSize''), (''rpm'', doc_get d ''rpm''),
           (''total_water_ml'', doc_get d ''volume''), (''share_url'', doc_get d ''shareRecipeLink''), (''pours'', ps)]))))"

text \<open>\<open>hub\<close> is the body answered for a recipe id, \<open>None\<close> when the call fails.\<close>

definition fetch_collective_detail :: "(json \<Rightarrow> string) \<Rightarrow> (int \<Rightarrow> doc option) \<Rightarrow> int \<Rightarrow> doc option res" where
  "fetch_collective_detail show hub community_recipe_id =
     (case hub community_recipe_id of
        None \<Rightarrow> Inr None
      | Some bdy \<Rightarrow>
          if doc_get bdy ''code'' \<noteq> JInt 200 \<or> \<not> truthy (doc_get bdy ''data'') then Inr None
          else (case doc_get bdy ''data'' of
                  JDict d \<Rightarrow> bind_res (hub_detail show d) (\<lambda>r. Inr (Some r))
                | _ \<Rightarrow> Inl AttributeError))"

section \<open>The firmware answer\<close>

text \<open>\<^verbatim>\<open>s.replace(old, new)\<close>.\<close>

function replace_text :: "string \<Rightarrow> string \<Rightarrow> string \<Rightarrow> string" where
  "replace_text old new s =
     (if s = [] then []
      else if old \<noteq> [] \<and> prefix old s then new @ replace_text old new (drop (length old) s)
      else hd s # replace_text old new (tl s))"
  by pat_completeness auto

termination replace_text
proof (relation "measure (\<lambda>(_, _, s). length s)")
  show "((old, new, drop (length old) s), old, new, s) \<in> measure (\<lambda>(_, _, s). length s)"
    if "s \<noteq> []" "old \<noteq> [] \<and> prefix old s" for old new s :: string
    using that by (cases s; cases old) simp_all
  show "((old, new, tl s), old, new, s) \<in> measure (\<lambda>(_, _, s). length s)" if "s \<noteq> []" for old new s :: string
    using that by (cases s) simp_all
qed simp

declare replace_text.simps [simp del]

text \<open>The moment of a time stamp in seconds, within the years Python's dates have.\<close>

definition from_timestamp :: "pyfloat \<Rightarrow> rat res" where
  "from_timestamp x =
     (case x of
        Fin t \<Rightarrow> if - 62135596800 \<le> t \<and> t < 253402300800 then Inr t else Inl ValueError
      | NaN \<Rightarrow> Inl ValueError
      | _ \<Rightarrow> Inl OverflowError)"

definition published_of :: "json \<Rightarrow> rat option res" where
  "published_of v =
     (let moment = (\<lambda>r. bind_res (bind_res r from_timestamp) (\<lambda>t. Inr (Some t))) in
      case v of
        JInt ms \<Rightarrow> moment (Inr (to_double (of_int ms / 1000)))
      | JBool b \<Rightarrow> moment (Inr (to_double (if b then 1 / 1000 else 0)))
      | JFloat ms \<Rightarrow> moment (fdiv ms (Fin 1000))
      | _ \<Rightarrow> Inr None)"

record firmware_answer =
  fa_version :: json
  fa_release_notes :: string
  fa_md5 :: json
  fa_download_url :: json
  fa_published :: "rat option"
  fa_force_upgrade :: bool

definition release_notes_of :: "json \<Rightarrow> string res" where
  "release_notes_of v =
     (case or_json v (JStr []) of
        JStr t \<Rightarrow> Inr (py_strip (replace_text ''<br/>'' (utf8 [10]) t))
      | _ \<Rightarrow> Inl AttributeError)"

text \<open>\<open>loads\<close> is \<^verbatim>\<open>json.loads\<close>, \<open>None\<close> where it raises.\<close>

definition parse_latest_firmware_response :: "(json \<Rightarrow> string) \<Rightarrow> (json \<Rightarrow> json option) \<Rightarrow> doc option \<Rightarrow>
    firmware_answer option res" where
  "parse_latest_firmware_response show loads resp =
     (case resp of
        None \<Rightarrow> Inr None
      | Some r \<Rightarrow>
          if doc_get r ''result'' \<noteq> JStr ''success'' then Inr None
          else (case loads (or_json (doc_get r ''data'') (JStr ''{}'')) of
                  None \<Rightarrow> Inr None
                | Some (JDict payload) \<Rightarrow>
                    if \<not> truthy (doc_get payload ''version_string'') then Inr None
                    else bind_res (published_of (doc_get payload ''publishTimestamp'')) (\<lambda>published.
                         bind_res (release_notes_of (doc_get payload ''content'')) (\<lambda>notes.
                           Inr (Some \<lparr>fa_version = doc_get payload ''version_string'', fa_release_notes = notes,
                             fa_md5 = or_json (doc_get payload ''md5_string'') (JStr []),
                             fa_download_url = or_json (doc_get payload ''link_url'') (JStr []),
                             fa_published = published,
                             fa_force_upgrade = (py_upper (str_json show
                               (or_default (map_of payload ''is_force_upgrade'') (JStr ''N''))) = ''Y'')\<rparr>)))
                | _ \<Rightarrow> Inl AttributeError))"

lemma firmware_answer_may_raise:
  "loads (JStr ''[]'') = Some (JList []) \<Longrightarrow>
     parse_latest_firmware_response show loads (Some [(''result'', JStr ''success''), (''data'', JStr ''[]'')])
     = Inl AttributeError"
  by (simp add: parse_latest_firmware_response_def doc_get_def or_json_def)

section \<open>The web store\<close>

definition STORE_BASE :: string where "STORE_BASE = ''https://xbloom.com''"
definition STORE_CACHE_S :: rat where "STORE_CACHE_S = 12 * 3600"
definition STORE_MAX_PAGES :: nat where "STORE_MAX_PAGES = 4"

definition normalize_title :: "string \<Rightarrow> string" where
  "normalize_title title = join_text '' '' (words_of (py_lower title))"

text \<open>A page of products with their titles and handles; \<open>None\<close> is a page that could not be read.\<close>

type_synonym product_pages = "nat \<Rightarrow> (string option \<times> string option) list option"
type_synonym product_cache = "(rat \<times> (string \<times> string) list) option"

definition add_product :: "string option \<times> string option \<Rightarrow> (string \<times> string) list \<Rightarrow> (string \<times> string) list" where
  "add_product = (\<lambda>(title, handle) titles.
     let t = or_default title []; h = or_default handle []; k = normalize_title t in
     if t = [] \<or> h = [] \<or> k \<in> fst ` set titles then titles else titles @ [(k, h)])"

fun read_pages :: "product_pages \<Rightarrow> nat \<Rightarrow> nat \<Rightarrow> (string \<times> string) list \<Rightarrow> (string \<times> string) list option" where
  "read_pages pages 0 page titles = Some titles"
| "read_pages pages (Suc n) page titles =
     (case pages page of
        None \<Rightarrow> None
      | Some batch \<Rightarrow> if batch = [] then Some titles
          else read_pages pages n (Suc page) (fold add_product batch titles))"

definition store_products :: "product_pages \<Rightarrow> rat \<Rightarrow> product_cache \<Rightarrow> (string \<times> string) list option \<times> product_cache" where
  "store_products pages now cache =
     (case cache of
        Some (t, titles) \<Rightarrow>
          if now - t < STORE_CACHE_S then (Some titles, cache)
          else (case read_pages pages STORE_MAX_PAGES 1 [] of
                  None \<Rightarrow> (Some titles, cache)
                | Some fresh \<Rightarrow> (Some fresh, Some (now, fresh)))
      | None \<Rightarrow>
          (case read_pages pages STORE_MAX_PAGES 1 [] of
             None \<Rightarrow> (None, None)
           | Some fresh \<Rightarrow> (Some fresh, Some (now, fresh))))"

definition find_store_product :: "product_pages \<Rightarrow> rat \<Rightarrow> string option \<Rightarrow> product_cache \<Rightarrow> string option \<times> product_cache" where
  "find_store_product pages now nm cache =
     (case nm of
        None \<Rightarrow> (None, cache)
      | Some n \<Rightarrow>
          if n = [] then (None, cache)
          else let (products, cache1) = store_products pages now cache;
                   handle = or_default (map_of (or_default products []) (normalize_title n)) []
            in (if handle = [] then None else Some (STORE_BASE @ ''/products/'' @ handle), cache1))"

section \<open>Facts\<close>

text \<open>Every title known comes from a product of one of the pages read.\<close>

definition sold :: "product_pages \<Rightarrow> nat \<Rightarrow> nat \<Rightarrow> string \<times> string \<Rightarrow> bool" where
  "sold pages lo hi = (\<lambda>(k, h). \<exists>p batch t. lo \<le> p \<and> p < hi \<and> pages p = Some batch \<and>
     (Some t, Some h) \<in> set batch \<and> normalize_title t = k)"

lemma add_product_new:
  "x \<in> set (add_product p titles) \<Longrightarrow> x \<in> set titles \<or>
     (\<exists>t. p = (Some t, Some (snd x)) \<and> normalize_title t = fst x)"
  by (cases p) (auto simp: add_product_def Let_def or_default_def split: if_splits option.splits)

lemma fold_products_new:
  "x \<in> set (fold add_product batch titles) \<Longrightarrow> x \<in> set titles \<or>
     (\<exists>t. (Some t, Some (snd x)) \<in> set batch \<and> normalize_title t = fst x)"
proof (induction batch arbitrary: titles)
  case (Cons p batch)
  from Cons.prems have "x \<in> set (fold add_product batch (add_product p titles))" by simp
  from Cons.IH [OF this] show ?case using add_product_new [of x p titles] by auto
qed simp

lemma read_pages_sold:
  "read_pages pages n page titles = Some ts \<Longrightarrow> x \<in> set ts \<Longrightarrow> x \<in> set titles \<or> sold pages page (page + n) x"
proof (induction n arbitrary: page titles)
  case (Suc n)
  then obtain batch where b: "pages page = Some batch" by (auto split: option.splits)
  show ?case
  proof (cases "batch = []")
    case False
    then have "read_pages pages n (Suc page) (fold add_product batch titles) = Some ts" using Suc.prems b by simp
    from Suc.IH [OF this Suc.prems(2)] show ?thesis
    proof
      assume "x \<in> set (fold add_product batch titles)"
      from fold_products_new [OF this] show ?thesis
      proof
        assume "\<exists>t. (Some t, Some (snd x)) \<in> set batch \<and> normalize_title t = fst x"
        then show ?thesis using b by (cases x) (auto simp: sold_def intro!: exI [of _ page])
      qed simp
    next
      assume "sold pages (Suc page) (Suc page + n) x"
      then obtain p batch t where "Suc page \<le> p" "p < Suc page + n" "pages p = Some batch"
        "(Some t, Some (snd x)) \<in> set batch" "normalize_title t = fst x" by (auto simp: sold_def split_beta)
      then have "sold pages page (page + Suc n) x" by (auto simp: sold_def split_beta intro!: exI [of _ p])
      then show ?thesis ..
    qed
  qed (use Suc.prems b in simp)
qed simp

lemma found_product:
  assumes "find_store_product pages now (Some n) None = (Some url, cache)"
  obtains h where "url = STORE_BASE @ ''/products/'' @ h" "sold pages 1 (1 + STORE_MAX_PAGES) (normalize_title n, h)"
proof -
  obtain ts where ts: "read_pages pages STORE_MAX_PAGES 1 [] = Some ts" and h: "map_of ts (normalize_title n) \<noteq> None"
    and url: "url = STORE_BASE @ ''/products/'' @ the (map_of ts (normalize_title n))"
    using assms by (auto simp: find_store_product_def store_products_def or_default_def Let_def
        split: if_splits option.splits)
  then have "(normalize_title n, the (map_of ts (normalize_title n))) \<in> set ts" by (auto dest: map_of_SomeD)
  from read_pages_sold [OF ts this] show ?thesis using that [OF url] by simp
qed

end
