(* ===== verification/Panel.thy ===== *)
theory Panel
  imports Pods Hub
begin

text \<open>
  The panel's backend (\<^verbatim>\<open>panel.py\<close>): the machine list, the picture view, the pod library, the store
  region and the hub commands, on the entries and the loaded machines of one Home Assistant.  A
  websocket command answers an error code or a result.  Device and entity registry are part of the
  state; Home Assistant has validated the message against the command's schema.
\<close>

section \<open>Home Assistant's side\<close>

record config_entry =
  en_domain :: string
  en_title :: string
  en_mac_address :: string
  en_options :: options

record registry_entity =
  re_domain :: string
  re_translation_key :: "string option"
  re_entity_id :: string
  re_disabled :: bool

record machine =
  ma_pictures :: pictures
  ma_pods :: pod_library
  ma_products :: product_cache
  ma_mac_address :: string
  ma_device_serial :: "string option"

record host =
  ho_country :: "string option"
  ho_entries :: "(string \<times> config_entry) list"
  ho_machines :: "(string \<times> machine) list"
  ho_entities :: "string \<Rightarrow> registry_entity list"

type_synonym 'a ws_reply = "string + 'a"

abbreviation ma_store :: "machine \<Rightarrow> store" where "ma_store m \<equiv> pc_store (ma_pictures m)"

definition set_store :: "store \<Rightarrow> machine \<Rightarrow> machine" where
  "set_store s m = m\<lparr>ma_pictures := (ma_pictures m)\<lparr>pc_store := s\<rparr>\<rparr>"

definition entry_of :: "host \<Rightarrow> string \<Rightarrow> config_entry option" where
  "entry_of h entry_id = map_of (ho_entries h) entry_id"

definition coordinator_of :: "host \<Rightarrow> string \<Rightarrow> machine option" where
  "coordinator_of h entry_id = map_of (ho_machines h) entry_id"

definition put_machine :: "string \<Rightarrow> machine \<Rightarrow> host \<Rightarrow> host" where
  "put_machine entry_id m h = h\<lparr>ho_machines := AList.update entry_id m (ho_machines h)\<rparr>"

section \<open>Machines and pictures\<close>

definition machine_serial :: "machine \<Rightarrow> string option" where
  "machine_serial m =
     (let serial = d_serial_number (k_data (st_coord (ma_store m)))
      in if serial \<noteq> [] then Some serial else ma_device_serial m)"

text \<open>The picture view: \<open>None\<close> is the answer 404.\<close>

definition photo_view_get :: "web \<Rightarrow> string \<Rightarrow> host \<Rightarrow> (bytes \<times> string) option \<times> host" where
  "photo_view_get net entry_id h =
     (case coordinator_of h entry_id of
        None \<Rightarrow> (None, h)
      | Some m \<Rightarrow>
          let serial = machine_serial m;
              (photo, d) = async_read_photo net (color_code serial) (color_from_serial serial) (pc_dir (ma_pictures m))
          in (photo, put_machine entry_id (m\<lparr>ma_pictures := (ma_pictures m)\<lparr>pc_dir := d\<rparr>\<rparr>) h))"

definition photo_url :: "string \<Rightarrow> machine \<Rightarrow> string option \<Rightarrow> string" where
  "photo_url entry_id m serial =
     ''/api/xbloom/machine_photo/'' @ entry_id @ ''?v='' @ or_default (color_code serial) ''None'' @ ''-'' @
     (case machine_cover_version (ma_pictures m) of None \<Rightarrow> ''None'' | Some v \<Rightarrow> text_of_int v)"

record store_payload =
  sp_setting :: string
  sp_region :: string
  sp_auto_region :: string
  sp_store :: web_store

definition store_payload_of :: "host \<Rightarrow> config_entry option \<Rightarrow> store_payload" where
  "store_payload_of h entry =
     (let setting = Option.bind entry (\<lambda>e. op_store_region (en_options e));
          region = effective_region setting (ho_country h)
      in \<lparr>sp_setting = (case setting of None \<Rightarrow> ''auto'' | Some r \<Rightarrow> if r \<in> set STORE_REGIONS then r else ''auto''),
          sp_region = region, sp_auto_region = region_for_country (ho_country h),
          sp_store = the (map_of STORES region)\<rparr>)"

record machine_payload =
  mp_entry_id :: string
  mp_title :: string
  mp_mac :: string
  mp_entities :: "(string \<times> string) list"
  mp_recipes :: "recipe_dict list"
  mp_selected_recipe :: "string option"
  mp_easy_slots :: "(string \<times> (string option \<times> string) option) list"
  mp_cloud_login :: bool
  mp_detected_color :: "string option"
  mp_photo_url :: string
  mp_weight_unit :: string
  mp_store :: store_payload

definition entity_map :: "registry_entity list \<Rightarrow> (string \<times> string) list" where
  "entity_map es =
     fold (\<lambda>e. case re_translation_key e of
         None \<Rightarrow> id
       | Some key \<Rightarrow> if key = [] \<or> re_disabled e then id
           else AList.update (re_domain e @ ''.'' @ key) (re_entity_id e)) es []"

definition machine_payload_of :: "host \<Rightarrow> string \<Rightarrow> machine \<Rightarrow> machine_payload" where
  "machine_payload_of h entry_id m =
     (let entry = entry_of h entry_id; serial = machine_serial m; s = ma_store m in
      \<lparr>mp_entry_id = entry_id,
       mp_title = (case entry of None \<Rightarrow> ma_mac_address m | Some e \<Rightarrow> en_title e),
       mp_mac = (case entry of None \<Rightarrow> ma_mac_address m | Some e \<Rightarrow> en_mac_address e),
       mp_entities = entity_map (ho_entities h entry_id),
       mp_recipes = map (\<lambda>(nm, r). r\<lparr>rd_name := nm\<rparr>) (st_recipes s),
       mp_selected_recipe = st_selected s,
       mp_easy_slots = map (\<lambda>letter. (letter, easy_slot_contents letter s)) [''A'', ''B'', ''C''],
       mp_cloud_login = cloud_login_configured s,
       mp_detected_color = color_from_serial serial,
       mp_photo_url = photo_url entry_id m serial,
       mp_weight_unit = k_weight_unit (st_coord s),
       mp_store = store_payload_of h entry\<rparr>)"

definition ws_machines :: "host \<Rightarrow> machine_payload list" where
  "ws_machines h = map (\<lambda>(entry_id, m). machine_payload_of h entry_id m) (ho_machines h)"

section \<open>The store region\<close>

definition ws_set_store_region :: "string \<Rightarrow> string \<Rightarrow> host \<Rightarrow> store_payload ws_reply \<times> host" where
  "ws_set_store_region entry_id region h =
     (case entry_of h entry_id of
        None \<Rightarrow> (Inl ''not_found'', h)
      | Some e \<Rightarrow>
          if en_domain e \<noteq> ''xbloom'' then (Inl ''not_found'', h)
          else let e1 = e\<lparr>en_options := (en_options e)\<lparr>op_store_region := (if region = ''auto'' then None else Some region)\<rparr>\<rparr>;
                   h1 = h\<lparr>ho_entries := AList.update entry_id e1 (ho_entries h)\<rparr>
            in (Inr (store_payload_of h1 (Some e1)), h1))"

section \<open>Pods\<close>

definition ws_pods :: "string \<Rightarrow> host \<Rightarrow> (string \<times> pod) list ws_reply" where
  "ws_pods entry_id h =
     (case coordinator_of h entry_id of None \<Rightarrow> Inl ''not_found'' | Some m \<Rightarrow> Inr (pods (ma_pods m)))"

text \<open>A lookup never fails: an error or an unknown tag leaves no details.\<close>

definition lookup_pod :: "server \<Rightarrow> string \<Rightarrow> store \<Rightarrow> pod_detail option \<times> store" where
  "lookup_pod srv xid s =
     (let (r, s1) = on_cloud (fetch_pod_detail srv xid) s
      in (case r of Inl _ \<Rightarrow> None | Inr detail \<Rightarrow> detail, s1))"

text \<open>The part of a pod's event before it is dispatched: the lookup, and the scan in the library.\<close>

definition enrich_and_record :: "server \<Rightarrow> string \<Rightarrow> rat \<Rightarrow> machine \<Rightarrow> pod_detail option \<times> machine" where
  "enrich_and_record srv xid now m =
     (let (detail, s) = lookup_pod srv xid (ma_store m);
          m1 = set_store s m
      in (detail, m1\<lparr>ma_pods := async_record xid detail now (ma_pods m1)\<rparr>))"

definition pod_recipes_of :: "machine \<Rightarrow> string \<Rightarrow> recipe_raw list" where
  "pod_recipes_of m xid =
     (case Option.bind (get_pod xid (ma_pods m)) pod_detail of None \<Rightarrow> [] | Some d \<Rightarrow> pd_recipes d)"

text \<open>Saves one recipe of a pod, with the uid minted for it; the name it has locally, and whether it is new.\<close>

definition ws_pod_save_recipe :: "string \<Rightarrow> string \<Rightarrow> string \<Rightarrow> nat \<Rightarrow> host \<Rightarrow> (string \<times> bool) ws_reply \<times> host" where
  "ws_pod_save_recipe uid entry_id xid index h =
     (case coordinator_of h entry_id of
        None \<Rightarrow> (Inl ''not_found'', h)
      | Some m \<Rightarrow>
          if length (pod_recipes_of m xid) \<le> index then (Inl ''not_found'', h)
          else let recipe = pod_recipes_of m xid ! index;
                   (added, s) = save_pod_recipes [(recipe, uid)] (ma_store m);
                   existing = find_recipe (st_recipes s) (or_default (rd_share_url (raw_fields recipe)) []);
                   nm = (if added \<noteq> [] then hd added
                         else case existing of None \<Rightarrow> rd_name (raw_fields recipe) | Some (n, _) \<Rightarrow> n)
            in (Inr (nm, added \<noteq> []), put_machine entry_id (set_store s m) h))"

definition ws_pod_refresh :: "server \<Rightarrow> string \<Rightarrow> string \<Rightarrow> host \<Rightarrow> bool ws_reply \<times> host" where
  "ws_pod_refresh srv entry_id xid h =
     (case coordinator_of h entry_id of
        None \<Rightarrow> (Inl ''not_found'', h)
      | Some m \<Rightarrow>
          if get_pod xid (ma_pods m) = None then (Inl ''not_found'', h)
          else let (detail, s) = lookup_pod srv xid (ma_store m);
                   (updated, l) = async_update_detail xid detail (ma_pods m)
            in (Inr updated, put_machine entry_id ((set_store s m)\<lparr>ma_pods := l\<rparr>) h))"

definition ws_pod_delete :: "string \<Rightarrow> string \<Rightarrow> host \<Rightarrow> bool ws_reply \<times> host" where
  "ws_pod_delete entry_id xid h =
     (case coordinator_of h entry_id of
        None \<Rightarrow> (Inl ''not_found'', h)
      | Some m \<Rightarrow>
          let (deleted, l) = async_delete xid (ma_pods m)
          in (Inr deleted, put_machine entry_id (m\<lparr>ma_pods := l\<rparr>) h))"

section \<open>The hub\<close>

text \<open>The links added to a recipe's page: a product of the global store, else the regional pod page.\<close>

definition add_links :: "product_pages \<Rightarrow> rat \<Rightarrow> store_payload \<Rightarrow> doc \<Rightarrow> product_cache \<Rightarrow> doc \<times> product_cache" where
  "add_links pages now sp detail cache =
     (let (detail1, cache1) =
        (if sp_region sp = ''global'' then
           if truthy (doc_get detail ''official'') then
             let (url, c) = find_store_product pages now
                   (case doc_get detail ''name'' of JStr n \<Rightarrow> Some n | _ \<Rightarrow> None) cache
             in (doc_put ''product_url'' (case url of None \<Rightarrow> JNull | Some u \<Rightarrow> JStr u) detail, c)
           else (detail, cache)
         else (doc_put ''store_url'' (JStr (ws_pods_page (sp_store sp))) detail, cache))
      in (doc_put ''store_region'' (JStr (sp_region sp)) detail1, cache1))"

definition ws_cloud_detail :: "(json \<Rightarrow> string) \<Rightarrow> (int \<Rightarrow> doc option) \<Rightarrow> product_pages \<Rightarrow> rat \<Rightarrow> string \<Rightarrow> int \<Rightarrow> host \<Rightarrow>
    doc ws_reply res \<times> host" where
  "ws_cloud_detail show hub pages now entry_id community_recipe_id h =
     (case coordinator_of h entry_id of
        None \<Rightarrow> (Inr (Inl ''not_found''), h)
      | Some m \<Rightarrow>
          (case fetch_collective_detail show hub community_recipe_id of
             Inl e \<Rightarrow> (Inl e, h)
           | Inr None \<Rightarrow> (Inr (Inl ''fetch_failed''), h)
           | Inr (Some detail) \<Rightarrow>
               let (page, cache) = add_links pages now (store_payload_of h (entry_of h entry_id)) detail (ma_products m)
               in (Inr (Inr page), put_machine entry_id (m\<lparr>ma_products := cache\<rparr>) h)))"

definition panel_search :: "string option \<Rightarrow> string option \<Rightarrow> string option \<Rightarrow> string \<Rightarrow> int \<Rightarrow> search_filters" where
  "panel_search keyword category src sort_by page =
     no_filters\<lparr>sf_keyword := (if keyword = Some [] then None else keyword), sf_category := category, sf_src := src,
       sf_sort := sort_by, sf_sort_direction := ''desc'', sf_page := page\<rparr>"

definition ws_cloud_search :: "server \<Rightarrow> string \<Rightarrow> search_filters \<Rightarrow> host \<Rightarrow> cloud_entry list ws_reply res \<times> host" where
  "ws_cloud_search srv entry_id f h =
     (case coordinator_of h entry_id of
        None \<Rightarrow> (Inr (Inl ''not_found''), h)
      | Some m \<Rightarrow>
          let (r, s) = on_cloud (search_collective srv f) (ma_store m)
          in (bind_res r (\<lambda>found. Inr (case found of None \<Rightarrow> Inl ''search_failed'' | Some (rows, _) \<Rightarrow> Inr rows)),
              put_machine entry_id (set_store s m) h))"

section \<open>Facts\<close>

lemma coordinator_put [simp]: "coordinator_of (put_machine e m h) e = Some m"
  by (simp add: coordinator_of_def put_machine_def AList.update_conv')

lemma put_machine_same: "coordinator_of h e = Some m \<Longrightarrow> put_machine e m h = h"
  by (simp add: coordinator_of_def put_machine_def AList.update_triv)

lemma set_store_simps [simp]:
  "ma_store (set_store s m) = s" "ma_pods (set_store s m) = ma_pods m" "set_store s (set_store s' m) = set_store s m"
  "set_store (ma_store m) m = m" "pod_recipes_of (set_store s m) xid = pod_recipes_of m xid"
  by (simp_all add: set_store_def pod_recipes_of_def)

text \<open>What makes a lookup stop at a recipe.\<close>

definition identified :: "string \<Rightarrow> string \<times> recipe_dict \<Rightarrow> bool" where
  "identified identifier = (\<lambda>(n, r). let i = py_strip identifier in
     rd_uid r = Some i \<or> (\<exists>t. int_of_text i = Some t \<and> rd_cloud_table_id r = Some t) \<or>
     (\<exists>q. share_id_of i = Some q \<and> q \<noteq> [] \<and> has_share_id q r) \<or> n = i)"

lemma find_recipe_identified: "find_recipe recipes i = Some x \<Longrightarrow> x \<in> set recipes \<and> identified i x"
  by (auto simp: find_recipe_def identified_def Let_def map_of_SomeD split: if_splits option.splits
      dest!: first_where_Some)

lemma find_recipe_none:
  assumes "find_recipe recipes i = None" "py_strip i \<noteq> []" "x \<in> set recipes"
  shows "\<not> identified i x"
proof -
  obtain n r where x: "x = (n, r)" by fastforce
  have "recipes \<noteq> []" using assms(3) by auto
  with assms(1,2) have none: "first_where (\<lambda>(_, r). rd_uid r = Some (py_strip i)) recipes = None"
    "\<And>t. int_of_text (py_strip i) = Some t \<Longrightarrow> first_where (\<lambda>(_, r). rd_cloud_table_id r = Some t) recipes = None"
    "\<And>q. share_id_of (py_strip i) = Some q \<Longrightarrow> q \<noteq> [] \<Longrightarrow> first_where (\<lambda>(_, r). has_share_id q r) recipes = None"
    "map_of recipes (py_strip i) = None"
    by (auto simp: find_recipe_def Let_def split: option.splits if_splits)
  have "py_strip i \<notin> fst ` set recipes" using none(4) by (simp add: map_of_eq_None_iff)
  then have "n \<noteq> py_strip i" using assms(3) x by force
  then show ?thesis
    using none(1-3) assms(3) x by (fastforce simp: identified_def Let_def first_where_None)
qed

text \<open>Saving one recipe either leaves the store alone or adds it under a fresh name.\<close>

definition pod_known :: "(string \<times> recipe_dict) list \<Rightarrow> recipe_raw \<Rightarrow> bool" where
  "pod_known seen raw =
     (let url = or_default (rd_share_url (raw_fields raw)) [] in
      if url \<noteq> [] then find_recipe seen url \<noteq> None
      else list_ex (\<lambda>(nm, r). rd_source r = Some ''pod'' \<and> nm = rd_name (raw_fields raw)) seen)"

definition pod_candidate :: "recipe_raw \<Rightarrow> recipe_raw" where
  "pod_candidate raw =
     (if or_default (rd_share_url (raw_fields raw)) [] = [] then raw\<lparr>raw_fields := (raw_fields raw)\<lparr>rd_share_url := None\<rparr>\<rparr>
      else raw)"

lemma save_one:
  "save_pod_recipes [(raw, u)] s =
     (if pod_known (st_recipes s) raw then ([], s)
      else case RECIPE_SCHEMA (pod_candidate raw) of
        Inl _ \<Rightarrow> ([], s)
      | Inr v \<Rightarrow>
          let nm = dedupe_name (rd_name v) (map fst (st_recipes s));
              r = v\<lparr>rd_name := nm, rd_uid := Some u, rd_source := Some ''pod''\<rparr>
          in ([nm], write_options_recipes (put_recipe nm r (options_recipes s)) s))"
  by (cases "rd_share_url (raw_fields raw)")
    (simp_all add: save_pod_recipes_def save_pod_recipe_def pod_known_def pod_candidate_def Let_def split: sum.split)

lemma in_view:
  assumes "well_layered s"
  shows "(n, r) \<in> set (st_recipes s) \<longleftrightarrow> st_view s n = Some r"
proof -
  have "distinct (map fst (st_recipes s))" using assms by (simp add: well_layered_def distinct_merge)
  then have "(n, r) \<in> set (st_recipes s) \<longleftrightarrow> map_of (st_recipes s) n = Some r" by simp
  then show ?thesis by (simp only: recipes_view [OF assms])
qed

lemma saved_recipe:
  assumes "well_layered s" "save_pod_recipes [(raw, u)] s = (added, s')" "added \<noteq> []"
  obtains nm v r where "added = [nm]" "RECIPE_SCHEMA (pod_candidate raw) = Inr v" "\<not> pod_known (st_recipes s) raw"
    "r = v\<lparr>rd_name := nm, rd_uid := Some u, rd_source := Some ''pod''\<rparr>" "well_layered s'"
    "set (st_recipes s') = insert (nm, r) (set (st_recipes s))" "nm \<notin> fst ` set (st_recipes s)"
proof -
  obtain v where v: "RECIPE_SCHEMA (pod_candidate raw) = Inr v" and new: "\<not> pod_known (st_recipes s) raw"
    using assms(2,3) by (auto simp: save_one split: if_splits sum.splits)
  let ?nm = "dedupe_name (rd_name v) (map fst (st_recipes s))"
  let ?r = "v\<lparr>rd_name := ?nm, rd_uid := Some u, rd_source := Some ''pod''\<rparr>"
  have res: "added = [?nm]" "s' = write_options_recipes (put_recipe ?nm ?r (options_recipes s)) s"
    using assms(2) v new by (auto simp: save_one Let_def)
  have s': "well_layered s'" "st_view s' = (st_view s)(?nm \<mapsto> ?r)"
    using put_view [OF assms(1), of ?nm ?r] res(2) by (simp_all add: abs_store_def)
  have free: "?nm \<notin> fst ` set (st_recipes s)" using dedupe_free [of "rd_name v" "map fst (st_recipes s)"] by simp
  then have none: "st_view s ?nm = None" using recipe_names_view [OF assms(1), of ?nm] by blast
  have "set (st_recipes s') = insert (?nm, ?r) (set (st_recipes s))"
  proof (rule set_eqI)
    fix x :: "string \<times> recipe_dict"
    obtain n q where x: "x = (n, q)" by fastforce
    show "x \<in> set (st_recipes s') \<longleftrightarrow> x \<in> insert (?nm, ?r) (set (st_recipes s))"
      unfolding x using none by (auto simp: in_view [OF s'(1)] in_view [OF assms(1)] s'(2))
  qed
  from that [OF res(1) v new refl s'(1) this free] show ?thesis .
qed

section \<open>A machine with one pod\<close>

definition demo_pod :: "string option \<Rightarrow> machine" where
  "demo_pod link =
     \<lparr>ma_pictures = \<lparr>pc_store = demo_store, pc_dir = [], pc_cover = None\<rparr>,
      ma_pods = async_record ''x1'' (Some \<lparr>pd_fields = [], pd_default_recipe = ''V60'',
          pd_recipes = [raw_of ((demo_dict [sip 2])\<lparr>rd_share_url := link\<rparr>)]\<rparr>) 1 (new_library None),
      ma_products = None, ma_mac_address = ''m'', ma_device_serial = None\<rparr>"

definition demo_host :: "string option \<Rightarrow> host" where
  "demo_host link = \<lparr>ho_country = None, ho_entries = [], ho_machines = [(''e'', demo_pod link)], ho_entities = (\<lambda>_. [])\<rparr>"

lemma demo_host_machine:
  "coordinator_of (demo_host link) ''e'' = Some (demo_pod link)" "ma_store (demo_pod link) = demo_store"
  "pod_recipes_of (demo_pod link) ''x1'' = [raw_of ((demo_dict [sip 2])\<lparr>rd_share_url := link\<rparr>)]"
  by (simp_all add: demo_host_def coordinator_of_def demo_pod_def pod_recipes_of_def async_record_def save_pods_def
      new_library_def get_pod_def has_recipes_def overlay_detail_def)

lemma demo_saved:
  assumes "\<not> pod_known (st_recipes demo_store) (raw_of ((demo_dict [sip 2])\<lparr>rd_share_url := link\<rparr>))" "link \<noteq> Some []"
  shows "\<exists>h1. ws_pod_save_recipe ''u1'' ''e'' ''x1'' 0 (demo_host link) = (Inr (''V60 (2)'', True), h1)"
proof -
  let ?raw = "raw_of ((demo_dict [sip 2])\<lparr>rd_share_url := link\<rparr>)"
  have "pod_candidate ?raw = ?raw" using assms(2) by (cases link) (simp_all add: pod_candidate_def raw_of_def)
  moreover have "RECIPE_SCHEMA ?raw = Inr ((demo_dict [sip 2])\<lparr>rd_share_url := link\<rparr>)"
    by (simp add: RECIPE_SCHEMA_def raw_of_def POUR_SCHEMA_def raw_pour_of_def demo_dict_def sip_def VIBRATION_NAMES_def)
  moreover have "dedupe_name ''V60'' [''V60''] = ''V60 (2)''"
    by (simp add: dedupe_name_def dedupe_from.simps numbered_def dec_digits.simps char_of_def bit_0)
  moreover have "map fst (st_recipes demo_store) = [''V60'']" "rd_name (demo_dict [sip 2]) = ''V60''"
    by (simp_all add: demo_store_def demo_dict_def)
  ultimately have "fst (save_pod_recipes [(?raw, ''u1'')] demo_store) = [''V60 (2)'']"
    using assms(1) by (simp add: save_one Let_def)
  then obtain s where "save_pod_recipes [(?raw, ''u1'')] demo_store = ([''V60 (2)''], s)"
    by (cases "save_pod_recipes [(?raw, ''u1'')] demo_store") auto
  then show ?thesis by (simp add: ws_pod_save_recipe_def demo_host_machine)
qed

section \<open>Theorems\<close>

text \<open>
  C35. Saving a pod's recipe that has a share link is idempotent: whatever the first call answered,
  a second one adds nothing, reports the same local name and leaves everything as it is.
\<close>

theorem pod_recipe_saved_once:
  assumes "ws_pod_save_recipe u entry_id xid index h = (Inr (nm, new), h1)"
    "coordinator_of h entry_id = Some m" "well_layered (ma_store m)"
    "rd_share_url (raw_fields (pod_recipes_of m xid ! index)) = Some url" "py_strip url = url"
    "share_id_of url = Some q" "q \<noteq> []"
  shows "ws_pod_save_recipe u' entry_id xid index h1 = (Inr (nm, False), h1)"
proof -
  let ?raw = "pod_recipes_of m xid ! index"
  obtain added s where sv: "save_pod_recipes [(?raw, u)] (ma_store m) = (added, s)" by fastforce
  have idx: "index < length (pod_recipes_of m xid)"
    using assms(1,2) by (cases "index < length (pod_recipes_of m xid)") (simp_all add: ws_pod_save_recipe_def)
  have h1: "h1 = put_machine entry_id (set_store s m) h" and new: "new = (added \<noteq> [])"
    and nm: "nm = (if added \<noteq> [] then hd added
      else case find_recipe (st_recipes s) url of None \<Rightarrow> rd_name (raw_fields ?raw) | Some (n, _) \<Rightarrow> n)"
    using assms(1,2,4) idx sv by (auto simp: ws_pod_save_recipe_def Let_def)
  have "url \<noteq> []" using assms(5-7) by (auto simp: share_id_of_def py_strip_def contains_def)
  then have nonempty: "py_strip url \<noteq> []" using assms(5) by simp
  have again: "save_pod_recipes [(?raw, u')] s = ([], s)"
    and name: "nm = (case find_recipe (st_recipes s) url of None \<Rightarrow> rd_name (raw_fields ?raw) | Some (n, _) \<Rightarrow> n)"
  proof (atomize (full), cases "added = []")
    case True
    then have "s = ma_store m" "pod_known (st_recipes s) ?raw \<or> (\<exists>e. RECIPE_SCHEMA (pod_candidate ?raw) = Inl e)"
      using sv by (auto simp: save_one Let_def split: if_splits sum.splits)
    then show "save_pod_recipes [(?raw, u')] s = ([], s) \<and>
        nm = (case find_recipe (st_recipes s) url of None \<Rightarrow> rd_name (raw_fields ?raw) | Some (n, _) \<Rightarrow> n)"
      using nm True by (auto simp: save_one)
  next
    case False
    from saved_recipe [OF assms(3) sv False] obtain n v r where n: "added = [n]"
      "RECIPE_SCHEMA (pod_candidate ?raw) = Inr v" "\<not> pod_known (st_recipes (ma_store m)) ?raw"
      "r = v\<lparr>rd_name := n, rd_uid := Some u, rd_source := Some ''pod''\<rparr>"
      "set (st_recipes s) = insert (n, r) (set (st_recipes (ma_store m)))" by metis
    have unknown: "find_recipe (st_recipes (ma_store m)) url = None"
      using n(3) assms(4) \<open>url \<noteq> []\<close>
      by (cases "find_recipe (st_recipes (ma_store m)) url") (simp_all add: pod_known_def Let_def)
    have "rd_share_url v = Some url"
      using n(2) assms(4) \<open>url \<noteq> []\<close> by (auto simp: pod_candidate_def RECIPE_SCHEMA_def bind_res_Inr_iff)
    then have "identified url (n, r)"
      using assms(5-7) \<open>url \<noteq> []\<close> n(4) by (simp add: identified_def has_share_id_def)
    moreover have "(n, r) \<in> set (st_recipes s)" using n(5) by simp
    ultimately obtain x where x: "find_recipe (st_recipes s) url = Some x"
      using find_recipe_none [OF _ nonempty] by (cases "find_recipe (st_recipes s) url") auto
    have "x = (n, r)"
      using find_recipe_identified [OF x] find_recipe_none [OF unknown nonempty, of x] n(5) by blast
    then show "save_pod_recipes [(?raw, u')] s = ([], s) \<and>
        nm = (case find_recipe (st_recipes s) url of None \<Rightarrow> rd_name (raw_fields ?raw) | Some (n, _) \<Rightarrow> n)"
      using x nm n(1) assms(4) \<open>url \<noteq> []\<close> by (simp add: save_one pod_known_def Let_def)
  qed
  have "coordinator_of h1 entry_id = Some (set_store s m)" by (simp add: h1)
  then show ?thesis
    using again name idx assms(4) put_machine_same [of h1 entry_id "set_store s m"]
    by (simp add: ws_pod_save_recipe_def Let_def)
qed

theorem pod_recipe_saved_once_witness:
  "\<exists>h1. ws_pod_save_recipe ''u1'' ''e'' ''x1'' 0 (demo_host (Some (share_url_of_id ''ab''))) = (Inr (''V60 (2)'', True), h1) \<and>
     ws_pod_save_recipe ''u2'' ''e'' ''x1'' 0 h1 = (Inr (''V60 (2)'', False), h1)"
proof -
  let ?url = "share_url_of_id ''ab''"
  let ?raw = "raw_of ((demo_dict [sip 2])\<lparr>rd_share_url := Some ?url\<rparr>)"
  have plain: "list_all plain_char ''ab''" by (simp add: plain_char_def py_space_def)
  have id: "share_id_of ?url = Some ''ab''"
    using link_share_id [OF plain] by (simp add: plus_to_space_def)
  have strip: "py_strip ?url = ?url" by (rule strip_plain) (simp add: share_url_of_id_def py_space_def)
  have other: "?url \<noteq> ''y''" "?url \<noteq> ''V60''" by (simp_all add: share_url_of_id_def)
  then have "\<not> identified ?url x" if "x \<in> set (st_recipes demo_store)" for x
    using that by (auto simp: demo_store_def identified_def Let_def strip has_share_id_def demo_dict_def)
  then have "find_recipe (st_recipes demo_store) ?url = None"
    using find_recipe_identified [of "st_recipes demo_store" ?url] by (meson not_Some_eq)
  then have "\<not> pod_known (st_recipes demo_store) ?raw"
    by (simp add: pod_known_def raw_of_def) (simp add: share_url_of_id_def)
  moreover have "?url \<noteq> []" by (simp add: share_url_of_id_def)
  ultimately obtain h1 where h1: "ws_pod_save_recipe ''u1'' ''e'' ''x1'' 0 (demo_host (Some ?url)) = (Inr (''V60 (2)'', True), h1)"
    using demo_saved [of "Some ?url"] by auto
  have "rd_share_url (raw_fields (pod_recipes_of (demo_pod (Some ?url)) ''x1'' ! 0)) = Some ?url"
    by (simp add: demo_host_machine raw_of_def)
  from pod_recipe_saved_once [OF h1 demo_host_machine(1) _ this strip id] h1 demo_store_ok(1)
  show ?thesis by (auto simp: demo_host_machine(2))
qed

text \<open>
  A pod's recipe without a share link is known again only by its own name among the recipes of
  pods: when that name was taken and the copy got another one, every further save adds one more copy.
\<close>

theorem pod_copy_duplicated:
  assumes "ws_pod_save_recipe u entry_id xid index h = (Inr (nm, True), h1)"
    "coordinator_of h entry_id = Some m" "well_layered (ma_store m)"
    "or_default (rd_share_url (raw_fields (pod_recipes_of m xid ! index))) [] = []"
    "nm \<noteq> rd_name (raw_fields (pod_recipes_of m xid ! index))"
  shows "\<exists>nm' h2 m2. ws_pod_save_recipe u' entry_id xid index h1 = (Inr (nm', True), h2) \<and> nm' \<noteq> nm \<and>
    coordinator_of h2 entry_id = Some m2 \<and> {nm, nm'} \<subseteq> fst ` set (st_recipes (ma_store m2))"
proof -
  let ?raw = "pod_recipes_of m xid ! index"
  obtain added s where sv: "save_pod_recipes [(?raw, u)] (ma_store m) = (added, s)" by fastforce
  have idx: "index < length (pod_recipes_of m xid)"
    using assms(1,2) by (cases "index < length (pod_recipes_of m xid)") (simp_all add: ws_pod_save_recipe_def)
  have h1: "h1 = put_machine entry_id (set_store s m) h" and new: "added \<noteq> []" and nm: "nm = hd added"
    using assms(1,2) idx sv by (auto simp: ws_pod_save_recipe_def Let_def split: if_splits)
  from saved_recipe [OF assms(3) sv new] obtain n v r where n: "added = [n]"
    "RECIPE_SCHEMA (pod_candidate ?raw) = Inr v" "\<not> pod_known (st_recipes (ma_store m)) ?raw" "well_layered s"
    "set (st_recipes s) = insert (n, r) (set (st_recipes (ma_store m)))" by metis
  have n_nm: "n = nm" using n(1) nm by simp
  have unknown: "\<not> pod_known (st_recipes s) ?raw"
    using n(3,5) n_nm assms(4,5) by (auto simp: pod_known_def Let_def list_ex_iff)
  obtain added' s' where sv': "save_pod_recipes [(?raw, u')] s = (added', s')" by fastforce
  have "added' \<noteq> []" using sv' unknown n(2) by (auto simp: save_one Let_def)
  from saved_recipe [OF n(4) sv' this] obtain n' r' where n': "added' = [n']"
    "set (st_recipes s') = insert (n', r') (set (st_recipes s))" "n' \<notin> fst ` set (st_recipes s)" by metis
  have "n' \<noteq> nm" using n'(3) n(5) n_nm by auto
  moreover have "ws_pod_save_recipe u' entry_id xid index h1 = (Inr (n', True), put_machine entry_id (set_store s' m) h1)"
    using sv' n'(1) idx by (simp add: ws_pod_save_recipe_def h1 Let_def)
  moreover have "{nm, n'} \<subseteq> fst ` set (st_recipes s')" using n'(2) n(5) n_nm by auto
  ultimately show ?thesis
    by (intro exI [of _ n'] exI [of _ "put_machine entry_id (set_store s' m) h1"] exI [of _ "set_store s' m"]) simp
qed

theorem pod_copy_duplicated_witness:
  "\<exists>h1 nm h2. ws_pod_save_recipe ''u1'' ''e'' ''x1'' 0 (demo_host None) = (Inr (''V60 (2)'', True), h1) \<and>
     ws_pod_save_recipe ''u2'' ''e'' ''x1'' 0 h1 = (Inr (nm, True), h2) \<and> nm \<noteq> ''V60 (2)''"
proof -
  have "\<not> pod_known (st_recipes demo_store) (raw_of ((demo_dict [sip 2])\<lparr>rd_share_url := None\<rparr>))"
    by (simp add: pod_known_def raw_of_def demo_store_def demo_dict_def)
  then obtain h1 where h1: "ws_pod_save_recipe ''u1'' ''e'' ''x1'' 0 (demo_host None) = (Inr (''V60 (2)'', True), h1)"
    using demo_saved [of None] by auto
  have "or_default (rd_share_url (raw_fields (pod_recipes_of (demo_pod None) ''x1'' ! 0))) [] = []"
    "''V60 (2)'' \<noteq> rd_name (raw_fields (pod_recipes_of (demo_pod None) ''x1'' ! 0))"
    by (simp_all add: demo_host_machine raw_of_def demo_dict_def)
  from pod_copy_duplicated [OF h1 demo_host_machine(1) _ this] h1 demo_store_ok(1)
  show ?thesis by (fastforce simp: demo_host_machine(2))
qed

end
