(* ===== verification/Registry.thy ===== *)
theory Registry
  imports Entities
begin

text \<open>
  What the integration registers with Home Assistant and what it writes back: the entities of each
  platform with their unique ids and devices, the device entries (\<^verbatim>\<open>coordinator/__init__.py\<close>), and the
  unit settings adopted from the machine and persisted in the options
  (\<^verbatim>\<open>coordinator/connection.py\<close>).
\<close>

section \<open>Devices\<close>

datatype device = MainDevice | GrinderDevice | ScaleDevice | BrewerDevice

record device_info =
  di_identifier :: string
  di_serial_number :: string
  di_sw_version :: "string option"

definition main_device_info :: "string \<Rightarrow> string \<Rightarrow> coord \<Rightarrow> device_info" where
  "main_device_info entry_id mac_address k =
     \<lparr>di_identifier = entry_id,
      di_serial_number = (if d_serial_number (k_data k) = [] then mac_address else d_serial_number (k_data k)),
      di_sw_version = (if d_version (k_data k) = [] then None else Some (d_version (k_data k)))\<rparr>"

definition device_key :: "device \<Rightarrow> string" where
  "device_key d =
     (case d of MainDevice \<Rightarrow> [] | GrinderDevice \<Rightarrow> ''grinder'' | ScaleDevice \<Rightarrow> ''scale'' | BrewerDevice \<Rightarrow> ''brewer'')"

text \<open>A child device: its identifier and its parent; it cannot be described before the parent is registered.\<close>

definition sub_device_info :: "string \<Rightarrow> string option \<Rightarrow> device \<Rightarrow> (string \<times> string) option" where
  "sub_device_info entry_id parent_device_id d =
     (case parent_device_id of None \<Rightarrow> None | Some p \<Rightarrow> Some (entry_id @ ''_'' @ device_key d, p))"

text \<open>The device entry as the registry keeps it, and the update with a serial number and a version.\<close>

record device_entry =
  de_serial_number :: "string option"
  de_sw_version :: "string option"

definition update_device :: "string \<Rightarrow> string \<Rightarrow> device_entry option \<Rightarrow> device_entry option" where
  "update_device serial firmware entry =
     map_option (\<lambda>e. e\<lparr>de_serial_number := (if serial \<noteq> [] then Some serial else de_serial_number e),
                     de_sw_version := (if firmware \<noteq> [] then Some firmware else de_sw_version e)\<rparr>) entry"

section \<open>Entities\<close>

text \<open>An entity by its translation key, its machine-independent id and its device.\<close>

type_synonym entity_spec = "string \<times> string \<times> device"

definition slot_sensor :: "string \<Rightarrow> entity_spec" where
  "slot_sensor slot = (''easy_slot_'' @ py_lower slot, ''xbloom_easy_slot_'' @ py_lower slot, MainDevice)"

definition SENSORS :: "entity_spec list" where
  "SENSORS =
     [(''state'', ''xbloom_state'', MainDevice), (''weight'', ''xbloom_weight'', ScaleDevice),
      (''brewer_temperature'', ''xbloom_brewer_temp'', BrewerDevice), (''flow_rate'', ''xbloom_flow_rate'', BrewerDevice),
      (''serial_number'', ''xbloom_serial_number'', MainDevice)] @ map slot_sensor [''A'', ''B'', ''C''] @
     [(''live_grind_size'', ''xbloom_live_grind_size'', GrinderDevice),
      (''live_grind_speed'', ''xbloom_live_grind_speed'', GrinderDevice),
      (''voltage_raw'', ''xbloom_voltage_raw'', MainDevice), (''pour_radius'', ''xbloom_pour_radius'', MainDevice),
      (''vibration_amplitude'', ''xbloom_vibration_amplitude'', MainDevice)]"

definition BINARY_SENSORS :: "entity_spec list" where
  "BINARY_SENSORS =
     [(''grinder_running'', ''xbloom_grinder_running'', GrinderDevice),
      (''brewer_running'', ''xbloom_brewer_running'', BrewerDevice),
      (''water_level'', ''xbloom_water_level'', MainDevice), (''problem'', ''xbloom_problem'', MainDevice)]"

definition NUMBERS :: "entity_spec list" where
  "NUMBERS =
     [(''grind_size'', ''xbloom_grind_size'', GrinderDevice), (''rpm'', ''xbloom_rpm'', GrinderDevice),
      (''temperature'', ''xbloom_temperature'', BrewerDevice), (''volume'', ''xbloom_volume'', BrewerDevice)]"

definition SELECTS :: "entity_spec list" where
  "SELECTS =
     [(''recipe'', ''xbloom_recipe'', MainDevice), (''pour_pattern'', ''xbloom_pour_pattern'', BrewerDevice),
      (''mode'', ''xbloom_mode'', MainDevice)]"

definition BUTTONS :: "entity_spec list" where
  "BUTTONS =
     [(''grind'', ''xbloom_grind'', GrinderDevice), (''pour'', ''xbloom_pour'', BrewerDevice),
      (''execute_recipe'', ''xbloom_execute_recipe'', MainDevice), (''pause'', ''xbloom_pause'', MainDevice),
      (''cancel'', ''xbloom_cancel'', MainDevice), (''tare_scale'', ''xbloom_tare'', ScaleDevice),
      (''scale_mode'', ''xbloom_scale_mode'', ScaleDevice),
      (''calibrate_grinder'', ''xbloom_calibrate_grinder'', GrinderDevice),
      (''write_slot_a'', ''xbloom_write_slot_a'', MainDevice), (''write_slot_b'', ''xbloom_write_slot_b'', MainDevice),
      (''write_slot_c'', ''xbloom_write_slot_c'', MainDevice)]"

definition SWITCHES :: "entity_spec list" where
  "SWITCHES = [(''connection'', ''xbloom_connection_switch'', MainDevice)]"

definition EVENTS :: "entity_spec list" where
  "EVENTS = [(''error_event'', ''xbloom_event_error'', MainDevice), (''notification_event'', ''xbloom_event_notification'', MainDevice)]"

definition UPDATES :: "entity_spec list" where
  "UPDATES = [(''firmware'', ''xbloom_firmware_update'', MainDevice)]"

definition PLATFORMS :: "(string \<times> entity_spec list) list" where
  "PLATFORMS =
     [(''binary_sensor'', BINARY_SENSORS), (''button'', BUTTONS), (''event'', EVENTS), (''number'', NUMBERS),
      (''select'', SELECTS), (''sensor'', SENSORS), (''switch'', SWITCHES), (''update'', UPDATES)]"

definition platform_ids :: "string \<Rightarrow> entity_spec list \<Rightarrow> string list" where
  "platform_ids entry_id es = scope_unique_ids entry_id (map (\<lambda>(_, u, _). u) es)"

definition registered_ids :: "string \<Rightarrow> (string \<times> string) list" where
  "registered_ids entry_id = concat (map (\<lambda>(p, es). map (Pair p) (platform_ids entry_id es)) PLATFORMS)"

section \<open>Settings changed on the machine\<close>

definition persist_unit_options :: "coord \<Rightarrow> options \<Rightarrow> options" where
  "persist_unit_options k opts =
     opts\<lparr>op_water_source := Some (k_water_source k), op_weight_unit := Some (k_weight_unit k),
          op_temp_unit := Some (k_temp_unit k)\<rparr>"

section \<open>Facts\<close>

lemmas platform_tables = SENSORS_def BINARY_SENSORS_def NUMBERS_def SELECTS_def BUTTONS_def SWITCHES_def EVENTS_def UPDATES_def

definition historical_ids :: "string list" where
  "historical_ids = concat (map (\<lambda>(_, es). map (\<lambda>(_, u, _). u) es) PLATFORMS)"

lemma slot_sensors:
  "slot_sensor ''A'' = (''easy_slot_a'', ''xbloom_easy_slot_a'', MainDevice)"
  "slot_sensor ''B'' = (''easy_slot_b'', ''xbloom_easy_slot_b'', MainDevice)"
  "slot_sensor ''C'' = (''easy_slot_c'', ''xbloom_easy_slot_c'', MainDevice)"
  by (simp_all add: slot_sensor_def py_lower_def lower_char_def char_of_def bit_0)

lemma historical_distinct: "distinct historical_ids" and historical_short: "list_all (\<lambda>u. length u \<le> 26) historical_ids"
  by (simp_all add: historical_ids_def PLATFORMS_def platform_tables slot_sensors)

lemma registered_scoped: "map snd (registered_ids e) = scope_unique_ids e historical_ids"
  by (simp add: registered_ids_def historical_ids_def platform_ids_def scope_unique_ids_def map_concat comp_def split_beta)

lemma scoped_inj: "length e = length e' \<Longrightarrow> scoped_unique_id e u = scoped_unique_id e' u' \<longleftrightarrow> e = e' \<and> u = u'"
  by (auto simp: scoped_unique_id_def)

text \<open>No two entities share an id, of one machine or of several; entry ids are 26 characters long.\<close>

lemma registered_distinct:
  "distinct es \<Longrightarrow> list_all (\<lambda>e. length e = 26) es \<Longrightarrow> distinct (concat (map (\<lambda>e. map snd (registered_ids e)) es))"
proof (induction es)
  case (Cons e es)
  have "distinct (map snd (registered_ids e))"
    using historical_distinct by (auto simp: registered_scoped scope_unique_ids_def distinct_map inj_on_def scoped_inj)
  moreover have "set (map snd (registered_ids e)) \<inter> set (concat (map (\<lambda>e. map snd (registered_ids e)) es)) = {}"
    using Cons.prems by (auto simp: registered_scoped scope_unique_ids_def list_all_iff scoped_inj)
  ultimately show ?case using Cons by simp
qed simp

text \<open>The migration turns the ids of an old installation into those the platforms register now.\<close>

lemma migrated_ids_registered:
  assumes "length e = 26"
  shows "migrate_registry e historical_ids = map snd (registered_ids e)"
proof -
  have "\<not> prefix (scoped_unique_id e []) u" if "u \<in> set historical_ids" for u
  proof
    assume "prefix (scoped_unique_id e []) u"
    then have "27 \<le> length u" using prefix_length_le [of "scoped_unique_id e []" u] assms by (simp add: scoped_unique_id_def)
    then show False using that historical_short by (auto simp: list_all_iff)
  qed
  then show ?thesis
    by (simp add: migrate_registry_def scope_unique_id_migration_def registered_scoped scope_unique_ids_def)
qed

text \<open>
  The value a setting has after a report of the machine: the reported one, unless a change of the
  user's own is still to be delivered or the report has none.
\<close>

definition machine_wins :: "string \<Rightarrow> 'a option \<Rightarrow> 'a \<Rightarrow> coord \<Rightarrow> 'a" where
  "machine_wins key reported held k = (if key \<in> set (k_pending_unit_pushes k) then held else or_default reported held)"

definition reported_water :: "attrs \<Rightarrow> int option" where
  "reported_water a = (case get_int ''water_source'' a of None \<Rightarrow> None
     | Some w \<Rightarrow> if w \<in> {WATER_SOURCE_TANK, WATER_SOURCE_DIRECT} then Some w else None)"

lemma synced_units:
  "k_weight_unit (async_sync_units_from_machine a k)
     = machine_wins CONF_WEIGHT_UNIT (get RAW_TO_WEIGHT_UNIT (get_int ''weight_unit'' a)) (k_weight_unit k) k"
  "k_temp_unit (async_sync_units_from_machine a k)
     = machine_wins CONF_TEMP_UNIT (get RAW_TO_TEMP_UNIT (get_int ''temp_unit'' a)) (k_temp_unit k) k"
  "k_water_source (async_sync_units_from_machine a k)
     = machine_wins CONF_WATER_SOURCE (reported_water a) (k_water_source k) k"
  by (auto simp: async_sync_units_from_machine_def Let_def request_def machine_wins_def or_default_def reported_water_def
      split: option.split)

definition held_units :: "coord \<Rightarrow> string \<times> string \<times> int" where
  "held_units k = (k_weight_unit k, k_temp_unit k, k_water_source k)"

lemma synced_tasks:
  "k_tasks (async_sync_units_from_machine a k) = k_tasks k @
     (if held_units (async_sync_units_from_machine a k) = held_units k then [] else [PersistOptions, UpdateListeners])"
  "k_pending_unit_pushes (async_sync_units_from_machine a k) = k_pending_unit_pushes k"
  by (auto simp: async_sync_units_from_machine_def Let_def request_def held_units_def)

lemma persisted_keys:
  "set (changed_keys opts (persist_unit_options k opts)) \<subseteq> set UNIT_OPTION_KEYS"
  "changed_keys opts (persist_unit_options k opts) = [] \<longleftrightarrow> persist_unit_options k opts = opts"
proof -
  have same: "same_dict d d" for d :: "('k \<times> 'v) list option" by (simp add: same_dict_def list_all_iff split: option.split)
  show "set (changed_keys opts (persist_unit_options k opts)) \<subseteq> set UNIT_OPTION_KEYS"
    by (auto simp: changed_keys_def persist_unit_options_def same UNIT_OPTION_KEYS_def)
  show "changed_keys opts (persist_unit_options k opts) = [] \<longleftrightarrow> persist_unit_options k opts = opts"
    by (cases opts) (auto simp: changed_keys_def persist_unit_options_def same)
qed

lemma adopted_persist: "adopt_options (persist_unit_options k opts) s = adopt_options opts s"
  by (simp add: adopt_options_def persist_unit_options_def)

lemma adopt_coord: "adopt_options opts (s\<lparr>st_coord := k\<rparr>) = (adopt_options opts s)\<lparr>st_coord := k\<rparr>"
  by (simp add: adopt_options_def)

lemma persisted_settled: "handle_unit_options_change (unit_options_of (persist_unit_options k opts)) k = k"
  by (simp add: handle_unit_options_change_def unit_options_of_def persist_unit_options_def)

section \<open>Theorems\<close>

text \<open>
  C6. A setting changed on the machine is adopted, persisted and not echoed back: each of the weight
  unit, the temperature unit and the water source takes the reported value, unless the report has
  none for it or a change of the user's own to that setting is still to be delivered; writing the
  options is requested exactly when a value changed, and they then hold the values adopted; and the
  options listener that this wakes neither reloads the entry, which would drop the link, nor changes
  anything but asking for the listeners' refresh, so nothing is queued for delivery to the machine.
\<close>

theorem machine_change_not_echoed:
  assumes "k = async_sync_units_from_machine a (st_coord s)" "adopt_options opts s = s"
  shows "k_weight_unit k = machine_wins CONF_WEIGHT_UNIT (get RAW_TO_WEIGHT_UNIT (get_int ''weight_unit'' a))
      (k_weight_unit (st_coord s)) (st_coord s) \<and>
    k_temp_unit k = machine_wins CONF_TEMP_UNIT (get RAW_TO_TEMP_UNIT (get_int ''temp_unit'' a))
      (k_temp_unit (st_coord s)) (st_coord s) \<and>
    k_water_source k = machine_wins CONF_WATER_SOURCE (reported_water a) (k_water_source (st_coord s)) (st_coord s) \<and>
    k_tasks k = k_tasks (st_coord s) @
      (if held_units k = held_units (st_coord s) then [] else [PersistOptions, UpdateListeners]) \<and>
    unit_options_of (persist_unit_options k opts) = \<lparr>opt_weight_unit = Some (k_weight_unit k),
      opt_temp_unit = Some (k_temp_unit k), opt_water_source = Some (k_water_source k)\<rparr> \<and>
    (persist_unit_options k opts \<noteq> opts \<longrightarrow>
      async_update_listener opts (persist_unit_options k opts) (s\<lparr>st_coord := k\<rparr>) = (False, update_listeners (s\<lparr>st_coord := k\<rparr>))) \<and>
    k_pending_unit_pushes k = k_pending_unit_pushes (st_coord s)"
proof -
  let ?o = "persist_unit_options k opts" and ?s = "s\<lparr>st_coord := k\<rparr>"
  have "async_update_listener opts ?o ?s = (False, update_listeners ?s)" if "?o \<noteq> opts"
  proof -
    have keys: "changed_keys opts ?o \<noteq> []" "set (changed_keys opts ?o) \<subseteq> set UNIT_OPTION_KEYS"
      using persisted_keys [of opts k] that by simp_all
    have "set UNIT_OPTION_KEYS \<inter> set RECIPE_ONLY_OPTION_KEYS = {}" "set UNIT_OPTION_KEYS \<subseteq> set NO_RELOAD_OPTION_KEYS"
      by (auto simp: UNIT_OPTION_KEYS_def RECIPE_ONLY_OPTION_KEYS_def NO_RELOAD_OPTION_KEYS_def CONF_WATER_SOURCE_def
          CONF_WEIGHT_UNIT_def CONF_TEMP_UNIT_def CONF_RECIPES_def CONF_RECIPES_SEEDED_def CONF_ACCOUNT_RECIPES_SEEDED_def
          CONF_EASY_SLOTS_def)
    then have "set (changed_keys opts ?o) \<inter> set RECIPE_ONLY_OPTION_KEYS = {}"
      "set (changed_keys opts ?o) \<subseteq> set NO_RELOAD_OPTION_KEYS" "set (changed_keys opts ?o) \<inter> set UNIT_OPTION_KEYS \<noteq> {}"
      using keys by (auto simp: Int_absorb2)
    moreover have "adopt_options ?o ?s = ?s"
      using assms(2) unfolding adopted_persist by (simp add: adopt_coord)
    ultimately show ?thesis using keys(1) by (simp add: async_update_listener_def persisted_settled Let_def)
  qed
  then show ?thesis
    using synced_units [of a "st_coord s"] synced_tasks [of a "st_coord s"]
    by (simp add: assms(1) unit_options_of_def persist_unit_options_def)
qed

theorem machine_change_not_echoed_witness:
  "\<exists>k. k = async_sync_units_from_machine [(''weight_unit'', AInt 2), (''water_source'', AInt 1)] (st_coord fresh_store) \<and>
     async_update_listener no_options (persist_unit_options k no_options) (fresh_store\<lparr>st_coord := k\<rparr>)
       = (False, update_listeners (fresh_store\<lparr>st_coord := k\<rparr>)) \<and>
     k_weight_unit k = ''oz'' \<and> k_water_source k = WATER_SOURCE_DIRECT \<and> k_pending_unit_pushes k = [] \<and>
     PersistOptions \<in> set (k_tasks k)"
proof -
  let ?a = "[(''weight_unit'', AInt 2), (''water_source'', AInt 1)]"
  let ?k = "async_sync_units_from_machine ?a (st_coord fresh_store)"
  have settled: "adopt_options no_options fresh_store = fresh_store"
    by (simp add: fresh_store_def new_store_def adopt_options_def)
  have differs: "persist_unit_options ?k no_options \<noteq> no_options"
    by (simp add: persist_unit_options_def no_options_def)
  have start: "k_pending_unit_pushes (st_coord fresh_store) = []" "k_weight_unit (st_coord fresh_store) = ''g''"
    by (simp_all add: fresh_store_def new_store_def adopt_options_def init_coord_def no_options_def DEFAULT_WEIGHT_UNIT_def)
  have reports: "get RAW_TO_WEIGHT_UNIT (get_int ''weight_unit'' ?a) = Some ''oz''" "reported_water ?a = Some WATER_SOURCE_DIRECT"
    by (simp_all add: RAW_TO_WEIGHT_UNIT_def WEIGHT_UNIT_OPTIONS_def get_def get_int_def reported_water_def
        WATER_SOURCE_TANK_def WATER_SOURCE_DIRECT_def)
  note all = machine_change_not_echoed [OF refl [of ?k] settled]
  have units: "k_weight_unit ?k = ''oz''" "k_water_source ?k = WATER_SOURCE_DIRECT"
    using all start reports by (simp_all add: machine_wins_def)
  moreover have "held_units ?k \<noteq> held_units (st_coord fresh_store)" using units start by (simp add: held_units_def)
  ultimately show ?thesis using all differs start by auto
qed

end
