(* ===== verification/Account.thy ===== *)
theory Account
  imports StoreFacts
begin

text \<open>
  Recipes on the user's account (\<^verbatim>\<open>_cloud_client.py\<close>, \<^verbatim>\<open>coordinator/recipes.py\<close>): what an export sends and
  what fetching the account's recipes gives back, over a server that remembers what it was sent.
\<close>

section \<open>The server's promise\<close>

text \<open>
  A request that stores a recipe, with the table id the answer or the request names.  The first page of
  the account's list shows what was stored last under a table id, as long as only lists are asked for.
\<close>

definition stores_as :: "request \<Rightarrow> answer \<Rightarrow> int \<Rightarrow> cloud_recipe \<Rightarrow> bool" where
  "stores_as q a t cr \<longleftrightarrow> as_success a \<and> (rq_body q = AddBody cr \<and> as_table_id a = Some t \<or> rq_body q = UpdateBody t cr)"

definition only_lists :: "request list \<Rightarrow> bool" where
  "only_lists qs \<longleftrightarrow> list_all (\<lambda>q. rq_body q = ListBody 1 100) qs"

definition remembers_uploads :: "server \<Rightarrow> bool" where
  "remembers_uploads srv \<longleftrightarrow> (\<forall>before q a t cr qs page.
     srv (before @ [q]) = Some a \<longrightarrow> stores_as q a t cr \<longrightarrow> only_lists qs \<longrightarrow> qs \<noteq> [] \<longrightarrow>
     srv (before @ q # qs) = Some page \<longrightarrow> as_success page \<longrightarrow>
     (\<exists>e. find (\<lambda>e. ce_table_id e = Some t) (as_list page) = Some e \<and> ce_recipe e = cr))"

text \<open>The last thing stored by a log of requests.\<close>

definition stored_last :: "server \<Rightarrow> int \<Rightarrow> cloud_recipe \<Rightarrow> request list \<Rightarrow> bool" where
  "stored_last srv t cr reqs \<longleftrightarrow> (\<exists>before q a qs. reqs = before @ q # qs \<and> srv (before @ [q]) = Some a \<and>
     stores_as q a t cr \<and> only_lists qs)"

section \<open>What the calls add to the log\<close>

lemma post_Inr:
  "post srv ep au b c = (Inr x, c') \<longleftrightarrow>
     c' = c\<lparr>cc_log := cc_log c @ [\<lparr>rq_endpoint = ep, rq_auth = au, rq_body = b\<rparr>]\<rparr> \<and>
     x = (case srv (cc_log c') of Some a \<Rightarrow> if as_success a then Some a else None | None \<Rightarrow> None)"
  by (auto simp: post_def Let_def)

lemma list_log:
  assumes "list_recipes srv c = (Inr x, c')"
  shows "cc_member c' = cc_member c \<and> cc_token c' = cc_token c \<and>
    (\<exists>qs. cc_log c' = cc_log c @ qs \<and> only_lists qs \<and>
      (\<forall>es. x = Some es \<longrightarrow> qs \<noteq> [] \<and> (\<exists>a. srv (cc_log c') = Some a \<and> as_success a \<and> es = as_list a)))"
proof (cases "logged_in c")
  case True
  let ?q = "\<lparr>rq_endpoint = ''tuMyTeaRecipeCreated.tuhtml'', rq_auth = Some (the (cc_member c), the (cc_token c)),
    rq_body = ListBody 1 100\<rparr>"
  have c': "c' = c\<lparr>cc_log := cc_log c @ [?q]\<rparr>"
    and x: "x = (case srv (cc_log c @ [?q]) of Some a \<Rightarrow> if as_success a then Some (as_list a) else None | None \<Rightarrow> None)"
    using assms True
    by (auto simp: list_recipes_def post_encrypted_def bind_co_Inr post_Inr return_co_def split: option.splits if_splits)
  show ?thesis
    using x by (intro conjI exI [of _ "[?q]"]) (auto simp: c' only_lists_def split: option.splits if_splits)
next
  case False
  then have "c' = c" "x = None" using assms by (simp_all add: list_recipes_def post_encrypted_def)
  then show ?thesis by (intro conjI exI [of _ "[]"]) (simp_all add: only_lists_def)
qed

lemma get_recipe_log:
  assumes "get_recipe srv t c = (Inr x, c')"
  shows "cc_member c' = cc_member c \<and> cc_token c' = cc_token c \<and> (\<exists>qs. cc_log c' = cc_log c @ qs \<and> only_lists qs)"
proof -
  obtain y where "list_recipes srv c = (Inr y, c')" using assms by (auto simp: get_recipe_def bind_co_Inr return_co_def)
  from list_log [OF this] show ?thesis by blast
qed

lemma create_log:
  assumes "create_recipe srv r c = (Inr (Some (t, l)), c')"
  shows "logged_in c' \<and> stored_last srv t (local_recipe_to_cloud r) (cc_log c')"
proof -
  have li: "logged_in c" using assms by (auto simp: create_recipe_def post_encrypted_def split: if_splits)
  let ?q = "\<lparr>rq_endpoint = ''tuRecipeAdd.tuhtml'', rq_auth = Some (the (cc_member c), the (cc_token c)),
    rq_body = AddBody (local_recipe_to_cloud r)\<rparr>"
  let ?c = "c\<lparr>cc_log := cc_log c @ [?q]\<rparr>"
  obtain a y where a: "srv (cc_log c @ [?q]) = Some a" "as_success a" "as_table_id a = Some t"
    and y: "get_recipe srv t ?c = (Inr y, c')"
    using assms li by (auto simp: create_recipe_def post_encrypted_def bind_co_Inr post_Inr return_co_def
        split: option.splits if_splits)
  obtain qs where "cc_log c' = cc_log c @ ?q # qs" "only_lists qs" "cc_member c' = cc_member c" "cc_token c' = cc_token c"
    using get_recipe_log [OF y] by auto
  then show ?thesis using a li unfolding stored_last_def stores_as_def logged_in_def by fastforce
qed

lemma push_log:
  assumes "push_to_account srv raw r c = (Inr (Some (t, l)), c')"
  shows "logged_in c' \<and> stored_last srv t (local_recipe_to_cloud r) (cc_log c')"
proof -
  consider (create) c1 where "create_recipe srv r c1 = (Inr (Some (t, l)), c')"
    | (update) c1 where "update_recipe srv t (local_recipe_to_cloud r) c1 = (Inr True, c')"
  proof (cases "rd_cloud_table_id raw = None \<or> rd_cloud_table_id raw = Some 0")
    case True
    then show ?thesis using assms create by (auto simp: push_to_account_def)
  next
    case False
    then obtain k where k: "rd_cloud_table_id raw = Some k" "k \<noteq> 0" by auto
    then obtain x c1 where g: "get_recipe srv k c = (Inr x, c1)"
      and rest: "(case x of None \<Rightarrow> create_recipe srv r
        | Some e \<Rightarrow> bind_co (update_recipe srv k (local_recipe_to_cloud r)) (\<lambda>ok.
            return_co (if ok then Some (k, if share_link raw \<noteq> [] then share_link raw
              else (case ce_share_link e of None \<Rightarrow> [] | Some l \<Rightarrow> l)) else None))) c1 = (Inr (Some (t, l)), c')"
      using assms by (auto simp: push_to_account_def bind_co_Inr)
    show ?thesis
    proof (cases x)
      case None
      then show ?thesis using rest create by simp
    next
      case (Some e)
      then obtain ok c2 where u: "update_recipe srv k (local_recipe_to_cloud r) c1 = (Inr ok, c2)"
        and r: "return_co (if ok then Some (k, if share_link raw \<noteq> [] then share_link raw
              else (case ce_share_link e of None \<Rightarrow> [] | Some l \<Rightarrow> l)) else None) c2 = (Inr (Some (t, l)), c')"
        using rest by (auto simp: bind_co_Inr)
      then have "ok" "k = t" "c2 = c'" by (auto simp: return_co_def split: if_splits)
      then show ?thesis using u update by simp
    qed
  qed
  then show ?thesis
  proof cases
    case (create c1)
    then show ?thesis by (rule create_log)
  next
    case (update c1)
    let ?q = "\<lparr>rq_endpoint = ''tuRecipeUpdate.tuhtml'', rq_auth = Some (the (cc_member c1), the (cc_token c1)),
      rq_body = UpdateBody t (local_recipe_to_cloud r)\<rparr>"
    have li: "logged_in c1" using update by (auto simp: update_recipe_def post_encrypted_def split: if_splits)
    then obtain a where "srv (cc_log c1 @ [?q]) = Some a" "as_success a" "c' = c1\<lparr>cc_log := cc_log c1 @ [?q]\<rparr>"
      using update by (auto simp: update_recipe_def post_encrypted_def bind_co_Inr post_Inr return_co_def
          split: option.splits if_splits)
    moreover have "only_lists []" by (simp add: only_lists_def)
    ultimately show ?thesis using li unfolding stored_last_def stores_as_def logged_in_def by fastforce
  qed
qed

text \<open>An export that reports a table id stored the validated recipe under it.\<close>

lemma export_log:
  assumes "async_export_recipe srv i s = (Inr (Exported t link stored w), s')"
    and "find_recipe (st_recipes s) i = Some (nm, raw)" "RECIPE_SCHEMA (raw_of raw) = Inr v"
  shows "cloud_login_configured s' \<and> logged_in (st_cloud s') \<and> stored_last srv t (local_recipe_to_cloud v) (cc_log (st_cloud s'))"
proof -
  have conf: "cloud_login_configured s" using assms(1,2) by (auto simp: async_export_recipe_def Let_def split: if_splits)
  then obtain b where "export_to_account srv nm raw v b s = (Inr (Exported t link stored w), s')"
    using assms by (auto simp: async_export_recipe_def Let_def bind_co_Inr return_co_def lift_res_def split: if_splits)
  then obtain ok s1 where l: "async_ensure_cloud_login srv s = (Inr ok, s1)" and rest: "(if \<not> ok then return_co (ExportRefused ''login_failed'')
      else bind_co (on_cloud (push_to_account srv raw v)) (\<lambda>pushed s.
        case pushed of
          None \<Rightarrow> (Inr (ExportRefused ''export_failed''), s)
        | Some (t, link) \<Rightarrow>
            (case record_export nm raw t link s of (stored, s1) \<Rightarrow> (Inr (Exported t link stored b), s1)))) s1
      = ((Inr (Exported t link stored w) :: export_reply res), s')"
    unfolding export_to_account_def bind_co_Inr by blast
  then have ok: ok by (auto simp: return_co_def split: if_splits)
  obtain tl s2 where p: "on_cloud (push_to_account srv raw v) s1 = (Inr (Some tl), s2)"
    and rec: "(case tl of (t, link) \<Rightarrow> (case record_export nm raw t link s2 of (stored, s1) \<Rightarrow> (Inr (Exported t link stored b), s1)))
      = ((Inr (Exported t link stored w) :: export_reply res), s')"
    using rest ok by (auto simp: bind_co_Inr split: option.splits)
  obtain l2 where tl: "tl = (t, l2)" "record_export nm raw t l2 s2 = (stored, s')"
    using rec by (auto split: prod.splits)
  have kept: "st_cloud s' = st_cloud s2" "st_account s' = st_account s2"
    using tl(2) by (auto simp: record_export_def Let_def write_options_recipes_def update_listeners_def rebuild_recipes_def)
  obtain c where c: "push_to_account srv raw v (st_cloud s1) = (Inr (Some (t, l2)), c)" "s2 = s1\<lparr>st_cloud := c\<rparr>"
    using p tl(1) by (auto simp: on_cloud_def Let_def split: prod.splits)
  have "cloud_only s s1" by (rule keepsD [OF keeps_ensure_login l])
  then have "st_account s2 = st_account s" using c(2) by (auto simp: cloud_only_def)
  then show ?thesis using push_log [OF c(1)] c(2) kept conf by (simp add: cloud_login_configured_def)
qed

section \<open>The way back\<close>

lemma identity_free:
  assumes "RECIPE_SCHEMA raw = Inr v"
  shows "\<exists>v'. RECIPE_SCHEMA (raw\<lparr>raw_fields := (raw_fields raw)\<lparr>rd_cloud_table_id := t, rd_share_url := l\<rparr>\<rparr>) = Inr v' \<and>
    strip_protected v' = strip_protected v"
  using assms by (auto simp: RECIPE_SCHEMA_def bind_res_Inr_iff strip_protected_def)

text \<open>
  C24. A recipe exported to the account is read back as it was, less its local identity: the account's
  list, fetched after an export that reported a table id, has a recipe of this table id that the schema
  accepts and whose every brew field and pour is the exported recipe's.  This needs a server that
  remembers what it was sent, and a recipe the cloud's format can hold: a cup type spelled as one of its
  four, a name, no empty pour and no zero flow rate, a non-zero ratio only with a dose, and a bypass
  that is in use or zero.
\<close>

theorem exported_recipe_reads_back:
  assumes "remembers_uploads srv"
    and "async_export_recipe srv i s = (Inr (Exported t link stored w), s')"
    and "fetch_account_recipes srv s' = (Inr (Some raws), s'')"
    and "find_recipe (st_recipes s) i = Some (nm, r)" "RECIPE_SCHEMA raw = Inr r"
    and "\<forall>p\<in>set (rd_pours r). 0 < volume_ml p \<and> ftruthy (pour_flow_rate p)"
    and "rd_cup_type r \<in> {''x_pod'', ''omni_dripper'', ''other'', ''tea''}" "rd_name r \<noteq> []"
    and "\<forall>q. ratio r = Some q \<longrightarrow> flt (Fin 0) (dose_g r) \<and> ftruthy q"
    and "flt (Fin 0) (rd_bypass_volume r) \<or> flt (Fin 0) (rd_bypass_temperature r) \<or>
      (rd_bypass_volume r = Fin 0 \<and> rd_bypass_temperature r = Fin 0)"
  shows "\<exists>back v. back \<in> set raws \<and> rd_cloud_table_id (raw_fields back) = Some t \<and>
    RECIPE_SCHEMA back = Inr v \<and> strip_protected v = strip_protected r"
proof -
  note logged = export_log [OF assms(2,4) RECIPE_SCHEMA_idem [OF assms(5)]]
  then have "async_ensure_cloud_login srv s' = (Inr True, s')" by (simp add: async_ensure_cloud_login_def)
  then obtain es c where es: "list_recipes srv (st_cloud s') = (Inr (Some es), c)" "raws = map account_recipe es"
    using assms(3) by (auto simp: fetch_account_recipes_def bind_co_def on_cloud_def return_co_def Let_def split: prod.splits sum.splits option.splits)
  obtain qs a where qs: "cc_log c = cc_log (st_cloud s') @ qs" "only_lists qs" "qs \<noteq> []"
    "srv (cc_log c) = Some a" "as_success a" "es = as_list a"
    using list_log [OF es(1)] by auto
  obtain before q b ls where st: "cc_log (st_cloud s') = before @ q # ls" "srv (before @ [q]) = Some b"
    "stores_as q b t (local_recipe_to_cloud r)" "only_lists ls"
    using logged by (auto simp: stored_last_def)
  have "only_lists (ls @ qs)" "ls @ qs \<noteq> []" "srv (before @ q # (ls @ qs)) = Some a"
    using qs st by (simp_all add: only_lists_def)
  then obtain e where e: "find (\<lambda>e. ce_table_id e = Some t) es = Some e" "ce_recipe e = local_recipe_to_cloud r"
    using assms(1) st(2,3) qs(5,6) unfolding remembers_uploads_def by blast
  then have "e \<in> set es" "ce_table_id e = Some t" by (auto simp: find_Some_iff)
  moreover have "RECIPE_SCHEMA (cloud_recipe_to_local (ce_recipe e)) = Inr (strip_protected r)"
    unfolding e(2) by (rule upload_roundtrip [OF assms(5-10)])
  from identity_free [OF this] obtain v where "RECIPE_SCHEMA (account_recipe e) = Inr v"
    "strip_protected v = strip_protected (strip_protected r)"
    unfolding account_recipe_def Let_def by blast
  moreover have "strip_protected (strip_protected r) = strip_protected r" by (simp add: strip_protected_def)
  moreover have "rd_cloud_table_id (raw_fields (account_recipe e)) = ce_table_id e" by (simp add: account_recipe_def Let_def)
  ultimately show ?thesis using es(2) by (intro exI [of _ "account_recipe e"] exI [of _ v]) auto
qed

text \<open>A server that remembers: the n-th request's recipe gets the table id n, the list shows the latest first.\<close>

fun account_list :: "int \<Rightarrow> request list \<Rightarrow> cloud_entry list" where
  "account_list n [] = []"
| "account_list n (q # qs) = account_list (n + 1) qs @
     (case rq_body q of
        AddBody cr \<Rightarrow> [\<lparr>ce_table_id = Some n, ce_share_link = None, ce_default = False, ce_recipe = cr\<rparr>]
      | UpdateBody t cr \<Rightarrow> [\<lparr>ce_table_id = Some t, ce_share_link = None, ce_default = False, ce_recipe = cr\<rparr>]
      | _ \<Rightarrow> [])"

definition account_server :: server where
  "account_server qs = map_option (\<lambda>a. a\<lparr>as_member := Some 7, as_token := ''t'', as_list := account_list 1 qs,
     as_table_id := Some (int (length qs))\<rparr>) (demo_server qs)"

lemma account_list_append:
  "account_list n (qs @ ps) = account_list (n + int (length qs)) ps @ account_list n qs"
  by (induction qs arbitrary: n) (simp_all add: add.assoc)

lemma account_list_lists: "only_lists qs \<Longrightarrow> account_list n qs = []"
  by (induction qs arbitrary: n) (simp_all add: only_lists_def)

lemma account_server_remembers: "remembers_uploads account_server"
  unfolding remembers_uploads_def
proof (intro allI impI)
  fix before q a t cr qs page
  assume a: "account_server (before @ [q]) = Some a" "stores_as q a t cr" "only_lists qs"
    and p: "account_server (before @ q # qs) = Some page"
  have "as_table_id a = Some (1 + int (length before))" using a(1) by (auto simp: account_server_def demo_server_def)
  then have "account_list (1 + int (length before)) [q] =
      [\<lparr>ce_table_id = Some t, ce_share_link = None, ce_default = False, ce_recipe = cr\<rparr>]"
    using a(2) by (auto simp: stores_as_def)
  moreover have "as_list page = account_list 1 (before @ [q] @ qs)" using p by (auto simp: account_server_def demo_server_def)
  ultimately show "\<exists>e. find (\<lambda>e. ce_table_id e = Some t) (as_list page) = Some e \<and> ce_recipe e = cr"
    unfolding account_list_append using account_list_lists [OF a(3)] by simp
qed

definition account_tea :: recipe_dict where
  "account_tea = (demo_dict [sip 2])\<lparr>rd_cup_type := ''tea'', rd_uid := Some ''y''\<rparr>"

definition account_store :: store where
  "account_store = demo_store\<lparr>st_coord := demo_coord\<lparr>k_recipes := [(''V60'', account_tea)]\<rparr>,
     st_account := Some (''e'', ''p'')\<rparr>"

lemma account_answers:
  "account_server qs = Some \<lparr>as_success = True, as_member = Some 7, as_token = ''t'', as_list = account_list 1 qs,
     as_table_id = Some (int (length qs)), as_recipe = as_recipe (the (demo_server [])),
     as_share_link = as_share_link (the (demo_server [])), as_facets = as_facets (the (demo_server [])),
     as_center = as_center (the (demo_server [])), as_product = as_product (the (demo_server [])),
     as_sku = as_sku (the (demo_server [])), as_image = as_image (the (demo_server [])),
     as_version = as_version (the (demo_server [])), as_pod = as_pod (the (demo_server []))\<rparr>"
  by (simp add: account_server_def demo_server_def)

theorem exported_recipe_reads_back_witness:
  "\<exists>stored w s' raws s''. async_export_recipe account_server ''y'' account_store = (Inr (Exported 2 [] stored w), s') \<and>
     fetch_account_recipes account_server s' = (Inr (Some raws), s'') \<and>
     (\<exists>back v. back \<in> set raws \<and> rd_cloud_table_id (raw_fields back) = Some 2 \<and> RECIPE_SCHEMA back = Inr v \<and>
        strip_protected v = (demo_dict [sip 2])\<lparr>rd_cup_type := ''tea''\<rparr>)"
proof -
  have schema: "RECIPE_SCHEMA (raw_of account_tea) = Inr account_tea"
    by (simp add: account_tea_def RECIPE_SCHEMA_def raw_of_def POUR_SCHEMA_def raw_pour_of_def demo_dict_def sip_def
        VIBRATION_NAMES_def)
  have found: "find_recipe (st_recipes account_store) ''y'' = Some (''V60'', account_tea)"
    by (rule find_recipe_uid) (auto simp: account_store_def account_tea_def py_strip_def py_space_def)
  obtain stored w s' where e: "async_export_recipe account_server ''y'' account_store = (Inr (Exported 2 [] stored w), s')"
    using schema found
    by (auto simp: async_export_recipe_def export_to_account_def cloud_login_configured_def account_store_def demo_store_def
        bind_co_def lift_res_def return_co_def validate_pour_volume_consistency_def account_tea_def demo_dict_def
        async_ensure_cloud_login_def on_cloud_def login_def logged_in_def new_cloud_def post_def account_answers
        push_to_account_def create_recipe_def post_encrypted_def get_recipe_def list_recipes_def record_export_def Let_def
        split: prod.splits option.splits)
  have "cloud_login_configured s' \<and> logged_in (st_cloud s')" using export_log [OF e found schema] by blast
  then have "async_ensure_cloud_login account_server s' = (Inr True, s')" "logged_in (st_cloud s')"
    by (simp_all add: async_ensure_cloud_login_def)
  then obtain raws s'' where f: "fetch_account_recipes account_server s' = (Inr (Some raws), s'')"
    by (auto simp: fetch_account_recipes_def bind_co_def on_cloud_def list_recipes_def post_encrypted_def post_def
        account_answers return_co_def Let_def)
  have brew: "\<forall>p\<in>set (rd_pours account_tea). 0 < volume_ml p \<and> ftruthy (pour_flow_rate p)"
    "strip_protected account_tea = (demo_dict [sip 2])\<lparr>rd_cup_type := ''tea''\<rparr>"
    by (simp_all add: account_tea_def demo_dict_def sip_def ftruthy_def strip_protected_def)
  from exported_recipe_reads_back [OF account_server_remembers e f found schema brew(1)]
  show ?thesis using e f by (auto simp: brew(2)) (simp add: account_tea_def demo_dict_def)
qed

end
