(* ===== verification/Lifecycle.thy ===== *)
theory Lifecycle
  imports Setup
begin

text \<open>
  The life of an entry's recipe store: what loading the recipe files and setting the entry up give it
  (\<^verbatim>\<open>__init__.py\<close>), the states it can reach from there through its operations, whether they answer or
  raise, and restarts, and what holds in all of them.
\<close>

section \<open>Operations that raise\<close>

lemma bind_co_Inl:
  "bind_co m f s = (Inl e, s') \<longleftrightarrow> m s = (Inl e, s') \<or> (\<exists>x s1. m s = (Inr x, s1) \<and> f x s1 = (Inl e, s'))"
  by (auto simp: bind_co_def split: prod.split sum.split)

lemma import_raises: "async_import_cloud_recipe srv u i s = (Inl e, s') \<Longrightarrow> cloud_only s s'"
  unfolding async_import_cloud_recipe_def bind_co_Inl
  by (elim disjE exE conjE, rule keepsD [OF keeps_on_cloud])
    (simp_all add: Let_def split: option.splits sum.splits if_splits)

lemma resolve_raises: "resolve_or_import srv u i s = (Inl e, s') \<Longrightarrow> cloud_only s s'"
  by (auto simp: resolve_or_import_def bind_co_Inl dest: import_raises split: option.splits if_splits reply.splits)

lemma edit_raises: "async_edit_local_recipe srv u i ch s = (Inl e, s') \<Longrightarrow> cloud_only s s'"
  unfolding async_edit_local_recipe_def bind_co_Inl
  by (elim disjE exE conjE, rule resolve_raises) (simp_all split: sum.splits prod.splits)

lemma seed_raises: "async_seed_recipes srv us s = (Inl e, s') \<Longrightarrow> cloud_only s s'"
proof -
  assume run: "async_seed_recipes srv us s = (Inl e, s')"
  let ?fetch = "if cloud_login_configured s then fetch_account_recipes srv
      else on_cloud (fetch_official_recipes srv OFFICIAL_RECIPE_SYNC_LIMIT [''Omni''])"
  have "?fetch s = (Inl e, s')"
    using run by (auto simp: async_seed_recipes_def Let_def bind_co_Inl split: if_splits option.splits)
  moreover have "keeps cloud_only ?fetch" by (simp add: keeps_account_recipes keeps_on_cloud)
  ultimately show ?thesis by (rule keepsD [rotated])
qed

lemma export_raises: "async_export_recipe srv i s = (Inl e, s') \<Longrightarrow> cloud_only s s'"
proof -
  assume run: "async_export_recipe srv i s = (Inl e, s')"
  have acc: "cloud_only s s'" if "export_to_account srv nm raw v b s = (Inl e, s')" for nm raw v b
    using that co.R_trans [OF keepsD [OF keeps_ensure_login] keepsD [OF keeps_on_cloud]] keepsD [OF keeps_ensure_login]
    unfolding export_to_account_def
    by (auto simp: bind_co_Inl return_co_def split: option.splits prod.splits if_splits)
  show ?thesis
    using run acc co.R_refl
    by (auto simp: async_export_recipe_def Let_def bind_co_Inl lift_res_def return_co_def split: option.splits sum.splits if_splits)
qed

lemma slot_raises:
  assumes "well_layered s" "coord_write_easy_slot srv u B (changes_meanwhile ch) letter i s = (Inl e, s')"
  shows "well_layered s' \<and> (abs_store s' = abs_store s \<or> (\<exists>n. imported_as u n (abs_store s) (abs_store s')))"
proof -
  consider (source) "slot_source srv u i s = (Inl e, s')"
    | (sent) src s1 where "slot_source srv u i s = (Inr src, s1)"
      "(case src of Inl e \<Rightarrow> return_co (Refused e) | Inr x \<Rightarrow> write_slot_recipe B (changes_meanwhile ch) letter x) s1 = (Inl e, s')"
    using assms(2) unfolding coord_write_easy_slot_def bind_co_Inl by blast
  then show ?thesis
  proof cases
    case source
    then have "cloud_only s s'" by (auto simp: slot_source_def dest: resolve_raises split: if_splits option.splits)
    then show ?thesis using cloud_only_frame assms(1) by blast
  next
    case (sent src s1)
    then obtain x where x: "src = Inr x" "write_slot_recipe B (changes_meanwhile ch) letter x s1 = (Inl e, s')"
      by (cases src) (simp_all add: return_co_def)
    have "rf s1 s'" using keepsD [OF rf_write_slot x(2)] .
    moreover have "well_layered s1 \<and> (abs_store s1 = abs_store s \<or> (\<exists>n. imported_as u n (abs_store s) (abs_store s1)))"
    proof (cases "i \<noteq> None \<and> i \<noteq> Some []")
      case True
      then have "resolve_or_import srv u (the i) s = (Inr (Inr x), s1)" using sent(1) x(1) by (simp add: slot_source_def)
      from resolve_effect [OF assms(1) this] show ?thesis by (cases x) (auto simp: resolves_def)
    qed (use sent(1) assms(1) in \<open>auto simp: slot_source_def split: option.splits if_splits\<close>)
    ultimately show ?thesis by (auto simp: rf_def)
  qed
qed

lemma run_op_raises:
  assumes "well_layered s" "run_op srv B (changes_meanwhile ch) op s = (Inl e, s')"
  shows "well_layered s' \<and> (abs_store s' = abs_store s \<or> (\<exists>u n. u \<in> set (op_uids op) \<and> imported_as u n (abs_store s) (abs_store s')))"
proof -
  have same: ?thesis if "cloud_only s s'" using cloud_only_frame [OF that] assms(1) by blast
  show ?thesis
  proof (cases op)
    case (SlotOp u letter i)
    then show ?thesis using slot_raises [OF assms(1)] assms(2) by (auto simp: bind_co_Inl return_co_def)
  qed (use assms(2) same in \<open>auto simp: bind_co_Inl return_co_def split: prod.splits
      dest: import_raises edit_raises seed_raises export_raises\<close>)
qed

text \<open>Whatever an operation answers or raises, it keeps the invariant.\<close>

lemma run_op_consistent:
  assumes "well_layered s" "consistent (abs_store s)" "distinct (op_uids op)"
    and "\<And>u. u \<in> set (op_uids op) \<Longrightarrow> fresh_uid (st_view s) u"
    and "run_op srv B (changes_meanwhile ch) op s = (r, s')"
  shows "well_layered s' \<and> consistent (abs_store s')"
proof (cases r)
  case (Inr rep)
  from run_op_effect [OF assms(1,3)] assms(5) Inr
  have "well_layered s'" "effect op rep (abs_store s) (abs_store s')" by blast+
  then show ?thesis using consistent_effect [OF _ assms(2)] assms(4) by (simp del: effect.simps)
next
  case (Inl e)
  from run_op_raises [OF assms(1)] assms(5) Inl
  have "well_layered s'" "abs_store s' = abs_store s \<or> (\<exists>u n. u \<in> set (op_uids op) \<and> imported_as u n (abs_store s) (abs_store s'))"
    by blast+
  then show ?thesis using assms(2,4) consistent_imported [OF assms(2)] by fastforce
qed

section \<open>The recipe files\<close>

text \<open>A recipe list built up by name: what it has under a name comes from the start or from an update.\<close>

lemma updated_from:
  "map_of (fold (\<lambda>x. AList.update (key x) (val x)) xs al) n = Some y \<Longrightarrow>
     map_of al n = Some y \<or> (\<exists>x\<in>set xs. key x = n \<and> y = val x)"
proof (induction xs arbitrary: al)
  case (Cons x xs)
  then have "map_of (AList.update (key x) (val x) al) n = Some y \<or> (\<exists>x\<in>set xs. key x = n \<and> y = val x)" by simp
  then show ?case by (auto simp: AList.update_conv' split: if_splits)
qed simp

lemma updated_distinct:
  "distinct (map fst al) \<Longrightarrow> distinct (map fst (fold (\<lambda>x. AList.update (key x) (val x)) xs al))"
  by (induction xs arbitrary: al) (simp_all add: AList.distinct_update)

lemma yaml_distinct: "distinct (map fst (yaml_recipes sha1_hex rs))"
  by (simp add: yaml_recipes_def updated_distinct)

lemma yaml_layer:
  "map_of (yaml_recipes sha1_hex rs) n = Some r \<Longrightarrow>
     rd_name r = n \<and> rd_uid r = Some (yaml_recipe_uid sha1_hex n) \<and> n \<in> rd_name ` set rs"
  unfolding yaml_recipes_def by (drule updated_from) auto

lemma defaults_named:
  "validated_defaults sh ds acc = Inr rs \<Longrightarrow> (\<And>n r. (n, r) \<in> set acc \<Longrightarrow> rd_name r = n) \<Longrightarrow>
     (n, r) \<in> set rs \<Longrightarrow> rd_name r = n"
proof (induction ds arbitrary: acc)
  case (Cons d ds)
  have upd: "(m, q) \<in> set (AList.update k v al) \<Longrightarrow> (m, q) = (k, v) \<or> (m, q) \<in> set al" for m q k v and al :: "(string \<times> recipe_dict) list"
    by (induction al) (auto split: if_splits)
  show ?case
  proof (cases "validate_doc sh d")
    case (Inl e)
    then show ?thesis using Cons by (auto split: if_splits)
  next
    case (Inr v)
    then show ?thesis using Cons.IH [of "AList.update (rd_name v) v acc"] Cons.prems upd by fastforce
  qed
qed simp

text \<open>What the files give: named recipes, and YAML recipes with a uid of their own each.\<close>

definition files_ok :: "hass_data \<Rightarrow> bool" where
  "files_ok h \<longleftrightarrow> distinct (map fst (hd_yaml_recipes h)) \<and>
     consistent (map_of (hd_yaml_recipes h), None) \<and> (\<forall>(n, r)\<in>set (hd_default_recipes h). rd_name r = n)"

lemma setup_files:
  assumes "async_setup sh sha1_hex configured = Inr h"
    and "inj_on (yaml_recipe_uid sha1_hex) (rd_name ` set (or_default configured []))"
  shows "files_ok h"
proof -
  obtain ds where ds: "validated_defaults sh DEFAULT_RECIPES [] = Inr ds"
    and h: "Inr \<lparr>hd_default_recipes = ds, hd_yaml_recipes = (case configured of None \<Rightarrow> [] | Some rs \<Rightarrow> yaml_recipes sha1_hex rs)\<rparr>
      = (Inr h :: hass_data res)"
    using assms(1) unfolding async_setup_def bind_res_Inr_iff by blast
  have hd: "hd_default_recipes h = ds" and yaml: "hd_yaml_recipes h = yaml_recipes sha1_hex (or_default configured [])"
    using arg_cong [OF h, where f = "\<lambda>x. hd_default_recipes (projr x)"] arg_cong [OF h, where f = "\<lambda>x. hd_yaml_recipes (projr x)"]
    by (simp, cases configured, simp_all add: yaml_recipes_def)
  note layer = yaml_layer [of sha1_hex "or_default configured []"]
  have "views.keyed rd_uid (map_of (hd_yaml_recipes h))"
    unfolding views.keyed_def yaml
  proof (intro allI impI)
    fix n m r q k
    assume v: "map_of (yaml_recipes sha1_hex (or_default configured [])) n = Some r"
      "map_of (yaml_recipes sha1_hex (or_default configured [])) m = Some q" "rd_uid r = Some k" "rd_uid q = Some k"
    from layer [OF v(1)] layer [OF v(2)] v(3,4) have "yaml_recipe_uid sha1_hex n = yaml_recipe_uid sha1_hex m"
      "n \<in> rd_name ` set (or_default configured [])" "m \<in> rd_name ` set (or_default configured [])" by (metis option.inject)+
    then show "n = m" by (rule inj_onD [OF assms(2)])
  qed
  moreover have "\<forall>n r. map_of (hd_yaml_recipes h) n = Some r \<longrightarrow> rd_name r = n" unfolding yaml using layer by blast
  moreover have "\<forall>(n, r)\<in>set (hd_default_recipes h). rd_name r = n" using defaults_named [OF ds] by (auto simp: hd)
  moreover have "distinct (map fst (hd_yaml_recipes h))" unfolding yaml by (rule yaml_distinct)
  ultimately show ?thesis unfolding files_ok_def consistent_def by simp
qed

section \<open>Setting an entry up\<close>

definition bundled_layer :: "((string \<times> recipe_dict) \<times> string) list \<Rightarrow> layer" where
  "bundled_layer ds = fold (\<lambda>((nm, r), uid).
     put_recipe nm (r\<lparr>rd_uid := Some uid, rd_source := Some ''seed_bundled''\<rparr>)) ds []"

lemma bundled_updates:
  "bundled_layer ds = fold (\<lambda>x. AList.update (fst (fst x))
     (Some ((snd (fst x))\<lparr>rd_uid := Some (snd x), rd_source := Some ''seed_bundled''\<rparr>))) ds []"
  by (simp add: bundled_layer_def put_recipe_def [abs_def] case_prod_unfold)

lemma bundled_distinct: "distinct (map fst (bundled_layer ds))"
  unfolding bundled_updates by (rule updated_distinct) simp

lemma bundled_from:
  "map_of (bundled_layer ds) n = Some x \<Longrightarrow>
     \<exists>r u. ((n, r), u) \<in> set ds \<and> x = Some (r\<lparr>rd_uid := Some u, rd_source := Some ''seed_bundled''\<rparr>)"
  unfolding bundled_updates by (fastforce dest!: updated_from)

lemma setup_store:
  fixes uids h d opts w
  defines "s \<equiv> async_setup_entry uids h d opts w"
  shows "st_entry s" "st_yaml s = hd_yaml_recipes h" "st_selected s = None" "st_seeded s = op_recipes_seeded opts"
    and "st_options s = (if or_default (op_recipes opts) [] \<noteq> [] \<or> op_recipes_seeded opts then or_default (op_recipes opts) []
      else bundled_layer (zip (hd_default_recipes h) uids))"
    and "st_recipes s = merge_layers (st_yaml s) (st_options s)"
proof -
  let ?n = "new_store h d opts w"
  let ?b = "seed_bundled_recipes (zip (hd_default_recipes h) uids) ?n"
  have n: "st_entry ?n" "st_yaml ?n = hd_yaml_recipes h" "st_selected ?n = None" "st_seeded ?n = op_recipes_seeded opts"
    "st_options ?n = or_default (op_recipes opts) []" "\<not> k_client (st_coord ?n)"
    by (simp_all add: new_store_def adopt_options_def init_coord_def)
  have b: "st_entry ?b" "st_yaml ?b = st_yaml ?n" "st_selected ?b = None" "st_seeded ?b = st_seeded ?n"
    "st_options ?b = (if st_options ?n \<noteq> [] \<or> st_seeded ?n then st_options ?n
       else bundled_layer (zip (hd_default_recipes h) uids))" "\<not> k_client (st_coord ?b)"
    using n by (auto simp: seed_bundled_recipes_def bundled_layer_def)
  obtain snap k where k: "async_update_data False (st_coord (rebuild_recipes ?b)) = (snap, k)" by fastforce
  have "k_recipes k = merge_layers (st_yaml ?b) (st_options ?b)" "k_selected_recipe k = None"
    using k b(1,3,6) by (auto simp: async_update_data_def rebuild_recipes_def maybe_schedule_reconnect_def request_def
        options_recipes_def split: if_splits)
  then show "st_entry s" "st_yaml s = hd_yaml_recipes h" "st_selected s = None" "st_seeded s = op_recipes_seeded opts"
    "st_options s = (if or_default (op_recipes opts) [] \<noteq> [] \<or> op_recipes_seeded opts then or_default (op_recipes opts) []
      else bundled_layer (zip (hd_default_recipes h) uids))"
    "st_recipes s = merge_layers (st_yaml s) (st_options s)"
    using n b by (simp_all add: s_def async_setup_entry_def k Let_def) (simp_all add: rebuild_recipes_def)
qed

text \<open>An entry without recipes of its own: the YAML recipes, and the bundled ones over them unless they were seeded before.\<close>

definition minted :: "hass_data \<Rightarrow> string list \<Rightarrow> bool" where
  "minted h uids \<longleftrightarrow> distinct uids \<and> list_all (fresh_uid (map_of (hd_yaml_recipes h))) uids"

lemma setup_fresh:
  assumes "files_ok h" "minted h uids" "or_default (op_recipes opts) [] = []"
  shows "well_layered (async_setup_entry uids h d opts w) \<and> consistent (abs_store (async_setup_entry uids h d opts w))"
proof -
  let ?s = "async_setup_entry uids h d opts w"
  let ?ds = "zip (hd_default_recipes h) uids"
  note st = setup_store [of uids h d opts w]
  have opts: "st_options ?s = (if op_recipes_seeded opts then [] else bundled_layer ?ds)" using st(5) assms(3) by simp
  have wl: "well_layered ?s"
    using st(1,2,6) assms(1) by (simp add: well_layered_def options_recipes_def opts bundled_distinct files_ok_def)
  let ?yaml = "map_of (hd_yaml_recipes h)"
  have seen: "?yaml n = Some r \<or> (\<exists>q u. ((n, q), u) \<in> set ?ds \<and> r = q\<lparr>rd_uid := Some u, rd_source := Some ''seed_bundled''\<rparr>)"
    if "st_view ?s n = Some r" for n r
    using that st(1,2) bundled_from [of ?ds n]
    by (auto simp: st_view_def visible_def options_recipes_def opts split: option.splits if_splits)
  have yaml: "consistent (?yaml, None)" using assms(1) by (simp add: files_ok_def)
  have named: "rd_name q = n" if "((n, q), u) \<in> set ?ds" for n q u
    using set_zip_leftD [OF that] assms(1) by (auto simp: files_ok_def)
  have apart: "n = m" if "((n, q), u) \<in> set ?ds" "((m, p), u) \<in> set ?ds" for n q m p u
  proof -
    have "distinct (map snd ?ds)" using assms(2) by (simp add: minted_def map_snd_zip_take distinct_take)
    then show ?thesis using that unfolding distinct_map inj_on_def by fastforce
  qed
  have fresh: "rd_uid r \<noteq> Some u" if "?yaml n = Some r" "((m, q), u) \<in> set ?ds" for n r m q u
    using set_zip_rightD [OF that(2)] that(1) assms(2) by (auto simp: minted_def list_all_iff fresh_uid_def)
  have "n = m" if v: "st_view ?s n = Some r" "st_view ?s m = Some q" "rd_uid r = Some u" "rd_uid q = Some u" for n m r q u
    using seen [OF v(1)] seen [OF v(2)]
  proof (elim disjE exE conjE)
    assume "?yaml n = Some r" "?yaml m = Some q"
    then show "n = m" using yaml v(3,4) by (auto simp: consistent_def views.keyed_def)
  qed (use v(3,4) fresh apart in auto)
  then have "views.keyed rd_uid (st_view ?s)" unfolding views.keyed_def by blast
  moreover have "rd_name r = n" if "st_view ?s n = Some r" for n r
    using seen [OF that] yaml named by (auto simp: consistent_def)
  ultimately show ?thesis using wl st(3) by (simp add: consistent_def)
qed

section \<open>Reachable states\<close>

text \<open>
  The states of an entry's store, with the files as Home Assistant read them: a new entry, any operation
  with the uids minted for it and whatever outcome, selecting a recipe that is there or none, whatever
  else changes the machine's state, the slots or the account but not the recipes, and a restart on what
  was stored.
\<close>

inductive reachable :: "hass_data \<Rightarrow> store \<Rightarrow> bool" for h where
  added: "or_default (op_recipes opts) [] = [] \<Longrightarrow> minted h uids \<Longrightarrow> reachable h (async_setup_entry uids h d opts w)"
| operated: "reachable h s \<Longrightarrow> distinct (op_uids op) \<Longrightarrow> list_all (fresh_uid (st_view s)) (op_uids op) \<Longrightarrow>
     run_op srv B (changes_meanwhile ch) op s = (r, s') \<Longrightarrow> reachable h s'"
| selected: "reachable h s \<Longrightarrow> nm = None \<or> st_view s (the nm) \<noteq> None \<Longrightarrow>
     reachable h (s\<lparr>st_coord := select_recipe nm (st_coord s)\<rparr>)"
| changed: "reachable h s \<Longrightarrow> recipes_kept (st_coord s) k \<Longrightarrow>
     reachable h (s\<lparr>st_coord := k, st_slots := slots, st_account := account, st_cloud := c\<rparr>)"
| restarted: "reachable h s \<Longrightarrow> or_default (op_recipes opts) [] = st_options s \<Longrightarrow> op_recipes_seeded opts = st_seeded s \<Longrightarrow>
     minted h uids \<Longrightarrow> reachable h (async_setup_entry uids h d opts w)"

lemma select_parts: "k_recipes (select_recipe nm k) = k_recipes k" "k_selected_recipe (select_recipe nm k) = nm"
  by (simp_all add: select_recipe_def Let_def request_def split: option.split)

lemma reachable_ok:
  assumes "reachable h s" "files_ok h"
  shows "well_layered s \<and> consistent (abs_store s) \<and> st_yaml s = hd_yaml_recipes h"
  using assms
proof (induction rule: reachable.induct)
  case (added opts uids d w)
  then show ?case using setup_fresh setup_store(2) by blast
next
  case (operated s op srv B ch r s')
  then have "well_layered s' \<and> consistent (abs_store s')"
    using run_op_consistent [of s op srv B ch r s'] by (simp add: list_all_iff)
  moreover have "st_yaml s' = st_yaml s" by (rule run_op_yaml [OF operated(4)])
  ultimately show ?case using operated by simp
next
  case (selected s nm)
  have "st_view (s\<lparr>st_coord := select_recipe nm (st_coord s)\<rparr>) = st_view s"
    by (simp add: st_view_def options_recipes_def)
  then show ?case
    using selected by (auto simp: consistent_def well_layered_def options_recipes_def select_parts)
next
  case (changed s k c account slots)
  have "st_view (s\<lparr>st_coord := k, st_slots := slots, st_account := account, st_cloud := c\<rparr>) = st_view s"
    by (simp add: st_view_def options_recipes_def)
  then show ?case
    using changed by (auto simp: consistent_def well_layered_def options_recipes_def recipes_kept_def)
next
  case (restarted s opts uids d w)
  note st = setup_store [of uids h d opts w]
  show ?case
  proof (cases "st_options s = [] \<and> \<not> st_seeded s")
    case True
    then show ?thesis using setup_fresh [OF restarted(6,4)] restarted(2) st(2) by simp
  next
    case False
    then have same: "st_options (async_setup_entry uids h d opts w) = st_options s" using st(5) restarted(2,3) by auto
    have old: "well_layered s" "consistent (abs_store s)" "st_yaml s = hd_yaml_recipes h" using restarted by simp_all
    have "st_view (async_setup_entry uids h d opts w) = st_view s"
      using old(1,3) same st(1,2) by (simp add: st_view_def options_recipes_def well_layered_def)
    then show ?thesis
      using old same st(1,2,3,6) by (auto simp: well_layered_def options_recipes_def consistent_def)
  qed
qed

text \<open>
  C15. In every state an entry's recipe store can reach, every visible recipe carries the name it is
  filed under, no two visible recipes share a uid, the selected recipe exists, and the visible list is
  the two layers merged.  It starts with the recipes of \<^verbatim>\<open>configuration.yaml\<close> and the bundled ones as
  setting the entry up files them, and goes through any operations, whether they answer or raise,
  selections and restarts on the same files.  This supposes that the uids derived from the YAML names differ (they are
  eight hexadecimal digits of a hash) and that a minted uid is new.  The options dialog is left out: a
  recipe it brings back by dropping a tombstone can share its uid with a renamed one.
\<close>

theorem store_stays_consistent:
  assumes "async_setup sh sha1_hex configured = Inr h"
    and "inj_on (yaml_recipe_uid sha1_hex) (rd_name ` set (or_default configured []))"
    and "reachable h s"
  shows "(\<forall>n r. st_view s n = Some r \<longrightarrow> rd_name r = n) \<and>
    (\<forall>n m r q u. st_view s n = Some r \<longrightarrow> st_view s m = Some q \<longrightarrow> rd_uid r = Some u \<longrightarrow> rd_uid q = Some u \<longrightarrow> n = m) \<and>
    (\<forall>n. st_selected s = Some n \<longrightarrow> st_view s n \<noteq> None) \<and> map_of (st_recipes s) = st_view s"
proof -
  have "well_layered s" "consistent (abs_store s)" using reachable_ok [OF assms(3) setup_files [OF assms(1,2)]] by simp_all
  then show ?thesis using recipes_view [of s] by (simp add: consistent_def views.keyed_def)
qed

definition plain_options :: options where
  "plain_options = \<lparr>op_recipes = None, op_recipes_seeded = False, op_account_recipes_seeded = False, op_easy_slots = None,
     op_mode = None, op_store_region = None, op_water_source = None, op_weight_unit = None, op_temp_unit = None,
     op_telemetry_interval = None, op_session_timeout = None\<rparr>"

definition plain_entry :: entry_data where
  "plain_entry = \<lparr>ed_mac_address = ''AA'', ed_telemetry_interval = None, ed_session_timeout = None, ed_email = None,
     ed_password = None\<rparr>"

lemma bundled_tea_valid:
  assumes "0 < v" "0 < v'" "0 < t" "0 < t'" "0 \<le> p" "0 \<le> p'"
  shows "is_ok (validate_doc sh (bundled_tea nm [bundled_pour v t p, bundled_pour v' t' p']))"
  using assms
  by (simp add: bundled_tea_def bundled_pour_def validate_doc_def validate_pour_def coerce_int_def coerce_float_def
      positive_int_def vibration_of_json_def ratio_of_json_def some_text_def failure_def settled_def RECIPE_KEYS_def
      POUR_KEYS_def is_ok_def)

lemma defaults_validated: "list_all (\<lambda>d. is_ok (validate_doc sh d)) ds \<Longrightarrow> \<exists>rs. validated_defaults sh ds acc = Inr rs"
  by (induction ds arbitrary: acc) (auto simp: is_ok_def split: sum.splits)

theorem store_stays_consistent_witness:
  "\<exists>h r s. async_setup (\<lambda>_. []) (\<lambda>_. ''0123456789'') (Some [demo_dict [sip 2]]) = Inr h \<and>
     run_op (\<lambda>_. None) offline_stack (changes_meanwhile (\<lambda>_. [])) (DeleteOp ''V60'')
       (async_setup_entry [''b1'', ''b2'', ''b3'', ''b4''] h plain_entry plain_options (demo_world [])) = (r, s) \<and>
     map_of (st_recipes s) = st_view s \<and> (st_view s ''V60'' = None \<or> rd_name (the (st_view s ''V60'')) = ''V60'')"
proof -
  have "list_all (\<lambda>d. is_ok (validate_doc (\<lambda>_. []) d)) DEFAULT_RECIPES"
    by (simp add: DEFAULT_RECIPES_def bundled_tea_valid)
  then obtain h where h: "async_setup (\<lambda>_. []) (\<lambda>_. ''0123456789'') (Some [demo_dict [sip 2]]) = Inr h"
    using defaults_validated [of "\<lambda>_. []" DEFAULT_RECIPES "[]"] by (auto simp: async_setup_def)
  then have yaml: "hd_yaml_recipes h = yaml_recipes (\<lambda>_. ''0123456789'') [demo_dict [sip 2]]"
    by (auto simp: async_setup_def bind_res_Inr_iff)
  have "fresh_uid (map_of (hd_yaml_recipes h)) (''b'' @ [c])" for c
    unfolding fresh_uid_def yaml by (auto dest!: yaml_layer simp: yaml_recipe_uid_def)
  from this [of "CHR ''1''"] this [of "CHR ''2''"] this [of "CHR ''3''"] this [of "CHR ''4''"]
  have "minted h [''b1'', ''b2'', ''b3'', ''b4'']" by (simp add: minted_def)
  then have start: "reachable h (async_setup_entry [''b1'', ''b2'', ''b3'', ''b4''] h plain_entry plain_options (demo_world []))"
    by (intro reachable.added) (simp_all add: plain_options_def)
  obtain r s where run: "run_op (\<lambda>_. None) offline_stack (changes_meanwhile (\<lambda>_. [])) (DeleteOp ''V60'')
       (async_setup_entry [''b1'', ''b2'', ''b3'', ''b4''] h plain_entry plain_options (demo_world [])) = (r, s)" by fastforce
  have "reachable h s" by (rule reachable.operated [OF start _ _ run]) simp_all
  from store_stays_consistent [OF h _ this] have "map_of (st_recipes s) = st_view s"
    "\<forall>n r. st_view s n = Some r \<longrightarrow> rd_name r = n" by simp_all
  then show ?thesis using h run by (metis option.collapse)
qed

end
