(* ===== verification/Spec2Isabelle.thy ===== *)
theory Spec2Isabelle
  imports Services Panel Registry Account Lifecycle
begin

text \<open>
  Verification library of the xBloom integration for Home Assistant
  (\<^verbatim>\<open>src/custom_components/xbloom\<close>).

  \<^bold>\<open>The program.\<close>  The integration talks to an xBloom coffee machine over Bluetooth Low Energy.
  Bytes from the machine reach \<^verbatim>\<open>XBloomClient._on_notification\<close> (\<^verbatim>\<open>ble/client.py\<close>), which scans
  them for frames (\<^verbatim>\<open>ble/framing.py\<close>), decodes heartbeats and responses into a \<^verbatim>\<open>DeviceStatus\<close>
  (\<^verbatim>\<open>ble/models.py\<close>), settles the futures of commands awaiting an acknowledgement and fires
  events.  Commands go the other way, through \<^verbatim>\<open>_send_command\<close>, \<^verbatim>\<open>send_and_wait\<close> and the chunked
  writes of \<^verbatim>\<open>ble/connection.py\<close>; \<^verbatim>\<open>ble/components.py\<close> and \<^verbatim>\<open>brewing.py\<close> are the command chains of
  the grinder, the brewer and a brew.  Above them the coordinator (\<^verbatim>\<open>coordinator/\<close>) polls the
  status, follows the events, keeps track of what is armed and running, supervises the link and
  offers the operations that entities, services, the panel and the language-model tools call.
  Recipes are dictionaries validated by \<^verbatim>\<open>schema.py\<close>, built into \<^verbatim>\<open>XBloomRecipe\<close> by
  \<^verbatim>\<open>coordinator/recipes.py\<close>, and kept in two layers: the YAML configuration and a stored layer with
  tombstones.  \<^verbatim>\<open>_cloud_client.py\<close> is the account, the share links and the community hub.

  \<^bold>\<open>The theories\<close>, in the order of the code.
  \<^item> \<open>Prelude\<close>: results (\<^verbatim>\<open>raise\<close> as the left injection), bytes and \<^verbatim>\<open>struct\<close> packing, the action
    type \<open>('s, 'a) act\<close> that threads a state through code that may raise, its rules, and the
    contracts \<open>keeps\<close> (a relation every step respects, locale \<open>act_law\<close>) and \<open>smooth\<close> (an action
    that succeeds from every state of a set).
  \<^item> \<open>PyFloat\<close>: Python floats (finite doubles as rationals with correct rounding, infinities, NaN),
    \<^verbatim>\<open>round\<close>, \<^verbatim>\<open>int\<close>, comparison and arithmetic.
  \<^item> \<open>Models\<close>, \<open>Framing\<close>: \<^verbatim>\<open>ble/models.py\<close> and \<^verbatim>\<open>ble/framing.py\<close>: statuses, the validating
    constructors, the recipe payload, CRC, packet builders, the frame scanner.
  \<^item> \<open>Heartbeat\<close>, \<open>Client\<close>: the receive half of \<^verbatim>\<open>ble/client.py\<close>: heartbeat decoding, the weight
    filter, the response handlers, the acknowledgement table and the events.  An event is kept with
    the status at the time it fired, because the coordinator reads it then.
  \<^item> \<open>Session\<close>: the send half and \<^verbatim>\<open>ble/connection.py\<close>, \<^verbatim>\<open>ble/components.py\<close>, over the state
    \<open>world\<close>: client, link, clock, writes, a ghost log of commands sent, and a script of \<open>tick\<close>s that
    says what happens at each suspension point (notifications, a dropped link, a fault, time).
  \<^item> \<open>Brewing\<close>: \<^verbatim>\<open>brewing.py\<close>.  \<open>Schema\<close>: \<^verbatim>\<open>schema.py\<close> and the builder of \<^verbatim>\<open>coordinator/recipes.py\<close>.
  \<^item> \<open>Coord\<close>: \<^verbatim>\<open>coordinator/constants.py\<close>, \<^verbatim>\<open>coordinator/__init__.py\<close> (the record \<open>coord\<close>) and
    \<^verbatim>\<open>coordinator/state.py\<close>: polls, event dispatch, knob mirrors, reconciliation with the screen.
  \<^item> \<open>Supervisor\<close>: \<^verbatim>\<open>coordinator/connection.py\<close>: connect, disconnect, backoff, idle standby, pushing
    unit settings, mode switch, waking a sleeping machine, machine information.
  \<^item> \<open>Operations\<close>: \<^verbatim>\<open>coordinator/operations.py\<close> and \<^verbatim>\<open>coordinator/advanced_settings.py\<close>.
  \<^item> \<open>RecipeRun\<close>: selecting, preparing, executing, arming and confirming a recipe
    (\<^verbatim>\<open>coordinator/recipes.py\<close>, first part).

  \<^item> \<open>Identity\<close>: identifiers of recipes (uids, share links and ids, cloud ids, names) and the typed
    user input of a recipe.  \<open>Documents\<close>: the same schema on YAML and JSON documents.
  \<^item> \<open>CloudRecipe\<close>: the conversions between local and cloud recipes.  \<open>CloudClient\<close>: the session and
    every call of \<^verbatim>\<open>_cloud_client.py\<close>, over a \<open>server\<close> that answers a request given all requests so
    far.  \<open>Hub\<close>: hub rows and pages, the firmware answer, the web store's products.
  \<^item> \<open>Store\<close>: the second part of \<^verbatim>\<open>coordinator/recipes.py\<close> on the record \<open>store\<close>: the layers,
    creating, importing, editing, deleting, exporting, seeding, pods, Easy Mode slots.  \<open>StoreSpec\<close>: its
    abstract store, the map from names to recipes with the selected name, the effect of each labelled
    operation with its answer, and the invariant.  \<open>StoreFacts\<close>: lookup after creation and what a slot write
    sends and records.  \<open>Account\<close>: what an export sends and a fetch gives back, over a server that remembers.
  \<^item> \<open>Setup\<close>: \<^verbatim>\<open>__init__.py\<close> from the migrations to unloading, \<^verbatim>\<open>default_recipes.py\<close>,
    \<^verbatim>\<open>entity.py\<close>.  \<open>Flow\<close>: \<^verbatim>\<open>config_flow.py\<close>.  \<open>Services\<close>: the services of \<^verbatim>\<open>__init__.py\<close> on the
    list of loaded machines.  \<open>Lifecycle\<close>: the states a store reaches from the setup of its entry through
    operations that answer or raise, selections and restarts.
  \<^item> \<open>Entities\<close>: the eight platforms.  \<open>Wire\<close>: which commands an action sends, the contracts of
    the link and of an entity.  \<open>EntityFacts\<close>: what pressing, sliding and listening can do.
  \<^item> \<open>Tools\<close>, \<open>ToolFacts\<close>: the sixteen tools of \<^verbatim>\<open>llm/\<close> and their registration per entry.
  \<^item> \<open>Pictures\<close>: \<^verbatim>\<open>machine_color.py\<close>, \<^verbatim>\<open>stores.py\<close>, \<^verbatim>\<open>machine_photo.py\<close> and the refresh of
    \<^verbatim>\<open>coordinator/connection.py\<close>.  \<open>Pods\<close>: \<^verbatim>\<open>pods.py\<close>.  \<open>Panel\<close>: the commands of \<^verbatim>\<open>panel.py\<close>.
  \<^item> \<open>Registry\<close>: the devices and the entities of each platform with their ids, and the options written
    back when a setting changes on the machine (\<^verbatim>\<open>coordinator/connection.py\<close>).

  \<^bold>\<open>Interfaces.\<close>  A locale states what a layer promises and is interpreted on the model's own
  definitions where that layer is defined.
  \<^item> \<open>codec\<close>: an encoder and its decoder (\<open>u8\<close>, \<open>u16\<close>, \<open>u32\<close>, \<open>f32\<close>).
  \<^item> \<open>invariant_step\<close>: an entry point driven by inputs keeps an invariant (\<open>heartbeat\<close>, \<open>receive\<close>,
    \<open>pics\<close> for the picture directory, \<open>pl\<close> for the pod library).
  \<^item> \<open>act_law\<close>: a relation that every step respects is respected by what is composed of them
    (\<open>co\<close>, \<open>rf\<close>, \<open>lg\<close>, \<open>us\<close>, and \<open>ot\<close> for the machines a service is not for).
  \<^item> \<open>receive_law\<close>: what every received notification respects (\<open>wf\<close>, \<open>ack\<close>, \<open>dc\<close>).  \<open>world_law\<close>
    and \<open>free_world_law\<close>: the same for the client's actions on the link (\<open>aw\<close>, \<open>dw\<close>, \<open>pw\<close>).
  \<^item> \<open>coord_law\<close>, extending \<open>link_law\<close>: for the client, the event dispatch and the supervisor under
    the coordinator's operations (\<open>ca\<close>: nothing left armed, \<open>nt\<close>: no tea armed, \<open>rk\<close>: recipes kept).
  \<^item> \<open>wire_law\<close> and \<open>entity_law\<close>: for the commands a user's action may send and for the entities and
    tools above the coordinator; \<open>entity_law\<close> gives \<open>link_law\<close> and, lifted to the store, \<open>act_law\<close> by
    \<^verbatim>\<open>sublocale\<close> (\<open>ns\<close>: no starting command, \<open>dk\<close>: declared events only).
  \<^item> \<open>layered_store\<close>: what storing and hiding do to a view (\<open>layers\<close> for the two layers, \<open>views\<close> for
    the abstract map).  \<open>store_frame\<close>: a part of the store that the recipe operations leave alone (\<open>fy\<close>: the
    YAML layer, \<open>fl\<close>: the slots and the entry).

  \<^bold>\<open>What is shown.\<close>
  \<^item> Receiving: the state stays well formed under any bytes; scanning recovers a stream of frames with
    anything around them that starts no frame, ends, and diverges on a zero length field; heartbeat pages and labels.
  \<^item> Sending: \<open>send_and_wait\<close> returns the echo of what it sent, leaks no waiter and completes when the
    echo arrives; a disconnect settles every wait.
  \<^item> Brewing: the scripts of coffee, tea and Easy Mode chains with payloads and spacing; a confirm
    returns only when the machine says so, at the client and through the coordinator's retry; the
    ratio byte never undershoots the water.
  \<^item> Coordinator: the water-shortage latch and, in every state, the manual run refine small
    abstract machines; published states are declared ones; what cancel, pause, stop and the settings push send and leave behind;
    backoff; gates before a brew; what idle
    standby and a requested disconnect hold.
  \<^item> Recipes and cloud: every operation of the store has its own effect on the abstract map, matching its
    answer; names and uids stay unique in every state reachable from setup; an exported recipe is read
    back from the account; credentials are sent only after the server issued them; a slot
    write sends the recipes it records.
  \<^item> Setup and flows: a migrated entry is complete; settings apply without a reload and none is lost; a
    recipe survives the edit form; where the options flow breaks the tombstones.
  \<^item> Entities, tools, services, panel: no first press and no unconfirmed tool call starts anything;
    every event is declared; a confirmed call can start another recipe than the one it reports; a
    service touches its target only; a refused brew skips one machine, wherever it stands, and an
    unbuildable recipe stops the rest; the pod library is its scan history; a cached cover is whole,
    alone and served; a pod's recipe is saved once when it has a link, and again when it has none; a
    setting changed on the machine is kept and not sent back to it.

  \<^bold>\<open>Bounds.\<close>  Loops of the code that count (3 wake retries, 10 looks at a stop, 30 acknowledgement
  polls, 5 machine-information delays, 4 product pages) are recursions on that count, so no fuel is
  needed; loops that wait for a deadline (\<open>verify_loop\<close>) recurse on the remaining time.
  \<open>iter_frames\<close> is a partial function, since the scanner may not end.

  \<^bold>\<open>Modelling decisions.\<close>  One action of the coordinator runs at a time; what Home Assistant is
  asked to do later (refreshes, tasks, listener dispatch) is queued in \<open>k_tasks\<close>, and polls are a
  separate step.  Events that fire during an action are dispatched after it, each with its own
  status.  A change of settings while a push is under way is the parameter \<open>meanwhile\<close>; whether
  another connect holds \<^verbatim>\<open>_connect_lock\<close> is a parameter of the poll; \<^verbatim>\<open>hass\<close> is present.  The refresh
  requested for each status update is not queued.  A text is its list of UTF-8 bytes; letters and
  blanks are those of ASCII.  Messages and log lines are left out, an error keeps its code.

  \<^bold>\<open>Parameters.\<close>  Home Assistant's Bluetooth stack (\<open>ble_stack\<close>: the outcome of establishing,
  subscribing, hanging up) and the GATT reads; the cloud server, the hub's pages, the web and the web
  store's pages; freshly minted uids and the SHA-1 digest; the YAML reader and the text of a float; the
  connection test of the configuration flow; clock readings outside the link.

  \<^bold>\<open>Not modelled.\<close>  HTTP and the RSA encryption of account requests
  (\<^verbatim>\<open>_cloud_client.py\<close>); the discovery wrapper (\<^verbatim>\<open>ble/scanner.py\<close>); UUID tables and names
  for logging (\<^verbatim>\<open>ble/constants.py\<close>); the GATT inventory log; forms,
  service descriptions, icons and translations shown by Home Assistant; the instruction texts of the
  tools; the panel's web component.  They are calls into frameworks outside the repository, transport
  or text, and keep no state the modelled parts read.
\<close>

end
